(* ===== verification/Prelude.thy ===== *)
theory Prelude
  imports Main "HOL-Library.Word" "HOL-Library.AList" "HOL-Library.Monad_Syntax"
begin

text \<open>
  Shared vocabulary of the development: the widths of the Go integers the gateway uses, the
  association lists that stand for the Go maps the code iterates over, and the few generic facts
  about them that the components share.

  A Go map that is only looked up is a HOL map \<open>'k \<rightharpoonup> 'v\<close>.  A Go map that the code also
  ranges over is an association list: Go leaves the iteration order open, and here it is the order
  of the list, so a statement for every list is a statement for every order.  A nil dereference, a
  failed type assertion, a send on a closed channel or a slice index out of range is the value
  \<open>None\<close> of an \<open>option\<close> result.
\<close>

type_synonym byte = "8 word"
type_synonym uint32 = "32 word"

text \<open>\<open>frame_simps\<close> collects the facts that say which part of a state an operation leaves alone,
  \<open>wf_intros\<close> those that say an operation keeps the well-formedness invariant.\<close>

named_theorems frame_simps
named_theorems wf_intros

subsection \<open>Association lists as Go maps\<close>

definition alist_keys :: "('k \<times> 'v) list \<Rightarrow> 'k list" where
  "alist_keys m = map fst m"

definition alist_ok :: "('k \<times> 'v) list \<Rightarrow> bool" where
  "alist_ok m \<longleftrightarrow> distinct (map fst m)"

lemma alist_ok_Nil [simp]: "alist_ok []"
  by (simp add: alist_ok_def)

lemma alist_ok_update [simp, intro]: "alist_ok m \<Longrightarrow> alist_ok (AList.update k v m)"
  by (simp add: alist_ok_def distinct_update)

lemma alist_ok_delete [simp, intro]: "alist_ok m \<Longrightarrow> alist_ok (AList.delete k m)"
  by (simp add: alist_ok_def distinct_delete)

lemma map_of_update [simp]: "map_of (AList.update k v m) = (map_of m)(k \<mapsto> v)"
  by (simp add: update_conv')

lemma map_of_delete [simp]: "map_of (AList.delete k m) = (map_of m)(k := None)"
  by (simp add: delete_conv')

lemma set_alist_keys: "set (alist_keys m) = dom (map_of m)"
  by (simp add: alist_keys_def dom_map_of_conv_image_fst)

lemma alist_ok_map_of: "alist_ok m \<Longrightarrow> (k, v) \<in> set m \<longleftrightarrow> map_of m k = Some v"
  by (simp add: alist_ok_def)

lemma alist_keys_delete: "set (alist_keys (AList.delete k m)) = set (alist_keys m) - {k}"
  by (auto simp: set_alist_keys split: if_splits)

lemma alist_keys_update: "set (alist_keys (AList.update k v m)) = insert k (set (alist_keys m))"
  by (auto simp: set_alist_keys)

subsection \<open>Words\<close>

lemma unat_Suc_word:
  assumes "x < (y :: 'a::len word)"
  shows "unat (x + 1) = Suc (unat x)"
proof -
  have "unat x + 1 \<le> unat y" using assms by (simp add: word_less_nat_alt)
  also have "unat y < 2 ^ LENGTH('a)" by (rule unsigned_less)
  finally show ?thesis
    by (simp add: unat_word_ariths)
qed

lemma word_less_unat: "(x :: 'a::len word) < y \<longleftrightarrow> unat x < unat y"
  by (simp add: word_less_nat_alt)

lemma word_le_unat: "(x :: 'a::len word) \<le> y \<longleftrightarrow> unat x \<le> unat y"
  by (simp add: word_le_nat_alt)

subsection \<open>Options\<close>

lemma bind_Some_iff: "(Option.bind m f = Some y) \<longleftrightarrow> (\<exists>x. m = Some x \<and> f x = Some y)"
  by (cases m) auto

end
