(* ===== verification/GoUtil.thy ===== *)
theory GoUtil
  imports Prelude
begin

text \<open>
  The identifier allocator and the small helpers of \<open>pkg/channeld/util.go\<close>.

  The allocator is one loop that the code writes three times (\<open>GetNextId\<close> over a Go map,
  \<open>GetNextIdSync\<close> over a \<open>sync.Map\<close>, \<open>GetNextIdTyped\<close> over anything with \<open>Load\<close>).
  The only thing the loop asks of the map is whether a key is present, so the model takes the
  lookup function.  The loop counter is an \<open>uint32\<close> and wraps: with an upper bound of
  \<open>MaxUint32\<close> the condition \<open>i <= max\<close> never fails, hence \<open>partial_function (option)\<close>,
  where \<open>None\<close> is "does not return".
\<close>

subsection \<open>The loop\<close>

partial_function (option) next_id_loop ::
  "(uint32 \<Rightarrow> bool) \<Rightarrow> uint32 \<Rightarrow> uint32 \<Rightarrow> uint32 \<Rightarrow> uint32 \<Rightarrow> (uint32 \<times> bool) option" where
  "next_id_loop exists i start mn mx =
     (if i \<le> mx then
        (if \<not> exists start then Some (start, True)
         else next_id_loop exists (i + 1) (if start < mx then start + 1 else mn) mn mx)
      else Some (0, False))"

definition GetNextIdTyped ::
  "(uint32 \<Rightarrow> 'v option) \<Rightarrow> uint32 \<Rightarrow> uint32 \<Rightarrow> uint32 \<Rightarrow> (uint32 \<times> bool) option" where
  "GetNextIdTyped load start mn mx = next_id_loop (\<lambda>k. load k \<noteq> None) mn start mn mx"

definition GetNextId ::
  "(uint32 \<rightharpoonup> 'v) \<Rightarrow> uint32 \<Rightarrow> uint32 \<Rightarrow> uint32 \<Rightarrow> (uint32 \<times> bool) option" where
  "GetNextId m start mn mx = next_id_loop (\<lambda>k. m k \<noteq> None) mn start mn mx"

definition GetNextIdSync ::
  "(uint32 \<Rightarrow> 'v option) \<Rightarrow> uint32 \<Rightarrow> uint32 \<Rightarrow> uint32 \<Rightarrow> (uint32 \<times> bool) option" where
  "GetNextIdSync load start mn mx = next_id_loop (\<lambda>k. load k \<noteq> None) mn start mn mx"


subsection \<open>What the loop computes\<close>

text \<open>
  One turn of the loop moves the candidate cyclically through \<open>[min, max]\<close>.  \<open>probe\<close> is the
  same search with the number of turns as a natural number; it is what the loop does whenever the
  counter does not wrap.
\<close>

definition next_candidate :: "uint32 \<Rightarrow> uint32 \<Rightarrow> uint32 \<Rightarrow> uint32" where
  "next_candidate mn mx s = (if s < mx then s + 1 else mn)"

fun probe :: "(uint32 \<Rightarrow> bool) \<Rightarrow> nat \<Rightarrow> uint32 \<Rightarrow> uint32 \<Rightarrow> uint32 \<Rightarrow> uint32 \<times> bool" where
  "probe ex 0 s mn mx = (0, False)"
| "probe ex (Suc n) s mn mx =
     (if \<not> ex s then (s, True) else probe ex n (next_candidate mn mx s) mn mx)"

lemma next_id_loop_probe:
  assumes "mx < - 1" and "n = Suc (unat mx) - unat i"
  shows "next_id_loop ex i s mn mx = Some (probe ex n s mn mx)"
  using assms(2)
proof (induction n arbitrary: i s)
  case 0
  then have "\<not> i \<le> mx" by (simp add: word_le_unat)
  then show ?case by (simp add: next_id_loop.simps)
next
  case (Suc n)
  then have le: "i \<le> mx" by (simp add: word_le_unat)
  then have "i < - 1" using assms(1) by simp
  then have "unat (i + 1) = Suc (unat i)" by (rule unat_Suc_word)
  with Suc.prems have "n = Suc (unat mx) - unat (i + 1)" by simp
  from Suc.IH [OF this] le show ?case
    by (subst next_id_loop.simps) (simp add: next_candidate_def)
qed

lemma next_candidate_range:
  "mn \<le> s \<Longrightarrow> s \<le> mx \<Longrightarrow> mn \<le> next_candidate mn mx s \<and> next_candidate mn mx s \<le> mx"
  using unat_Suc_word [of s mx] by (auto simp: next_candidate_def word_le_nat_alt word_less_nat_alt)

lemma unat_next_candidate:
  assumes "mn \<le> s" and "s \<le> mx"
  shows "unat (next_candidate mn mx s) =
    unat mn + (unat s - unat mn + 1) mod (unat mx - unat mn + 1)"
proof (cases "s < mx")
  case True
  then show ?thesis using assms
    by (simp add: next_candidate_def unat_Suc_word word_le_unat word_less_unat)
next
  case False
  with assms(2) have "s = mx" by simp
  then show ?thesis using assms by (simp add: next_candidate_def)
qed

lemma unat_candidate_pow:
  assumes "mn \<le> s" and "s \<le> mx"
  shows "mn \<le> (next_candidate mn mx ^^ k) s \<and> (next_candidate mn mx ^^ k) s \<le> mx \<and>
    unat ((next_candidate mn mx ^^ k) s) =
      unat mn + (unat s - unat mn + k) mod (unat mx - unat mn + 1)"
proof (induction k)
  case 0
  show ?case using assms by (simp add: word_le_unat mod_less)
next
  case (Suc k)
  let ?c = "(next_candidate mn mx ^^ k) s"
  from Suc have r: "mn \<le> ?c" "?c \<le> mx" by auto
  have "unat (next_candidate mn mx ?c) =
      unat mn + (unat ?c - unat mn + 1) mod (unat mx - unat mn + 1)"
    by (rule unat_next_candidate [OF r])
  also have "unat ?c - unat mn = (unat s - unat mn + k) mod (unat mx - unat mn + 1)"
    using Suc by simp
  finally show ?case
    using next_candidate_range [OF r] by (simp add: mod_Suc_eq)
qed

lemma candidates_cover:
  assumes "mn \<le> s" and "s \<le> mx" and "mn \<le> x" and "x \<le> mx"
  shows "\<exists>k < unat mx - unat mn + 1. (next_candidate mn mx ^^ k) s = x"
proof -
  define n where "n = unat mx - unat mn + 1"
  define a where "a = unat s - unat mn"
  define b where "b = unat x - unat mn"
  have ab: "a < n" "b < n" using assms by (auto simp: a_def b_def n_def word_le_unat)
  define k where "k = (b + n - a) mod n"
  have "(a + k) mod n = (a + (b + n - a)) mod n"
    by (simp add: k_def mod_add_right_eq)
  also have "\<dots> = b" using ab by simp
  finally have m: "(a + k) mod n = b" .
  have "unat ((next_candidate mn mx ^^ k) s) = unat mn + b"
    using unat_candidate_pow [OF assms(1,2), of k] m by (simp add: a_def n_def)
  also have "\<dots> = unat x" using assms(3) by (simp add: b_def word_le_unat)
  finally have "(next_candidate mn mx ^^ k) s = x" by (simp add: word_unat_eq_iff)
  moreover have "k < n" using ab by (simp add: k_def)
  ultimately show ?thesis by (auto simp: n_def)
qed

lemma probe_spec:
  "(probe ex n s mn mx = (0, False) \<and> (\<forall>k < n. ex ((next_candidate mn mx ^^ k) s))) \<or>
   (\<exists>k < n. probe ex n s mn mx = ((next_candidate mn mx ^^ k) s, True) \<and>
      \<not> ex ((next_candidate mn mx ^^ k) s) \<and> (\<forall>j < k. ex ((next_candidate mn mx ^^ j) s)))"
proof (induction n arbitrary: s)
  case 0
  show ?case by simp
next
  case (Suc n)
  show ?case
  proof (cases "ex s")
    case False
    then show ?thesis by (intro disjI2 exI [of _ 0]) simp
  next
    case True
    have shift: "(next_candidate mn mx ^^ k) (next_candidate mn mx s) =
        (next_candidate mn mx ^^ Suc k) s" for k
      by (simp add: funpow_swap1)
    from Suc.IH [of "next_candidate mn mx s"] show ?thesis
    proof (elim disjE exE conjE)
      assume p: "probe ex n (next_candidate mn mx s) mn mx = (0, False)"
        and a: "\<forall>k<n. ex ((next_candidate mn mx ^^ k) (next_candidate mn mx s))"
      have "\<forall>k < Suc n. ex ((next_candidate mn mx ^^ k) s)"
        using a True by (auto simp: less_Suc_eq_0_disj shift)
      with p True show ?thesis by simp
    next
      fix k assume k: "k < n"
        "probe ex n (next_candidate mn mx s) mn mx =
           ((next_candidate mn mx ^^ k) (next_candidate mn mx s), True)"
        "\<not> ex ((next_candidate mn mx ^^ k) (next_candidate mn mx s))"
        "\<forall>j<k. ex ((next_candidate mn mx ^^ j) (next_candidate mn mx s))"
      then show ?thesis using True
        by (intro disjI2 exI [of _ "Suc k"]) (auto simp: less_Suc_eq_0_disj shift)
    qed
  qed
qed


text \<open>
  For bounds below \<open>MaxUint32\<close> and a start inside them, the allocator returns: either the
  first identifier that is free in cyclic order from the start, inside the bounds, with \<open>true\<close>, or
  \<open>(0, false)\<close>, and the latter exactly when every identifier of the range is taken.
\<close>

theorem GetNextIdTyped_correct:
  assumes "mn \<le> start" and "start \<le> mx" and "mx < - 1"
  shows "(GetNextIdTyped load start mn mx = Some (0, False) \<and>
            (\<forall>k. mn \<le> k \<and> k \<le> mx \<longrightarrow> load k \<noteq> None)) \<or>
         (\<exists>k < unat mx - unat mn + 1. let chId = (next_candidate mn mx ^^ k) start in
            GetNextIdTyped load start mn mx = Some (chId, True) \<and> mn \<le> chId \<and> chId \<le> mx \<and>
            load chId = None \<and> (\<forall>j < k. load ((next_candidate mn mx ^^ j) start) \<noteq> None))"
proof -
  let ?ex = "\<lambda>k. load k \<noteq> None"
  let ?n = "unat mx - unat mn + 1"
  have "?n = Suc (unat mx) - unat mn" using assms(1,2) by (simp add: word_le_unat)
  then have run: "GetNextIdTyped load start mn mx = Some (probe ?ex ?n start mn mx)"
    unfolding GetNextIdTyped_def by (rule next_id_loop_probe [OF assms(3)])
  from probe_spec [of ?ex ?n start mn mx] show ?thesis
  proof (elim disjE exE conjE)
    assume p: "probe ?ex ?n start mn mx = (0, False)"
      and a: "\<forall>k<?n. load ((next_candidate mn mx ^^ k) start) \<noteq> None"
    have "load k \<noteq> None" if "mn \<le> k" "k \<le> mx" for k
      using candidates_cover [OF assms(1,2) that] a by auto
    with run p show ?thesis by auto
  next
    fix k assume "k < ?n"
      "probe ?ex ?n start mn mx = ((next_candidate mn mx ^^ k) start, True)"
      "\<not> load ((next_candidate mn mx ^^ k) start) \<noteq> None"
      "\<forall>j<k. load ((next_candidate mn mx ^^ j) start) \<noteq> None"
    with run unat_candidate_pow [OF assms(1,2), of k] show ?thesis
      by (auto simp: Let_def)
  qed
qed

theorem GetNextIdTyped_correct_witness:
  "let load = (\<lambda>k :: uint32. if k = 5 \<or> k = 6 then Some () else None) in
   GetNextIdTyped load 5 4 6 = Some (4, True) \<and>
   ((GetNextIdTyped load 5 4 6 = Some (0, False) \<and> (\<forall>k. 4 \<le> k \<and> k \<le> 6 \<longrightarrow> load k \<noteq> None)) \<or>
    (\<exists>k < unat (6 :: uint32) - unat (4 :: uint32) + 1. let chId = (next_candidate 4 6 ^^ k) 5 in
        GetNextIdTyped load 5 4 6 = Some (chId, True) \<and> 4 \<le> chId \<and> chId \<le> 6 \<and>
        load chId = None \<and> (\<forall>j < k. load ((next_candidate 4 6 ^^ j) 5) \<noteq> None)))"
  using GetNextIdTyped_correct [of 4 5 6 "\<lambda>k :: uint32. if k = 5 \<or> k = 6 then Some () else None"]
  by (simp add: Let_def GetNextIdTyped_def next_id_loop.simps)

text \<open>
  With \<open>max = MaxUint32\<close> the loop counter wraps from \<open>max\<close> to 0, so a search over a range
  whose identifiers are all taken never returns instead of reporting \<open>false\<close>.
\<close>

lemma next_id_loop_full_diverges:
  assumes "\<And>k. mn \<le> k \<Longrightarrow> ex k" and "mn \<le> start"
  shows "next_id_loop ex i start mn (- 1) = None"
proof (rule ccontr)
  assume "next_id_loop ex i start mn (- 1) \<noteq> None"
  then obtain r where r: "next_id_loop ex i start mn (- 1) = Some r" by auto
  have "\<not> ((\<forall>k. mn \<le> k \<longrightarrow> ex k) \<and> mn \<le> start \<and> (- 1 :: uint32) = - 1)"
  proof (rule next_id_loop.raw_induct [where
      P = "\<lambda>ex i s mn mx r. \<not> ((\<forall>k. mn \<le> k \<longrightarrow> ex k) \<and> mn \<le> s \<and> mx = - 1)", OF _ r])
    fix f and ex' :: "uint32 \<Rightarrow> bool" and i s mn' mx :: uint32 and r :: "uint32 \<times> bool"
    assume IH: "\<And>ex i s mn mx r. f ex i s mn mx = Some r \<Longrightarrow>
        \<not> ((\<forall>k. mn \<le> k \<longrightarrow> ex k) \<and> mn \<le> s \<and> mx = - 1)"
      and eq: "(if i \<le> mx then if \<not> ex' s then Some (s, True)
          else f ex' (i + 1) (if s < mx then s + 1 else mn') mn' mx else Some (0, False)) = Some r"
    show "\<not> ((\<forall>k. mn' \<le> k \<longrightarrow> ex' k) \<and> mn' \<le> s \<and> mx = - 1)"
    proof
      assume a: "(\<forall>k. mn' \<le> k \<longrightarrow> ex' k) \<and> mn' \<le> s \<and> mx = - 1"
      let ?s = "if s < mx then s + 1 else mn'"
      from a eq have "f ex' (i + 1) ?s mn' mx = Some r" by simp
      moreover have "mn' \<le> ?s"
        using a unat_Suc_word [of s mx] by (auto simp: word_le_nat_alt)
      ultimately show False using IH a by blast
    qed
  qed
  with assms show False by auto
qed

subsection \<open>The key lookup interface\<close>

text \<open>
  \<open>GetNextIdTyped\<close> reads its map through the interface \<open>MapRead\<close>.  What the callers rely on is
  that a stored key is found and that storing or deleting a key leaves the others alone; the
  allocation lemmas below need only that.
\<close>

locale map_read =
  fixes load :: "'m \<Rightarrow> uint32 \<Rightarrow> 'v option"
    and store :: "uint32 \<Rightarrow> 'v \<Rightarrow> 'm \<Rightarrow> 'm"
    and erase :: "uint32 \<Rightarrow> 'm \<Rightarrow> 'm"
  assumes load_store: "load (store k v m) k' = (if k' = k then Some v else load m k')"
    and load_erase: "load (erase k m) k' = (if k' = k then None else load m k')"
begin

lemma alloc_is_free:
  assumes "GetNextIdTyped (load m) s mn mx = Some (chId, True)" and "mx < - 1"
  shows "load m chId = None"
proof -
  let ?ex = "\<lambda>k. load m k \<noteq> None"
  obtain n where "GetNextIdTyped (load m) s mn mx = Some (probe ?ex n s mn mx)"
    unfolding GetNextIdTyped_def using next_id_loop_probe [OF assms(2) refl] by blast
  with assms(1) have "probe ?ex n s mn mx = (chId, True)" by simp
  with probe_spec [of ?ex n s mn mx] show ?thesis by auto
qed

lemma alloc_keeps:
  assumes "GetNextIdTyped (load m) s mn mx = Some (chId, True)" and "mx < - 1"
    and "load m k = Some v"
  shows "k \<noteq> chId \<and> load (store chId w m) k = Some v"
  using alloc_is_free [OF assms(1,2)] assms(3) by (auto simp: load_store)

lemma alloc_twice_distinct:
  assumes "GetNextIdTyped (load m) s mn mx = Some (chId, True)" and "mx < - 1"
    and "GetNextIdTyped (load (store chId v m)) s' mn' mx' = Some (chId', True)" and "mx' < - 1"
  shows "chId' \<noteq> chId"
  using alloc_is_free [OF assms(3,4)] by (auto simp: load_store)

lemma erase_store_free:
  assumes "load m chId = None"
  shows "load (erase chId (store chId v m)) = load m"
  using assms by (auto simp: load_store load_erase)

end

subsection \<open>Hashing, set difference and array conversion\<close>

text \<open>
  \<open>for c := range s\<close> ranges over the byte positions at which the runes of \<open>s\<close> start, not over the
  runes: \<open>rune_width\<close> is the number of bytes Go's UTF-8 decoder takes from the front of a string
  (one for an invalid sequence).
\<close>

definition cont_byte :: "byte \<Rightarrow> bool" where
  "cont_byte b \<longleftrightarrow> 0x80 \<le> b \<and> b \<le> 0xBF"

fun rune_width :: "byte list \<Rightarrow> nat" where
  "rune_width [] = 1"
| "rune_width (b0 # bs) =
    (if 0xC2 \<le> b0 \<and> b0 \<le> 0xDF then
       (case bs of b1 # _ \<Rightarrow> if cont_byte b1 then 2 else 1 | _ \<Rightarrow> 1)
     else if 0xE0 \<le> b0 \<and> b0 \<le> 0xEF then
       (case bs of b1 # b2 # _ \<Rightarrow>
          if (if b0 = 0xE0 then 0xA0 else 0x80) \<le> b1 \<and> b1 \<le> (if b0 = 0xED then 0x9F else 0xBF)
             \<and> cont_byte b2 then 3 else 1
        | _ \<Rightarrow> 1)
     else if 0xF0 \<le> b0 \<and> b0 \<le> 0xF4 then
       (case bs of b1 # b2 # b3 # _ \<Rightarrow>
          if (if b0 = 0xF0 then 0x90 else 0x80) \<le> b1 \<and> b1 \<le> (if b0 = 0xF4 then 0x8F else 0xBF)
             \<and> cont_byte b2 \<and> cont_byte b3 then 4 else 1
        | _ \<Rightarrow> 1)
     else 1)"

lemma rune_width_pos: "0 < rune_width s"
  by (cases s) (auto split: list.splits)

function rune_starts :: "nat \<Rightarrow> byte list \<Rightarrow> nat list" where
  "rune_starts i s = (if s = [] then [] else i # rune_starts (i + rune_width s) (drop (rune_width s) s))"
  by pat_completeness auto
termination
  by (relation "measure (\<lambda>(i, s). length s)") (auto simp: rune_width_pos)

declare rune_starts.simps [simp del]

definition HashString :: "byte list \<Rightarrow> uint32" where
  "HashString s = foldl (\<lambda>h c. h * 31 + of_nat c) 17 (rune_starts 0 s)"

definition Difference :: "('k \<times> 'v) list \<Rightarrow> ('k \<times> 'v) list \<Rightarrow> ('k \<times> 'v) list" where
  "Difference thisMap otherMap = filter (\<lambda>(k, v). map_of otherMap k = None) thisMap"

definition CopyArray :: "('a::len word) list \<Rightarrow> ('b::len word) list" where
  "CopyArray arr = map ucast arr"

lemma Difference_lookup:
  "map_of (Difference a b) k = (if map_of b k = None then map_of a k else None)"
  by (induction a) (auto simp: Difference_def)

lemma Difference_keys: "fst ` set (Difference a b) = fst ` set a - fst ` set b"
  by (force simp: Difference_def map_of_eq_None_iff)

lemma alist_ok_Difference [simp]: "alist_ok a \<Longrightarrow> alist_ok (Difference a b)"
  by (simp add: Difference_def alist_ok_def distinct_map_filter)

lemma rune_starts_ascii:
  "\<forall>b \<in> set s. b < 0x80 \<Longrightarrow> rune_starts i s = [i ..< i + length s]"
proof (induction s arbitrary: i)
  case Nil
  show ?case by (simp add: rune_starts.simps)
next
  case (Cons b s)
  then have "b < 0x80" by simp
  then have "rune_width (b # s) = 1" by (auto simp: word_less_nat_alt word_le_nat_alt)
  moreover have "[i ..< i + length (b # s)] = i # [Suc i ..< Suc i + length s]"
    by (simp add: upt_conv_Cons del: upt_Suc)
  ultimately show ?case using Cons
    by (simp add: rune_starts.simps [of i "b # s"] del: rune_width.simps upt_Suc)
qed

text \<open>
  Two ASCII strings of the same length, such as two remote addresses, always have the same hash:
  \<open>HashString\<close> hashes the positions of the runes and never reads the bytes.
\<close>

theorem HashString_ignores_content:
  assumes "\<forall>b \<in> set s. b < 0x80" and "\<forall>b \<in> set t. b < 0x80" and "length s = length t"
  shows "HashString s = HashString t"
  using assms by (simp add: HashString_def rune_starts_ascii)

theorem HashString_ignores_content_witness:
  "HashString [49, 48, 46, 48] = HashString [57, 46, 57, 57]"
  using HashString_ignores_content [of "[49, 48, 46, 48]" "[57, 46, 57, 57]"] by simp

subsection \<open>Network addresses\<close>

text \<open>A \<open>net.Addr\<close> as \<open>GetIP\<close> sees it: a UDP or TCP address has an \<open>IP\<close> field, whose printed form
is the first component, besides the printed form of the whole address; any other address has only
the latter.\<close>

datatype NetAddr = UDPAddr string string | TCPAddr string string | OtherAddr string

primrec addr_String :: "NetAddr \<Rightarrow> string" where
  "addr_String (UDPAddr ip s) = s"
| "addr_String (TCPAddr ip s) = s"
| "addr_String (OtherAddr s) = s"

definition GetIP :: "NetAddr \<Rightarrow> string" where
  "GetIP addr = (case addr of
     UDPAddr ip s \<Rightarrow> ip
   | TCPAddr ip s \<Rightarrow> ip
   | OtherAddr s \<Rightarrow> takeWhile (\<lambda>c. c \<noteq> CHR '':'') s)"

end
