(* ===== verification/Fsm.thy ===== *)
theory Fsm
  imports Prelude
begin

text \<open>
  The message filter of \<open>pkg/fsm/fsm.go\<close>: a finite state machine per connection type, loaded from
  a JSON configuration, whose states carry a whitelist and a blacklist of message types.

  A \<open>*State\<close> always points into the slice \<open>States\<close>, so a state pointer is an index of that slice,
  and \<open>None\<close> is the nil pointer.  \<open>json.Unmarshal\<close> is a parameter: \<open>Load\<close> takes its result, an
  error or the decoded exported fields.
\<close>

subsection \<open>Data\<close>

record State =
  st_Name :: string
  st_MsgTypeWhitelist :: string
  st_MsgTypeBlacklist :: string
  st_allowedMsgTypes :: "uint32 \<rightharpoonup> bool"
  st_transitions :: "uint32 \<rightharpoonup> nat"

record StateTransition =
  tr_FromState :: string
  tr_ToState :: string
  tr_MsgType :: uint32

record FiniteStateMachine =
  fsm_InitState :: "string option"
  fsm_States :: "State list"
  fsm_Transitions :: "StateTransition list"
  fsm_currentState :: "nat option"
  fsm_stateNameMap :: "string \<rightharpoonup> nat"

definition zero_fsm :: FiniteStateMachine where
  "zero_fsm = \<lparr>fsm_InitState = None, fsm_States = [], fsm_Transitions = [],
     fsm_currentState = None, fsm_stateNameMap = Map.empty\<rparr>"

subsection \<open>The standard library's string functions\<close>

fun splitOn :: "char \<Rightarrow> string \<Rightarrow> string list" where
  "splitOn c [] = [[]]"
| "splitOn c (x # xs) =
     (if x = c then [] # splitOn c xs
      else (case splitOn c xs of [] \<Rightarrow> [[x]] | y # ys \<Rightarrow> (x # y) # ys))"

definition trimSpaces :: "string \<Rightarrow> string" where
  "trimSpaces s = rev (dropWhile (\<lambda>c. c = CHR '' '') (rev (dropWhile (\<lambda>c. c = CHR '' '') s)))"

definition digit_of :: "char \<Rightarrow> nat option" where
  "digit_of c = (let n = of_char c :: nat in if 48 \<le> n \<and> n \<le> 57 then Some (n - 48) else None)"

fun digits_value :: "nat \<Rightarrow> string \<Rightarrow> nat option" where
  "digits_value acc [] = Some acc"
| "digits_value acc (c # cs) =
     (case digit_of c of None \<Rightarrow> None | Some d \<Rightarrow> digits_value (10 * acc + d) cs)"

text \<open>\<open>strconv.ParseUint(s, 10, 32)\<close>: a syntax error for an empty string or a character that is
  not a digit, a range error above \<open>MaxUint32\<close>.\<close>

definition ParseUint32 :: "string \<Rightarrow> nat option" where
  "ParseUint32 s =
     (if s = [] then None
      else case digits_value 0 s of
        None \<Rightarrow> None
      | Some n \<Rightarrow> if n < 2 ^ 32 then Some n else None)"

subsection \<open>Loading\<close>

text \<open>\<open>parseMsgTypes\<close> calls its callback once per message type; the model is the list of the
  calls' arguments.\<close>

definition parseSeg :: "string \<Rightarrow> uint32 list" where
  "parseSeg seg0 =
     (let seg = trimSpaces seg0; fromTo = splitOn (CHR ''-'') seg in
      case fromTo of
        [] \<Rightarrow> []
      | [a] \<Rightarrow> (case ParseUint32 a of None \<Rightarrow> [] | Some n \<Rightarrow> [of_nat n])
      | a # b # _ \<Rightarrow>
          (case ParseUint32 a of
             None \<Rightarrow> []
           | Some fromType \<Rightarrow>
               (case ParseUint32 b of
                  None \<Rightarrow> []
                | Some toType \<Rightarrow> map of_nat [fromType ..< toType + 1])))"

definition parseMsgTypes :: "string \<Rightarrow> uint32 list" where
  "parseMsgTypes s = (if s = [] then [] else concat (map parseSeg (splitOn (CHR '','') s)))"

definition set_all :: "uint32 list \<Rightarrow> bool \<Rightarrow> (uint32 \<rightharpoonup> bool) \<Rightarrow> (uint32 \<rightharpoonup> bool)" where
  "set_all ts b m = foldl (\<lambda>m t. m(t \<mapsto> b)) m ts"

definition load_state :: "State \<Rightarrow> State" where
  "load_state st = st\<lparr>
     st_allowedMsgTypes :=
       set_all (parseMsgTypes (st_MsgTypeBlacklist st)) False
         (set_all (parseMsgTypes (st_MsgTypeWhitelist st)) True Map.empty),
     st_transitions := Map.empty\<rparr>"

definition load_states :: "FiniteStateMachine \<Rightarrow> FiniteStateMachine" where
  "load_states fsm = fsm\<lparr>
     fsm_currentState := (if fsm_States fsm = [] then None else Some 0),
     fsm_States := map load_state (fsm_States fsm),
     fsm_stateNameMap :=
       foldl (\<lambda>m i. m(st_Name (fsm_States fsm ! i) \<mapsto> i)) Map.empty
         [0 ..< length (fsm_States fsm)]\<rparr>"

definition load_transition :: "FiniteStateMachine \<Rightarrow> StateTransition \<Rightarrow> FiniteStateMachine" where
  "load_transition fsm t =
     (case fsm_stateNameMap fsm (tr_FromState t) of
        None \<Rightarrow> fsm
      | Some i \<Rightarrow>
          (case fsm_stateNameMap fsm (tr_ToState t) of
             None \<Rightarrow> fsm
           | Some j \<Rightarrow>
               fsm\<lparr>fsm_States := (fsm_States fsm)[i := (fsm_States fsm ! i)
                 \<lparr>st_transitions := (st_transitions (fsm_States fsm ! i))(tr_MsgType t \<mapsto> j)\<rparr>]\<rparr>))"

definition ChangeState :: "FiniteStateMachine \<Rightarrow> string \<Rightarrow> FiniteStateMachine \<times> string option" where
  "ChangeState fsm name =
     (case fsm_stateNameMap fsm name of
        Some i \<Rightarrow> (fsm\<lparr>fsm_currentState := Some i\<rparr>, None)
      | None \<Rightarrow> (fsm, Some (''Invalid state name: '' @ name)))"

definition fsm_Load :: "string + FiniteStateMachine \<Rightarrow> FiniteStateMachine \<times> string option" where
  "fsm_Load decoded =
     (case decoded of
        Inl err \<Rightarrow> (zero_fsm, Some err)
      | Inr raw \<Rightarrow>
          (let fsm = foldl load_transition (load_states raw) (fsm_Transitions raw) in
           case fsm_InitState raw of
             None \<Rightarrow> (fsm, None)
           | Some name \<Rightarrow> ChangeState fsm name))"

subsection \<open>Operations\<close>

definition cur_state :: "FiniteStateMachine \<Rightarrow> State option" where
  "cur_state fsm =
     (case fsm_currentState fsm of
        None \<Rightarrow> None
      | Some i \<Rightarrow> if i < length (fsm_States fsm) then Some (fsm_States fsm ! i) else None)"

definition fsm_IsAllowed :: "FiniteStateMachine \<Rightarrow> uint32 \<Rightarrow> bool option" where
  "fsm_IsAllowed fsm msgType =
     (case cur_state fsm of
        None \<Rightarrow> None
      | Some st \<Rightarrow> Some (case st_allowedMsgTypes st msgType of None \<Rightarrow> False | Some b \<Rightarrow> b))"

definition fsm_OnReceived :: "FiniteStateMachine \<Rightarrow> uint32 \<Rightarrow> FiniteStateMachine option" where
  "fsm_OnReceived fsm msgType =
     (case cur_state fsm of
        None \<Rightarrow> None
      | Some st \<Rightarrow>
          (case st_transitions st msgType of
             None \<Rightarrow> Some fsm
           | Some j \<Rightarrow> Some (fsm\<lparr>fsm_currentState := Some j\<rparr>)))"

fun move_loop :: "FiniteStateMachine \<Rightarrow> nat list \<Rightarrow> FiniteStateMachine \<times> bool" where
  "move_loop fsm [] = (fsm, False)"
| "move_loop fsm (i # is) =
     (if fsm_currentState fsm = Some i then (fsm\<lparr>fsm_currentState := Some (i + 1)\<rparr>, True)
      else move_loop fsm is)"

definition MoveToNextState :: "FiniteStateMachine \<Rightarrow> FiniteStateMachine \<times> bool" where
  "MoveToNextState fsm = move_loop fsm [0 ..< length (fsm_States fsm) - 1]"

text \<open>The operations a connection performs on its machine, as one step function.\<close>

datatype fsm_op = OpReceived uint32 | OpChangeState string | OpMoveNext

fun fsm_step :: "FiniteStateMachine \<Rightarrow> fsm_op \<Rightarrow> FiniteStateMachine option" where
  "fsm_step fsm (OpReceived t) = fsm_OnReceived fsm t"
| "fsm_step fsm (OpChangeState name) = Some (fst (ChangeState fsm name))"
| "fsm_step fsm OpMoveNext = Some (fst (MoveToNextState fsm))"

fun fsm_run :: "FiniteStateMachine \<Rightarrow> fsm_op list \<Rightarrow> FiniteStateMachine option" where
  "fsm_run fsm [] = Some fsm"
| "fsm_run fsm (x # xs) = (case fsm_step fsm x of None \<Rightarrow> None | Some fsm' \<Rightarrow> fsm_run fsm' xs)"


subsection \<open>Reading back a printed message type list\<close>

text \<open>The notation of the configuration files, as in \<open>1, 2-10, 30\<close>.\<close>

datatype seg = SegOne nat | SegRange nat nat

fun show_nat :: "nat \<Rightarrow> string" where
  "show_nat n = (if n < 10 then [char_of (48 + n)]
     else show_nat (n div 10) @ [char_of (48 + n mod 10)])"

declare show_nat.simps [simp del]

fun show_seg :: "seg \<Rightarrow> string" where
  "show_seg (SegOne n) = show_nat n"
| "show_seg (SegRange a b) = show_nat a @ [CHR ''-''] @ show_nat b"

fun show_segs :: "seg list \<Rightarrow> string" where
  "show_segs [] = []"
| "show_segs [x] = show_seg x"
| "show_segs (x # y # xs) = show_seg x @ [CHR '','', CHR '' ''] @ show_segs (y # xs)"

fun seg_types :: "seg \<Rightarrow> nat list" where
  "seg_types (SegOne n) = [n]"
| "seg_types (SegRange a b) = [a ..< b + 1]"

fun seg_ok :: "seg \<Rightarrow> bool" where
  "seg_ok (SegOne n) \<longleftrightarrow> n < 2 ^ 32"
| "seg_ok (SegRange a b) \<longleftrightarrow> a < 2 ^ 32 \<and> b < 2 ^ 32"

lemma digit_of_char_of: "d < 10 \<Longrightarrow> digit_of (char_of (48 + d)) = Some d"
  by (simp add: digit_of_def Let_def)

lemma digits_value_append:
  "digits_value acc (xs @ ys) =
     (case digits_value acc xs of None \<Rightarrow> None | Some v \<Rightarrow> digits_value v ys)"
  by (induction xs arbitrary: acc) (auto split: option.splits)

lemma digits_value_show_nat: "digits_value 0 (show_nat n) = Some n"
proof (induction n rule: show_nat.induct)
  case (1 n)
  show ?case
  proof (cases "n < 10")
    case True
    then show ?thesis
      by (simp add: show_nat.simps [of n] digit_of_char_of)
  next
    case False
    with "1" show ?thesis
      by (simp add: show_nat.simps [of n] digits_value_append digit_of_char_of)
  qed
qed

lemma show_nat_digits: "c \<in> set (show_nat n) \<Longrightarrow> digit_of c \<noteq> None"
proof (induction n arbitrary: c rule: show_nat.induct)
  case (1 n)
  then show ?case
    by (cases "n < 10") (auto simp: show_nat.simps [of n] digit_of_char_of)
qed

lemma show_nat_nonempty [simp]: "show_nat n \<noteq> []"
  by (subst show_nat.simps) simp

lemma show_nat_no_sep:
  "CHR '','' \<notin> set (show_nat n)" "CHR ''-'' \<notin> set (show_nat n)" "CHR '' '' \<notin> set (show_nat n)"
  using show_nat_digits [of _ n] by (fastforce simp: digit_of_def Let_def)+

lemma ParseUint32_show_nat [simp]: "n < 2 ^ 32 \<Longrightarrow> ParseUint32 (show_nat n) = Some n"
  by (simp add: ParseUint32_def digits_value_show_nat)

lemma splitOn_none: "c \<notin> set xs \<Longrightarrow> splitOn c xs = [xs]"
  by (induction xs) auto

lemma splitOn_sep: "c \<notin> set xs \<Longrightarrow> splitOn c (xs @ c # ys) = xs # splitOn c ys"
  by (induction xs) auto

lemma splitOn_nonempty [simp]: "splitOn c xs \<noteq> []"
  by (induction xs) (auto split: list.splits)

lemma show_seg_shape:
  "show_seg x \<noteq> []" "CHR '','' \<notin> set (show_seg x)" "CHR '' '' \<notin> set (show_seg x)"
  by (cases x; simp add: show_nat_no_sep)+

lemma trimSpaces_id: "CHR '' '' \<notin> set s \<Longrightarrow> trimSpaces s = s"
proof -
  assume a: "CHR '' '' \<notin> set s"
  have *: "dropWhile (\<lambda>c. c = CHR '' '') t = t" if "CHR '' '' \<notin> set t" for t
    using that by (cases t) auto
  show ?thesis using a by (simp add: trimSpaces_def *)
qed

lemma trimSpaces_space: "trimSpaces (CHR '' '' # s) = trimSpaces s"
  by (simp add: trimSpaces_def)

lemma parseSeg_show: "seg_ok x \<Longrightarrow> parseSeg (show_seg x) = map of_nat (seg_types x)"
  by (cases x)
    (simp_all add: parseSeg_def trimSpaces_id show_nat_no_sep splitOn_none splitOn_sep Let_def
      del: upt_Suc)

lemma parseSeg_space: "parseSeg (CHR '' '' # s) = parseSeg s"
  by (simp add: parseSeg_def trimSpaces_space)

lemma parse_segments:
  "\<forall>x \<in> set xs. seg_ok x \<Longrightarrow> xs \<noteq> [] \<Longrightarrow>
   concat (map parseSeg (splitOn (CHR '','') (show_segs xs))) =
     map of_nat (concat (map seg_types xs))"
proof (induction xs rule: show_segs.induct)
  case 1
  then show ?case by simp
next
  case (2 x)
  then show ?case by (simp add: splitOn_none show_seg_shape parseSeg_show)
next
  case (3 x y xs)
  obtain a as where s: "splitOn (CHR '','') (show_segs (y # xs)) = a # as"
    by (meson list.exhaust splitOn_nonempty)
  have "splitOn (CHR '','') (show_segs (x # y # xs)) = show_seg x # (CHR '' '' # a) # as"
    using s by (simp add: splitOn_sep show_seg_shape)
  moreover have "concat (map parseSeg (a # as)) = map of_nat (concat (map seg_types (y # xs)))"
    using "3.IH" "3.prems" s by simp
  ultimately show ?case using "3.prems"
    by (simp add: parseSeg_show parseSeg_space)
qed

lemma show_segs_nonempty: "xs \<noteq> [] \<Longrightarrow> show_segs xs \<noteq> []"
  by (cases xs rule: show_segs.cases) (auto simp: show_seg_shape)

text \<open>
  Reading back a printed list of message types and ranges gives exactly the types it denotes, in
  order: the round trip of the notation the FSM configurations use.
\<close>

theorem parseMsgTypes_roundtrip:
  assumes "\<forall>x \<in> set xs. seg_ok x"
  shows "parseMsgTypes (show_segs xs) = map of_nat (concat (map seg_types xs))"
proof (cases "xs = []")
  case True
  then show ?thesis by (simp add: parseMsgTypes_def)
next
  case False
  then show ?thesis
    using parse_segments [OF assms] show_segs_nonempty by (simp add: parseMsgTypes_def)
qed

theorem parseMsgTypes_roundtrip_witness:
  "parseMsgTypes (show_segs [SegOne 1, SegRange 2 4, SegOne 30]) = [1, 2, 3, 4, 30]"
  using parseMsgTypes_roundtrip [of "[SegOne 1, SegRange 2 4, SegOne 30]"] by (simp add: upt_rec)

subsection \<open>Well-formed machines\<close>

definition fsm_wf :: "FiniteStateMachine \<Rightarrow> bool" where
  "fsm_wf fsm \<longleftrightarrow>
     (\<forall>name i. fsm_stateNameMap fsm name = Some i \<longrightarrow>
        i < length (fsm_States fsm) \<and> st_Name (fsm_States fsm ! i) = name) \<and>
     (\<forall>k < length (fsm_States fsm). \<forall>t j.
        st_transitions (fsm_States fsm ! k) t = Some j \<longrightarrow> j < length (fsm_States fsm))"

definition fsm_running :: "FiniteStateMachine \<Rightarrow> bool" where
  "fsm_running fsm \<longleftrightarrow> (\<exists>i < length (fsm_States fsm). fsm_currentState fsm = Some i)"

text \<open>What loading fixes for good: \<open>fsm_from raw fsm\<close> says that the states of \<open>fsm\<close> are those
  of the configuration, with the filters its lists denote and only declared transitions.\<close>

definition fsm_from :: "FiniteStateMachine \<Rightarrow> FiniteStateMachine \<Rightarrow> bool" where
  "fsm_from raw fsm \<longleftrightarrow>
     length (fsm_States fsm) = length (fsm_States raw) \<and>
     (\<forall>i < length (fsm_States raw).
        st_Name (fsm_States fsm ! i) = st_Name (fsm_States raw ! i) \<and>
        st_allowedMsgTypes (fsm_States fsm ! i) =
          st_allowedMsgTypes (load_state (fsm_States raw ! i)) \<and>
        (\<forall>t j. st_transitions (fsm_States fsm ! i) t = Some j \<longrightarrow>
           (\<exists>tr \<in> set (fsm_Transitions raw). tr_MsgType tr = t \<and>
              tr_FromState tr = st_Name (fsm_States raw ! i) \<and>
              j < length (fsm_States raw) \<and> tr_ToState tr = st_Name (fsm_States raw ! j))))"

lemma name_map_ok:
  "foldl (\<lambda>m i. m(f i \<mapsto> i)) Map.empty [0 ..< n] name = Some i \<Longrightarrow> i < n \<and> f i = name"
  by (induction n) (auto split: if_splits)

lemma load_states_wf: "fsm_wf (load_states raw) \<and> fsm_from raw (load_states raw)"
  using name_map_ok [of "\<lambda>i. st_Name (fsm_States raw ! i)"]
  by (auto simp: fsm_wf_def fsm_from_def load_states_def load_state_def)

lemma load_transition_wf:
  assumes wf: "fsm_wf fsm" and fr: "fsm_from raw fsm" and t: "t \<in> set (fsm_Transitions raw)"
  shows "fsm_wf (load_transition fsm t) \<and> fsm_from raw (load_transition fsm t)"
proof (cases "fsm_stateNameMap fsm (tr_FromState t)")
  case None
  then show ?thesis using wf fr by (simp add: load_transition_def)
next
  case (Some i)
  note i = Some
  show ?thesis
  proof (cases "fsm_stateNameMap fsm (tr_ToState t)")
    case None
    then show ?thesis using wf fr i by (simp add: load_transition_def)
  next
    case (Some j)
    from wf i Some have ij: "i < length (fsm_States fsm)" "j < length (fsm_States fsm)"
      "st_Name (fsm_States fsm ! i) = tr_FromState t" "st_Name (fsm_States fsm ! j) = tr_ToState t"
      by (auto simp: fsm_wf_def)
    have "fsm_wf (load_transition fsm t)"
      using wf i Some ij
      by (auto simp: fsm_wf_def load_transition_def nth_list_update) blast
    moreover have "fsm_from raw (load_transition fsm t)"
      using fr i Some ij t unfolding fsm_from_def load_transition_def
      by (auto simp: nth_list_update)
    ultimately show ?thesis ..
  qed
qed

lemma load_transitions_wf:
  "fsm_wf fsm \<Longrightarrow> fsm_from raw fsm \<Longrightarrow> set ts \<subseteq> set (fsm_Transitions raw) \<Longrightarrow>
   fsm_wf (foldl load_transition fsm ts) \<and> fsm_from raw (foldl load_transition fsm ts)"
  by (induction ts arbitrary: fsm) (auto simp: load_transition_wf)

lemma load_transition_frame [simp]:
  "fsm_currentState (load_transition fsm t) = fsm_currentState fsm"
  "length (fsm_States (load_transition fsm t)) = length (fsm_States fsm)"
  by (auto simp: load_transition_def split: option.splits)

lemma load_transitions_frame [simp]:
  "fsm_currentState (foldl load_transition fsm ts) = fsm_currentState fsm"
  "length (fsm_States (foldl load_transition fsm ts)) = length (fsm_States fsm)"
  by (induction ts arbitrary: fsm) auto

lemma ChangeState_ok:
  assumes "fsm_wf fsm" and "fsm_from raw fsm" and "fsm_running fsm"
  shows "fsm_wf (fst (ChangeState fsm name)) \<and> fsm_from raw (fst (ChangeState fsm name)) \<and>
    fsm_running (fst (ChangeState fsm name))"
  using assms
  by (auto simp: ChangeState_def fsm_wf_def fsm_from_def fsm_running_def split: option.splits)

lemma fsm_Load_ok:
  assumes "fsm_Load (Inr raw) = (fsm, err)" and "fsm_States raw \<noteq> []"
  shows "fsm_wf fsm \<and> fsm_from raw fsm \<and> fsm_running fsm"
proof -
  let ?f = "foldl load_transition (load_states raw) (fsm_Transitions raw)"
  have wf: "fsm_wf ?f \<and> fsm_from raw ?f"
    using load_transitions_wf [of "load_states raw" raw "fsm_Transitions raw"] load_states_wf by blast
  have "fsm_running ?f"
    using assms(2) by (simp add: fsm_running_def load_states_def)
  then show ?thesis
    using wf assms(1) ChangeState_ok [of ?f raw "the (fsm_InitState raw)"]
    by (auto simp: fsm_Load_def Let_def split: option.splits)
qed

lemma move_loop_cases:
  "move_loop fsm is = (fsm, False) \<and> (\<forall>i \<in> set is. fsm_currentState fsm \<noteq> Some i) \<or>
   (\<exists>i \<in> set is. fsm_currentState fsm = Some i \<and>
      move_loop fsm is = (fsm\<lparr>fsm_currentState := Some (i + 1)\<rparr>, True))"
  by (induction "is") auto

lemma fsm_step_ok:
  assumes "fsm_wf fsm" and "fsm_from raw fsm" and "fsm_running fsm"
  shows "\<exists>fsm'. fsm_step fsm x = Some fsm' \<and> fsm_wf fsm' \<and> fsm_from raw fsm' \<and> fsm_running fsm'"
proof (cases x)
  case (OpReceived t)
  from assms(3) obtain i where "i < length (fsm_States fsm)" "fsm_currentState fsm = Some i"
    by (auto simp: fsm_running_def)
  then show ?thesis using assms OpReceived
    by (auto simp: fsm_OnReceived_def cur_state_def fsm_wf_def fsm_from_def fsm_running_def
        split: option.splits)
next
  case (OpChangeState name)
  then show ?thesis using ChangeState_ok [OF assms] by auto
next
  case OpMoveNext
  then show ?thesis
    using assms move_loop_cases [of fsm "[0 ..< length (fsm_States fsm) - 1]"]
    by (auto simp: MoveToNextState_def fsm_wf_def fsm_from_def fsm_running_def)
qed

lemma fsm_run_ok:
  "fsm_wf fsm \<Longrightarrow> fsm_from raw fsm \<Longrightarrow> fsm_running fsm \<Longrightarrow>
   \<exists>fsm'. fsm_run fsm ops = Some fsm' \<and> fsm_wf fsm' \<and> fsm_from raw fsm' \<and> fsm_running fsm'"
proof (induction ops arbitrary: fsm)
  case Nil
  then show ?case by simp
next
  case (Cons x xs)
  from fsm_step_ok [OF Cons.prems, of x] Cons.IH show ?case by fastforce
qed

lemma set_all_lookup: "set_all ts b m t = (if t \<in> set ts then Some b else m t)"
  unfolding set_all_def by (induction ts arbitrary: m) auto

lemma load_state_allowed:
  "st_allowedMsgTypes (load_state st) t =
     (if t \<in> set (parseMsgTypes (st_MsgTypeBlacklist st)) then Some False
      else if t \<in> set (parseMsgTypes (st_MsgTypeWhitelist st)) then Some True else None)"
  by (simp add: load_state_def set_all_lookup)

text \<open>
  C39. Loaded with at least one state, the machine never dereferences a nil state: after any sequence
  of received messages, state changes and moves it still runs, and a message type is allowed exactly
  when the current state's whitelist denotes it and its blacklist does not.
\<close>

theorem fsm_filter_correct:
  assumes "fsm_Load (Inr raw) = (fsm, err)" and "fsm_States raw \<noteq> []"
  shows "\<exists>fsm' i. fsm_run fsm ops = Some fsm' \<and> fsm_currentState fsm' = Some i \<and>
    i < length (fsm_States raw) \<and>
    fsm_IsAllowed fsm' t =
      Some (t \<in> set (parseMsgTypes (st_MsgTypeWhitelist (fsm_States raw ! i))) \<and>
            t \<notin> set (parseMsgTypes (st_MsgTypeBlacklist (fsm_States raw ! i))))"
proof -
  obtain fsm' where run: "fsm_run fsm ops = Some fsm'" "fsm_from raw fsm'" "fsm_running fsm'"
    using fsm_run_ok fsm_Load_ok [OF assms] by blast
  then obtain i where i: "i < length (fsm_States fsm')" "fsm_currentState fsm' = Some i"
    by (auto simp: fsm_running_def)
  have "i < length (fsm_States raw)" using i run(2) by (simp add: fsm_from_def)
  then show ?thesis using run i
    by (auto simp: fsm_IsAllowed_def cur_state_def fsm_from_def load_state_allowed)
qed

definition demo_config :: FiniteStateMachine where
  "demo_config = \<lparr>fsm_InitState = Some ''INIT'',
     fsm_States =
       [\<lparr>st_Name = ''INIT'', st_MsgTypeWhitelist = ''1'', st_MsgTypeBlacklist = [],
         st_allowedMsgTypes = Map.empty, st_transitions = Map.empty\<rparr>,
        \<lparr>st_Name = ''OPEN'', st_MsgTypeWhitelist = ''2-5'', st_MsgTypeBlacklist = ''3'',
         st_allowedMsgTypes = Map.empty, st_transitions = Map.empty\<rparr>],
     fsm_Transitions = [\<lparr>tr_FromState = ''INIT'', tr_ToState = ''OPEN'', tr_MsgType = 1\<rparr>],
     fsm_currentState = None, fsm_stateNameMap = Map.empty\<rparr>"

theorem fsm_filter_correct_witness:
  "fsm_States demo_config \<noteq> [] \<and>
   (\<exists>fsm' i. fsm_run (fst (fsm_Load (Inr demo_config))) [OpReceived 1, OpMoveNext] = Some fsm' \<and>
      fsm_currentState fsm' = Some i \<and> i < length (fsm_States demo_config))"
  using fsm_filter_correct [of demo_config "fst (fsm_Load (Inr demo_config))"
      "snd (fsm_Load (Inr demo_config))" "[OpReceived 1, OpMoveNext]" 4]
  by (auto simp: demo_config_def)

text \<open>
  Receiving a message moves the current state only along a transition declared in the
  configuration for that message type between the two states' names; for any other type the machine
  does not change.
\<close>

theorem fsm_transitions_declared:
  assumes "fsm_Load (Inr raw) = (fsm, err)" and "fsm_States raw \<noteq> []"
    and "fsm_run fsm ops = Some fsm1" and "fsm_OnReceived fsm1 t = Some fsm2"
  shows "fsm2 = fsm1 \<or>
    (\<exists>i j. \<exists>tr \<in> set (fsm_Transitions raw). fsm_currentState fsm1 = Some i \<and>
       fsm2 = fsm1\<lparr>fsm_currentState := Some j\<rparr> \<and> tr_MsgType tr = t \<and>
       tr_FromState tr = st_Name (fsm_States fsm1 ! i) \<and>
       tr_ToState tr = st_Name (fsm_States fsm1 ! j))"
proof -
  have ok: "fsm_from raw fsm1" "fsm_running fsm1"
    using fsm_run_ok [of fsm raw ops] fsm_Load_ok [OF assms(1,2)] assms(3) by auto
  then obtain i where i: "i < length (fsm_States fsm1)" "fsm_currentState fsm1 = Some i"
    by (auto simp: fsm_running_def)
  show ?thesis
  proof (cases "st_transitions (fsm_States fsm1 ! i) t")
    case None
    then show ?thesis using assms(4) i by (simp add: fsm_OnReceived_def cur_state_def)
  next
    case (Some j)
    with ok(1) i obtain tr where "tr \<in> set (fsm_Transitions raw)" "tr_MsgType tr = t"
      "tr_FromState tr = st_Name (fsm_States fsm1 ! i)"
      "tr_ToState tr = st_Name (fsm_States fsm1 ! j)"
      unfolding fsm_from_def by metis
    then show ?thesis using assms(4) i Some
      by (auto simp: fsm_OnReceived_def cur_state_def)
  qed
qed

theorem fsm_transitions_declared_witness:
  "\<exists>fsm1 fsm2. fsm_run (fst (fsm_Load (Inr demo_config))) [] = Some fsm1 \<and>
     fsm_OnReceived fsm1 1 = Some fsm2 \<and> fsm_currentState fsm2 = Some 1 \<and>
     (fsm2 = fsm1 \<or> (\<exists>i j. \<exists>tr \<in> set (fsm_Transitions demo_config).
        fsm_currentState fsm1 = Some i \<and> fsm2 = fsm1\<lparr>fsm_currentState := Some j\<rparr> \<and>
        tr_MsgType tr = 1 \<and> tr_FromState tr = st_Name (fsm_States fsm1 ! i) \<and>
        tr_ToState tr = st_Name (fsm_States fsm1 ! j)))"
proof -
  let ?f = "fst (fsm_Load (Inr demo_config))"
  let ?g = "?f\<lparr>fsm_currentState := Some 1\<rparr>"
  have recv: "fsm_OnReceived ?f 1 = Some ?g"
    by (simp add: fsm_Load_def demo_config_def load_states_def load_transition_def ChangeState_def
        fsm_OnReceived_def cur_state_def Let_def upt_rec load_state_def)
  have ne: "fsm_States demo_config \<noteq> []" by (simp add: demo_config_def)
  have "fsm_run ?f [] = Some ?f" by simp
  from fsm_transitions_declared [OF prod.collapse [symmetric] ne this recv] recv
  show ?thesis by auto
qed

text \<open>
  Moving to the next state, as authentication does, advances the machine by one in declaration
  order and reports true, except in the last declared state, where nothing changes and it reports
  false.
\<close>

theorem MoveToNextState_correct:
  assumes "fsm_currentState fsm = Some i" and "i < length (fsm_States fsm)"
  shows "MoveToNextState fsm =
    (if i + 1 < length (fsm_States fsm) then (fsm\<lparr>fsm_currentState := Some (i + 1)\<rparr>, True)
     else (fsm, False))"
  using assms move_loop_cases [of fsm "[0 ..< length (fsm_States fsm) - 1]"]
  by (auto simp: MoveToNextState_def)

theorem MoveToNextState_correct_witness:
  "MoveToNextState (load_states demo_config) =
     ((load_states demo_config)\<lparr>fsm_currentState := Some 1\<rparr>, True)"
  using MoveToNextState_correct [of "load_states demo_config" 0]
  by (simp add: demo_config_def load_states_def)

end
