(* ===== verification/EventBus.thy ===== *)
theory EventBus
  imports Prelude
begin

text \<open>
  The event lists of \<open>pkg/channeld/event.go\<close>.  An \<open>Event\<close> is a slice of handlers; registering
  appends, and both \<open>UnlistenFor\<close> and \<open>Broadcast\<close> delete elements with
  \<open>append(h[:i], h[i+1:]...)\<close> while they range over the same slice.  The \<open>range\<close> clause fixes the
  slice header once, but the elements are read from the backing array, which the deletion shifts in
  place; so the loops below carry the backing array and the current length separately.

  The slice expression \<open>h[i+1:]\<close> is out of range, a panic, once \<open>i + 1\<close> exceeds the current length:
  \<open>None\<close>.
\<close>

record ('o, 'h) eventHandler =
  eh_owner :: "'o option"
  eh_handlerFunc :: 'h
  eh_triggerOnce :: bool

type_synonym ('o, 'h) Event = "('o, 'h) eventHandler list"

definition event_ListenFor :: "('o, 'h) Event \<Rightarrow> 'o option \<Rightarrow> 'h \<Rightarrow> ('o, 'h) Event" where
  "event_ListenFor e own f = e @ [\<lparr>eh_owner = own, eh_handlerFunc = f, eh_triggerOnce = False\<rparr>]"

definition event_Listen :: "('o, 'h) Event \<Rightarrow> 'h \<Rightarrow> ('o, 'h) Event" where
  "event_Listen e f = event_ListenFor e None f"

definition event_ListenOnce :: "('o, 'h) Event \<Rightarrow> 'h \<Rightarrow> ('o, 'h) Event" where
  "event_ListenOnce e f = e @ [\<lparr>eh_owner = None, eh_handlerFunc = f, eh_triggerOnce = True\<rparr>]"

text \<open>\<open>slice_delete b m i\<close> is \<open>append(h[:i], h[i+1:]...)\<close> for a slice of length \<open>m\<close> over the
  backing array \<open>b\<close>: the array after the in-place copy and the new length.\<close>

definition slice_delete :: "'h list \<Rightarrow> nat \<Rightarrow> nat \<Rightarrow> ('h list \<times> nat) option" where
  "slice_delete b m i =
     (if i + 1 \<le> m then Some (take i b @ drop (i + 1) (take m b) @ drop (m - 1) b, m - 1)
      else None)"

text \<open>The two loops: \<open>k\<close> turns are left, the current index is \<open>i\<close>.\<close>

fun unlisten_loop ::
  "'o option \<Rightarrow> nat \<Rightarrow> nat \<Rightarrow> ('o, 'h) eventHandler list \<Rightarrow> nat \<Rightarrow> ('o, 'h) Event option" where
  "unlisten_loop own 0 i b m = Some (take m b)"
| "unlisten_loop own (Suc k) i b m =
     (if eh_owner (b ! i) = own then
        (case slice_delete b m i of
           None \<Rightarrow> None
         | Some (b', m') \<Rightarrow> unlisten_loop own k (i + 1) b' m')
      else unlisten_loop own k (i + 1) b m)"

definition event_UnlistenFor :: "('o, 'h) Event \<Rightarrow> 'o option \<Rightarrow> ('o, 'h) Event option" where
  "event_UnlistenFor e own = unlisten_loop own (length e) 0 e (length e)"

text \<open>\<open>Broadcast\<close> yields the handler functions it calls, in order, and the event afterwards.\<close>

fun broadcast_loop ::
  "nat \<Rightarrow> nat \<Rightarrow> ('o, 'h) eventHandler list \<Rightarrow> nat \<Rightarrow> ('h list \<times> ('o, 'h) Event) option" where
  "broadcast_loop 0 i b m = Some ([], take m b)"
| "broadcast_loop (Suc k) i b m =
     (let h = b ! i in
      case (if eh_triggerOnce h then slice_delete b m i else Some (b, m)) of
        None \<Rightarrow> None
      | Some (b', m') \<Rightarrow>
          (case broadcast_loop k (i + 1) b' m' of
             None \<Rightarrow> None
           | Some (called, e) \<Rightarrow> Some (eh_handlerFunc h # called, e)))"

definition event_Broadcast :: "('o, 'h) Event \<Rightarrow> ('h list \<times> ('o, 'h) Event) option" where
  "event_Broadcast e = broadcast_loop (length e) 0 e (length e)"

subsection \<open>The loops on events without one-shot handlers or with one owner\<close>

lemma broadcast_loop_plain:
  "\<forall>h \<in> set b. \<not> eh_triggerOnce h \<Longrightarrow> i + k \<le> length b \<Longrightarrow>
   broadcast_loop k i b m = Some (map eh_handlerFunc (take k (drop i b)), take m b)"
proof (induction k arbitrary: i)
  case 0
  then show ?case by simp
next
  case (Suc k)
  then have "take (Suc k) (drop i b) = b ! i # take k (drop (i + 1) b)"
    by (simp add: Cons_nth_drop_Suc [symmetric])
  with Suc show ?case by simp
qed

lemma unlisten_loop_none:
  "\<forall>j. i \<le> j \<and> j < i + k \<longrightarrow> eh_owner (b ! j) \<noteq> own \<Longrightarrow>
   unlisten_loop own k i b m = Some (take m b)"
  by (induction k arbitrary: i) auto

lemma unlisten_loop_skip:
  "\<forall>j. i \<le> j \<and> j < i + n \<longrightarrow> eh_owner (b ! j) \<noteq> own \<Longrightarrow>
   unlisten_loop own (n + k) i b m = unlisten_loop own k (i + n) b m"
  by (induction n arbitrary: i) auto

lemma unlisten_after_delete:
  assumes "e = xs @ h # ys" and "\<forall>g \<in> set ys. eh_owner g \<noteq> own"
  shows "unlisten_loop own (length ys) (length xs + 1)
      (xs @ ys @ drop (length xs + length ys) e) (length xs + length ys) = Some (xs @ ys)"
proof -
  let ?b = "xs @ ys @ drop (length xs + length ys) e"
  have last: "drop (length xs + length ys) e = [last (h # ys)]"
    using assms(1) by (cases ys rule: rev_cases) auto
  have "eh_owner (?b ! j) \<noteq> own" if "length xs + 1 \<le> j" "j < length xs + 1 + length ys" for j
  proof (cases "j < length xs + length ys")
    case True
    then have "?b ! j = ys ! (j - length xs)" "j - length xs < length ys"
      using that by (auto simp: nth_append)
    then show ?thesis using assms(2) by (metis nth_mem)
  next
    case False
    with that have j: "j = length xs + length ys" and "ys \<noteq> []" by (cases ys; auto)+
    then show ?thesis using assms(2) by (simp add: nth_append last)
  qed
  then show ?thesis using unlisten_loop_none [of "length xs + 1" "length ys" ?b own] by simp
qed

text \<open>
  An event whose handlers are all permanent calls every handler exactly once, in the order of
  registration, and stays as it was.
\<close>

theorem event_Broadcast_permanent:
  assumes "\<forall>h \<in> set e. \<not> eh_triggerOnce h"
  shows "event_Broadcast e = Some (map eh_handlerFunc e, e)"
  using broadcast_loop_plain [OF assms, of 0 "length e"] by (simp add: event_Broadcast_def)

theorem event_Broadcast_permanent_witness:
  "event_Broadcast (event_ListenFor (event_Listen [] ''a'') (Some (0 :: nat)) ''b'') =
     Some ([''a'', ''b''], event_ListenFor (event_Listen [] ''a'') (Some 0) ''b'')"
  using event_Broadcast_permanent
    [of "event_ListenFor (event_Listen [] ''a'') (Some (0 :: nat)) ''b''"]
  by (simp add: event_Listen_def event_ListenFor_def)

text \<open>
  \<open>UnlistenFor\<close> removes the handler of an owner that registered once and keeps every other handler,
  in order; with an owner that never registered it changes nothing.
\<close>

theorem event_UnlistenFor_single:
  assumes "length (filter (\<lambda>h. eh_owner h = own) e) \<le> 1"
  shows "event_UnlistenFor e own = Some (filter (\<lambda>h. eh_owner h \<noteq> own) e)"
proof (cases "\<exists>h \<in> set e. eh_owner h = own")
  case False
  then have "filter (\<lambda>h. eh_owner h \<noteq> own) e = e" by (simp add: filter_id_conv)
  moreover have "\<forall>j. 0 \<le> j \<and> j < 0 + length e \<longrightarrow> eh_owner (e ! j) \<noteq> own"
    using False by auto
  ultimately show ?thesis
    by (simp add: event_UnlistenFor_def unlisten_loop_none [of 0 "length e" e own])
next
  case True
  then obtain xs h ys where e: "e = xs @ h # ys" and h: "eh_owner h = own"
    and xs: "\<forall>g \<in> set xs. eh_owner g \<noteq> own"
    using split_list_first_prop [of e "\<lambda>h. eh_owner h = own"] by blast
  with assms have "filter (\<lambda>h. eh_owner h = own) ys = []" by auto
  then have ys: "\<forall>g \<in> set ys. eh_owner g \<noteq> own" by (simp add: filter_empty_conv)
  have "event_UnlistenFor e own =
      unlisten_loop own (Suc (length ys)) (0 + length xs) e (length e)"
    using unlisten_loop_skip [of 0 "length xs" e own "Suc (length ys)" "length e"] xs
    by (simp add: event_UnlistenFor_def e nth_append)
  also have "\<dots> = unlisten_loop own (length ys) (length xs + 1)
      (xs @ ys @ drop (length xs + length ys) e) (length xs + length ys)"
    using h by (simp add: e slice_delete_def)
  also have "\<dots> = Some (xs @ ys)" by (rule unlisten_after_delete [OF e ys])
  also have "xs @ ys = filter (\<lambda>h. eh_owner h \<noteq> own) e"
    using xs ys h by (simp add: e filter_id_conv)
  finally show ?thesis .
qed

theorem event_UnlistenFor_single_witness:
  "event_UnlistenFor (event_ListenFor (event_ListenFor [] (Some (1 :: nat)) ''a'') (Some 2) ''b'') (Some 1) =
     Some (event_ListenFor [] (Some 2) ''b'')"
  using event_UnlistenFor_single
    [of "Some 1" "event_ListenFor (event_ListenFor [] (Some (1 :: nat)) ''a'') (Some 2) ''b''"]
  by (simp add: event_ListenFor_def)

text \<open>
  A one-shot handler that fires before others makes \<open>Broadcast\<close> skip the handler registered right
  after it and call the last one twice (the deletion shifts the array that the loop is reading); when
  the last handler is one-shot as well, \<open>Broadcast\<close> panics.
\<close>

theorem event_Broadcast_once_skips:
  "event_Broadcast (event_Listen (event_Listen (event_ListenOnce [] a) b) c) =
     Some ([a, c, c], event_Listen (event_Listen [] b) c) \<and>
   event_Broadcast (event_ListenOnce (event_Listen (event_ListenOnce [] a) b) c) = None"
  by (simp add: event_Broadcast_def event_Listen_def event_ListenOnce_def event_ListenFor_def
      slice_delete_def numeral_3_eq_3 Let_def)

end
