(* ===== verification/Float64.thy ===== *)
theory Float64
  imports Prelude Complex_Main "HOL-Library.Log_Nat"
begin

text \<open>
  Go's \<open>float64\<close> as the spatial grid uses it: a number of the IEEE 754 format binary64, an infinity or
  not a number.  A finite number is its exact rational value, and each operation computes the exact
  result and rounds it once to the nearest representable number, ties to even, as the processor does
  where the compiler does not fuse a product with a sum.  The sign of a zero is left out: the code
  never divides by a zero that could be negative and prints no zero.

  \<open>round64\<close> is the rounding.  The lemmas say that it is exact on representable numbers, that it never
  crosses one, and that it is monotone; the grid's correctness rests on these.
\<close>

datatype float64 = NaN | Inf bool | Fin rat

subsection \<open>Rounding\<close>

text \<open>\<open>exponent r\<close> is the greatest \<open>e\<close> with \<open>2\<^sup>e \<le> \<bar>r\<bar>\<close>.\<close>

definition exponent :: "rat \<Rightarrow> int" where
  "exponent r = (case quotient_of \<bar>r\<bar> of (p, q) \<Rightarrow>
     let e = bitlen p - bitlen q in if \<bar>r\<bar> < 2 powi e then e - 1 else e)"

definition round_even :: "rat \<Rightarrow> int" where
  "round_even x = (let n = \<lfloor>x\<rfloor>; d = x - of_int n in
     if d < 1 / 2 then n else if d > 1 / 2 then n + 1 else if even n then n else n + 1)"

text \<open>The distance of neighbouring numbers around \<open>r\<close>: 53 significant bits, or the subnormal step.\<close>

definition ulp :: "rat \<Rightarrow> rat" where
  "ulp r = 2 powi (max (exponent r) (-1022) - 52)"

text \<open>The nearest number with 53 significant bits and no limit on the size; then the overflow.\<close>

definition rnd :: "rat \<Rightarrow> rat" where
  "rnd r = of_int (round_even (r / ulp r)) * ulp r"

definition f64_limit :: rat where
  "f64_limit = 2 ^ 1024"

definition round64 :: "rat \<Rightarrow> float64" where
  "round64 r = (if \<bar>rnd r\<bar> < f64_limit then Fin (rnd r) else Inf (r < 0))"

definition f64_grid :: "rat \<Rightarrow> bool" where
  "f64_grid r \<longleftrightarrow> (\<exists>m e. r = of_int m * 2 powi e \<and> \<bar>m\<bar> < 2 ^ 53 \<and> -1074 \<le> e)"

definition f64_exact :: "rat \<Rightarrow> bool" where
  "f64_exact r \<longleftrightarrow> f64_grid r \<and> \<bar>r\<bar> < f64_limit"

lemma bitlen_powi:
  assumes "p > 0"
  shows "2 powi (bitlen p - 1) \<le> (of_int p :: rat)" and "(of_int p :: rat) < 2 powi bitlen p"
proof -
  have b: "bitlen p \<noteq> 0" "bitlen p \<ge> 0" using assms bitlen_eq_zero_iff [of p] bitlen_nonneg [of p] by auto
  then have "bitlen p - 1 \<ge> 0" by linarith
  then have e: "(2::rat) powi (bitlen p - 1) = 2 ^ nat (bitlen p - 1)" "(2::rat) powi bitlen p = 2 ^ nat (bitlen p)"
    using b by (simp_all add: power_int_nonneg_exp)
  have "2 ^ nat (bitlen p - 1) \<le> p" "p < 2 ^ nat (bitlen p)" using bitlen_bounds [OF assms] by auto
  then have "(of_int (2 ^ nat (bitlen p - 1)) :: rat) \<le> of_int p" "(of_int p :: rat) < of_int (2 ^ nat (bitlen p))"
    unfolding of_int_le_iff of_int_less_iff .
  then show "2 powi (bitlen p - 1) \<le> (of_int p :: rat)" "(of_int p :: rat) < 2 powi bitlen p"
    unfolding e by simp_all
qed

lemma exponent_bounds:
  assumes "r \<noteq> 0"
  shows "2 powi exponent r \<le> \<bar>r\<bar>" and "\<bar>r\<bar> < 2 powi (exponent r + 1)"
proof -
  obtain p q where pq: "quotient_of \<bar>r\<bar> = (p, q)" by (cases "quotient_of \<bar>r\<bar>")
  have q: "q > 0" using quotient_of_denom_pos [OF pq] .
  have r: "\<bar>r\<bar> = of_int p / of_int q" using quotient_of_div [OF pq] .
  have p: "p > 0"
  proof -
    have "(of_int p :: rat) / of_int q > 0" using assms r by (metis zero_less_abs_iff)
    then show ?thesis using q by (simp add: zero_less_divide_iff)
  qed
  let ?a = "bitlen p" let ?b = "bitlen q"
  note P = bitlen_powi [OF p] and Q = bitlen_powi [OF q]
  have low: "2 powi (?a - ?b - 1) \<le> \<bar>r\<bar>"
  proof -
    have "2 powi (?a - ?b - 1) * (of_int q :: rat) \<le> 2 powi (?a - ?b - 1) * 2 powi ?b"
      using Q(2) by (simp add: mult_left_mono)
    also have "\<dots> = 2 powi (?a - 1)" by (simp flip: power_int_add)
    also have "\<dots> \<le> of_int p" by (rule P(1))
    finally show ?thesis using q by (simp add: r pos_le_divide_eq)
  qed
  have high: "\<bar>r\<bar> < 2 powi (?a - ?b + 1)"
  proof -
    have "(of_int p :: rat) < 2 powi ?a" by (rule P(2))
    also have "\<dots> = 2 powi (?a - ?b + 1) * 2 powi (?b - 1)" by (simp flip: power_int_add)
    also have "\<dots> \<le> 2 powi (?a - ?b + 1) * of_int q" using Q(1) by (simp add: mult_left_mono)
    finally show ?thesis using q by (simp add: r pos_divide_less_eq)
  qed
  show "2 powi exponent r \<le> \<bar>r\<bar>" "\<bar>r\<bar> < 2 powi (exponent r + 1)"
    using low high by (auto simp: exponent_def pq Let_def)
qed

lemma ulp_pos [simp]: "ulp r > 0"
  by (simp add: ulp_def)

lemma ulp_minus [simp]: "ulp (- r) = ulp r"
  by (simp add: ulp_def exponent_def)

lemma round_even_of_int [simp]: "round_even (of_int n) = n"
  by (simp add: round_even_def)

lemma round_even_bounds: "\<lfloor>x\<rfloor> \<le> round_even x" "round_even x \<le> \<lfloor>x\<rfloor> + 1"
  by (simp_all add: round_even_def Let_def)

lemma round_even_mono:
  assumes "x \<le> y"
  shows "round_even x \<le> round_even y"
proof (cases "\<lfloor>x\<rfloor> = \<lfloor>y\<rfloor>")
  case True
  then show ?thesis using assms by (auto simp: round_even_def Let_def)
next
  case False
  then have "\<lfloor>x\<rfloor> + 1 \<le> \<lfloor>y\<rfloor>" using floor_mono [OF assms] by linarith
  then show ?thesis using round_even_bounds(2) [of x] round_even_bounds(1) [of y] by linarith
qed

lemma round_even_minus: "round_even (- x) = - round_even x"
proof (cases "x = of_int \<lfloor>x\<rfloor>")
  case True
  then show ?thesis by (metis of_int_minus round_even_of_int)
next
  case False
  have "of_int \<lfloor>x\<rfloor> < x" "x < of_int \<lfloor>x\<rfloor> + 1" using False of_int_floor_le [of x] by linarith+
  then have "\<lfloor>- x\<rfloor> = - \<lfloor>x\<rfloor> - 1" by (simp add: floor_eq_iff)
  then show ?thesis by (auto simp: round_even_def Let_def)
qed

lemma round_even_ge: "of_int n \<le> x \<Longrightarrow> n \<le> round_even x"
  using round_even_mono [of "of_int n" x] by simp

lemma powi2_less: "(2::rat) powi a < 2 powi b \<Longrightarrow> a < b"
  using power_int_increasing [of b a "2::rat"] by (meson leI not_less one_le_numeral)

lemma powi2_le: "(2::rat) powi a \<le> 2 powi b \<Longrightarrow> a \<le> b"
  using power_int_strict_increasing [of b a "2::rat"] by (meson leI not_less one_less_numeral_iff semiring_norm(76))

lemma f64_grid_multiple:
  assumes "f64_grid y" and "2 powi E \<le> \<bar>y\<bar> \<or> E \<le> -1022"
  shows "\<exists>n. y = of_int n * 2 powi (max E (-1022) - 52)"
proof -
  obtain m e where y: "y = of_int m * 2 powi e" "\<bar>m\<bar> < 2 ^ 53" "-1074 \<le> e" using assms(1) by (auto simp: f64_grid_def)
  have "max E (-1022) - 52 \<le> e"
  proof (cases "E \<le> -1022")
    case True
    then show ?thesis using y(3) by simp
  next
    case False
    then have "2 powi E \<le> \<bar>y\<bar>" using assms(2) by simp
    also have "\<dots> = of_int \<bar>m\<bar> * 2 powi e" by (simp add: y(1) abs_mult)
    also have "\<dots> < of_int (2 ^ 53) * 2 powi e" using y(2) by (intro mult_strict_right_mono) (simp_all only: of_int_less_iff zero_less_power_int zero_less_numeral)
    also have "\<dots> = 2 powi (53 + e)" by (simp add: power_int_add)
    finally have "E < 53 + e" by (rule powi2_less)
    then show ?thesis using False by simp
  qed
  then have "(2::rat) powi e = 2 ^ nat (e - (max E (-1022) - 52)) * 2 powi (max E (-1022) - 52)"
    by (simp flip: power_int_add power_int_nonneg_exp)
  then have "y = of_int (m * 2 ^ nat (e - (max E (-1022) - 52))) * 2 powi (max E (-1022) - 52)"
    by (simp add: y(1))
  then show ?thesis by blast
qed

lemma f64_grid_0 [simp]: "f64_grid 0"
  unfolding f64_grid_def by (intro exI [of _ 0]) simp

lemma f64_grid_powi: "-1074 \<le> e \<Longrightarrow> f64_grid (2 powi e)"
  unfolding f64_grid_def by (intro exI [of _ 1] exI [of _ e]) simp

lemma rnd_0 [simp]: "rnd 0 = 0"
  by (simp add: rnd_def round_even_def)

lemma rnd_minus: "rnd (- r) = - rnd r"
  by (simp add: rnd_def round_even_minus)

lemma rnd_ge_multiple: "y = of_int n * ulp r \<Longrightarrow> y \<le> r \<Longrightarrow> y \<le> rnd r"
  using round_even_ge [of n "r / ulp r"] by (simp add: rnd_def pos_le_divide_eq)

text \<open>A rounded number never crosses a number of the grid.\<close>

lemma rnd_ge:
  assumes "f64_grid y" and "y \<le> r"
  shows "y \<le> rnd r"
proof (cases "r = 0")
  case False
  note eb = exponent_bounds(1) [OF False]
  show ?thesis
  proof (cases "\<exists>n. y = of_int n * ulp r")
    case True
    then show ?thesis using rnd_ge_multiple assms(2) by blast
  next
    case n: False
    then have "\<not> (2 powi exponent r \<le> \<bar>y\<bar> \<or> exponent r \<le> -1022)"
      using f64_grid_multiple [OF assms(1), of "exponent r"] unfolding ulp_def by blast
    then have below: "\<not> 2 powi exponent r \<le> \<bar>y\<bar>" "exponent r > -1022" by linarith+
    then have "r > 0" using assms(2) eb by linarith
    moreover have "(2::rat) powi exponent r = of_int (2 ^ 52) * ulp r"
      using below(2) by (simp add: ulp_def power_int_diff)
    ultimately have "2 powi exponent r \<le> rnd r" using rnd_ge_multiple eb by (metis abs_of_pos)
    then show ?thesis using below(1) by linarith
  qed
qed (use assms in simp)

lemma f64_grid_minus [simp]: "f64_grid (- r) \<longleftrightarrow> f64_grid r"
proof -
  have minus: "f64_grid (- s)" if "f64_grid s" for s
  proof -
    from that obtain m e where "s = of_int m * 2 powi e" "\<bar>m\<bar> < 2 ^ 53" "-1074 \<le> e"
      unfolding f64_grid_def by blast
    then have "- s = of_int (- m) * 2 powi e" "\<bar>- m\<bar> < 2 ^ 53" "-1074 \<le> e"
      by (simp_all only: of_int_minus mult_minus_left abs_minus_cancel)
    then show ?thesis unfolding f64_grid_def by blast
  qed
  from minus [of r] minus [of "- r"] show ?thesis by (simp only: minus_minus) blast
qed

lemma rnd_le: "f64_grid y \<Longrightarrow> r \<le> y \<Longrightarrow> rnd r \<le> y"
  using rnd_ge [of "- y" "- r"] by (simp add: rnd_minus)

lemma rnd_exact: "f64_grid r \<Longrightarrow> rnd r = r"
  using rnd_ge [of r r] rnd_le [of r r] by simp

lemma rnd_mono_pos:
  assumes "0 < s" and "s \<le> t"
  shows "rnd s \<le> rnd t"
proof (cases "ulp s = ulp t")
  case True
  have "round_even (s / ulp s) \<le> round_even (t / ulp t)"
    using assms True by (intro round_even_mono) (simp add: divide_right_mono less_imp_le)
  then show ?thesis unfolding rnd_def True by (intro mult_right_mono) (simp_all add: less_imp_le)
next
  case False
  have b: "2 powi exponent s \<le> s" "s < 2 powi (exponent s + 1)" "2 powi exponent t \<le> t" "t < 2 powi (exponent t + 1)"
    using exponent_bounds [of s] exponent_bounds [of t] assms by auto
  then have "(2::rat) powi exponent s < 2 powi (exponent t + 1)" using assms(2) by linarith
  then have "exponent s < exponent t + 1" by (rule powi2_less)
  moreover have "exponent s \<noteq> exponent t" using False by (auto simp: ulp_def)
  ultimately have e1: "exponent s < exponent t" by linarith
  have "-1022 < exponent t"
  proof (rule ccontr)
    assume "\<not> -1022 < exponent t"
    then have "max (exponent s) (-1022) = max (exponent t) (-1022)" using e1 by linarith
    then show False using False by (simp add: ulp_def)
  qed
  note e = e1 this
  have "s < 2 powi (exponent s + 1)" by (rule b(2))
  also have "\<dots> \<le> 2 powi exponent t" using e(1) by (intro power_int_increasing) simp_all
  finally have "s \<le> 2 powi exponent t" by simp
  moreover have "f64_grid (2 powi exponent t)" using e(2) by (intro f64_grid_powi) simp
  ultimately show ?thesis using rnd_le rnd_ge b(3) by (meson order_trans)
qed

lemma rnd_mono:
  assumes "s \<le> t"
  shows "rnd s \<le> rnd t"
proof -
  consider "s \<le> 0" "0 \<le> t" | "0 < s" | "t < 0" using assms by linarith
  then show ?thesis
  proof cases
    case 1
    then show ?thesis using rnd_le [of 0 s] rnd_ge [of 0 t] by simp
  next
    case 2
    then show ?thesis using rnd_mono_pos assms by simp
  next
    case 3
    then show ?thesis using rnd_mono_pos [of "- t" "- s"] assms by (simp add: rnd_minus)
  qed
qed

lemma round64_exact [simp]: "f64_exact r \<Longrightarrow> round64 r = Fin r"
  by (simp add: round64_def f64_exact_def rnd_exact)

subsection \<open>Comparison\<close>

text \<open>Go's \<open>\<le>\<close> and \<open><\<close>: false when a side is not a number.\<close>

fun fle :: "float64 \<Rightarrow> float64 \<Rightarrow> bool" where
  "fle NaN _ = False"
| "fle _ NaN = False"
| "fle (Fin x) (Fin y) = (x \<le> y)"
| "fle (Inf a) (Inf b) = (a \<or> \<not> b)"
| "fle (Inf a) (Fin y) = a"
| "fle (Fin x) (Inf b) = (\<not> b)"

fun flt :: "float64 \<Rightarrow> float64 \<Rightarrow> bool" where
  "flt NaN _ = False"
| "flt _ NaN = False"
| "flt (Fin x) (Fin y) = (x < y)"
| "flt (Inf a) (Inf b) = (a \<and> \<not> b)"
| "flt (Inf a) (Fin y) = a"
| "flt (Fin x) (Inf b) = (\<not> b)"

lemma fle_trans: "fle a b \<Longrightarrow> fle b c \<Longrightarrow> fle a c"
  by (cases a; cases b; cases c) auto

lemma rnd_sign: "r < 0 \<Longrightarrow> rnd r \<le> 0" "0 \<le> r \<Longrightarrow> 0 \<le> rnd r"
  using rnd_le [of 0 r] rnd_ge [of 0 r] by auto

lemma round64_mono:
  assumes "a \<le> b"
  shows "fle (round64 a) (round64 b)"
  using rnd_mono [OF assms] assms rnd_sign [of a] rnd_sign [of b]
  by (cases "a < 0"; cases "b < 0") (auto simp: round64_def)

lemma round64_ge: "f64_exact y \<Longrightarrow> y \<le> r \<Longrightarrow> fle (Fin y) (round64 r)"
  using round64_mono [of y r] by simp

lemma round64_le: "f64_exact y \<Longrightarrow> r \<le> y \<Longrightarrow> fle (round64 r) (Fin y)"
  using round64_mono [of r y] by simp

lemma round64_not_NaN [simp]: "round64 r \<noteq> NaN"
  by (simp add: round64_def)

subsection \<open>Arithmetic\<close>

fun fneg :: "float64 \<Rightarrow> float64" where
  "fneg NaN = NaN"
| "fneg (Inf a) = Inf (\<not> a)"
| "fneg (Fin x) = Fin (- x)"

fun fadd :: "float64 \<Rightarrow> float64 \<Rightarrow> float64" where
  "fadd NaN _ = NaN"
| "fadd _ NaN = NaN"
| "fadd (Inf a) (Inf b) = (if a = b then Inf a else NaN)"
| "fadd (Inf a) (Fin y) = Inf a"
| "fadd (Fin x) (Inf b) = Inf b"
| "fadd (Fin x) (Fin y) = round64 (x + y)"

definition fsub :: "float64 \<Rightarrow> float64 \<Rightarrow> float64" where
  "fsub a b = fadd a (fneg b)"

fun fmul :: "float64 \<Rightarrow> float64 \<Rightarrow> float64" where
  "fmul NaN _ = NaN"
| "fmul _ NaN = NaN"
| "fmul (Inf a) (Inf b) = Inf (a \<noteq> b)"
| "fmul (Inf a) (Fin y) = (if y = 0 then NaN else Inf (a \<noteq> (y < 0)))"
| "fmul (Fin x) (Inf b) = (if x = 0 then NaN else Inf (b \<noteq> (x < 0)))"
| "fmul (Fin x) (Fin y) = round64 (x * y)"

text \<open>A zero divisor counts as positive.\<close>

fun fdiv :: "float64 \<Rightarrow> float64 \<Rightarrow> float64" where
  "fdiv NaN _ = NaN"
| "fdiv _ NaN = NaN"
| "fdiv (Inf a) (Inf b) = NaN"
| "fdiv (Inf a) (Fin y) = Inf (a \<noteq> (y < 0))"
| "fdiv (Fin x) (Inf b) = Fin 0"
| "fdiv (Fin x) (Fin y) = (if y = 0 then (if x = 0 then NaN else Inf (x < 0)) else round64 (x / y))"

fun ffloor :: "float64 \<Rightarrow> float64" where
  "ffloor (Fin x) = Fin (of_int \<lfloor>x\<rfloor>)"
| "ffloor a = a"

fun fceil :: "float64 \<Rightarrow> float64" where
  "fceil (Fin x) = Fin (of_int \<lceil>x\<rceil>)"
| "fceil a = a"

text \<open>\<open>math.Min\<close> and \<open>math.Max\<close>: an infinity of their direction wins, then not-a-number.\<close>

definition fmin :: "float64 \<Rightarrow> float64 \<Rightarrow> float64" where
  "fmin a b = (if a = Inf True \<or> b = Inf True then Inf True
     else if a = NaN \<or> b = NaN then NaN else if flt a b then a else b)"

definition fmax :: "float64 \<Rightarrow> float64 \<Rightarrow> float64" where
  "fmax a b = (if a = Inf False \<or> b = Inf False then Inf False
     else if a = NaN \<or> b = NaN then NaN else if flt b a then a else b)"

text \<open>The square root, rounded once: \<open>isqrt\<close> finds the last of the 53 bits, the comparison with the
midpoint decides the direction (a midpoint is never a square root of a representable number).\<close>

fun isqrt :: "nat \<Rightarrow> nat" where
  "isqrt n = (if n = 0 then 0
     else let r = 2 * isqrt (n div 4) in if (r + 1) * (r + 1) \<le> n then r + 1 else r)"

declare isqrt.simps [simp del]

definition sqrt_unit :: "rat \<Rightarrow> rat" where
  "sqrt_unit r = 2 powi (exponent r div 2 - 52)"

definition sqrt64 :: "rat \<Rightarrow> rat" where
  "sqrt64 r = (let u = sqrt_unit r; n = isqrt (nat \<lfloor>r / (u * u)\<rfloor>) in
     if r > (of_nat n + 1 / 2) * u * ((of_nat n + 1 / 2) * u) then of_nat (n + 1) * u else of_nat n * u)"

fun fsqrt :: "float64 \<Rightarrow> float64" where
  "fsqrt NaN = NaN"
| "fsqrt (Inf a) = (if a then NaN else Inf False)"
| "fsqrt (Fin x) = (if x < 0 then NaN else if x = 0 then Fin 0 else Fin (sqrt64 x))"

text \<open>Conversions.  Go leaves the result of converting a number that the integer type does not hold to
the implementation: it is an argument.\<close>

definition of_uint32 :: "uint32 \<Rightarrow> float64" where
  "of_uint32 n = Fin (of_nat (unat n))"

definition trunc :: "rat \<Rightarrow> int" where
  "trunc x = (if x < 0 then \<lceil>x\<rceil> else \<lfloor>x\<rfloor>)"

definition go_int :: "(float64 \<Rightarrow> int) \<Rightarrow> float64 \<Rightarrow> int" where
  "go_int other a = (case a of
     Fin x \<Rightarrow> if - (2 ^ 63) \<le> trunc x \<and> trunc x < 2 ^ 63 then trunc x else other a
   | _ \<Rightarrow> other a)"

definition go_uint :: "(float64 \<Rightarrow> nat) \<Rightarrow> float64 \<Rightarrow> nat" where
  "go_uint other a = (case a of
     Fin x \<Rightarrow> if 0 \<le> trunc x \<and> trunc x < 2 ^ 64 then nat (trunc x) else other a
   | _ \<Rightarrow> other a)"

subsection \<open>Integers among the floats\<close>

lemma f64_exact_of_int:
  assumes "\<bar>n\<bar> < 2 ^ 53"
  shows "f64_exact (of_int n)"
proof -
  have "(of_int \<bar>n\<bar> :: rat) < of_int (2 ^ 53)" using assms unfolding of_int_less_iff .
  also have "\<dots> < f64_limit" by (simp add: f64_limit_def)
  finally have "\<bar>of_int n :: rat\<bar> < f64_limit" by simp
  then show ?thesis using assms unfolding f64_exact_def f64_grid_def by (intro conjI exI [of _ n] exI [of _ 0]) simp_all
qed

lemma round64_of_int [simp]: "\<bar>n\<bar> < 2 ^ 53 \<Longrightarrow> round64 (of_int n) = Fin (of_int n)"
  by (simp add: f64_exact_of_int)

lemma of_uint32_bound: "\<bar>int (unat (n :: uint32))\<bar> < 2 ^ 53"
  using unsigned_less [where ?'a = int, of n] by simp

lemma isqrt_bounds: "isqrt n * isqrt n \<le> n \<and> n < (isqrt n + 1) * (isqrt n + 1)"
proof (induction n rule: isqrt.induct)
  case (1 n)
  show ?case
  proof (cases "n = 0")
    case True
    then show ?thesis by (simp add: isqrt.simps)
  next
    case False
    define m where "m = isqrt (n div 4)"
    have ih: "m * m \<le> n div 4" "n div 4 < (m + 1) * (m + 1)" using 1 False by (auto simp: m_def)
    then have "4 * (m * m) \<le> n" "n < 4 * ((m + 1) * (m + 1))" by linarith+
    moreover have "isqrt n = (if (2 * m + 1) * (2 * m + 1) \<le> n then 2 * m + 1 else 2 * m)"
      using False by (subst isqrt.simps) (simp add: m_def Let_def)
    ultimately show ?thesis by (auto simp: algebra_simps)
  qed
qed

lemma floor_quotient_ge:
  assumes "\<bar>k\<bar> < 2 ^ 53" and "0 < v" and "of_int k * v \<le> x" and "round64 (x / v) = Fin y"
  shows "k \<le> \<lfloor>y\<rfloor>"
proof -
  have "of_int k \<le> x / v" using assms(2,3) by (simp add: pos_le_divide_eq)
  from round64_ge [OF f64_exact_of_int [OF assms(1)] this] show ?thesis using assms(4) by (simp add: le_floor_iff)
qed

lemma bitlen_power:
  assumes "0 < d"
  shows "d \<le> 2 ^ nat (bitlen d)" and "2 ^ nat (bitlen d) \<le> 2 * d"
proof -
  have b: "2 ^ nat (bitlen d - 1) \<le> d" "d < 2 ^ nat (bitlen d)" using bitlen_bounds [OF assms] by auto
  have "bitlen d \<noteq> 0" "0 \<le> bitlen d" using assms bitlen_eq_zero_iff [of d] bitlen_nonneg [of d] by auto
  then have "nat (bitlen d) = Suc (nat (bitlen d - 1))" by linarith
  then show "2 ^ nat (bitlen d) \<le> 2 * d" using b by simp
  show "d \<le> 2 ^ nat (bitlen d)" using b by simp
qed

lemma div_bounds:
  assumes "0 < (d :: int)"
  shows "\<bar>n div d\<bar> * d \<le> \<bar>n\<bar> + d" and "\<bar>n div d + 1\<bar> * d \<le> \<bar>n\<bar> + 2 * d"
proof -
  have n: "n div d * d = n - n mod d" "0 \<le> n mod d" "n mod d < d"
    using assms by (simp_all add: minus_mod_eq_div_mult)
  have "\<bar>n div d\<bar> * d = \<bar>n div d * d\<bar>" using assms by (simp add: abs_mult)
  then show "\<bar>n div d\<bar> * d \<le> \<bar>n\<bar> + d" using n by linarith
  have "\<bar>n div d + 1\<bar> * d = \<bar>(n div d + 1) * d\<bar>" using assms by (simp add: abs_mult)
  then have "\<bar>n div d + 1\<bar> * d = \<bar>n div d * d + d\<bar>" by (simp only: distrib_right mult_1)
  then show "\<bar>n div d + 1\<bar> * d \<le> \<bar>n\<bar> + 2 * d" using n by linarith
qed

lemma f64_grid_dyadic: "\<bar>m\<bar> < 2 ^ 53 \<Longrightarrow> p \<le> 1074 \<Longrightarrow> f64_grid (of_int m / 2 ^ p)"
  unfolding f64_grid_def by (intro exI [of _ m] exI [of _ "- int p"]) (simp add: power_int_minus divide_inverse)

lemma abs_pred_less: "\<bar>m\<bar> < 2 ^ 52 \<Longrightarrow> \<bar>m - 1\<bar> < (2 ^ 53 :: int)"
  by simp

text \<open>The quotient of two integers, rounded and then rounded down, is the integer quotient, as long as
the numbers leave a bit of room.\<close>

lemma rnd_quotient_less:
  assumes "0 < d" and "2 * \<bar>n\<bar> + 4 * d < 2 ^ 52"
  shows "rnd (of_int n / of_int d) < of_int (n div d + 1)"
proof -
  let ?k = "n div d + 1"
  define p where "p = nat (bitlen d)"
  have p: "d \<le> 2 ^ p" "2 ^ p \<le> 2 * d" using bitlen_power [OF assms(1)] by (simp_all add: p_def)
  have "(2 :: int) ^ 53 = 2 * 2 ^ 52" by simp
  then have "(2 :: int) ^ p < 2 ^ 53" using p(2) assms by linarith
  then have p53: "p < 53" by (rule power_less_imp_less_exp [rotated]) simp
  have "\<bar>?k\<bar> * 2 ^ p \<le> \<bar>?k\<bar> * (2 * d)" using p(2) by (intro mult_left_mono) simp_all
  then have "\<bar>?k\<bar> * 2 ^ p < 2 ^ 52" using div_bounds(2) [OF assms(1), of n] assms(2) by linarith
  then have "\<bar>?k * 2 ^ p\<bar> < 2 ^ 52" by (simp add: abs_mult)
  then have grid: "f64_grid (of_int (?k * 2 ^ p - 1) / 2 ^ p)"
    using p53 by (intro f64_grid_dyadic abs_pred_less) simp_all
  have "n + 1 \<le> ?k * d" using assms(1) by (simp add: distrib_right minus_mod_eq_div_mult [symmetric] int_one_le_iff_zero_less)
  then have "(n + 1) * 2 ^ p \<le> ?k * d * 2 ^ p" by (intro mult_right_mono) simp_all
  then have "n * 2 ^ p \<le> (?k * 2 ^ p - 1) * d" using p(1) by (simp add: algebra_simps)
  then have "(of_int (n * 2 ^ p) :: rat) \<le> of_int ((?k * 2 ^ p - 1) * d)" unfolding of_int_le_iff .
  then have "of_int n / of_int d \<le> (of_int (?k * 2 ^ p - 1) / 2 ^ p :: rat)"
    using assms(1) by (simp add: pos_divide_le_eq pos_le_divide_eq mult.commute)
  from rnd_le [OF grid this] have "rnd (of_int n / of_int d) \<le> of_int (?k * 2 ^ p - 1) / 2 ^ p" .
  also have "\<dots> < of_int ?k" by (simp add: pos_divide_less_eq)
  finally show ?thesis .
qed

lemma floor_rnd_quotient:
  assumes "0 < d" and "2 * \<bar>n\<bar> + 4 * d < 2 ^ 52"
  shows "fdiv (Fin (of_int n)) (Fin (of_int d)) = Fin (rnd (of_int n / of_int d))"
    and "\<lfloor>rnd (of_int n / of_int d)\<rfloor> = n div d" and "\<bar>n div d\<bar> < 2 ^ 52"
proof -
  let ?k = "n div d"
  have "\<bar>?k\<bar> * 1 \<le> \<bar>?k\<bar> * d" using assms(1) by (intro mult_left_mono) simp_all
  then show k: "\<bar>?k\<bar> < 2 ^ 52" using div_bounds(1) [OF assms(1), of n] assms by linarith
  have "?k * d \<le> n" using assms(1) by (simp add: minus_mod_eq_div_mult [symmetric])
  then have "(of_int (?k * d) :: rat) \<le> of_int n" unfolding of_int_le_iff .
  then have "of_int ?k \<le> (of_int n / of_int d :: rat)" using assms(1) by (simp add: pos_le_divide_eq)
  moreover have "f64_grid (of_int ?k)" using f64_exact_of_int [of ?k] k by (simp add: f64_exact_def)
  ultimately have ge: "of_int ?k \<le> rnd (of_int n / of_int d)" by (rule rnd_ge [rotated])
  note less = rnd_quotient_less [OF assms]
  show "\<lfloor>rnd (of_int n / of_int d)\<rfloor> = ?k" using ge less by (simp add: floor_eq_iff)
  have "(of_int \<bar>?k\<bar> :: rat) \<le> of_int (2 ^ 52)" using k unfolding of_int_le_iff by simp
  then have "\<bar>rnd (of_int n / of_int d)\<bar> \<le> 2 ^ 52 + 1" using ge less by simp
  moreover have "(2 ^ 52 + 1 :: rat) < f64_limit" by (simp add: f64_limit_def)
  ultimately have "\<bar>rnd (of_int n / of_int d)\<bar> < f64_limit" by linarith
  then show "fdiv (Fin (of_int n)) (Fin (of_int d)) = Fin (rnd (of_int n / of_int d))"
    using assms(1) by (simp add: round64_def)
qed

end
