(* ===== verification/Types.thy ===== *)
theory Types
  imports GoUtil Fsm EventBus Float64
begin

text \<open>
  The data of the gateway: the protobuf enumerations and messages of \<open>pkg/channeldpb\<close> that the core
  handles, and the structs of \<open>pkg/channeld\<close> (\<open>Connection\<close>, \<open>Channel\<close>, \<open>ChannelData\<close>,
  \<open>ChannelSubscription\<close>, the settings), with one record for the process state that the Go code keeps
  in package variables.

  Go pointers to connections, channels, recovery handles and entity groups are natural numbers into
  total stores (\<open>w_conn\<close>, \<open>w_chan\<close>, ...): a pointer the program holds never dangles, and whether an
  object is still registered is what \<open>allConnections\<close> and \<open>allChannels\<close> say.  An enumeration is the
  integer it is on the wire, since a peer can send any value.  Times are nanoseconds.
\<close>

subsection \<open>Enumerations\<close>

type_synonym ChannelType = int
type_synonym ConnectionType = int
type_synonym CompressionType = int
type_synonym AuthResult = int
type_synonym DataAccess = int
type_synonym MessageType = uint32
type_synonym ChannelTime = int
type_synonym ConnPtr = nat
type_synonym ChanPtr = nat
type_synonym HandlePtr = nat
type_synonym GroupPtr = nat

definition ConnectionType_SERVER :: ConnectionType where [simp]: "ConnectionType_SERVER = 1"
definition ConnectionType_CLIENT :: ConnectionType where [simp]: "ConnectionType_CLIENT = 2"

definition ChannelType_UNKNOWN :: ChannelType where [simp]: "ChannelType_UNKNOWN = 0"
definition ChannelType_GLOBAL :: ChannelType where [simp]: "ChannelType_GLOBAL = 1"
definition ChannelType_SUBWORLD :: ChannelType where [simp]: "ChannelType_SUBWORLD = 3"
definition ChannelType_SPATIAL :: ChannelType where [simp]: "ChannelType_SPATIAL = 4"
definition ChannelType_ENTITY :: ChannelType where [simp]: "ChannelType_ENTITY = 5"

definition AuthResult_SUCCESSFUL :: AuthResult where [simp]: "AuthResult_SUCCESSFUL = 0"
definition AuthResult_INVALID_PIT :: AuthResult where [simp]: "AuthResult_INVALID_PIT = 1"
definition AuthResult_INVALID_LT :: AuthResult where [simp]: "AuthResult_INVALID_LT = 2"

definition DataAccess_NO_ACCESS :: DataAccess where [simp]: "DataAccess_NO_ACCESS = 0"
definition DataAccess_READ_ACCESS :: DataAccess where [simp]: "DataAccess_READ_ACCESS = 1"
definition DataAccess_WRITE_ACCESS :: DataAccess where [simp]: "DataAccess_WRITE_ACCESS = 2"

definition Compression_NO :: CompressionType where [simp]: "Compression_NO = 0"
definition Compression_SNAPPY :: CompressionType where [simp]: "Compression_SNAPPY = 1"

definition Broadcast_NO :: uint32 where [simp]: "Broadcast_NO = 0"
definition Broadcast_SINGLE_CONNECTION :: uint32 where [simp]: "Broadcast_SINGLE_CONNECTION = 1"
definition Broadcast_ALL :: uint32 where [simp]: "Broadcast_ALL = 2"
definition Broadcast_ALL_BUT_SENDER :: uint32 where [simp]: "Broadcast_ALL_BUT_SENDER = 4"
definition Broadcast_ALL_BUT_OWNER :: uint32 where [simp]: "Broadcast_ALL_BUT_OWNER = 8"
definition Broadcast_ALL_BUT_CLIENT :: uint32 where [simp]: "Broadcast_ALL_BUT_CLIENT = 16"
definition Broadcast_ALL_BUT_SERVER :: uint32 where [simp]: "Broadcast_ALL_BUT_SERVER = 32"
definition Broadcast_ADJACENT_CHANNELS :: uint32 where [simp]: "Broadcast_ADJACENT_CHANNELS = 64"

text \<open>\<open>BroadcastType.Check\<close>: is the flag set in the value?\<close>

definition bcheck :: "uint32 \<Rightarrow> uint32 \<Rightarrow> bool" where
  "bcheck flag v \<longleftrightarrow> and v flag > 0"

definition MessageType_AUTH :: MessageType where [simp]: "MessageType_AUTH = 1"
definition MessageType_CREATE_CHANNEL :: MessageType where [simp]: "MessageType_CREATE_CHANNEL = 3"
definition MessageType_REMOVE_CHANNEL :: MessageType where [simp]: "MessageType_REMOVE_CHANNEL = 4"
definition MessageType_LIST_CHANNEL :: MessageType where [simp]: "MessageType_LIST_CHANNEL = 5"
definition MessageType_SUB_TO_CHANNEL :: MessageType where [simp]: "MessageType_SUB_TO_CHANNEL = 6"
definition MessageType_UNSUB_FROM_CHANNEL :: MessageType where
  [simp]: "MessageType_UNSUB_FROM_CHANNEL = 7"
definition MessageType_CHANNEL_DATA_UPDATE :: MessageType where
  [simp]: "MessageType_CHANNEL_DATA_UPDATE = 8"
definition MessageType_DISCONNECT :: MessageType where [simp]: "MessageType_DISCONNECT = 9"
definition MessageType_CREATE_SPATIAL_CHANNEL :: MessageType where
  [simp]: "MessageType_CREATE_SPATIAL_CHANNEL = 10"
definition MessageType_QUERY_SPATIAL_CHANNEL :: MessageType where
  [simp]: "MessageType_QUERY_SPATIAL_CHANNEL = 11"
definition MessageType_SPATIAL_REGIONS_UPDATE :: MessageType where
  [simp]: "MessageType_SPATIAL_REGIONS_UPDATE = 13"
definition MessageType_UPDATE_SPATIAL_INTEREST :: MessageType where
  [simp]: "MessageType_UPDATE_SPATIAL_INTEREST = 14"
definition MessageType_CREATE_ENTITY_CHANNEL :: MessageType where
  [simp]: "MessageType_CREATE_ENTITY_CHANNEL = 15"
definition MessageType_ENTITY_GROUP_ADD :: MessageType where [simp]: "MessageType_ENTITY_GROUP_ADD = 16"
definition MessageType_ENTITY_GROUP_REMOVE :: MessageType where
  [simp]: "MessageType_ENTITY_GROUP_REMOVE = 17"
definition MessageType_RECOVERY_CHANNEL_DATA :: MessageType where
  [simp]: "MessageType_RECOVERY_CHANNEL_DATA = 20"
definition MessageType_RECOVERY_END :: MessageType where [simp]: "MessageType_RECOVERY_END = 21"
definition MessageType_CHANNEL_OWNER_LOST :: MessageType where
  [simp]: "MessageType_CHANNEL_OWNER_LOST = 22"
definition MessageType_CHANNEL_OWNER_RECOVERED :: MessageType where
  [simp]: "MessageType_CHANNEL_OWNER_RECOVERED = 23"
definition MessageType_DEBUG_GET_SPATIAL_REGIONS :: MessageType where
  [simp]: "MessageType_DEBUG_GET_SPATIAL_REGIONS = 99"
definition MessageType_USER_SPACE_START :: MessageType where
  [simp]: "MessageType_USER_SPACE_START = 100"

definition GlobalChannelId :: uint32 where [simp]: "GlobalChannelId = 0"

text \<open>The states of a connection.\<close>

definition ConnectionState_UNAUTHENTICATED :: int where [simp]: "ConnectionState_UNAUTHENTICATED = 0"
definition ConnectionState_AUTHENTICATED :: int where [simp]: "ConnectionState_AUTHENTICATED = 1"
definition ConnectionState_CLOSING :: int where [simp]: "ConnectionState_CLOSING = 2"

subsection \<open>Messages\<close>

text \<open>The subscription options: an absent \<open>optional\<close> field is \<open>None\<close> (a nil pointer in Go).\<close>

record ChannelSubscriptionOptions =
  so_DataAccess :: "DataAccess option"
  so_DataFieldMasks :: "string list"
  so_FanOutIntervalMs :: "uint32 option"
  so_FanOutDelayMs :: "int option"
  so_SkipSelfUpdateFanOut :: "bool option"
  so_SkipFirstFanOut :: "bool option"

record ChannelDataMergeOptions =
  mo_ShouldReplaceList :: bool
  mo_ListSizeLimit :: uint32
  mo_TruncateTop :: bool
  mo_ShouldCheckRemovableMapField :: bool

text \<open>
  A channel data message, as far as \<open>protoreflect\<close> shows it to \<open>data.go\<close>: the type name and the
  populated fields in the order of \<open>Range\<close>.  A value is opaque but for whether it is a message, whether
  it implements \<open>RemovableMapField\<close> and, if so, what \<open>GetRemoved\<close> says.
\<close>

record PValue =
  pv_repr :: int
  pv_isMessage :: bool
  pv_removed :: "bool option"

datatype PField = FScalar PValue | FList "PValue list" | FMap "(int \<times> PValue) list"

record DataMsg =
  dm_type :: string
  dm_fields :: "(string \<times> PField) list"

text \<open>A packed \<open>google.protobuf.Any\<close>.\<close>

record AnyMsg =
  any_TypeUrl :: string
  any_Value :: "byte list"

record SpatialInfo =
  si_X :: float64
  si_Y :: float64
  si_Z :: float64

text \<open>The query of an interest update: each of the areas may be there or not.\<close>

record SpotsAOI =
  spots_Spots :: "SpatialInfo list"
  spots_Dists :: "uint32 list"

record BoxAOI =
  box_Center :: "SpatialInfo option"
  box_Extent :: "SpatialInfo option"

record SphereAOI =
  sphere_Center :: "SpatialInfo option"
  sphere_Radius :: float64

record ConeAOI =
  cone_Center :: "SpatialInfo option"
  cone_Direction :: "SpatialInfo option"
  cone_Angle :: float64
  cone_Radius :: float64

record SpatialInterestQuery =
  q_SpotsAOI :: "SpotsAOI option"
  q_BoxAOI :: "BoxAOI option"
  q_SphereAOI :: "SphereAOI option"
  q_ConeAOI :: "ConeAOI option"

record SpatialRegion =
  sr_Min :: SpatialInfo
  sr_Max :: SpatialInfo
  sr_ChannelId :: uint32
  sr_ServerIndex :: uint32

record ChannelInfo =
  ci_ChannelId :: uint32
  ci_ChannelType :: ChannelType
  ci_Metadata :: string

text \<open>The protobuf messages that the core sends or handles, with their fields in order; \<open>NilMsg\<close> is a
nil \<open>Message\<close>.\<close>

datatype Msg =
    NilMsg
  | AuthMessage string string
  | AuthResultMessage AuthResult uint32 CompressionType bool
  | CreateChannelMessage ChannelType string "ChannelSubscriptionOptions option" "AnyMsg option"
      "ChannelDataMergeOptions option"
  | CreateChannelResultMessage ChannelType string uint32 uint32
  | RemoveChannelMessage uint32
  | ListChannelMessage ChannelType "string list"
  | ListChannelResultMessage "ChannelInfo list"
  | SubscribedToChannelMessage uint32 "ChannelSubscriptionOptions option"
  | SubscribedToChannelResultMessage uint32 ChannelSubscriptionOptions ConnectionType ChannelType
  | UnsubscribedFromChannelMessage uint32
  | UnsubscribedFromChannelResultMessage uint32 ConnectionType ChannelType
  | ChannelDataUpdateMessage "AnyMsg option" uint32
  | DisconnectMessage uint32
  | ChannelDataRecoveryMessage uint32 ChannelType string uint32 int ChannelSubscriptionOptions
      AnyMsg "AnyMsg option"
  | EndRecoveryMesssage
  | ChannelOwnerLostMessage
  | ChannelOwnerRecoveredMessage
  | ServerForwardMessage uint32 "byte list"
  | CreateSpatialChannelsResultMessage "uint32 list" string uint32
  | QuerySpatialChannelMessage "SpatialInfo list"
  | QuerySpatialChannelResultMessage "uint32 list"
  | SpatialRegionsUpdateMessage "SpatialRegion list"
  | UpdateSpatialInterestMessage uint32 "SpatialInterestQuery option"
  | SpatialChannelsReadyMessage uint32 uint32
  | ChannelDataHandoverMessage uint32 uint32 AnyMsg uint32
  | CreateEntityChannelMessage uint32 string "ChannelSubscriptionOptions option" "AnyMsg option"
      "ChannelDataMergeOptions option" bool
  | AddEntityGroupMessage int "uint32 list"
  | RemoveEntityGroupMessage int "uint32 list"
  | DebugGetSpatialRegionsMessage
  | UserMessage uint32 "byte list"

text \<open>A message pack: the body is bytes on the wire, and still the message in a send queue of the
model (marshalling is a parameter).\<close>

record 'b MessagePack =
  mp_ChannelId :: uint32
  mp_Broadcast :: uint32
  mp_StubId :: uint32
  mp_MsgType :: uint32
  mp_MsgBody :: 'b

subsection \<open>Connections\<close>

text \<open>The interface \<open>ConnectionInChannel\<close>: nil, a nil \<open>*Connection\<close> inside the interface, or a
connection.  HOL equality is Go's \<open>==\<close> on such values.\<close>

datatype ConnRef = NilIface | NilConn | Conn ConnPtr

fun conn_deref :: "ConnRef \<Rightarrow> ConnPtr option" where
  "conn_deref (Conn p) = Some p"
| "conn_deref _ = None"

record connectionRecoverHandle =
  rh_prevConnId :: uint32
  rh_disconnTime :: int
  rh_newConn :: "ConnPtr option"
  rh_startRecoveryTime :: int

record ReplayPacket =
  rp_OffsetTime :: int
  rp_Packet :: "byte list MessagePack list"

record Connection =
  c_id :: uint32
  c_connectionType :: ConnectionType
  c_compressionType :: CompressionType
  c_remoteAddr :: NetAddr
  c_readBuffer :: "byte list"
  c_readPos :: nat
  c_sendQueue :: "Msg MessagePack list"
  c_oversizedMsgPack :: "Msg MessagePack option"
  c_pit :: string
  c_fsm :: FiniteStateMachine
  c_fsmDisallowedCounter :: int
  c_state :: int
  c_connTime :: int
  c_closeHandlers :: "nat list"
  c_replaySession :: "ReplayPacket list option"
  c_spatialSubscriptions :: "(uint32 \<times> ChanPtr) list"
  c_recoverHandle :: "HandlePtr option"
  c_written :: "byte list list"

subsection \<open>Channels\<close>

text \<open>The message handlers of \<open>message.go\<close>, \<open>message_spatial.go\<close>, \<open>entity.go\<close> and
\<open>message_debug.go\<close>; the two callbacks that a handover passes to \<open>Execute\<close>; and \<open>H_User\<close>, a handler
the application registers or a callback it passes to \<open>Execute\<close>.\<close>

datatype Handler =
    H_Auth | H_CreateChannel | H_RemoveChannel | H_ListChannel | H_SubToChannel | H_UnsubFromChannel
  | H_ChannelDataUpdate | H_Disconnect | H_QuerySpatialChannel | H_GetSpatialRegions
  | H_UpdateSpatialInterest | H_CreateEntityChannel | H_AddEntityGroup | H_RemoveEntityGroup
  | H_ClientToServerUser | H_ServerToClientUser
  | H_RemoveEntities ChanPtr "uint32 list" | H_AddEntities ChanPtr "(uint32 \<times> ChanPtr option) list" | H_User nat

record MessageContext =
  x_MsgType :: MessageType
  x_Msg :: Msg
  x_Broadcast :: uint32
  x_StubId :: uint32
  x_ChannelId :: uint32
  x_Connection :: ConnRef
  x_Channel :: "ChanPtr option"
  x_arrivalTime :: ChannelTime

record channelMessage =
  cm_ctx :: MessageContext
  cm_handler :: Handler

record ChannelSubscription =
  cs_options :: ChannelSubscriptionOptions
  cs_subTime :: ChannelTime
  cs_fanOutElement :: nat

text \<open>An element of \<open>fanOutQueue\<close> carries the identity of its \<open>list.Element\<close>.\<close>

record fanOutConnection =
  foc_elem :: nat
  foc_conn :: ConnRef
  foc_hadFirstFanOut :: bool
  foc_lastFanOutTime :: ChannelTime
  foc_lastMessageIndex :: "64 word"

text \<open>A buffered update is the message itself, or the very object that is also the channel data
(\<open>OnUpdate\<close> stores the first update of an empty channel in both places).\<close>

datatype UpdateRef = UpdVal DataMsg | UpdAliasMsg

record updateMsgBufferElement =
  be_updateMsg :: UpdateRef
  be_arrivalTime :: ChannelTime
  be_senderConnId :: uint32
  be_messageIndex :: "64 word"

record ChannelData =
  d_mergeOptions :: "ChannelDataMergeOptions option"
  d_msg :: "DataMsg option"
  d_accumulatedUpdateMsg :: "DataMsg option"
  d_updateMsgBuffer :: "updateMsgBufferElement list"
  d_maxFanOutIntervalMs :: uint32
  d_msgIndex :: "64 word"
  d_extension :: "nat option"

record recoverableSubscription =
  rs_connHandle :: HandlePtr
  rs_isOwner :: bool
  rs_oldSubTime :: int
  rs_oldSubOptions :: ChannelSubscriptionOptions

record FlatEntityGroupController =
  ec_entityId :: uint32
  ec_handoverGroup :: "GroupPtr option"
  ec_lockGroup :: "GroupPtr option"

record Channel =
  ch_id :: uint32
  ch_channelType :: ChannelType
  ch_state :: nat
  ch_ownerConnection :: ConnRef
  ch_subscribedConnections :: "(ConnRef \<times> ChannelSubscription) list"
  ch_metadata :: string
  ch_data :: "ChannelData option"
  ch_latestDataUpdateConnId :: uint32
  ch_spatialNotifier :: bool
  ch_entityController :: "FlatEntityGroupController option"
  ch_inMsgQueue :: "channelMessage list"
  ch_inMsgQueueClosed :: bool
  ch_fanOutQueue :: "fanOutConnection list"
  ch_nextElement :: nat
  ch_startTime :: int
  ch_tickInterval :: int
  ch_tickFrames :: nat
  ch_enableClientBroadcast :: bool
  ch_removing :: int
  ch_recoverableSubs :: "(string \<times> recoverableSubscription) list"

subsection \<open>Settings\<close>

record ACLSettingsType =
  acl_Sub :: nat
  acl_Unsub :: nat
  acl_Remove :: nat

record ChannelSettingsType =
  cst_TickIntervalMs :: nat
  cst_DefaultFanOutIntervalMs :: uint32
  cst_DefaultFanOutDelayMs :: int
  cst_RemoveChannelAfterOwnerRemoved :: bool
  cst_SendOwnerLostAndRecovered :: bool
  cst_ACLSettings :: ACLSettingsType
  cst_DataMsgFullName :: string

record GlobalSettingsType =
  gs_Development :: bool
  gs_ServerReadBufferSize :: nat
  gs_ServerBypassAuth :: bool
  gs_ServerConnRecoverable :: bool
  gs_ServerConnRecoverTimeoutMs :: int
  gs_ClientReadBufferSize :: nat
  gs_CompressionType :: CompressionType
  gs_MaxConnectionIdBits :: nat
  gs_ConnectionAuthTimeoutMs :: int
  gs_MaxFailedAuthAttempts :: int
  gs_MaxFsmDisallowed :: int
  gs_SpatialChannelIdStart :: uint32
  gs_EntityChannelIdStart :: uint32
  gs_ChannelSettings :: "ChannelType \<rightharpoonup> ChannelSettingsType"
  gs_EnableRecordPacket :: bool

text \<open>The zero value of \<open>ChannelSettingsType\<close>, and the built-in settings.\<close>

definition zero_channel_settings :: ChannelSettingsType where
  "zero_channel_settings = \<lparr>cst_TickIntervalMs = 0, cst_DefaultFanOutIntervalMs = 0,
     cst_DefaultFanOutDelayMs = 0, cst_RemoveChannelAfterOwnerRemoved = False,
     cst_SendOwnerLostAndRecovered = False,
     cst_ACLSettings = \<lparr>acl_Sub = 0, acl_Unsub = 0, acl_Remove = 0\<rparr>, cst_DataMsgFullName = []\<rparr>"

definition default_settings :: GlobalSettingsType where
  "default_settings = \<lparr>gs_Development = False, gs_ServerReadBufferSize = 0x1ffff,
     gs_ServerBypassAuth = True, gs_ServerConnRecoverable = False,
     gs_ServerConnRecoverTimeoutMs = 0, gs_ClientReadBufferSize = 0x1ffff,
     gs_CompressionType = Compression_NO, gs_MaxConnectionIdBits = 31,
     gs_ConnectionAuthTimeoutMs = 5000, gs_MaxFailedAuthAttempts = 5, gs_MaxFsmDisallowed = 10,
     gs_SpatialChannelIdStart = 0x00010000, gs_EntityChannelIdStart = 0x00080000,
     gs_ChannelSettings = [ChannelType_GLOBAL \<mapsto> zero_channel_settings
       \<lparr>cst_TickIntervalMs := 10, cst_DefaultFanOutIntervalMs := 20\<rparr>],
     gs_EnableRecordPacket = False\<rparr>"

definition GetChannelSettings :: "GlobalSettingsType \<Rightarrow> ChannelType \<Rightarrow> ChannelSettingsType" where
  "GetChannelSettings s t = (case gs_ChannelSettings s t of
     Some settings \<Rightarrow> settings
   | None \<Rightarrow> (case gs_ChannelSettings s ChannelType_GLOBAL of
       Some settings \<Rightarrow> settings
     | None \<Rightarrow> zero_channel_settings))"

subsection \<open>The process\<close>

text \<open>
  Listeners of \<open>Event_AuthComplete\<close> and \<open>Event_FsmDisallowed\<close>: the anti-DDoS module, the hook of a
  well-known entity channel, or the application's.  The other events have only listeners of the
  application: their broadcasts are recorded in the log of the world.
\<close>

datatype Listener = L_AntiDDoS | L_WellKnownEntity ChanPtr | L_User nat

datatype AuthProvider =
    LoggingAuthProvider | AlwaysFailAuthProvider | FixedPasswordAuthProvider string | CustomAuthProvider nat

text \<open>One call of \<open>SpatialInfoChangedNotifier.Notify\<close> made by a merge.\<close>

record NotifyCall =
  nc_oldInfo :: SpatialInfo
  nc_newInfo :: SpatialInfo
  nc_entityId :: uint32

datatype LogEvent =
    EvGlobalChannelPossessed ChanPtr
  | EvGlobalChannelUnpossessed
  | EvChannelCreated ChanPtr
  | EvChannelRemoving ChanPtr
  | EvChannelRemoved uint32
  | EvEntityChannelSpatiallyOwned ChanPtr ChanPtr
  | EvCloseHandler nat
  | EvUserListener nat
  | EvUserHandler nat MessageContext
  | EvNotify ChanPtr NotifyCall

text \<open>A goroutine that has been started and has not run: the authentication of a connection, and the
broadcast that a channel's owner is back, due at a time.\<close>

datatype Task = T_DoAuth MessageContext string string | T_OwnerRecovered ChanPtr int

record World =
  w_conn :: "ConnPtr \<Rightarrow> Connection"
  w_nconn :: nat
  w_chan :: "ChanPtr \<Rightarrow> Channel"
  w_nchan :: nat
  w_handle :: "HandlePtr \<Rightarrow> connectionRecoverHandle"
  w_nhandle :: nat
  w_group :: "GroupPtr \<Rightarrow> uint32 list"
  w_ngroup :: nat
  w_allConnections :: "(uint32 \<times> ConnPtr) list"
  w_nextConnectionId :: uint32
  w_serverFsm :: "FiniteStateMachine option"
  w_clientFsm :: "FiniteStateMachine option"
  w_unauthenticatedConnections :: "(uint32 \<times> ConnPtr) list"
  w_connectionRecoverHandles :: "(string \<times> HandlePtr) list"
  w_allChannels :: "(uint32 \<times> ChanPtr) list"
  w_globalChannel :: "ChanPtr option"
  w_nextChannelId :: uint32
  w_nextSpatialChannelId :: uint32
  w_nonSpatialChannelFull :: bool
  w_spatialChannelFull :: bool
  w_channelDataTypeRegistery :: "ChannelType \<rightharpoonup> DataMsg"
  w_channelDataExtensionRegistery :: "ChannelType \<rightharpoonup> nat"
  w_failedAuthCounters :: "string \<rightharpoonup> int"
  w_ipBlacklist :: "string \<rightharpoonup> int"
  w_pitBlacklist :: "string \<rightharpoonup> int"
  w_authProvider :: "AuthProvider option"
  w_Event_AuthComplete :: "(ChanPtr, Listener) Event"
  w_Event_FsmDisallowed :: "(ChanPtr, Listener) Event"
  w_settings :: GlobalSettingsType
  w_serverConnections :: "ConnRef list option"
  w_now :: int
  w_tasks :: "Task list"
  w_log :: "LogEvent list"

text \<open>What the core takes from outside: protobuf and snappy, the application's merge functions and
authentication, and the spatial controller the process was started with (if any).\<close>

record SpatialCtl =
  sp_GetChannelId :: "World \<Rightarrow> SpatialInfo \<Rightarrow> uint32 \<times> bool"
  sp_QueryChannelIds :: "World \<Rightarrow> SpatialInterestQuery option \<Rightarrow> (uint32 \<times> nat) list option option"
  sp_GetRegions :: "World \<Rightarrow> SpatialRegion list option option"
  sp_GetAdjacentChannels :: "World \<Rightarrow> uint32 \<Rightarrow> uint32 list option option"
  sp_CreateChannels :: "MessageContext \<Rightarrow> World \<Rightarrow> (World \<times> ChanPtr list option) option"
  sp_Tick :: "World \<Rightarrow> World option"
  sp_Notify :: "NotifyCall \<Rightarrow> World \<Rightarrow> World option"

record Externs =
  ex_unmarshalMsg :: "MessageType \<Rightarrow> byte list \<Rightarrow> Msg option"
  ex_marshalOk :: "Msg \<Rightarrow> bool"
  ex_packSize :: "Msg MessagePack \<Rightarrow> nat"
  ex_packetSize :: "Msg MessagePack list \<Rightarrow> nat"
  ex_marshalPacket :: "Msg MessagePack list \<Rightarrow> byte list option"
  ex_unmarshalPacket :: "byte list \<Rightarrow> byte list MessagePack list option"
  ex_snappyDecodedLen :: "byte list \<Rightarrow> nat option"
  ex_snappyDecode :: "byte list \<Rightarrow> byte list option"
  ex_snappyEncode :: "byte list \<Rightarrow> byte list"
  ex_mergeSubOptions :: "ChannelSubscriptionOptions \<Rightarrow> ChannelSubscriptionOptions \<Rightarrow> ChannelSubscriptionOptions"
  ex_unmarshalAny :: "AnyMsg \<Rightarrow> DataMsg option"
  ex_anyNew :: "DataMsg \<Rightarrow> AnyMsg option"
  ex_protoMerge :: "DataMsg \<Rightarrow> DataMsg \<Rightarrow> DataMsg"
  ex_protoNew :: "DataMsg \<Rightarrow> DataMsg"
  ex_protoReset :: "DataMsg \<Rightarrow> DataMsg"
  ex_filter :: "string list \<Rightarrow> DataMsg \<Rightarrow> DataMsg"
  ex_isMergeable :: "DataMsg \<Rightarrow> bool"
  ex_customMerge :: "DataMsg \<Rightarrow> DataMsg \<Rightarrow> ChannelDataMergeOptions \<Rightarrow> bool \<Rightarrow> DataMsg \<times> NotifyCall list"
  ex_initData :: "DataMsg \<Rightarrow> (DataMsg \<times> bool) option"
  ex_spatialInfoOf :: "DataMsg \<Rightarrow> SpatialInfo option"
  ex_recoveryData :: "nat \<Rightarrow> DataMsg option"
  ex_customAuth :: "nat \<Rightarrow> uint32 \<Rightarrow> string \<Rightarrow> string \<Rightarrow> AuthResult option"
  ex_mergeTo :: "DataMsg \<Rightarrow> DataMsg \<Rightarrow> bool \<Rightarrow> DataMsg option"
  ex_isEntityUpdater :: "DataMsg \<Rightarrow> bool"
  ex_addEntity :: "uint32 \<Rightarrow> DataMsg \<Rightarrow> DataMsg \<Rightarrow> DataMsg"
  ex_removeEntity :: "uint32 \<Rightarrow> DataMsg \<Rightarrow> DataMsg"
  ex_cos :: "float64 \<Rightarrow> float64"
  ex_floatToInt :: "float64 \<Rightarrow> int"
  ex_floatToUint :: "float64 \<Rightarrow> nat"
  ex_spatial :: "SpatialCtl option"

subsection \<open>Updating one object of a store\<close>

definition upd_conn :: "ConnPtr \<Rightarrow> (Connection \<Rightarrow> Connection) \<Rightarrow> World \<Rightarrow> World" where
  "upd_conn p f w = w\<lparr>w_conn := (w_conn w)(p := f (w_conn w p))\<rparr>"

definition upd_chan :: "ChanPtr \<Rightarrow> (Channel \<Rightarrow> Channel) \<Rightarrow> World \<Rightarrow> World" where
  "upd_chan p f w = w\<lparr>w_chan := (w_chan w)(p := f (w_chan w p))\<rparr>"

definition upd_handle ::
  "HandlePtr \<Rightarrow> (connectionRecoverHandle \<Rightarrow> connectionRecoverHandle) \<Rightarrow> World \<Rightarrow> World" where
  "upd_handle p f w = w\<lparr>w_handle := (w_handle w)(p := f (w_handle w p))\<rparr>"

definition upd_group :: "GroupPtr \<Rightarrow> (uint32 list \<Rightarrow> uint32 list) \<Rightarrow> World \<Rightarrow> World" where
  "upd_group p f w = w\<lparr>w_group := (w_group w)(p := f (w_group w p))\<rparr>"

definition log_event :: "LogEvent \<Rightarrow> World \<Rightarrow> World" where
  "log_event e w = w\<lparr>w_log := w_log w @ [e]\<rparr>"

text \<open>
  A concrete environment for the witnesses: every message marshals to ten bytes, a body starting with
  255 does not unmarshal and any other is one message pack of that body, subscription options merge
  field by field as protobuf specifies, and data messages merge by concatenation.
\<close>

definition opt_or :: "'a option \<Rightarrow> 'a option \<Rightarrow> 'a option" where
  "opt_or a b = (case a of None \<Rightarrow> b | Some _ \<Rightarrow> a)"

definition merge_sub_options ::
  "ChannelSubscriptionOptions \<Rightarrow> ChannelSubscriptionOptions \<Rightarrow> ChannelSubscriptionOptions" where
  "merge_sub_options dst src = \<lparr>
     so_DataAccess = opt_or (so_DataAccess src) (so_DataAccess dst),
     so_DataFieldMasks = so_DataFieldMasks dst @ so_DataFieldMasks src,
     so_FanOutIntervalMs = opt_or (so_FanOutIntervalMs src) (so_FanOutIntervalMs dst),
     so_FanOutDelayMs = opt_or (so_FanOutDelayMs src) (so_FanOutDelayMs dst),
     so_SkipSelfUpdateFanOut = opt_or (so_SkipSelfUpdateFanOut src) (so_SkipSelfUpdateFanOut dst),
     so_SkipFirstFanOut = opt_or (so_SkipFirstFanOut src) (so_SkipFirstFanOut dst)\<rparr>"

definition demo_externs :: Externs where
  "demo_externs = \<lparr>
     ex_unmarshalMsg = (\<lambda>t bs. Some (UserMessage t bs)),
     ex_marshalOk = (\<lambda>m. True),
     ex_packSize = (\<lambda>mp. 10),
     ex_packetSize = (\<lambda>mps. 12 * length mps),
     ex_marshalPacket = (\<lambda>mps. Some (replicate (12 * length mps) 1)),
     ex_unmarshalPacket = (\<lambda>bs. case bs of [] \<Rightarrow> Some []
       | b # _ \<Rightarrow> if b = 255 then None
           else Some [\<lparr>mp_ChannelId = 0, mp_Broadcast = 0, mp_StubId = 0, mp_MsgType = 100, mp_MsgBody = bs\<rparr>]),
     ex_snappyDecodedLen = (\<lambda>bs. Some (length bs)),
     ex_snappyDecode = (\<lambda>bs. Some bs),
     ex_snappyEncode = (\<lambda>bs. bs),
     ex_mergeSubOptions = merge_sub_options,
     ex_unmarshalAny = (\<lambda>a. Some \<lparr>dm_type = any_TypeUrl a, dm_fields = []\<rparr>),
     ex_anyNew = (\<lambda>m. Some \<lparr>any_TypeUrl = dm_type m, any_Value = []\<rparr>),
     ex_protoMerge = (\<lambda>dst src. dst\<lparr>dm_fields := dm_fields dst @ dm_fields src\<rparr>),
     ex_protoNew = (\<lambda>m. m\<lparr>dm_fields := []\<rparr>),
     ex_protoReset = (\<lambda>m. m\<lparr>dm_fields := []\<rparr>),
     ex_filter = (\<lambda>masks m. if masks = [] then m
       else m\<lparr>dm_fields := filter (\<lambda>(k, v). k \<in> set masks) (dm_fields m)\<rparr>),
     ex_isMergeable = (\<lambda>m. False),
     ex_customMerge = (\<lambda>dst src opts n. (dst, [])),
     ex_initData = (\<lambda>m. None),
     ex_spatialInfoOf = (\<lambda>m. None),
     ex_recoveryData = (\<lambda>n. None),
     ex_customAuth = (\<lambda>n i p l. None),
     ex_mergeTo = (\<lambda>e d full. Some (d\<lparr>dm_fields := dm_fields d @ dm_fields e\<rparr>)),
     ex_isEntityUpdater = (\<lambda>d. True),
     ex_addEntity = (\<lambda>i e d. d), ex_removeEntity = (\<lambda>i d. d),
     ex_cos = (\<lambda>x. Fin 1), ex_floatToInt = (\<lambda>x. -9223372036854775808), ex_floatToUint = (\<lambda>x. 0),
     ex_spatial = None\<rparr>"

text \<open>What protobuf documents about merging options, and what the code relies on: a field of the
source that is present replaces the field, any other is kept.\<close>

definition merge_law :: "Externs \<Rightarrow> bool" where
  "merge_law E \<longleftrightarrow> (\<forall>dst src.
     so_DataAccess (ex_mergeSubOptions E dst src) = opt_or (so_DataAccess src) (so_DataAccess dst) \<and>
     so_FanOutIntervalMs (ex_mergeSubOptions E dst src) =
       opt_or (so_FanOutIntervalMs src) (so_FanOutIntervalMs dst) \<and>
     so_FanOutDelayMs (ex_mergeSubOptions E dst src) =
       opt_or (so_FanOutDelayMs src) (so_FanOutDelayMs dst) \<and>
     so_SkipSelfUpdateFanOut (ex_mergeSubOptions E dst src) =
       opt_or (so_SkipSelfUpdateFanOut src) (so_SkipSelfUpdateFanOut dst) \<and>
     so_SkipFirstFanOut (ex_mergeSubOptions E dst src) =
       opt_or (so_SkipFirstFanOut src) (so_SkipFirstFanOut dst))"

lemma merge_law_demo [simp]: "merge_law demo_externs"
  by (simp add: merge_law_def demo_externs_def merge_sub_options_def)

lemma opt_or_simps [simp]:
  "opt_or (Some v) m = Some v" "opt_or None m = m" "opt_or a b = None \<longleftrightarrow> a = None \<and> b = None"
  by (auto simp: opt_or_def split: option.splits)

text \<open>A connection as \<open>AddConnection\<close> could have made it, for the witnesses.\<close>

definition demo_conn :: "uint32 \<Rightarrow> ConnectionType \<Rightarrow> Connection" where
  "demo_conn i t = \<lparr>c_id = i, c_connectionType = t, c_compressionType = 0,
     c_remoteAddr = TCPAddr ''10.0.0.1'' ''10.0.0.1:4000'',
     c_readBuffer = replicate 16 0, c_readPos = 0, c_sendQueue = [], c_oversizedMsgPack = None,
     c_pit = [], c_fsm = zero_fsm, c_fsmDisallowedCounter = 0, c_state = 0, c_connTime = 0,
     c_closeHandlers = [], c_replaySession = None, c_spatialSubscriptions = [],
     c_recoverHandle = None, c_written = []\<rparr>"

lemma upd_conn_get [simp]:
  "w_conn (upd_conn p f w) = (w_conn w)(p := f (w_conn w p))"
  by (simp add: upd_conn_def)

lemma upd_chan_get [simp]:
  "w_chan (upd_chan p f w) = (w_chan w)(p := f (w_chan w p))"
  by (simp add: upd_chan_def)

lemma upd_handle_get [simp]:
  "w_handle (upd_handle p f w) = (w_handle w)(p := f (w_handle w p))"
  by (simp add: upd_handle_def)

lemma upd_group_get [simp]:
  "w_group (upd_group p f w) = (w_group w)(p := f (w_group w p))"
  by (simp add: upd_group_def)

lemma upd_conn_frame [simp]:
  "w_nconn (upd_conn p f w) = w_nconn w" "w_chan (upd_conn p f w) = w_chan w"
  "w_nchan (upd_conn p f w) = w_nchan w" "w_handle (upd_conn p f w) = w_handle w"
  "w_nhandle (upd_conn p f w) = w_nhandle w" "w_group (upd_conn p f w) = w_group w"
  "w_ngroup (upd_conn p f w) = w_ngroup w" "w_allConnections (upd_conn p f w) = w_allConnections w"
  "w_unauthenticatedConnections (upd_conn p f w) = w_unauthenticatedConnections w"
  "w_connectionRecoverHandles (upd_conn p f w) = w_connectionRecoverHandles w"
  "w_allChannels (upd_conn p f w) = w_allChannels w"
  "w_globalChannel (upd_conn p f w) = w_globalChannel w"
  "w_nextChannelId (upd_conn p f w) = w_nextChannelId w"
  "w_nextSpatialChannelId (upd_conn p f w) = w_nextSpatialChannelId w"
  "w_nonSpatialChannelFull (upd_conn p f w) = w_nonSpatialChannelFull w"
  "w_spatialChannelFull (upd_conn p f w) = w_spatialChannelFull w"
  "w_settings (upd_conn p f w) = w_settings w" "w_now (upd_conn p f w) = w_now w"
  "w_ipBlacklist (upd_conn p f w) = w_ipBlacklist w" "w_pitBlacklist (upd_conn p f w) = w_pitBlacklist w"
  "w_failedAuthCounters (upd_conn p f w) = w_failedAuthCounters w"
  "w_Event_AuthComplete (upd_conn p f w) = w_Event_AuthComplete w"
  "w_Event_FsmDisallowed (upd_conn p f w) = w_Event_FsmDisallowed w"
  "w_tasks (upd_conn p f w) = w_tasks w" "w_serverConnections (upd_conn p f w) = w_serverConnections w" "w_authProvider (upd_conn p f w) = w_authProvider w" "w_log (upd_conn p f w) = w_log w"
  "w_channelDataTypeRegistery (upd_conn p f w) = w_channelDataTypeRegistery w"
  "w_channelDataExtensionRegistery (upd_conn p f w) = w_channelDataExtensionRegistery w"
  by (simp_all add: upd_conn_def)

lemma upd_chan_frame [simp]:
  "w_nconn (upd_chan p f w) = w_nconn w" "w_conn (upd_chan p f w) = w_conn w"
  "w_nchan (upd_chan p f w) = w_nchan w" "w_handle (upd_chan p f w) = w_handle w"
  "w_nhandle (upd_chan p f w) = w_nhandle w" "w_group (upd_chan p f w) = w_group w"
  "w_ngroup (upd_chan p f w) = w_ngroup w" "w_allConnections (upd_chan p f w) = w_allConnections w"
  "w_unauthenticatedConnections (upd_chan p f w) = w_unauthenticatedConnections w"
  "w_connectionRecoverHandles (upd_chan p f w) = w_connectionRecoverHandles w"
  "w_allChannels (upd_chan p f w) = w_allChannels w"
  "w_globalChannel (upd_chan p f w) = w_globalChannel w"
  "w_nextChannelId (upd_chan p f w) = w_nextChannelId w"
  "w_nextSpatialChannelId (upd_chan p f w) = w_nextSpatialChannelId w"
  "w_nonSpatialChannelFull (upd_chan p f w) = w_nonSpatialChannelFull w"
  "w_spatialChannelFull (upd_chan p f w) = w_spatialChannelFull w"
  "w_settings (upd_chan p f w) = w_settings w" "w_now (upd_chan p f w) = w_now w"
  "w_ipBlacklist (upd_chan p f w) = w_ipBlacklist w" "w_pitBlacklist (upd_chan p f w) = w_pitBlacklist w"
  "w_failedAuthCounters (upd_chan p f w) = w_failedAuthCounters w"
  "w_Event_AuthComplete (upd_chan p f w) = w_Event_AuthComplete w"
  "w_Event_FsmDisallowed (upd_chan p f w) = w_Event_FsmDisallowed w"
  "w_tasks (upd_chan p f w) = w_tasks w" "w_serverConnections (upd_chan p f w) = w_serverConnections w" "w_authProvider (upd_chan p f w) = w_authProvider w" "w_log (upd_chan p f w) = w_log w"
  "w_channelDataTypeRegistery (upd_chan p f w) = w_channelDataTypeRegistery w"
  "w_channelDataExtensionRegistery (upd_chan p f w) = w_channelDataExtensionRegistery w"
  by (simp_all add: upd_chan_def)

lemma upd_handle_frame [simp]:
  "w_conn (upd_handle p f w) = w_conn w" "w_chan (upd_handle p f w) = w_chan w"
  "w_nconn (upd_handle p f w) = w_nconn w" "w_nhandle (upd_handle p f w) = w_nhandle w"
  "w_allConnections (upd_handle p f w) = w_allConnections w"
  "w_connectionRecoverHandles (upd_handle p f w) = w_connectionRecoverHandles w"
  "w_allChannels (upd_handle p f w) = w_allChannels w"
  "w_settings (upd_handle p f w) = w_settings w" "w_now (upd_handle p f w) = w_now w"
  by (simp_all add: upd_handle_def)

lemma log_event_frame [simp]:
  "w_conn (log_event e w) = w_conn w" "w_chan (log_event e w) = w_chan w"
  "w_nconn (log_event e w) = w_nconn w" "w_nchan (log_event e w) = w_nchan w"
  "w_allConnections (log_event e w) = w_allConnections w"
  "w_unauthenticatedConnections (log_event e w) = w_unauthenticatedConnections w"
  "w_connectionRecoverHandles (log_event e w) = w_connectionRecoverHandles w"
  "w_allChannels (log_event e w) = w_allChannels w"
  "w_globalChannel (log_event e w) = w_globalChannel w"
  "w_settings (log_event e w) = w_settings w" "w_now (log_event e w) = w_now w"
  "w_tasks (log_event e w) = w_tasks w" "w_serverConnections (log_event e w) = w_serverConnections w" "w_authProvider (log_event e w) = w_authProvider w"
  "w_handle (log_event e w) = w_handle w" "w_nhandle (log_event e w) = w_nhandle w"
  "w_ipBlacklist (log_event e w) = w_ipBlacklist w" "w_pitBlacklist (log_event e w) = w_pitBlacklist w"
  "w_failedAuthCounters (log_event e w) = w_failedAuthCounters w"
  "w_nextChannelId (log_event e w) = w_nextChannelId w"
  "w_nextSpatialChannelId (log_event e w) = w_nextSpatialChannelId w"
  "w_Event_AuthComplete (log_event e w) = w_Event_AuthComplete w"
  "w_Event_FsmDisallowed (log_event e w) = w_Event_FsmDisallowed w"
  "w_nonSpatialChannelFull (log_event e w) = w_nonSpatialChannelFull w"
  "w_spatialChannelFull (log_event e w) = w_spatialChannelFull w"
  "w_channelDataTypeRegistery (log_event e w) = w_channelDataTypeRegistery w"
  "w_channelDataExtensionRegistery (log_event e w) = w_channelDataExtensionRegistery w"
  "w_group (log_event e w) = w_group w" "w_ngroup (log_event e w) = w_ngroup w"
  "w_log (log_event e w) = w_log w @ [e]"
  by (simp_all add: log_event_def)

text \<open>A process with no connection and no channel, for the witnesses.\<close>

definition demo_world :: World where
  "demo_world = \<lparr>w_conn = (\<lambda>_. demo_conn 0 0), w_nconn = 0,
     w_chan = (\<lambda>_. \<lparr>ch_id = 0, ch_channelType = 1, ch_state = 0, ch_ownerConnection = NilIface,
       ch_subscribedConnections = [], ch_metadata = [], ch_data = None,
       ch_latestDataUpdateConnId = 0, ch_spatialNotifier = False, ch_entityController = None,
       ch_inMsgQueue = [], ch_inMsgQueueClosed = False, ch_fanOutQueue = [], ch_nextElement = 0,
       ch_startTime = 0, ch_tickInterval = 0, ch_tickFrames = 0, ch_enableClientBroadcast = False,
       ch_removing = 0, ch_recoverableSubs = []\<rparr>),
     w_nchan = 0, w_handle = (\<lambda>_. \<lparr>rh_prevConnId = 0, rh_disconnTime = 0, rh_newConn = None,
       rh_startRecoveryTime = 0\<rparr>), w_nhandle = 0, w_group = (\<lambda>_. []), w_ngroup = 0,
     w_allConnections = [], w_nextConnectionId = 0, w_serverFsm = Some zero_fsm,
     w_clientFsm = Some zero_fsm, w_unauthenticatedConnections = [],
     w_connectionRecoverHandles = [], w_allChannels = [], w_globalChannel = None,
     w_nextChannelId = 0, w_nextSpatialChannelId = 0x10000, w_nonSpatialChannelFull = False,
     w_spatialChannelFull = False, w_channelDataTypeRegistery = Map.empty,
     w_channelDataExtensionRegistery = Map.empty, w_failedAuthCounters = Map.empty,
     w_ipBlacklist = Map.empty, w_pitBlacklist = Map.empty, w_authProvider = None,
     w_Event_AuthComplete = [], w_Event_FsmDisallowed = [], w_settings = default_settings,
     w_serverConnections = None, w_now = 0, w_tasks = [], w_log = []\<rparr>"

end
