(* ===== verification/Framing.thy ===== *)
theory Framing
  imports Types
begin

text \<open>
  The packet layer of \<open>pkg/channeld/connection.go\<close>: reading a byte stream in arbitrary chunks into
  packets (\<open>receive\<close>, \<open>readPacket\<close>, \<open>readSize\<close>), and queueing and writing message packs
  (\<open>queuedMessagePackSender.Send\<close>, \<open>flush\<close>).

  \<open>readPacket\<close> hands every message of a packet to \<open>receiveMessage\<close>, which never looks at the read
  buffer; the definitions here return the packets in order, and the connection theory handles their
  messages.  A frame is the five bytes \<open>67 72 hi lo ct\<close> followed by the body.
\<close>

definition MaxPacketSize :: nat where "MaxPacketSize = 0xffff"
definition PacketHeaderSize :: nat where "PacketHeaderSize = 5"

subsection \<open>Reading\<close>

text \<open>\<open>go_slice xs a b\<close> is \<open>xs[a:b]\<close>; out of range is a panic.\<close>

definition go_slice :: "'a list \<Rightarrow> nat \<Rightarrow> nat \<Rightarrow> 'a list option" where
  "go_slice xs a b = (if a \<le> b \<and> b \<le> length xs then Some (take (b - a) (drop a xs)) else None)"

fun readSize :: "byte list \<Rightarrow> nat option" where
  "readSize (t0 # t1 # t2 # t3 # tag) =
     (if t0 \<noteq> 67 \<or> t1 \<noteq> 72 then Some 0 else Some (unat t3 + 256 * unat t2))"
| "readSize _ = None"

datatype read_result = RPacket "byte list MessagePack list" | RNil | RErr string

text \<open>The compression type is the enumeration's value for the fifth byte, when it is a valid one.\<close>

definition header_compression :: "byte \<Rightarrow> CompressionType \<Rightarrow> CompressionType" where
  "header_compression ct old =
     (if int (unat ct) \<in> {Compression_NO, Compression_SNAPPY} \<and> ct \<noteq> 0 then int (unat ct) else old)"

text \<open>Decompression and unmarshalling of the body of a frame.\<close>

definition read_body :: "Externs \<Rightarrow> byte \<Rightarrow> byte list \<Rightarrow> read_result" where
  "read_body E ct bytes =
     (let decoded =
        (if int (unat ct) = Compression_SNAPPY then
           (case ex_snappyDecodedLen E bytes of
              None \<Rightarrow> None
            | Some n \<Rightarrow> ex_snappyDecode E bytes)
         else Some bytes)
      in case decoded of
           None \<Rightarrow> RErr ''snappy''
         | Some bs \<Rightarrow> (case ex_unmarshalPacket E bs of None \<Rightarrow> RNil | Some p \<Rightarrow> RPacket p))"

definition readPacket ::
  "Externs \<Rightarrow> Connection \<Rightarrow> nat \<Rightarrow> (Connection \<times> nat \<times> read_result) option" where
  "readPacket E c bufPos =
     (if c_readPos c < bufPos + PacketHeaderSize then Some (c, bufPos, RNil)
      else do {
        tag \<leftarrow> go_slice (c_readBuffer c) bufPos (bufPos + PacketHeaderSize);
        packetSize \<leftarrow> readSize tag;
        if packetSize = 0 then Some (c\<lparr>c_readPos := 0\<rparr>, bufPos, RErr ''invlaid tag'')
        else if packetSize > MaxPacketSize then
          Some (c\<lparr>c_readPos := 0\<rparr>, bufPos, RErr ''packetSize too large'')
        else do {
          let fullSize = PacketHeaderSize + packetSize;
          if c_readPos c < bufPos + fullSize then Some (c, bufPos, RNil)
          else do {
            bytes \<leftarrow> go_slice (c_readBuffer c) (bufPos + PacketHeaderSize) (bufPos + fullSize);
            let ct = tag ! 4;
            let c' = c\<lparr>c_compressionType := header_compression ct (c_compressionType c)\<rparr>;
            (case read_body E ct bytes of
               RPacket p \<Rightarrow> Some (c', bufPos + fullSize, RPacket p)
             | r \<Rightarrow> Some (c', bufPos, r))
          }
        }
      })"

text \<open>The loop of \<open>receive\<close>.  Every turn that yields a packet advances \<open>bufPos\<close>, so the number of
bytes read bounds the number of turns.\<close>

fun receive_loop ::
  "Externs \<Rightarrow> nat \<Rightarrow> Connection \<Rightarrow> nat \<Rightarrow>
   (Connection \<times> nat \<times> byte list MessagePack list list \<times> string option) option" where
  "receive_loop E 0 c bufPos = Some (c, bufPos, [], None)"
| "receive_loop E (Suc fuel) c bufPos =
     (if c_readPos c \<le> bufPos then Some (c, bufPos, [], None)
      else do {
        (c', bufPos', r) \<leftarrow> readPacket E c bufPos;
        (case r of
           RErr e \<Rightarrow> Some (c', bufPos', [], Some e)
         | RNil \<Rightarrow> Some (c', bufPos', [], None)
         | RPacket p \<Rightarrow> do {
             (c'', bufPos'', ps, e) \<leftarrow> receive_loop E fuel c' bufPos';
             Some (c'', bufPos'', p # ps, e)
           })
      })"

text \<open>
  \<open>receive\<close> on a successful \<open>Read\<close> of \<open>bytes\<close> (at most the free part of the buffer): the packets to
  handle, in order, and the error that closes the connection, if any.
\<close>

definition read_into :: "byte list \<Rightarrow> nat \<Rightarrow> byte list \<Rightarrow> byte list" where
  "read_into buf pos bytes = take pos buf @ bytes @ drop (pos + length bytes) buf"

definition receive_bytes ::
  "Externs \<Rightarrow> byte list \<Rightarrow> Connection \<Rightarrow>
   (Connection \<times> byte list MessagePack list list \<times> string option) option" where
  "receive_bytes E bytes c =
     (if length (c_readBuffer c) < c_readPos c + length bytes then None
      else do {
        let c1 = c\<lparr>c_readBuffer := read_into (c_readBuffer c) (c_readPos c) bytes,
                   c_readPos := c_readPos c + length bytes\<rparr>;
        if c_readPos c1 < PacketHeaderSize then Some (c1, [], None)
        else do {
          (c2, bufPos, ps, e) \<leftarrow> receive_loop E (c_readPos c1) c1 0;
          if e \<noteq> None then Some (c2, ps, e)
          else do {
            moved \<leftarrow> (if bufPos < c_readPos c2
                      then go_slice (c_readBuffer c2) bufPos (c_readPos c2) else Some []);
            Some (c2\<lparr>c_readBuffer := moved @ drop (length moved) (c_readBuffer c2),
                     c_readPos := c_readPos c2 - bufPos\<rparr>, ps, None)
          }
        }
      })"

text \<open>
  \<open>Read\<close> returns at most as many bytes as the free part of the buffer has; \<open>receive_run\<close> is a
  sequence of \<open>receive\<close> calls on one incoming stream, where the network offers the given number of
  bytes each time.  It stops at the first error, after which the connection is closed.
\<close>

fun receive_run ::
  "Externs \<Rightarrow> nat list \<Rightarrow> byte list \<Rightarrow> Connection \<Rightarrow>
   (Connection \<times> byte list MessagePack list list \<times> string option \<times> byte list) option" where
  "receive_run E [] stream c = Some (c, [], None, stream)"
| "receive_run E (n # ns) stream c =
     (let k = min n (length (c_readBuffer c) - c_readPos c) in do {
        (c', ps, e) \<leftarrow> receive_bytes E (take k stream) c;
        (case e of
           Some err \<Rightarrow> Some (c', ps, Some err, drop k stream)
         | None \<Rightarrow> do {
             (c'', ps', e', rest) \<leftarrow> receive_run E ns (drop k stream) c';
             Some (c'', ps @ ps', e', rest)
           })
      })"

subsection \<open>The stream as a whole\<close>

text \<open>
  What the reader should compute: \<open>frame_step\<close> looks at the front of the bytes received so far, and
  \<open>parse_stream\<close> takes frames off the front as long as it can.  Neither knows about buffers, chunks
  or positions.
\<close>

datatype frame_result = FPacket byte "byte list MessagePack list" "byte list" | FWait | FStall | FErr string

definition frame_step :: "Externs \<Rightarrow> byte list \<Rightarrow> frame_result" where
  "frame_step E bs =
     (if length bs < PacketHeaderSize then FWait
      else case readSize (take PacketHeaderSize bs) of
        None \<Rightarrow> FWait
      | Some n \<Rightarrow>
          if n = 0 then FErr ''invlaid tag''
          else if length bs < PacketHeaderSize + n then FWait
          else case read_body E (bs ! 4) (take n (drop PacketHeaderSize bs)) of
            RPacket p \<Rightarrow> FPacket (bs ! 4) p (drop (PacketHeaderSize + n) bs)
          | RNil \<Rightarrow> FStall
          | RErr e \<Rightarrow> FErr e)"

lemma frame_step_shorter:
  "frame_step E bs = FPacket ct p rest \<Longrightarrow> length rest < length bs"
  by (auto simp: frame_step_def PacketHeaderSize_def split: if_splits option.splits read_result.splits)

function parse_stream ::
  "Externs \<Rightarrow> byte list \<Rightarrow> byte list MessagePack list list \<times> byte list \<times> string option" where
  "parse_stream E bs = (case frame_step E bs of
     FPacket ct p rest \<Rightarrow> (case parse_stream E rest of (ps, r, e) \<Rightarrow> (p # ps, r, e))
   | FErr e \<Rightarrow> ([], bs, Some e)
   | _ \<Rightarrow> ([], bs, None))"
  by pat_completeness auto
termination
  by (relation "measure (\<lambda>(E, bs). length bs)") (auto dest: frame_step_shorter)

declare parse_stream.simps [simp del]

definition pending :: "Connection \<Rightarrow> byte list" where
  "pending c = take (c_readPos c) (c_readBuffer c)"

definition reader_ok :: "Connection \<Rightarrow> bool" where
  "reader_ok c \<longleftrightarrow> c_readPos c \<le> length (c_readBuffer c)"

lemma readSize_total: "5 \<le> length bs \<Longrightarrow> \<exists>n. readSize (take 5 bs) = Some n \<and> n \<le> 0xffff"
proof -
  assume "5 \<le> length bs"
  then obtain a b c d f r where bs: "bs = a # b # c # d # f # r"
    by (auto simp: numeral_eq_Suc Suc_le_length_iff)
  have "unat d < 256" "unat c < 256" using unsigned_less [of d] unsigned_less [of c] by auto
  then show ?thesis by (simp add: bs)
qed

text \<open>A frame that is complete is not affected by the bytes behind it.\<close>

lemma frame_step_append:
  assumes "frame_step E bs \<noteq> FWait"
  shows "frame_step E (bs @ ys) = (case frame_step E bs of
    FPacket ct p rest \<Rightarrow> FPacket ct p (rest @ ys) | r \<Rightarrow> r)"
  using assms
  by (auto simp: frame_step_def PacketHeaderSize_def nth_append
      split: if_splits option.splits read_result.splits)

lemma parse_stream_append:
  "parse_stream E (bs @ ys) =
    (case parse_stream E bs of (ps, rest, e) \<Rightarrow>
       (case e of
          Some err \<Rightarrow> (ps, rest @ ys, Some err)
        | None \<Rightarrow> (case parse_stream E (rest @ ys) of (ps', rest', e') \<Rightarrow> (ps @ ps', rest', e'))))"
proof (induction E bs rule: parse_stream.induct)
  case (1 E bs)
  show ?case
  proof (cases "frame_step E bs")
    case (FPacket ct p rest)
    then have "frame_step E (bs @ ys) = FPacket ct p (rest @ ys)"
      by (simp add: frame_step_append)
    then show ?thesis using FPacket 1 [OF FPacket]
      by (simp add: parse_stream.simps [of E bs] parse_stream.simps [of E "bs @ ys"]
          split: prod.splits option.splits)
  next
    case FWait
    then show ?thesis by (simp add: parse_stream.simps [of E bs] split: prod.splits)
  next
    case FStall
    then show ?thesis by (simp add: parse_stream.simps [of E bs] split: prod.splits)
  next
    case (FErr e)
    then have "frame_step E (bs @ ys) = FErr e" by (simp add: frame_step_append)
    with FErr show ?thesis
      by (simp add: parse_stream.simps [of E bs] parse_stream.simps [of E "bs @ ys"])
  qed
qed

subsection \<open>The reader refines the stream parser\<close>

lemma go_slice_pending:
  assumes "reader_ok c" and "a \<le> b" and "b \<le> c_readPos c"
  shows "go_slice (c_readBuffer c) a b = Some (take (b - a) (drop a (pending c)))"
  using assms by (simp add: go_slice_def reader_ok_def pending_def drop_take min_def)

lemma length_pending: "reader_ok c \<Longrightarrow> length (pending c) = c_readPos c"
  by (simp add: reader_ok_def pending_def)

lemma frame_step_full:
  assumes "readSize (take 5 bs) = Some n" and "n \<noteq> 0" and "5 + n \<le> length bs"
  shows "frame_step E bs = (case read_body E (bs ! 4) (take n (drop 5 bs)) of
    RPacket p \<Rightarrow> FPacket (bs ! 4) p (drop (5 + n) bs) | RNil \<Rightarrow> FStall | RErr e \<Rightarrow> FErr e)"
  using assms by (simp add: frame_step_def PacketHeaderSize_def split: read_result.splits)

lemma readPacket_frame:
  assumes ok: "reader_ok c" and pos: "bufPos \<le> c_readPos c"
  shows "\<exists>c' pos' r. readPacket E c bufPos = Some (c', pos', r) \<and>
    c_readBuffer c' = c_readBuffer c \<and>
    (case frame_step E (drop bufPos (pending c)) of
       FPacket ct p rest \<Rightarrow> r = RPacket p \<and> c_readPos c' = c_readPos c \<and>
         bufPos < pos' \<and> pos' \<le> c_readPos c \<and> drop pos' (pending c) = rest
     | FWait \<Rightarrow> r = RNil \<and> c_readPos c' = c_readPos c \<and> pos' = bufPos
     | FStall \<Rightarrow> r = RNil \<and> c_readPos c' = c_readPos c \<and> pos' = bufPos
     | FErr e \<Rightarrow> r = RErr e)"
proof (cases "c_readPos c < bufPos + PacketHeaderSize")
  case True
  then show ?thesis using length_pending [OF ok] pos
    by (simp add: readPacket_def frame_step_def)
next
  case False
  let ?bs = "drop bufPos (pending c)"
  have len: "length ?bs = c_readPos c - bufPos" using length_pending [OF ok] by simp
  with False have len5: "5 \<le> length ?bs" by (simp add: PacketHeaderSize_def)
  then obtain n where n: "readSize (take 5 ?bs) = Some n" "n \<le> 0xffff"
    using readSize_total by blast
  have tag: "go_slice (c_readBuffer c) bufPos (bufPos + PacketHeaderSize) = Some (take 5 ?bs)"
    using go_slice_pending [OF ok, of bufPos "bufPos + PacketHeaderSize"] False
    by (simp add: PacketHeaderSize_def)
  show ?thesis
  proof (cases "n = 0 \<or> c_readPos c < bufPos + (5 + n)")
    case True
    then show ?thesis using False tag n len len5
      by (auto simp: readPacket_def frame_step_def PacketHeaderSize_def MaxPacketSize_def Let_def)
  next
    case fits: False
    let ?body = "take n (drop 5 ?bs)"
    have slice: "go_slice (c_readBuffer c) (bufPos + PacketHeaderSize) (bufPos + (PacketHeaderSize + n)) =
        Some ?body"
      using go_slice_pending [OF ok, of "bufPos + 5" "bufPos + (5 + n)"] fits
      by (simp add: PacketHeaderSize_def add.commute)
    have ct: "take 5 ?bs ! 4 = ?bs ! 4" by simp
    have step: "frame_step E ?bs = (case read_body E (?bs ! 4) ?body of
            RPacket p \<Rightarrow> FPacket (?bs ! 4) p (drop (5 + n) ?bs) | RNil \<Rightarrow> FStall | RErr e \<Rightarrow> FErr e)"
      by (rule frame_step_full) (use fits n len in auto)
    have read: "readPacket E c bufPos =
        (let c' = c\<lparr>c_compressionType := header_compression (?bs ! 4) (c_compressionType c)\<rparr> in
         case read_body E (?bs ! 4) ?body of
           RPacket p \<Rightarrow> Some (c', bufPos + (5 + n), RPacket p)
         | r \<Rightarrow> Some (c', bufPos, r))"
      using False fits n slice tag unfolding readPacket_def
      by (simp add: PacketHeaderSize_def MaxPacketSize_def Let_def ct del: drop_drop nth_take nth_drop)
    show ?thesis
    proof (cases "read_body E (?bs ! 4) ?body")
      case (RPacket p)
      then show ?thesis using fits unfolding read step by (simp add: Let_def add_ac)
    next
      case RNil
      then show ?thesis unfolding read step by (simp add: Let_def)
    next
      case (RErr e)
      then show ?thesis unfolding read step by (simp add: Let_def)
    qed
  qed
qed

lemma receive_loop_parses:
  assumes "reader_ok c" and "bufPos \<le> c_readPos c" and "c_readPos c - bufPos \<le> fuel"
  shows "\<exists>c' pos' ps rest e. receive_loop E fuel c bufPos = Some (c', pos', ps, e) \<and>
    parse_stream E (drop bufPos (pending c)) = (ps, rest, e) \<and>
    c_readBuffer c' = c_readBuffer c \<and>
    (e = None \<longrightarrow> c_readPos c' = c_readPos c \<and> pos' \<le> c_readPos c \<and> drop pos' (pending c) = rest)"
  using assms
proof (induction fuel arbitrary: c bufPos)
  case 0
  then have "drop bufPos (pending c) = []" using length_pending by simp
  then show ?case using 0 by (simp add: parse_stream.simps frame_step_def PacketHeaderSize_def)
next
  case (Suc fuel)
  show ?case
  proof (cases "c_readPos c \<le> bufPos")
    case True
    then have "drop bufPos (pending c) = []" using length_pending Suc.prems by simp
    then show ?thesis using True Suc.prems
      by (simp add: parse_stream.simps frame_step_def PacketHeaderSize_def)
  next
    case False
    from readPacket_frame [OF Suc.prems(1,2), of E] obtain c1 pos1 r
      where r: "readPacket E c bufPos = Some (c1, pos1, r)" "c_readBuffer c1 = c_readBuffer c"
      and f: "case frame_step E (drop bufPos (pending c)) of
       FPacket ct p rest \<Rightarrow> r = RPacket p \<and> c_readPos c1 = c_readPos c \<and>
         bufPos < pos1 \<and> pos1 \<le> c_readPos c \<and> drop pos1 (pending c) = rest
     | FWait \<Rightarrow> r = RNil \<and> c_readPos c1 = c_readPos c \<and> pos1 = bufPos
     | FStall \<Rightarrow> r = RNil \<and> c_readPos c1 = c_readPos c \<and> pos1 = bufPos
     | FErr e \<Rightarrow> r = RErr e" by blast
    show ?thesis
    proof (cases "frame_step E (drop bufPos (pending c))")
      case (FPacket ct p rest)
      with f have f': "r = RPacket p" "c_readPos c1 = c_readPos c" "bufPos < pos1"
        "pos1 \<le> c_readPos c" "drop pos1 (pending c) = rest" by auto
      then have pend: "pending c1 = pending c" "reader_ok c1"
        using r Suc.prems(1) by (auto simp: pending_def reader_ok_def)
      have "pos1 \<le> c_readPos c1" "c_readPos c1 - pos1 \<le> fuel" using f' Suc.prems by auto
      from Suc.IH [OF pend(2) this] show ?thesis
        using False r f' FPacket pend by (fastforce simp: parse_stream.simps [of E "drop bufPos (pending c)"])
    qed (use False r f Suc.prems in \<open>auto simp: parse_stream.simps [of E "drop bufPos (pending c)"]\<close>)
  qed
qed

lemma parse_stream_short:
  "length bs < 5 \<Longrightarrow> parse_stream E bs = ([], bs, None)"
  by (simp add: parse_stream.simps frame_step_def PacketHeaderSize_def)

lemma receive_bytes_parses:
  assumes ok: "reader_ok c" and room: "c_readPos c + length bytes \<le> length (c_readBuffer c)"
  shows "\<exists>c' ps rest e. receive_bytes E bytes c = Some (c', ps, e) \<and>
    parse_stream E (pending c @ bytes) = (ps, rest, e) \<and>
    length (c_readBuffer c') = length (c_readBuffer c) \<and>
    (e = None \<longrightarrow> reader_ok c' \<and> pending c' = rest)"
proof -
  let ?c = "c\<lparr>c_readBuffer := read_into (c_readBuffer c) (c_readPos c) bytes,
              c_readPos := c_readPos c + length bytes\<rparr>"
  have len: "length (c_readBuffer ?c) = length (c_readBuffer c)"
    using room by (simp add: read_into_def)
  have ok': "reader_ok ?c" using len room by (simp add: reader_ok_def)
  have pend: "pending ?c = pending c @ bytes"
    using ok room by (simp add: pending_def read_into_def reader_ok_def)
  show ?thesis
  proof (cases "c_readPos ?c < 5")
    case True
    then show ?thesis using room len ok' pend length_pending [OF ok']
      by (auto simp: receive_bytes_def Let_def PacketHeaderSize_def parse_stream_short)
  next
    case False
    obtain c2 pos ps rest e where l: "receive_loop E (c_readPos ?c) ?c 0 = Some (c2, pos, ps, e)"
      "parse_stream E (pending c @ bytes) = (ps, rest, e)" "c_readBuffer c2 = c_readBuffer ?c"
      "e = None \<longrightarrow> c_readPos c2 = c_readPos ?c \<and> pos \<le> c_readPos ?c \<and> drop pos (pending ?c) = rest"
      using receive_loop_parses [OF ok', of 0 "c_readPos ?c" E] pend by auto
    show ?thesis
    proof (cases e)
      case (Some err)
      then show ?thesis using l room len False
        by (auto simp: receive_bytes_def Let_def PacketHeaderSize_def)
    next
      case None
      then have p: "c_readPos c2 = c_readPos ?c" "pos \<le> c_readPos ?c" "drop pos (pending ?c) = rest"
        using l by auto
      have ok2: "reader_ok c2" "pending c2 = pending ?c"
        using ok' l p by (auto simp: reader_ok_def pending_def)
      have restlen: "length rest = c_readPos c2 - pos"
        using p length_pending [OF ok'] by auto
      have mv: "(if pos < c_readPos c2 then go_slice (c_readBuffer c2) pos (c_readPos c2) else Some []) =
          Some rest"
        using go_slice_pending [OF ok2(1), of pos "c_readPos c2"] p ok2 restlen
        by (auto simp: length_pending [OF ok'])
      let ?c3 = "c2\<lparr>c_readBuffer := rest @ drop (length rest) (c_readBuffer c2),
          c_readPos := c_readPos c2 - pos\<rparr>"
      have "receive_bytes E bytes c = Some (?c3, ps, None)"
        using l mv None room False unfolding receive_bytes_def
        by (simp add: Let_def PacketHeaderSize_def)
      moreover have "reader_ok ?c3" "pending ?c3 = rest"
        "length (c_readBuffer ?c3) = length (c_readBuffer c)"
        using restlen ok2 len l by (auto simp: reader_ok_def pending_def)
      ultimately show ?thesis using l None by auto
    qed
  qed
qed

lemma parse_stream_rest:
  "parse_stream E bs = (ps, rest, None) \<Longrightarrow> parse_stream E rest = ([], rest, None)"
proof (induction E bs arbitrary: ps rule: parse_stream.induct)
  case (1 E bs)
  then show ?case
  proof (cases "frame_step E bs")
    case (FPacket ct p r)
    with 1 show ?thesis by (auto simp: parse_stream.simps [of E bs] split: prod.splits)
  next
    case (FErr e)
    with 1 show ?thesis by (simp add: parse_stream.simps [of E bs])
  next
    case FWait
    with 1(2) have "rest = bs" by (simp add: parse_stream.simps [of E bs])
    with FWait show ?thesis by (simp add: parse_stream.simps [of E bs])
  next
    case FStall
    with 1(2) have "rest = bs" by (simp add: parse_stream.simps [of E bs])
    with FStall show ?thesis by (simp add: parse_stream.simps [of E bs])
  qed
qed

lemma receive_run_parses:
  assumes "reader_ok c" and "parse_stream E (pending c) = ([], pending c, None)"
  shows "\<exists>c' ps e unread consumed rest. receive_run E ns stream c = Some (c', ps, e, unread) \<and>
    stream = consumed @ unread \<and> parse_stream E (pending c @ consumed) = (ps, rest, e) \<and>
    length (c_readBuffer c') = length (c_readBuffer c) \<and> (e = None \<longrightarrow> reader_ok c' \<and> pending c' = rest)"
  using assms
proof (induction ns arbitrary: c stream)
  case Nil
  then show ?case by auto
next
  case (Cons n ns)
  define k where "k = min n (length (c_readBuffer c) - c_readPos c)"
  have "c_readPos c + length (take k stream) \<le> length (c_readBuffer c)"
    using Cons.prems(1) by (auto simp: k_def reader_ok_def)
  from receive_bytes_parses [OF Cons.prems(1) this, of E] obtain c1 ps1 rest1 e1
    where r: "receive_bytes E (take k stream) c = Some (c1, ps1, e1)"
    and b1: "length (c_readBuffer c1) = length (c_readBuffer c)"
    and p: "parse_stream E (pending c @ take k stream) = (ps1, rest1, e1)"
    and ok: "e1 = None \<longrightarrow> reader_ok c1 \<and> pending c1 = rest1" by blast
  have split: "stream = take k stream @ drop k stream" by simp
  show ?case
  proof (cases e1)
    case (Some err)
    then have "receive_run E (n # ns) stream c = Some (c1, ps1, Some err, drop k stream)"
      using r by (simp add: k_def [symmetric] Let_def)
    with p split Some b1 show ?thesis by blast
  next
    case None
    with ok p have ok1: "reader_ok c1" "pending c1 = rest1"
      "parse_stream E (pending c1) = ([], pending c1, None)"
      by (auto dest: parse_stream_rest)
    from Cons.IH [OF ok1(1,3), of "drop k stream"] obtain c' ps e unread consumed rest
      where run: "receive_run E ns (drop k stream) c1 = Some (c', ps, e, unread)"
      and c: "drop k stream = consumed @ unread"
      and q: "parse_stream E (pending c1 @ consumed) = (ps, rest, e)"
      and b2: "length (c_readBuffer c') = length (c_readBuffer c1)"
      and fin: "e = None \<longrightarrow> reader_ok c' \<and> pending c' = rest" by blast
    have "parse_stream E (pending c @ take k stream @ consumed) = (ps1 @ ps, rest, e)"
      using parse_stream_append [of E "pending c @ take k stream" consumed] p q None ok1(2) by simp
    moreover have "stream = (take k stream @ consumed) @ unread" using c split by simp
    moreover have "receive_run E (n # ns) stream c = Some (c', ps1 @ ps, e, unread)"
      using r None run by (simp add: k_def [symmetric] Let_def)
    ultimately show ?thesis using fin b1 b2 by metis
  qed
qed

text \<open>
  C1. However the network cuts the byte stream of a fresh connection into reads, \<open>receive\<close> never
  panics and delivers exactly the packets, and reports exactly the error, that parsing the bytes read
  so far as one piece gives; what it keeps in the buffer is the unparsed rest.
\<close>

theorem receive_chunking_independent:
  assumes "c_readPos c = 0"
  shows "\<exists>c' ps e unread consumed rest. receive_run E ns stream c = Some (c', ps, e, unread) \<and>
    stream = consumed @ unread \<and> parse_stream E consumed = (ps, rest, e) \<and>
    (e = None \<longrightarrow> pending c' = rest)"
proof -
  have "reader_ok c" "pending c = []" using assms by (auto simp: reader_ok_def pending_def)
  then show ?thesis using receive_run_parses [of c E ns stream] by (auto simp: parse_stream_short)
qed

theorem receive_chunking_independent_witness:
  "\<exists>c' ps e unread consumed rest.
    receive_run demo_externs [3, 2, 9] [67, 72, 0, 2, 0, 1, 2, 67] (demo_conn 1 2) =
      Some (c', ps, e, unread) \<and>
    [67, 72, 0, 2, 0, 1, 2, 67] = consumed @ unread \<and> parse_stream demo_externs consumed = (ps, rest, e) \<and>
    (e = None \<longrightarrow> pending c' = rest)"
  by (rule receive_chunking_independent) (simp add: demo_conn_def)

subsection \<open>Frames and back\<close>

text \<open>The bytes that \<open>flush\<close> writes for a body: the tag \<open>67 72 78 76\<close> with its third and fourth byte
replaced by the size.\<close>

definition frame :: "CompressionType \<Rightarrow> byte list \<Rightarrow> byte list" where
  "frame ct body =
     [67, 72, of_nat ((length body div 256) mod 256), of_nat (length body mod 256), of_int ct] @ body"

lemma readSize_frame:
  assumes "length body \<le> MaxPacketSize"
  shows "readSize (take 5 (frame ct body)) = Some (length body)"
proof -
  have "unat (of_nat (length body mod 256) :: byte) = length body mod 256"
    by (simp add: unat_of_nat take_bit_eq_mod)
  moreover have "length body div 256 < 256" using assms by (simp add: MaxPacketSize_def)
  then have "unat (of_nat ((length body div 256) mod 256) :: byte) = length body div 256"
    by (simp add: unat_of_nat take_bit_eq_mod)
  ultimately show ?thesis by (simp add: frame_def)
qed

text \<open>A body the reader accepts: what a frame with it makes of it.\<close>

definition body_packet :: "Externs \<Rightarrow> CompressionType \<Rightarrow> byte list \<Rightarrow> byte list MessagePack list option" where
  "body_packet E ct body = (case read_body E (of_int ct) body of RPacket p \<Rightarrow> Some p | _ \<Rightarrow> None)"

lemma frame_step_frame:
  assumes "body \<noteq> []" and "length body \<le> MaxPacketSize" and "body_packet E ct body = Some p"
  shows "frame_step E (frame ct body @ ys) = FPacket (of_int ct) p ys"
proof -
  let ?bs = "frame ct body @ ys"
  have "take 5 ?bs = take 5 (frame ct body)" by (simp add: frame_def)
  then have "readSize (take 5 ?bs) = Some (length body)"
    using readSize_frame [OF assms(2)] by (simp only:)
  moreover have "5 + length body \<le> length ?bs" by (simp add: frame_def)
  moreover have d5: "drop 5 ?bs = body @ ys" by (simp add: frame_def)
  then have "drop (5 + length body) ?bs = ys"
    using drop_drop [of "length body" 5 ?bs] by (simp add: add.commute)
  moreover have "?bs ! 4 = of_int ct" "take (length body) (drop 5 ?bs) = body"
    using d5 by (simp_all add: frame_def)
  ultimately show ?thesis using frame_step_full [of ?bs "length body" E] assms
    by (simp add: body_packet_def split: read_result.splits)
qed

lemma parse_stream_frames:
  assumes "\<forall>(ct, body) \<in> set fs. body \<noteq> [] \<and> length body \<le> MaxPacketSize \<and>
    body_packet E ct body \<noteq> None"
  shows "parse_stream E (concat (map (\<lambda>(ct, body). frame ct body) fs)) =
    (map (\<lambda>(ct, body). the (body_packet E ct body)) fs, [], None)"
  using assms
proof (induction fs)
  case Nil
  show ?case by (simp add: parse_stream_short)
next
  case (Cons f fs)
  obtain ct body where f: "f = (ct, body)" by force
  with Cons.prems obtain p where "body_packet E ct body = Some p" by auto
  with f Cons.prems have "frame_step E (concat (map (\<lambda>(ct, body). frame ct body) (f # fs))) =
      FPacket (of_int ct) p (concat (map (\<lambda>(ct, body). frame ct body) fs))"
    using frame_step_frame [of body E ct p] by auto
  with Cons \<open>body_packet E ct body = Some p\<close> f show ?case
    by (subst parse_stream.simps) simp
qed

subsection \<open>The buffer never fills up, unless a packet cannot be unmarshalled\<close>

lemma frame_step_wait_bound:
  assumes "frame_step E bs = FWait"
  shows "length bs < 5 + 0xffff"
proof (cases "length bs < 5")
  case False
  then obtain n where "readSize (take 5 bs) = Some n" "n \<le> 0xffff"
    using readSize_total [of bs] by auto
  with assms False show ?thesis
    by (auto simp: frame_step_def PacketHeaderSize_def split: if_splits read_result.splits)
qed simp

lemma parse_stream_rest_bound:
  assumes "parse_stream E bs = ([], bs, None)"
  shows "frame_step E bs = FStall \<or> length bs < 5 + 0xffff"
  using assms frame_step_wait_bound
  by (cases "frame_step E bs") (auto simp: parse_stream.simps [of E bs] split: prod.splits)

lemma parse_stream_stall:
  assumes "frame_step E bs = FStall"
  shows "parse_stream E (bs @ ys) = ([], bs @ ys, None)"
proof -
  have "frame_step E (bs @ ys) = FStall" using frame_step_append [of E bs ys] assms by simp
  then show ?thesis by (simp add: parse_stream.simps)
qed

text \<open>
  With a buffer of at least one maximal frame (\<open>AddConnection\<close> sees to that), after any sequence
  of reads there is room for at least one more byte, so the connection cannot starve; the only
  exception is a connection whose first buffered frame failed to unmarshal.
\<close>

theorem receive_keeps_room:
  assumes "c_readPos c = 0" and "5 + 0xffff \<le> length (c_readBuffer c)"
    and "receive_run E ns stream c = Some (c', ps, None, unread)"
  shows "c_readPos c' < length (c_readBuffer c') \<or> frame_step E (pending c') = FStall"
proof -
  have c: "reader_ok c" "parse_stream E (pending c) = ([], pending c, None)"
    using assms(1) by (auto simp: reader_ok_def pending_def parse_stream_short)
  from receive_run_parses [OF c, of ns stream] assms(3) obtain consumed rest
    where p: "parse_stream E (pending c @ consumed) = (ps, rest, None)"
      "reader_ok c'" "pending c' = rest" "length (c_readBuffer c') = length (c_readBuffer c)" by auto
  from parse_stream_rest [OF p(1)] parse_stream_rest_bound [of E rest]
  show ?thesis using p assms(2) length_pending [OF p(2)] by auto
qed

theorem receive_keeps_room_witness:
  "let c = (demo_conn 1 2)\<lparr>c_readBuffer := replicate 65540 0\<rparr> in
   c_readPos c < length (c_readBuffer c) \<or> frame_step demo_externs (pending c) = FStall"
  using receive_keeps_room [of "(demo_conn 1 2)\<lparr>c_readBuffer := replicate 65540 0\<rparr>" demo_externs "[]" "[]"]
  by (simp add: demo_conn_def Let_def)

text \<open>
  A packet that cannot be unmarshalled is not dropped and does not close the connection (the log
  message says it will): it stays at the front of the buffer, and no packet is ever delivered again,
  whatever the peer sends afterwards.
\<close>

theorem unmarshal_failure_stalls:
  assumes "reader_ok c" and "frame_step E (pending c) = FStall"
  shows "\<exists>c' unread. receive_run E ns stream c = Some (c', [], None, unread) \<and>
    frame_step E (pending c') = FStall"
proof -
  have "parse_stream E (pending c) = ([], pending c, None)"
    using parse_stream_stall [OF assms(2), of "[]"] by simp
  from receive_run_parses [OF assms(1) this, of ns stream]
  obtain c' ps e unread consumed rest where
    r: "receive_run E ns stream c = Some (c', ps, e, unread)"
    and p: "parse_stream E (pending c @ consumed) = (ps, rest, e)"
    and f: "e = None \<longrightarrow> reader_ok c' \<and> pending c' = rest" by blast
  from p parse_stream_stall [OF assms(2), of consumed]
  have q: "ps = []" "rest = pending c @ consumed" "e = None" by auto
  moreover have "frame_step E (pending c @ consumed) = FStall"
    using frame_step_append [of E "pending c"] assms(2) by simp
  ultimately show ?thesis using r f by auto
qed

theorem unmarshal_failure_stalls_witness:
  "let c = (demo_conn 1 2)\<lparr>c_readBuffer := [67, 72, 0, 1, 0, 255, 0, 0], c_readPos := 6\<rparr> in
   \<exists>c' unread. receive_run demo_externs [2, 2] [67, 72, 0, 1, 0, 1] c = Some (c', [], None, unread) \<and>
     frame_step demo_externs (pending c') = FStall"
proof -
  let ?c = "(demo_conn 1 2)\<lparr>c_readBuffer := [67, 72, 0, 1, 0, 255, 0, 0], c_readPos := 6\<rparr>"
  have "reader_ok ?c" by (simp add: reader_ok_def)
  moreover have "frame_step demo_externs (pending ?c) = FStall"
    by (simp add: frame_step_def pending_def PacketHeaderSize_def read_body_def demo_externs_def)
  ultimately show ?thesis
    using unmarshal_failure_stalls [of ?c demo_externs "[2, 2]" "[67, 72, 0, 1, 0, 1]"]
    by (simp add: Let_def)
qed

subsection \<open>Sending\<close>

definition IsClosing :: "Connection \<Rightarrow> bool" where
  "IsClosing c \<longleftrightarrow> c_state c \<ge> ConnectionState_CLOSING"

text \<open>\<open>queuedMessagePackSender.Send\<close>, then \<open>Connection.Send\<close>.  The queue is unbounded here; the Go
channel blocks its sender while it holds 128 packs.\<close>

definition queuedMessagePackSender_Send :: "Externs \<Rightarrow> MessageContext \<Rightarrow> Connection \<Rightarrow> Connection" where
  "queuedMessagePackSender_Send E ctx c =
     (if \<not> ex_marshalOk E (x_Msg ctx) then c
      else
        let mp = \<lparr>mp_ChannelId = x_ChannelId ctx, mp_Broadcast = x_Broadcast ctx,
                  mp_StubId = x_StubId ctx, mp_MsgType = x_MsgType ctx, mp_MsgBody = x_Msg ctx\<rparr> in
        if int (ex_packSize E mp) \<ge> int MaxPacketSize - int PacketHeaderSize then c
        else if \<not> IsClosing c then c\<lparr>c_sendQueue := c_sendQueue c @ [mp]\<rparr> else c)"

definition conn_Send :: "Externs \<Rightarrow> MessageContext \<Rightarrow> Connection \<Rightarrow> Connection" where
  "conn_Send E ctx c = (if IsClosing c then c else queuedMessagePackSender_Send E ctx c)"

fun flush_loop ::
  "Externs \<Rightarrow> Msg MessagePack list \<Rightarrow> Msg MessagePack list \<Rightarrow>
   Msg MessagePack list \<times> Msg MessagePack list \<times> Msg MessagePack option" where
  "flush_loop E [] messages = (messages, [], None)"
| "flush_loop E (mp # queue) messages =
     (if ex_packetSize E (messages @ [mp]) > MaxPacketSize then (messages, queue, Some mp)
      else flush_loop E queue (messages @ [mp]))"

definition flush :: "Externs \<Rightarrow> Connection \<Rightarrow> Connection" where
  "flush E c =
     (if c_sendQueue c = [] then c
      else
        let messages = (case c_oversizedMsgPack c of None \<Rightarrow> [] | Some mp \<Rightarrow> [mp]);
            (messages', queue', oversized') = flush_loop E (c_sendQueue c) messages;
            c' = c\<lparr>c_sendQueue := queue', c_oversizedMsgPack := oversized'\<rparr> in
        case ex_marshalPacket E messages' of
          None \<Rightarrow> c'
        | Some bytes \<Rightarrow>
            let bytes' = (if c_compressionType c = Compression_SNAPPY
                          then ex_snappyEncode E bytes else bytes) in
            if length bytes' > MaxPacketSize then c'
            else c'\<lparr>c_written := c_written c' @ [frame (c_compressionType c) bytes']\<rparr>)"

text \<open>What the protobuf encoding promises: a packet's size is the length of its encoding, and a pack
below the limit that \<open>Send\<close> checks fits a packet on its own (one tag byte and a length of at most
three bytes).\<close>

definition size_law :: "Externs \<Rightarrow> bool" where
  "size_law E \<longleftrightarrow>
     (\<forall>ps bs. ex_marshalPacket E ps = Some bs \<longrightarrow> length bs = ex_packetSize E ps) \<and>
     (\<forall>mp. ex_packSize E mp < 65530 \<longrightarrow> ex_packetSize E [mp] \<le> ex_packSize E mp + 4)"

lemma size_law_demo [simp]: "size_law demo_externs"
  by (auto simp: size_law_def demo_externs_def)

text \<open>Everything accepted for sending and not yet handed to the network, in order.\<close>

definition outbox :: "Connection \<Rightarrow> Msg MessagePack list" where
  "outbox c = (case c_oversizedMsgPack c of None \<Rightarrow> [] | Some mp \<Rightarrow> [mp]) @ c_sendQueue c"

definition outbox_ok :: "Externs \<Rightarrow> Connection \<Rightarrow> bool" where
  "outbox_ok E c \<longleftrightarrow> (\<forall>mp \<in> set (outbox c). ex_packSize E mp < MaxPacketSize - PacketHeaderSize)"

definition demo_mp :: "Msg MessagePack" where
  "demo_mp = \<lparr>mp_ChannelId = 0, mp_Broadcast = 0, mp_StubId = 0, mp_MsgType = 9,
     mp_MsgBody = DisconnectMessage 7\<rparr>"

lemma flush_loop_keeps:
  "flush_loop E queue messages = (messages', queue', oversized') \<Longrightarrow>
   messages' @ (case oversized' of None \<Rightarrow> [] | Some mp \<Rightarrow> [mp]) @ queue' = messages @ queue"
  by (induction queue arbitrary: messages) (auto split: if_splits)

lemma flush_loop_progress:
  "size_law E \<Longrightarrow> \<forall>mp \<in> set (messages @ queue). ex_packSize E mp < 65530 \<Longrightarrow>
   messages @ queue \<noteq> [] \<Longrightarrow> flush_loop E queue messages = (messages', queue', oversized') \<Longrightarrow>
   messages' \<noteq> [] \<and> (queue \<noteq> [] \<longrightarrow> length queue' < length queue)"
proof (induction queue arbitrary: messages)
  case (Cons mp queue)
  show ?case
  proof (cases "ex_packetSize E (messages @ [mp]) > MaxPacketSize")
    case True
    have "ex_packetSize E [mp] \<le> MaxPacketSize"
      using Cons.prems(1,2) by (fastforce simp: size_law_def MaxPacketSize_def)
    with True have "messages \<noteq> []" by auto
    with True Cons.prems(4) show ?thesis by auto
  next
    case False
    with Cons.prems(4) have l: "flush_loop E queue (messages @ [mp]) = (messages', queue', oversized')"
      by simp
    from Cons.IH [OF Cons.prems(1) _ _ l] Cons.prems(2) show ?thesis
      using l by (cases queue) auto
  qed
qed simp

lemma flush_loop_size:
  "flush_loop E queue messages = (messages', queue', oversized') \<Longrightarrow>
   ex_packetSize E messages \<le> MaxPacketSize \<Longrightarrow> ex_packetSize E messages' \<le> MaxPacketSize"
  by (induction queue arbitrary: messages) (auto split: if_splits)

lemma flush_outbox:
  assumes "c_sendQueue c \<noteq> []"
  shows "\<exists>sent. outbox c = sent @ outbox (flush E c)"
proof -
  let ?m = "case c_oversizedMsgPack c of None \<Rightarrow> [] | Some mp \<Rightarrow> [mp]"
  obtain ms q ov where l: "flush_loop E (c_sendQueue c) ?m = (ms, q, ov)" by (metis prod_cases3)
  with flush_loop_keeps [OF l] assms show ?thesis
    by (intro exI [of _ ms]) (auto simp: flush_def outbox_def Let_def split: option.splits)
qed

lemma outbox_ok_Send:
  "outbox_ok E c \<Longrightarrow> outbox_ok E (conn_Send E ctx c)"
  by (auto simp: conn_Send_def queuedMessagePackSender_Send_def outbox_ok_def outbox_def Let_def
      MaxPacketSize_def PacketHeaderSize_def)

lemma outbox_Send:
  "outbox (conn_Send E ctx c) = outbox c \<or> (\<exists>mp. outbox (conn_Send E ctx c) = outbox c @ [mp])"
  by (auto simp: conn_Send_def queuedMessagePackSender_Send_def outbox_def Let_def)

lemma outbox_ok_flush: "outbox_ok E c \<Longrightarrow> outbox_ok E (flush E c)"
  using flush_outbox [of c E] by (cases "c_sendQueue c = []") (auto simp: flush_def outbox_ok_def)

lemma flush_step:
  assumes law: "size_law E" and ok: "outbox_ok E c" and q: "c_sendQueue c \<noteq> []"
    and m: "\<And>ps. ex_marshalPacket E ps \<noteq> None" and ct: "c_compressionType c \<noteq> Compression_SNAPPY"
  shows "\<exists>sent bytes. sent \<noteq> [] \<and> outbox c = sent @ outbox (flush E c) \<and>
    ex_marshalPacket E sent = Some bytes \<and> length bytes \<le> MaxPacketSize \<and>
    c_written (flush E c) = c_written c @ [frame (c_compressionType c) bytes] \<and>
    length (c_sendQueue (flush E c)) < length (c_sendQueue c)"
proof -
  let ?m = "case c_oversizedMsgPack c of None \<Rightarrow> [] | Some mp \<Rightarrow> [mp]"
  obtain ms qu ov where l: "flush_loop E (c_sendQueue c) ?m = (ms, qu, ov)" by (metis prod_cases3)
  have sizes: "\<forall>mp \<in> set (?m @ c_sendQueue c). ex_packSize E mp < 65530"
    using ok by (simp add: outbox_ok_def outbox_def MaxPacketSize_def PacketHeaderSize_def)
  have p: "ms \<noteq> []" "length qu < length (c_sendQueue c)"
    using flush_loop_progress [OF law sizes _ l] q by auto
  obtain bytes where b: "ex_marshalPacket E ms = Some bytes" using m by blast
  have "ex_packetSize E ms \<le> MaxPacketSize"
  proof (cases "c_oversizedMsgPack c")
    case (Some mp)
    then have "ex_packetSize E ?m \<le> MaxPacketSize"
      using law sizes by (fastforce simp: size_law_def MaxPacketSize_def)
    from flush_loop_size [OF l this] show ?thesis .
  next
    case None
    obtain mp rest where c: "c_sendQueue c = mp # rest" using q by (cases "c_sendQueue c") auto
    then have f: "ex_packetSize E [mp] \<le> MaxPacketSize"
      using law sizes by (fastforce simp: size_law_def MaxPacketSize_def)
    then have "flush_loop E rest [mp] = (ms, qu, ov)" using l None c by simp
    from flush_loop_size [OF this f] show ?thesis .
  qed
  then have len: "length bytes \<le> MaxPacketSize" using law b by (simp add: size_law_def)
  have "outbox c = ms @ outbox (flush E c)"
    using flush_loop_keeps [OF l] l b len ct q by (simp add: flush_def outbox_def Let_def)
  moreover have "c_written (flush E c) = c_written c @ [frame (c_compressionType c) bytes]"
    "c_sendQueue (flush E c) = qu"
    using l b len ct q by (simp_all add: flush_def Let_def)
  ultimately show ?thesis using p b len by auto
qed

text \<open>
  C4. \<open>flush\<close> is a FIFO writer: with something queued and no compression it writes exactly one frame
  of legal size, holding a non-empty prefix of the packs accepted so far (a pack held back by an
  earlier flush first), and keeps the others in order; nothing is lost or duplicated.
\<close>

theorem flush_fifo:
  assumes "size_law E" and "outbox_ok E c" and "c_sendQueue c \<noteq> []"
    and "\<And>ps. ex_marshalPacket E ps \<noteq> None" and "c_compressionType c \<noteq> Compression_SNAPPY"
  shows "\<exists>sent bytes. sent \<noteq> [] \<and> outbox c = sent @ outbox (flush E c) \<and>
    ex_marshalPacket E sent = Some bytes \<and> length bytes \<le> MaxPacketSize \<and>
    c_written (flush E c) = c_written c @ [frame (c_compressionType c) bytes]"
  using flush_step [OF assms] by blast

theorem flush_fifo_witness:
  "let c = (demo_conn 1 2)\<lparr>c_sendQueue := [demo_mp, demo_mp]\<rparr> in
   \<exists>sent bytes. sent \<noteq> [] \<and> outbox c = sent @ outbox (flush demo_externs c) \<and>
    ex_marshalPacket demo_externs sent = Some bytes \<and> length bytes \<le> MaxPacketSize \<and>
    c_written (flush demo_externs c) = c_written c @ [frame (c_compressionType c) bytes]"
  unfolding Let_def
  by (rule flush_fifo) (simp_all add: demo_conn_def outbox_ok_def outbox_def demo_externs_def
      MaxPacketSize_def PacketHeaderSize_def size_law_demo [unfolded demo_externs_def])

lemma flush_drains_ind:
  assumes "size_law E" and "\<And>ps. ex_marshalPacket E ps \<noteq> None"
  shows "outbox_ok E c \<Longrightarrow> c_compressionType c \<noteq> Compression_SNAPPY \<Longrightarrow>
    length (c_sendQueue c) \<le> n \<Longrightarrow> c_sendQueue ((flush E ^^ n) c) = []"
proof (induction n arbitrary: c)
  case (Suc n)
  have ct: "c_compressionType (flush E c) = c_compressionType c"
    by (auto simp: flush_def Let_def split: prod.splits option.splits)
  have "length (c_sendQueue (flush E c)) \<le> n"
    using flush_step [OF assms(1) Suc.prems(1) _ assms(2) Suc.prems(2)] Suc.prems(3)
    by (cases "c_sendQueue c = []") (fastforce simp: flush_def)+
  with Suc ct show ?case by (simp add: funpow_swap1 outbox_ok_flush del: funpow.simps add: funpow_Suc_right)
qed simp

text \<open>
  As many flushes as there are queued packs empty the queue; at most one pack is then left, the
  one that the last flush held back because the packet would have become too large.
\<close>

theorem flush_drains:
  assumes "size_law E" and "outbox_ok E c" and "\<And>ps. ex_marshalPacket E ps \<noteq> None"
    and "c_compressionType c \<noteq> Compression_SNAPPY"
  shows "c_sendQueue ((flush E ^^ length (c_sendQueue c)) c) = [] \<and>
    length (outbox ((flush E ^^ length (c_sendQueue c)) c)) \<le> 1"
  using flush_drains_ind [OF assms(1,3,2,4)] by (auto simp: outbox_def split: option.splits)

theorem flush_drains_witness:
  "let c = (demo_conn 1 2)\<lparr>c_sendQueue := [demo_mp, demo_mp]\<rparr>; n = length (c_sendQueue c) in
   c_sendQueue ((flush demo_externs ^^ n) c) = [] \<and> length (outbox ((flush demo_externs ^^ n) c)) \<le> 1"
  unfolding Let_def
  by (rule flush_drains) (simp_all add: demo_conn_def outbox_ok_def outbox_def demo_externs_def
      MaxPacketSize_def PacketHeaderSize_def size_law_demo [unfolded demo_externs_def])

text \<open>
  A pack that \<open>flush\<close> held back is stranded once the queue is empty: with \<open>a\<close> and \<open>b\<close> queued that do
  not fit one packet, any number of flushes writes \<open>a\<close> alone, and \<open>b\<close> is not written until some other
  message is sent to the connection.
\<close>

theorem flush_strands_held_back_pack:
  assumes "c_sendQueue c = [a, b]" and "c_oversizedMsgPack c = None"
    and "ex_packetSize E [a] \<le> MaxPacketSize" and "ex_packetSize E [a, b] > MaxPacketSize"
  shows "outbox ((flush E ^^ Suc n) c) = [b] \<and>
    c_written ((flush E ^^ Suc n) c) = c_written (flush E c)"
proof -
  have f: "outbox (flush E c) = [b]" "c_sendQueue (flush E c) = []"
    using assms by (auto simp: flush_def outbox_def Let_def split: option.splits)
  then have "flush E (flush E c) = flush E c" by (simp add: flush_def [of E "flush E c"])
  then have "(flush E ^^ n) (flush E c) = flush E c" by (induction n) auto
  with f show ?thesis by (simp add: funpow_swap1)
qed

theorem flush_strands_held_back_pack_witness:
  "let E = demo_externs\<lparr>ex_packetSize := \<lambda>ps. 40000 * length ps\<rparr>;
       c = (demo_conn 1 2)\<lparr>c_sendQueue := [demo_mp, demo_mp]\<rparr> in
   outbox ((flush E ^^ Suc 5) c) = [demo_mp] \<and> c_written ((flush E ^^ Suc 5) c) = c_written (flush E c)"
  unfolding Let_def
  by (rule flush_strands_held_back_pack) (simp_all add: demo_conn_def MaxPacketSize_def)

subsection \<open>End to end\<close>

text \<open>
  C3. What \<open>flush\<close> writes, \<open>receive\<close> reads: the concatenation of any number of frames with legal,
  unmarshallable bodies, read to its end in chunks of any sizes, yields the packets of the frames, in
  order, without an error.
\<close>

theorem frames_roundtrip:
  assumes "\<forall>(ct, body) \<in> set fs. body \<noteq> [] \<and> length body \<le> MaxPacketSize \<and> body_packet E ct body \<noteq> None"
    and "c_readPos c = 0"
    and "receive_run E ns (concat (map (\<lambda>(ct, body). frame ct body) fs)) c = Some (c', ps, e, [])"
  shows "ps = map (\<lambda>(ct, body). the (body_packet E ct body)) fs \<and> e = None \<and> pending c' = []"
proof -
  have c: "reader_ok c" "pending c = []" using assms(2) by (auto simp: reader_ok_def pending_def)
  then have "parse_stream E (pending c) = ([], pending c, None)" by (simp add: parse_stream_short)
  from receive_run_parses [OF c(1) this, of ns "concat (map (\<lambda>(ct, body). frame ct body) fs)"] assms(3)
  obtain rest where "parse_stream E (concat (map (\<lambda>(ct, body). frame ct body) fs)) = (ps, rest, e)"
    "e = None \<longrightarrow> pending c' = rest" by (auto simp: c(2))
  with parse_stream_frames [OF assms(1)] show ?thesis by simp
qed

theorem frames_roundtrip_witness:
  "\<exists>c' ps e. receive_run demo_externs [16] (concat (map (\<lambda>(ct, body). frame ct body) [(0, [1, 2]), (0, [5])]))
      (demo_conn 1 2) = Some (c', ps, e, []) \<and>
    ps = map (\<lambda>(ct, body). the (body_packet demo_externs ct body)) [(0, [1, 2]), (0, [5])] \<and>
    e = None \<and> pending c' = []"
proof -
  let ?fs = "[(0, [1, 2]), (0, [5])] :: (CompressionType \<times> byte list) list"
  let ?stream = "concat (map (\<lambda>(ct, body). frame ct body) ?fs)"
  have "\<exists>c' ps e. receive_bytes demo_externs ?stream (demo_conn 1 2) = Some (c', ps, e)"
    using receive_bytes_parses [of "demo_conn 1 2" ?stream demo_externs]
    by (auto simp: reader_ok_def demo_conn_def frame_def)
  then obtain c' ps e where b: "receive_bytes demo_externs ?stream (demo_conn 1 2) = Some (c', ps, e)"
    by blast
  have r: "receive_run demo_externs [16] ?stream (demo_conn 1 2) = Some (c', ps, e, [])"
    using b by (cases e) (simp_all add: demo_conn_def frame_def Let_def)
  moreover have "\<forall>(ct, body) \<in> set ?fs. body \<noteq> [] \<and> length body \<le> MaxPacketSize \<and>
      body_packet demo_externs ct body \<noteq> None"
    by (auto simp: body_packet_def read_body_def demo_externs_def MaxPacketSize_def)
  ultimately show ?thesis using frames_roundtrip [of ?fs demo_externs "demo_conn 1 2" "[16]" c' ps e]
    by (auto simp: demo_conn_def)
qed

end
