(* ===== verification/Connections.thy ===== *)
theory Connections
  imports Framing
begin

text \<open>
  The life of a connection (\<open>connection.go\<close>, \<open>connection_recovery.go\<close>): allocation of its identifier,
  registration, authentication, closing, and the recovery of a server connection under its previous
  identifier.

  \<open>w_now\<close> is the clock in nanoseconds.  \<open>AddConnection\<close> reads the clock once per attempt at an
  identifier; the readings are an argument.
\<close>

definition GetConnection :: "World \<Rightarrow> uint32 \<Rightarrow> ConnPtr option" where
  "GetConnection w i = (case map_of (w_allConnections w) i of
     None \<Rightarrow> None
   | Some p \<Rightarrow> if IsClosing (w_conn w p) then None else Some p)"

definition GetChannel :: "World \<Rightarrow> uint32 \<Rightarrow> ChanPtr option" where
  "GetChannel w i = map_of (w_allChannels w) i"

subsection \<open>Adding a connection\<close>

definition generateNextConnId :: "NetAddr \<Rightarrow> uint32 \<Rightarrow> int \<Rightarrow> World \<Rightarrow> World option" where
  "generateNextConnId addr maxConnId now w =
     (if gs_Development (w_settings w) then
        let next = w_nextConnectionId w + 1 in
        if next \<ge> maxConnId then None else Some (w\<lparr>w_nextConnectionId := next\<rparr>)
      else
        let hash = xor (HashString (map (\<lambda>c. of_char c) (addr_String addr))) (of_int now) in
        Some (w\<lparr>w_nextConnectionId := and hash maxConnId\<rparr>))"

text \<open>At most 101 attempts; the clock reads \<open>clock k\<close> at attempt \<open>k\<close>.\<close>

fun conn_id_loop ::
  "nat \<Rightarrow> nat \<Rightarrow> NetAddr \<Rightarrow> uint32 \<Rightarrow> (nat \<Rightarrow> int) \<Rightarrow> World \<Rightarrow> World option" where
  "conn_id_loop 0 tries addr maxConnId clock w = None"
| "conn_id_loop (Suc n) tries addr maxConnId clock w = do {
     w' \<leftarrow> generateNextConnId addr maxConnId (clock tries) w;
     if map_of (w_allConnections w') (w_nextConnectionId w') = None then Some w'
     else conn_id_loop n (tries + 1) addr maxConnId clock w'
   }"

definition isPacketRecordingEnabled :: "World \<Rightarrow> Connection \<Rightarrow> bool" where
  "isPacketRecordingEnabled w c \<longleftrightarrow>
     c_connectionType c = ConnectionType_CLIENT \<and> gs_EnableRecordPacket (w_settings w)"

definition max_conn_id :: "GlobalSettingsType \<Rightarrow> uint32" where
  "max_conn_id s = push_bit (gs_MaxConnectionIdBits s) 1 - 1"

definition new_connection ::
  "World \<Rightarrow> uint32 \<Rightarrow> NetAddr \<Rightarrow> ConnectionType \<Rightarrow> nat \<Rightarrow> FiniteStateMachine \<Rightarrow> Connection" where
  "new_connection w i addr t readerSize fsm = \<lparr>c_id = i, c_connectionType = t,
     c_compressionType = Compression_NO, c_remoteAddr = addr,
     c_readBuffer = replicate readerSize 0, c_readPos = 0, c_sendQueue = [],
     c_oversizedMsgPack = None, c_pit = [], c_fsm = fsm, c_fsmDisallowedCounter = 0,
     c_state = ConnectionState_UNAUTHENTICATED, c_connTime = w_now w, c_closeHandlers = [],
     c_replaySession = (if t = ConnectionType_CLIENT \<and> gs_EnableRecordPacket (w_settings w)
                        then Some [] else None),
     c_spatialSubscriptions = [], c_recoverHandle = None, c_written = []\<rparr>"

definition register_connection :: "Connection \<Rightarrow> World \<Rightarrow> World" where
  "register_connection c w =
     (let p = w_nconn w in
      w\<lparr>w_conn := (w_conn w)(p := c), w_nconn := p + 1,
        w_allConnections := AList.update (c_id c) p (w_allConnections w),
        w_unauthenticatedConnections :=
          (if gs_ConnectionAuthTimeoutMs (w_settings w) > 0
           then AList.update (c_id c) p (w_unauthenticatedConnections w)
           else w_unauthenticatedConnections w)\<rparr>)"

definition reader_size :: "GlobalSettingsType \<Rightarrow> ConnectionType \<Rightarrow> nat option" where
  "reader_size s t =
     (if t = ConnectionType_SERVER then Some (max (gs_ServerReadBufferSize s) (MaxPacketSize + PacketHeaderSize))
      else if t = ConnectionType_CLIENT then Some (max (gs_ClientReadBufferSize s) (MaxPacketSize + PacketHeaderSize))
      else None)"

definition AddConnection ::
  "NetAddr \<Rightarrow> ConnectionType \<Rightarrow> (nat \<Rightarrow> int) \<Rightarrow> World \<Rightarrow> (World \<times> ConnPtr) option" where
  "AddConnection addr t clock w = do {
     readerSize \<leftarrow> reader_size (w_settings w) t;
     w1 \<leftarrow> conn_id_loop 101 0 addr (max_conn_id (w_settings w)) clock w;
     fsm \<leftarrow> (if t = ConnectionType_SERVER then w_serverFsm w1 else w_clientFsm w1);
     let c = new_connection w1 (w_nextConnectionId w1) addr t readerSize fsm;
     Some (register_connection c w1, w_nconn w1)
   }"

subsection \<open>Closing\<close>

text \<open>\<open>makeRecoverable\<close> keeps the identifier and the time of the lost connection under its PIT.\<close>

definition makeRecoverable :: "ConnPtr \<Rightarrow> World \<Rightarrow> World" where
  "makeRecoverable p w =
     (let h = w_nhandle w;
          handle = \<lparr>rh_prevConnId = c_id (w_conn w p), rh_disconnTime = w_now w,
                    rh_newConn = None, rh_startRecoveryTime = 0\<rparr> in
      upd_conn p (\<lambda>c. c\<lparr>c_recoverHandle := Some h\<rparr>)
        (w\<lparr>w_handle := (w_handle w)(h := handle), w_nhandle := h + 1,
           w_connectionRecoverHandles :=
             AList.update (c_pit (w_conn w p)) h (w_connectionRecoverHandles w)\<rparr>))"

text \<open>\<open>persistReplaySession\<close> turns the absolute times of the recorded packets into differences before
writing the session to a file.\<close>

fun relative_times :: "int \<Rightarrow> ReplayPacket list \<Rightarrow> ReplayPacket list" where
  "relative_times prev [] = []"
| "relative_times prev (p # ps) =
     p\<lparr>rp_OffsetTime := rp_OffsetTime p - prev\<rparr> # relative_times (rp_OffsetTime p) ps"

definition persistReplaySession :: "Connection \<Rightarrow> Connection" where
  "persistReplaySession c = (case c_replaySession c of
     Some (p # ps) \<Rightarrow> c\<lparr>c_replaySession := Some (relative_times (rp_OffsetTime p) (p # ps))\<rparr>
   | _ \<Rightarrow> c)"

text \<open>\<open>Close(err)\<close>; the argument says whether the error is not nil.\<close>

definition conn_Close :: "bool \<Rightarrow> ConnPtr \<Rightarrow> World \<Rightarrow> World" where
  "conn_Close err p w =
     (let c = w_conn w p in
      if IsClosing c then w
      else
        let w1 = (if isPacketRecordingEnabled w c then upd_conn p persistReplaySession w else w);
            w2 = fold (\<lambda>h. log_event (EvCloseHandler h)) (c_closeHandlers c) w1;
            w3 = (if err \<and> c_connectionType c = ConnectionType_SERVER \<and>
                     gs_ServerConnRecoverable (w_settings w)
                  then makeRecoverable p w2 else w2);
            w4 = upd_conn p (\<lambda>c. c\<lparr>c_state := ConnectionState_CLOSING\<rparr>) w3 in
        w4\<lparr>w_allConnections := AList.delete (c_id c) (w_allConnections w4),
           w_unauthenticatedConnections := AList.delete (c_id c) (w_unauthenticatedConnections w4)\<rparr>)"

subsection \<open>Authentication and recovery\<close>

definition ShouldRecover :: "World \<Rightarrow> ConnPtr \<Rightarrow> bool" where
  "ShouldRecover w p \<longleftrightarrow> c_recoverHandle (w_conn w p) \<noteq> None"

definition RecoverFromHandle :: "ConnPtr \<Rightarrow> HandlePtr \<Rightarrow> World \<Rightarrow> World" where
  "RecoverFromHandle p h w =
     (let prev = rh_prevConnId (w_handle w h);
          prevIdExists = (map_of (w_allConnections w) prev \<noteq> None);
          w1 = w\<lparr>w_allConnections := AList.delete prev (w_allConnections w)\<rparr> in
      if \<not> prevIdExists then
        let w2 = upd_conn p (\<lambda>c. c\<lparr>c_id := prev\<rparr>) w1;
            w3 = w2\<lparr>w_allConnections := AList.update prev p (w_allConnections w2)\<rparr>;
            w4 = upd_conn p (\<lambda>c. c\<lparr>c_recoverHandle := Some h\<rparr>) w3 in
        upd_handle h (\<lambda>r. r\<lparr>rh_newConn := Some p, rh_startRecoveryTime := w_now w\<rparr>) w4
      else w1)"

definition OnAuthenticated :: "ConnPtr \<Rightarrow> string \<Rightarrow> World \<Rightarrow> World" where
  "OnAuthenticated p pit w =
     (if IsClosing (w_conn w p) then w
      else
        let w1 = upd_conn p (\<lambda>c. c\<lparr>c_state := ConnectionState_AUTHENTICATED\<rparr>) w;
            w2 = w1\<lparr>w_unauthenticatedConnections :=
                      AList.delete (c_id (w_conn w p)) (w_unauthenticatedConnections w1)\<rparr>;
            w3 = upd_conn p (\<lambda>c. c\<lparr>c_pit := pit, c_fsm := fst (MoveToNextState (c_fsm c))\<rparr>) w2 in
        case map_of (w_connectionRecoverHandles w3) pit of
          Some h \<Rightarrow> RecoverFromHandle p h w3
        | None \<Rightarrow> w3)"

definition IsTimeOut :: "World \<Rightarrow> HandlePtr \<Rightarrow> bool" where
  "IsTimeOut w h \<longleftrightarrow> gs_ServerConnRecoverTimeoutMs (w_settings w) > 0 \<and>
     w_now w - rh_disconnTime (w_handle w h) > 1000000 * gs_ServerConnRecoverTimeoutMs (w_settings w)"

definition ChannelDataRecoveryTimeout :: int where
  "ChannelDataRecoveryTimeout = 1000000000"

definition world_Send :: "Externs \<Rightarrow> ConnPtr \<Rightarrow> MessageContext \<Rightarrow> World \<Rightarrow> World" where
  "world_Send E p ctx w = upd_conn p (conn_Send E ctx) w"

definition empty_ctx :: MessageContext where
  "empty_ctx = \<lparr>x_MsgType = 0, x_Msg = NilMsg, x_Broadcast = 0, x_StubId = 0, x_ChannelId = 0,
     x_Connection = NilIface, x_Channel = None, x_arrivalTime = 0\<rparr>"

text \<open>One round of \<open>tickConnectionRecovery\<close> over the registered handles.\<close>

definition tick_recovery_one :: "Externs \<Rightarrow> string \<times> HandlePtr \<Rightarrow> World \<Rightarrow> World" where
  "tick_recovery_one E kv w =
     (case kv of (key, h) \<Rightarrow>
       if IsTimeOut w h then
         w\<lparr>w_connectionRecoverHandles := AList.delete key (w_connectionRecoverHandles w)\<rparr>
       else case rh_newConn (w_handle w h) of
         None \<Rightarrow> w
       | Some p \<Rightarrow>
           if w_now w - rh_startRecoveryTime (w_handle w h) > ChannelDataRecoveryTimeout then
             let w1 = world_Send E p (empty_ctx\<lparr>x_MsgType := MessageType_RECOVERY_END,
                        x_Msg := EndRecoveryMesssage, x_ChannelId := GlobalChannelId\<rparr>) w;
                 w2 = upd_conn p (\<lambda>c. c\<lparr>c_recoverHandle := None\<rparr>) w1 in
             w2\<lparr>w_connectionRecoverHandles := AList.delete key (w_connectionRecoverHandles w2)\<rparr>
           else w)"

definition tickConnectionRecovery :: "Externs \<Rightarrow> World \<Rightarrow> World" where
  "tickConnectionRecovery E w = fold (tick_recovery_one E) (w_connectionRecoverHandles w) w"

subsection \<open>Adding\<close>

definition dev_world :: World where
  "dev_world = demo_world\<lparr>w_settings := default_settings\<lparr>gs_Development := True\<rparr>\<rparr>"

lemma generateNextConnId_frame:
  assumes "generateNextConnId addr m now w = Some w'"
  obtains i where "w' = w\<lparr>w_nextConnectionId := i\<rparr>" and "i \<le> m"
  using assms by (auto simp: generateNextConnId_def Let_def word_and_le1 split: if_splits)

lemma conn_id_loop_frame:
  "conn_id_loop n k addr m clock w = Some w' \<Longrightarrow>
   \<exists>i. w' = w\<lparr>w_nextConnectionId := i\<rparr> \<and> i \<le> m \<and> map_of (w_allConnections w) i = None"
proof (induction n arbitrary: k w)
  case (Suc n)
  then obtain w1 where g: "generateNextConnId addr m (clock k) w = Some w1"
    by (auto simp: bind_Some_iff)
  then obtain i where i: "w1 = w\<lparr>w_nextConnectionId := i\<rparr>" "i \<le> m" by (rule generateNextConnId_frame)
  show ?case
  proof (cases "map_of (w_allConnections w) i = None")
    case True
    then show ?thesis using g i Suc.prems by auto
  next
    case False
    with g i Suc.prems have "conn_id_loop n (k + 1) addr m clock w1 = Some w'" by simp
    from Suc.IH [OF this] i show ?thesis by auto
  qed
qed simp

lemma AddConnection_result:
  assumes "AddConnection addr t clock w = Some (w', p)"
  obtains i fsm n where "p = w_nconn w" "i \<le> max_conn_id (w_settings w)"
    "map_of (w_allConnections w) i = None"
    "(if t = ConnectionType_SERVER then w_serverFsm w else w_clientFsm w) = Some fsm"
    "reader_size (w_settings w) t = Some n"
    "w' = register_connection (new_connection w i addr t n fsm) (w\<lparr>w_nextConnectionId := i\<rparr>)"
proof -
  from assms obtain n w1 fsm where n: "reader_size (w_settings w) t = Some n"
    and l: "conn_id_loop 101 0 addr (max_conn_id (w_settings w)) clock w = Some w1"
    and f: "(if t = ConnectionType_SERVER then w_serverFsm w1 else w_clientFsm w1) = Some fsm"
    and r: "w' = register_connection (new_connection w1 (w_nextConnectionId w1) addr t n fsm) w1"
      "p = w_nconn w1"
    by (auto simp: AddConnection_def bind_Some_iff simp del: conn_id_loop.simps)
  from conn_id_loop_frame [OF l] obtain i where i: "w1 = w\<lparr>w_nextConnectionId := i\<rparr>"
    "i \<le> max_conn_id (w_settings w)" "map_of (w_allConnections w) i = None" by blast
  show thesis
    by (rule that [of i fsm n]) (use n f r i in \<open>auto simp: new_connection_def\<close>)
qed

lemma reader_size_bound: "reader_size s t = Some n \<Longrightarrow> 5 + 0xffff \<le> n"
  by (auto simp: reader_size_def MaxPacketSize_def PacketHeaderSize_def split: if_splits)

text \<open>
  A new connection gets an identifier that no registered connection has and that fits the
  configured number of bits, is registered under it, starts unauthenticated with an empty read buffer
  that holds a maximal packet and a copy of the state machine of its side, and leaves every other
  connection and registration alone.
\<close>

theorem AddConnection_correct:
  assumes "AddConnection addr t clock w = Some (w', p)" and "alist_ok (w_allConnections w)"
  shows "let c = w_conn w' p in
    GetConnection w (c_id c) = None \<and> GetConnection w' (c_id c) = Some p \<and>
    c_id c \<le> max_conn_id (w_settings w) \<and>
    c_state c = ConnectionState_UNAUTHENTICATED \<and> pending c = [] \<and> 5 + 0xffff \<le> length (c_readBuffer c) \<and>
    Some (c_fsm c) = (if t = ConnectionType_SERVER then w_serverFsm w else w_clientFsm w) \<and>
    (\<forall>q. q \<noteq> p \<longrightarrow> w_conn w' q = w_conn w q) \<and>
    (\<forall>i. i \<noteq> c_id c \<longrightarrow> map_of (w_allConnections w') i = map_of (w_allConnections w) i) \<and>
    alist_ok (w_allConnections w')"
  using assms(1)
proof (rule AddConnection_result)
  fix i fsm n
  assume "p = w_nconn w" "i \<le> max_conn_id (w_settings w)"
    "map_of (w_allConnections w) i = None"
    "(if t = ConnectionType_SERVER then w_serverFsm w else w_clientFsm w) = Some fsm"
    "reader_size (w_settings w) t = Some n"
    "w' = register_connection (new_connection w i addr t n fsm) (w\<lparr>w_nextConnectionId := i\<rparr>)"
  then show ?thesis using assms(2) reader_size_bound [of "w_settings w" t n]
    by (simp add: Let_def GetConnection_def IsClosing_def pending_def register_connection_def
        new_connection_def)
qed

theorem AddConnection_correct_witness:
  "\<exists>w' p. AddConnection (OtherAddr ''pipe'') 2 (\<lambda>_. 0) dev_world = Some (w', p) \<and>
    (let c = w_conn w' p in
     GetConnection dev_world (c_id c) = None \<and> GetConnection w' (c_id c) = Some p \<and>
     c_id c \<le> max_conn_id (w_settings dev_world) \<and>
     c_state c = ConnectionState_UNAUTHENTICATED \<and> pending c = [] \<and> 5 + 0xffff \<le> length (c_readBuffer c) \<and>
     Some (c_fsm c) = (if 2 = ConnectionType_SERVER then w_serverFsm dev_world else w_clientFsm dev_world) \<and>
     (\<forall>q. q \<noteq> p \<longrightarrow> w_conn w' q = w_conn dev_world q) \<and>
     (\<forall>i. i \<noteq> c_id c \<longrightarrow> map_of (w_allConnections w') i = map_of (w_allConnections dev_world) i) \<and>
     alist_ok (w_allConnections w'))"
proof -
  have "conn_id_loop (Suc 100) 0 (OtherAddr ''pipe'') (max_conn_id (w_settings dev_world)) (\<lambda>_. 0) dev_world =
      Some (dev_world\<lparr>w_nextConnectionId := 1\<rparr>)"
    unfolding conn_id_loop.simps
    by (simp add: generateNextConnId_def dev_world_def demo_world_def default_settings_def max_conn_id_def
        word_le_nat_alt)
  then have "\<exists>w' p. AddConnection (OtherAddr ''pipe'') 2 (\<lambda>_. 0) dev_world = Some (w', p)"
    by (simp add: AddConnection_def reader_size_def dev_world_def demo_world_def del: conn_id_loop.simps)
  then obtain w' p where r: "AddConnection (OtherAddr ''pipe'') 2 (\<lambda>_. 0) dev_world = Some (w', p)" by blast
  have ok: "alist_ok (w_allConnections dev_world)" by (simp add: dev_world_def demo_world_def)
  show ?thesis using AddConnection_correct [OF r ok] r by blast
qed

lemma conn_id_loop_finds:
  assumes "\<not> gs_Development (w_settings w)" and "k \<le> j" and "j < k + n"
    and "map_of (w_allConnections w)
      (and (xor (HashString (map of_char (addr_String addr))) (of_int (clock j))) m) = None"
  shows "\<exists>w'. conn_id_loop n k addr m clock w = Some w'"
  using assms
proof (induction n arbitrary: k w)
  case (Suc n)
  let ?i = "and (xor (HashString (map of_char (addr_String addr))) (of_int (clock k))) m"
  have g: "generateNextConnId addr m (clock k) w = Some (w\<lparr>w_nextConnectionId := ?i\<rparr>)"
    using Suc.prems(1) by (simp add: generateNextConnId_def)
  show ?case
  proof (cases "map_of (w_allConnections w) ?i = None")
    case True
    then show ?thesis using g by simp
  next
    case False
    with Suc.prems(4) have "k \<noteq> j" by auto
    with Suc.prems have "k + 1 \<le> j" "j < k + 1 + n" by auto
    with Suc.IH [of "w\<lparr>w_nextConnectionId := ?i\<rparr>" "k + 1"] Suc.prems g False show ?thesis by simp
  qed
qed simp

text \<open>
  \<open>AddConnection\<close> returns a connection when the state machine of the side is loaded and, outside
  development mode, one of its 101 clock readings hashes to an identifier that is not in use, or, in
  development mode, the next number is below the limit and not in use.
\<close>

theorem AddConnection_succeeds:
  assumes "t = ConnectionType_SERVER \<and> w_serverFsm w \<noteq> None \<or> t = ConnectionType_CLIENT \<and> w_clientFsm w \<noteq> None"
    and "\<not> gs_Development (w_settings w) \<and> (\<exists>j < 101. map_of (w_allConnections w)
        (and (xor (HashString (map of_char (addr_String addr))) (of_int (clock j)))
           (max_conn_id (w_settings w))) = None) \<or>
      gs_Development (w_settings w) \<and> w_nextConnectionId w + 1 < max_conn_id (w_settings w) \<and>
        map_of (w_allConnections w) (w_nextConnectionId w + 1) = None"
  shows "AddConnection addr t clock w \<noteq> None"
proof -
  have "\<exists>w'. conn_id_loop 101 0 addr (max_conn_id (w_settings w)) clock w = Some w'"
    using assms(2)
  proof
    assume "\<not> gs_Development (w_settings w) \<and> (\<exists>j < 101. map_of (w_allConnections w)
        (and (xor (HashString (map of_char (addr_String addr))) (of_int (clock j)))
           (max_conn_id (w_settings w))) = None)"
    then show ?thesis using conn_id_loop_finds [of w 0 _ 101 addr clock] by auto
  next
    assume "gs_Development (w_settings w) \<and> w_nextConnectionId w + 1 < max_conn_id (w_settings w) \<and>
        map_of (w_allConnections w) (w_nextConnectionId w + 1) = None"
    then have "conn_id_loop (Suc 100) 0 addr (max_conn_id (w_settings w)) clock w =
        Some (w\<lparr>w_nextConnectionId := w_nextConnectionId w + 1\<rparr>)"
      unfolding conn_id_loop.simps
      by (auto simp: generateNextConnId_def Let_def not_le simp del: conn_id_loop.simps)
    then show ?thesis by simp
  qed
  then obtain w1 where l: "conn_id_loop 101 0 addr (max_conn_id (w_settings w)) clock w = Some w1" by blast
  from conn_id_loop_frame [OF l] have "w_serverFsm w1 = w_serverFsm w" "w_clientFsm w1 = w_clientFsm w"
    by auto
  with l assms(1) show ?thesis
    by (auto simp: AddConnection_def reader_size_def simp del: conn_id_loop.simps)
qed

theorem AddConnection_succeeds_witness:
  "AddConnection (OtherAddr ''pipe'') 2 (\<lambda>_. 0) dev_world \<noteq> None"
  by (rule AddConnection_succeeds)
    (simp_all add: dev_world_def demo_world_def default_settings_def max_conn_id_def)

subsection \<open>Closing\<close>

lemma fold_log_frame [simp]:
  "w_conn (fold (\<lambda>h. log_event (f h)) hs w) = w_conn w"
  "w_allConnections (fold (\<lambda>h. log_event (f h)) hs w) = w_allConnections w"
  "w_unauthenticatedConnections (fold (\<lambda>h. log_event (f h)) hs w) = w_unauthenticatedConnections w"
  "w_settings (fold (\<lambda>h. log_event (f h)) hs w) = w_settings w"
  "w_handle (fold (\<lambda>h. log_event (f h)) hs w) = w_handle w"
  "w_nhandle (fold (\<lambda>h. log_event (f h)) hs w) = w_nhandle w"
  "w_now (fold (\<lambda>h. log_event (f h)) hs w) = w_now w"
  "w_chan (fold (\<lambda>h. log_event (f h)) hs w) = w_chan w"
  "w_allChannels (fold (\<lambda>h. log_event (f h)) hs w) = w_allChannels w"
  "w_globalChannel (fold (\<lambda>h. log_event (f h)) hs w) = w_globalChannel w"
  "w_connectionRecoverHandles (fold (\<lambda>h. log_event (f h)) hs w) = w_connectionRecoverHandles w"
  "w_ipBlacklist (fold (\<lambda>h. log_event (f h)) hs w) = w_ipBlacklist w"
  "w_pitBlacklist (fold (\<lambda>h. log_event (f h)) hs w) = w_pitBlacklist w"
  "w_failedAuthCounters (fold (\<lambda>h. log_event (f h)) hs w) = w_failedAuthCounters w"
  by (induction hs arbitrary: w) auto

lemma persistReplaySession_frame [simp]:
  "c_id (persistReplaySession c) = c_id c" "c_state (persistReplaySession c) = c_state c"
  "c_pit (persistReplaySession c) = c_pit c"
  "c_recoverHandle (persistReplaySession c) = c_recoverHandle c"
  "c_connectionType (persistReplaySession c) = c_connectionType c"
  by (auto simp: persistReplaySession_def split: option.splits list.splits)

lemma Close_closed: "IsClosing (w_conn w p) \<Longrightarrow> conn_Close err p w = w"
  by (simp add: conn_Close_def Let_def)

lemma Close_frame [simp]:
  "q \<noteq> p \<Longrightarrow> w_conn (conn_Close err p w) q = w_conn w q"
  "w_chan (conn_Close err p w) = w_chan w"
  "w_allChannels (conn_Close err p w) = w_allChannels w"
  "w_globalChannel (conn_Close err p w) = w_globalChannel w"
  "w_settings (conn_Close err p w) = w_settings w"
  "w_now (conn_Close err p w) = w_now w"
  "c_id (w_conn (conn_Close err p w) p) = c_id (w_conn w p)"
  "c_connectionType (w_conn (conn_Close err p w) p) = c_connectionType (w_conn w p)"
  "w_ipBlacklist (conn_Close err p w) = w_ipBlacklist w"
  "w_pitBlacklist (conn_Close err p w) = w_pitBlacklist w"
  "w_failedAuthCounters (conn_Close err p w) = w_failedAuthCounters w"
  by (auto simp: conn_Close_def makeRecoverable_def Let_def)

lemma Close_closes: "IsClosing (w_conn (conn_Close err p w) p)"
  by (auto simp: conn_Close_def makeRecoverable_def Let_def IsClosing_def)

lemma Close_registry:
  "\<not> IsClosing (w_conn w p) \<Longrightarrow>
   w_allConnections (conn_Close err p w) = AList.delete (c_id (w_conn w p)) (w_allConnections w)"
  by (auto simp: conn_Close_def makeRecoverable_def Let_def)

lemma Close_handle:
  "\<not> IsClosing (w_conn w p) \<Longrightarrow>
   c_recoverHandle (w_conn (conn_Close err p w) p) =
     (if err \<and> c_connectionType (w_conn w p) = ConnectionType_SERVER \<and>
         gs_ServerConnRecoverable (w_settings w)
      then Some (w_nhandle w) else c_recoverHandle (w_conn w p))"
  by (auto simp: conn_Close_def makeRecoverable_def Let_def)

text \<open>
  C36. \<open>Close\<close> is idempotent, unregisters the connection and nothing else, and keeps a recovery handle
  with the identifier of the lost connection exactly for a server connection lost with an error while
  recovery is enabled.
\<close>

theorem Close_correct:
  assumes "\<not> IsClosing (w_conn w p)"
  shows "let w' = conn_Close err p w; c = w_conn w p in
    IsClosing (w_conn w' p) \<and> GetConnection w' (c_id c) = None \<and>
    conn_Close err' p w' = w' \<and>
    (\<forall>q. q \<noteq> p \<longrightarrow> w_conn w' q = w_conn w q) \<and>
    (\<forall>i. i \<noteq> c_id c \<longrightarrow> map_of (w_allConnections w') i = map_of (w_allConnections w) i) \<and>
    (if err \<and> c_connectionType c = ConnectionType_SERVER \<and> gs_ServerConnRecoverable (w_settings w)
     then \<exists>h. c_recoverHandle (w_conn w' p) = Some h \<and>
       map_of (w_connectionRecoverHandles w') (c_pit c) = Some h \<and>
       rh_prevConnId (w_handle w' h) = c_id c \<and> rh_disconnTime (w_handle w' h) = w_now w \<and>
       rh_newConn (w_handle w' h) = None
     else c_recoverHandle (w_conn w' p) = c_recoverHandle c \<and>
       w_connectionRecoverHandles w' = w_connectionRecoverHandles w)"
proof -
  let ?w = "conn_Close err p w" and ?c = "w_conn w p"
  have h: "if err \<and> c_connectionType ?c = ConnectionType_SERVER \<and> gs_ServerConnRecoverable (w_settings w)
     then \<exists>h. c_recoverHandle (w_conn ?w p) = Some h \<and>
       map_of (w_connectionRecoverHandles ?w) (c_pit ?c) = Some h \<and>
       rh_prevConnId (w_handle ?w h) = c_id ?c \<and> rh_disconnTime (w_handle ?w h) = w_now w \<and>
       rh_newConn (w_handle ?w h) = None
     else c_recoverHandle (w_conn ?w p) = c_recoverHandle ?c \<and>
       w_connectionRecoverHandles ?w = w_connectionRecoverHandles w"
    using assms by (auto simp: conn_Close_def makeRecoverable_def Let_def)
  show ?thesis
    using h Close_closed [OF Close_closes] Close_closes [of err p w] Close_registry [OF assms, of err]
    by (simp add: Let_def GetConnection_def)
qed

definition two_conn_world :: World where
  "two_conn_world = demo_world\<lparr>w_conn := (\<lambda>p. if p = 0 then demo_conn 7 1 else demo_conn 9 1),
     w_nconn := 2, w_allConnections := [(7, 0), (9, 1)],
     w_settings := default_settings\<lparr>gs_ServerConnRecoverable := True\<rparr>\<rparr>"

theorem Close_correct_witness:
  "let w = two_conn_world; w' = conn_Close True 0 w; c = w_conn w 0 in
    IsClosing (w_conn w' 0) \<and> GetConnection w' (c_id c) = None \<and>
    conn_Close False 0 w' = w' \<and>
    (\<forall>q. q \<noteq> 0 \<longrightarrow> w_conn w' q = w_conn w q) \<and>
    (\<forall>i. i \<noteq> c_id c \<longrightarrow> map_of (w_allConnections w') i = map_of (w_allConnections w) i) \<and>
    (\<exists>h. c_recoverHandle (w_conn w' 0) = Some h \<and>
       map_of (w_connectionRecoverHandles w') (c_pit c) = Some h \<and>
       rh_prevConnId (w_handle w' h) = c_id c \<and> rh_disconnTime (w_handle w' h) = w_now w \<and>
       rh_newConn (w_handle w' h) = None)"
proof -
  have "\<not> IsClosing (w_conn two_conn_world 0)"
    by (simp add: two_conn_world_def demo_conn_def IsClosing_def)
  moreover have "c_connectionType (w_conn two_conn_world 0) = ConnectionType_SERVER"
    "gs_ServerConnRecoverable (w_settings two_conn_world)"
    by (simp_all add: two_conn_world_def demo_conn_def)
  ultimately show ?thesis using Close_correct [of two_conn_world 0 True False]
    by (simp add: Let_def del: Close_frame)
qed

subsection \<open>Recovery\<close>

text \<open>
  A server connection that authenticates with the PIT of a lost connection, whose identifier is
  still free, takes that identifier over: it is found under it, it carries the recovery handle, and
  the handle points to it.  Its own old identifier stays registered as well, and closing the
  connection never removes that entry, so the old identifier is never given out again.
\<close>

theorem OnAuthenticated_recovers:
  assumes "\<not> IsClosing (w_conn w p)" and "map_of (w_connectionRecoverHandles w) pit = Some h"
    and "map_of (w_allConnections w) (rh_prevConnId (w_handle w h)) = None"
    and "map_of (w_allConnections w) (c_id (w_conn w p)) = Some p"
    and "rh_prevConnId (w_handle w h) = i"
  shows "let w' = OnAuthenticated p pit w in
    c_id (w_conn w' p) = i \<and> GetConnection w' i = Some p \<and>
    c_state (w_conn w' p) = ConnectionState_AUTHENTICATED \<and> c_pit (w_conn w' p) = pit \<and>
    c_recoverHandle (w_conn w' p) = Some h \<and> rh_newConn (w_handle w' h) = Some p \<and>
    map_of (w_allConnections (conn_Close err p w')) (c_id (w_conn w p)) = Some p"
proof -
  let ?w = "OnAuthenticated p pit w"
  have ne: "c_id (w_conn w p) \<noteq> i" using assms(3,4,5) by auto
  have a: "c_id (w_conn ?w p) = i" "c_state (w_conn ?w p) = 1" "c_pit (w_conn ?w p) = pit"
    "c_recoverHandle (w_conn ?w p) = Some h" "rh_newConn (w_handle ?w h) = Some p"
    "map_of (w_allConnections ?w) = (map_of (w_allConnections w))(i \<mapsto> p)"
    using assms by (auto simp: OnAuthenticated_def RecoverFromHandle_def Let_def)
  then have "\<not> IsClosing (w_conn ?w p)" by (simp add: IsClosing_def)
  with a ne assms(4) show ?thesis
    by (simp add: Let_def GetConnection_def Close_registry)
qed

theorem OnAuthenticated_recovers_witness:
  "let w = two_conn_world\<lparr>w_connectionRecoverHandles := [(''pit'', 0)],
             w_handle := (\<lambda>_. \<lparr>rh_prevConnId = 3, rh_disconnTime = 0, rh_newConn = None,
               rh_startRecoveryTime = 0\<rparr>)\<rparr>;
       w' = OnAuthenticated 0 ''pit'' w in
    c_id (w_conn w' 0) = 3 \<and> GetConnection w' 3 = Some 0 \<and>
    c_state (w_conn w' 0) = ConnectionState_AUTHENTICATED \<and> c_pit (w_conn w' 0) = ''pit'' \<and>
    c_recoverHandle (w_conn w' 0) = Some 0 \<and> rh_newConn (w_handle w' 0) = Some 0 \<and>
    map_of (w_allConnections (conn_Close True 0 w')) 7 = Some 0"
proof -
  let ?w = "two_conn_world\<lparr>w_connectionRecoverHandles := [(''pit'', 0)],
             w_handle := (\<lambda>_. \<lparr>rh_prevConnId = 3, rh_disconnTime = 0, rh_newConn = None,
               rh_startRecoveryTime = 0\<rparr>)\<rparr>"
  have i: "c_id (w_conn ?w 0) = 7" by (simp add: two_conn_world_def demo_conn_def)
  have "\<not> IsClosing (w_conn ?w 0)" "map_of (w_connectionRecoverHandles ?w) ''pit'' = Some 0"
    "map_of (w_allConnections ?w) (rh_prevConnId (w_handle ?w 0)) = None"
    "map_of (w_allConnections ?w) (c_id (w_conn ?w 0)) = Some 0" "rh_prevConnId (w_handle ?w 0) = 3"
    by (simp_all add: two_conn_world_def demo_conn_def IsClosing_def)
  from OnAuthenticated_recovers [OF this, of True] show ?thesis unfolding Let_def i .
qed

text \<open>
  When the previous identifier is in use by another live connection, the recovery attempt fails
  but unregisters that other connection, which can then no longer be found, although it is open.
\<close>

theorem RecoverFromHandle_evicts:
  assumes "map_of (w_allConnections w) (rh_prevConnId (w_handle w h)) = Some q" and "q \<noteq> p"
    and "\<not> IsClosing (w_conn w q)" and "i = rh_prevConnId (w_handle w h)"
  shows "let w' = RecoverFromHandle p h w in
    GetConnection w i = Some q \<and> GetConnection w' i = None \<and>
    \<not> IsClosing (w_conn w' q) \<and> w_conn w' p = w_conn w p \<and> w_handle w' = w_handle w"
  using assms by (simp add: RecoverFromHandle_def Let_def GetConnection_def)

theorem RecoverFromHandle_evicts_witness:
  "let w = two_conn_world\<lparr>w_handle := (\<lambda>_. \<lparr>rh_prevConnId = 9, rh_disconnTime = 0, rh_newConn = None,
               rh_startRecoveryTime = 0\<rparr>)\<rparr>; w' = RecoverFromHandle 0 5 w in
    GetConnection w 9 = Some 1 \<and> GetConnection w' 9 = None \<and>
    \<not> IsClosing (w_conn w' 1) \<and> w_conn w' 0 = w_conn w 0 \<and> w_handle w' = w_handle w"
proof -
  let ?w = "two_conn_world\<lparr>w_handle := (\<lambda>_. \<lparr>rh_prevConnId = 9, rh_disconnTime = 0, rh_newConn = None,
               rh_startRecoveryTime = 0\<rparr>)\<rparr>"
  have "map_of (w_allConnections ?w) (rh_prevConnId (w_handle ?w 5)) = Some 1" "(1::nat) \<noteq> 0"
    "\<not> IsClosing (w_conn ?w 1)" "9 = rh_prevConnId (w_handle ?w 5)"
    by (simp_all add: two_conn_world_def demo_world_def demo_conn_def IsClosing_def)
  from RecoverFromHandle_evicts [OF this] show ?thesis unfolding Let_def .
qed

lemma tick_recovery_one_frame:
  "map_of (w_connectionRecoverHandles (tick_recovery_one E (key, h) w)) k =
     (if k = key \<and> (IsTimeOut w h \<or> (rh_newConn (w_handle w h) \<noteq> None \<and>
         w_now w - rh_startRecoveryTime (w_handle w h) > ChannelDataRecoveryTimeout))
      then None else map_of (w_connectionRecoverHandles w) k)"
  "w_handle (tick_recovery_one E kv w) = w_handle w" "w_now (tick_recovery_one E kv w) = w_now w"
  "w_settings (tick_recovery_one E kv w) = w_settings w"
  by (auto simp: tick_recovery_one_def world_Send_def Let_def split: prod.splits option.splits)

definition handle_done :: "World \<Rightarrow> HandlePtr \<Rightarrow> bool" where
  "handle_done w h \<longleftrightarrow> IsTimeOut w h \<or> (rh_newConn (w_handle w h) \<noteq> None \<and>
     w_now w - rh_startRecoveryTime (w_handle w h) > ChannelDataRecoveryTimeout)"

lemma handle_done_tick [simp]: "handle_done (tick_recovery_one E kv w) h = handle_done w h"
  by (simp add: handle_done_def IsTimeOut_def tick_recovery_one_frame(2,3,4))

lemma fold_tick_recovery:
  "map_of (w_connectionRecoverHandles (fold (tick_recovery_one E) kvs w)) k =
     (if \<exists>h. (k, h) \<in> set kvs \<and> handle_done w h then None
      else map_of (w_connectionRecoverHandles w) k)"
proof (induction kvs arbitrary: w)
  case (Cons kv kvs)
  obtain key h where kv: "kv = (key, h)" by force
  show ?case using Cons [of "tick_recovery_one E kv w"] kv
    by (auto simp: tick_recovery_one_frame(1) handle_done_def [of w])
qed simp

text \<open>
  One round of \<open>tickConnectionRecovery\<close> forgets exactly the handles that have timed out or whose
  new connection has been recovering for longer than the recovery time, in whatever order the map is
  traversed; the others stay.
\<close>

theorem tickConnectionRecovery_correct:
  assumes "alist_ok (w_connectionRecoverHandles w)"
  shows "map_of (w_connectionRecoverHandles (tickConnectionRecovery E w)) k =
    (case map_of (w_connectionRecoverHandles w) k of
       None \<Rightarrow> None
     | Some h \<Rightarrow> if handle_done w h then None else Some h)"
proof -
  have "(k, h) \<in> set (w_connectionRecoverHandles w) \<longleftrightarrow> map_of (w_connectionRecoverHandles w) k = Some h" for h
    using assms by (rule alist_ok_map_of)
  then show ?thesis by (auto simp: tickConnectionRecovery_def fold_tick_recovery split: option.splits)
qed

theorem tickConnectionRecovery_correct_witness:
  "let w = two_conn_world\<lparr>w_connectionRecoverHandles := [(''a'', 0), (''b'', 1)], w_now := 2000000000,
       w_handle := (\<lambda>h. \<lparr>rh_prevConnId = 3, rh_disconnTime = 0,
         rh_newConn = (if h = 0 then Some 0 else None), rh_startRecoveryTime = 0\<rparr>)\<rparr> in
   map_of (w_connectionRecoverHandles (tickConnectionRecovery demo_externs w)) ''a'' = None \<and>
   map_of (w_connectionRecoverHandles (tickConnectionRecovery demo_externs w)) ''b'' = Some 1"
proof -
  let ?w = "two_conn_world\<lparr>w_connectionRecoverHandles := [(''a'', 0), (''b'', 1)], w_now := 2000000000,
       w_handle := (\<lambda>h. \<lparr>rh_prevConnId = 3, rh_disconnTime = 0,
         rh_newConn = (if h = 0 then Some 0 else None), rh_startRecoveryTime = 0\<rparr>)\<rparr>"
  have "alist_ok (w_connectionRecoverHandles ?w)" by (simp add: alist_ok_def)
  from tickConnectionRecovery_correct [OF this, of demo_externs "''a''"]
    tickConnectionRecovery_correct [OF this, of demo_externs "''b''"]
  show ?thesis
    by (simp add: Let_def handle_done_def IsTimeOut_def ChannelDataRecoveryTimeout_def
        two_conn_world_def demo_world_def default_settings_def)
qed

end
