(* ===== verification/Subscription.thy ===== *)
theory Subscription
  imports Connections
begin

text \<open>
  Channel access control (\<open>channel_acl.go\<close>) and subscriptions (\<open>subscription.go\<close>): who may act on a
  channel, and the bookkeeping that ties a subscription to its element in the channel's fan-out queue.
\<close>

subsection \<open>Owners and access control\<close>

definition GetOwner :: "World \<Rightarrow> ChanPtr \<Rightarrow> ConnRef" where
  "GetOwner w ch = ch_ownerConnection (w_chan w ch)"

definition SetOwner :: "ChanPtr \<Rightarrow> ConnRef \<Rightarrow> World \<Rightarrow> World" where
  "SetOwner ch r = upd_chan ch (\<lambda>c. c\<lparr>ch_ownerConnection := r\<rparr>)"

text \<open>\<open>conn.IsClosing()\<close> on an interface value: calling it on nil is a panic.\<close>

definition ref_closing :: "World \<Rightarrow> ConnRef \<Rightarrow> bool option" where
  "ref_closing w r = do { p \<leftarrow> conn_deref r; Some (IsClosing (w_conn w p)) }"

definition HasOwner :: "World \<Rightarrow> ChanPtr \<Rightarrow> bool option" where
  "HasOwner w ch = (case GetOwner w ch of
     NilIface \<Rightarrow> Some False
   | r \<Rightarrow> do { cl \<leftarrow> ref_closing w r; Some (\<not> cl) })"

definition IsSameOwner :: "World \<Rightarrow> ChanPtr \<Rightarrow> ChanPtr \<Rightarrow> bool option" where
  "IsSameOwner w a b = (case GetOwner w a of
     NilIface \<Rightarrow> Some False
   | r \<Rightarrow> do { cl \<leftarrow> ref_closing w r; Some (\<not> cl \<and> r = GetOwner w b) })"

datatype ChannelAccessType = Access_Sub | Access_Unsub | Access_Remove
datatype ACLError = ErrNoneAccess | ErrOwnerOnlyAccess | ErrOwnerAndGlobalOwnerAccess | ErrIllegalAccessLevel

definition acl_level :: "World \<Rightarrow> ChannelType \<Rightarrow> ChannelAccessType \<Rightarrow> nat" where
  "acl_level w t a = (case gs_ChannelSettings (w_settings w) t of
     None \<Rightarrow> 0
   | Some cs \<Rightarrow> (case a of
       Access_Sub \<Rightarrow> acl_Sub (cst_ACLSettings cs)
     | Access_Unsub \<Rightarrow> acl_Unsub (cst_ACLSettings cs)
     | Access_Remove \<Rightarrow> acl_Remove (cst_ACLSettings cs)))"

text \<open>\<open>CheckACL\<close> dereferences the global channel, which is nil before \<open>InitChannels\<close>.\<close>

definition CheckACL ::
  "World \<Rightarrow> ChanPtr \<Rightarrow> ConnRef \<Rightarrow> ChannelAccessType \<Rightarrow> (bool \<times> ACLError option) option" where
  "CheckACL w ch c accessType =
     (let level = acl_level w (ch_channelType (w_chan w ch)) accessType in
      if level = 0 then Some (False, Some ErrNoneAccess)
      else if level = 1 then
        (if GetOwner w ch = c then Some (True, None) else Some (False, Some ErrOwnerOnlyAccess))
      else if level = 2 then
        (if GetOwner w ch = c then Some (True, None)
         else do {
           g \<leftarrow> w_globalChannel w;
           if GetOwner w g = c then Some (True, None)
           else Some (False, Some ErrOwnerAndGlobalOwnerAccess)
         })
      else if level = 3 then Some (True, None)
      else Some (False, Some ErrIllegalAccessLevel))"

definition HasAuthorityOver :: "World \<Rightarrow> ConnPtr \<Rightarrow> ChanPtr \<Rightarrow> bool option" where
  "HasAuthorityOver w p ch = do {
     g \<leftarrow> w_globalChannel w;
     Some (GetOwner w g = Conn p \<or> GetOwner w ch = Conn p)
   }"

definition GetTime :: "World \<Rightarrow> ChanPtr \<Rightarrow> ChannelTime" where
  "GetTime w ch = w_now w - ch_startTime (w_chan w ch)"

definition AddMs :: "ChannelTime \<Rightarrow> uint32 \<Rightarrow> ChannelTime" where
  "AddMs t ms = t + uint ms * 1000000"

definition OffsetMs :: "ChannelTime \<Rightarrow> int \<Rightarrow> ChannelTime" where
  "OffsetMs t ms = t + ms * 1000000"

subsection \<open>Subscribing\<close>

definition defaultSubOptions :: "World \<Rightarrow> ChannelType \<Rightarrow> ChannelSubscriptionOptions" where
  "defaultSubOptions w t = \<lparr>
     so_DataAccess = Some DataAccess_READ_ACCESS,
     so_DataFieldMasks = [],
     so_FanOutIntervalMs = Some (cst_DefaultFanOutIntervalMs (GetChannelSettings (w_settings w) t)),
     so_FanOutDelayMs = Some (cst_DefaultFanOutDelayMs (GetChannelSettings (w_settings w) t)),
     so_SkipSelfUpdateFanOut = Some True,
     so_SkipFirstFanOut = Some False\<rparr>"

definition merge_options ::
  "Externs \<Rightarrow> ChannelSubscriptionOptions \<Rightarrow> ChannelSubscriptionOptions option \<Rightarrow> ChannelSubscriptionOptions" where
  "merge_options E dst src = (case src of None \<Rightarrow> dst | Some s \<Rightarrow> ex_mergeSubOptions E dst s)"

text \<open>The part of \<open>SubscribeToChannel\<close> that enters a new subscription: the element in front of the
fan-out queue, the longest interval, the subscription itself, and the connection's interest in a
spatial channel.\<close>

definition enter_subscription ::
  "ConnPtr \<Rightarrow> ChannelSubscription \<Rightarrow> bool \<Rightarrow> int \<Rightarrow> uint32 \<Rightarrow> Channel \<Rightarrow> Channel" where
  "enter_subscription p cs skipFirst delay interval c = c\<lparr>
     ch_fanOutQueue := \<lparr>foc_elem = cs_fanOutElement cs, foc_conn = Conn p, foc_hadFirstFanOut = skipFirst,
                        foc_lastFanOutTime = OffsetMs (cs_subTime cs) delay,
                        foc_lastMessageIndex = 0\<rparr> # ch_fanOutQueue c,
     ch_nextElement := ch_nextElement c + 1,
     ch_data := map_option (\<lambda>d. if d_maxFanOutIntervalMs d < interval
                                then d\<lparr>d_maxFanOutIntervalMs := interval\<rparr> else d) (ch_data c),
     ch_subscribedConnections := AList.update (Conn p) cs (ch_subscribedConnections c)\<rparr>"

definition add_interest :: "ConnPtr \<Rightarrow> ChanPtr \<Rightarrow> World \<Rightarrow> World" where
  "add_interest p ch w =
     (if ch_channelType (w_chan w ch) = ChannelType_SPATIAL
      then upd_conn p (\<lambda>c. c\<lparr>c_spatialSubscriptions :=
             AList.update (ch_id (w_chan w ch)) ch (c_spatialSubscriptions c)\<rparr>) w
      else w)"

definition drop_interest :: "ConnPtr \<Rightarrow> ChanPtr \<Rightarrow> World \<Rightarrow> World" where
  "drop_interest p ch w =
     (if ch_channelType (w_chan w ch) = ChannelType_SPATIAL
      then upd_conn p (\<lambda>c. c\<lparr>c_spatialSubscriptions :=
             AList.delete (ch_id (w_chan w ch)) (c_spatialSubscriptions c)\<rparr>) w
      else w)"

definition new_subscription ::
  "ConnPtr \<Rightarrow> ChanPtr \<Rightarrow> ChannelSubscriptionOptions \<Rightarrow> World \<Rightarrow> (World \<times> ChannelSubscription) option" where
  "new_subscription p ch opts w = do {
     skipFirst \<leftarrow> so_SkipFirstFanOut opts;
     delay \<leftarrow> so_FanOutDelayMs opts;
     interval \<leftarrow> so_FanOutIntervalMs opts;
     let cs = \<lparr>cs_options = opts, cs_subTime = GetTime w ch,
               cs_fanOutElement = ch_nextElement (w_chan w ch)\<rparr>;
     Some (add_interest p ch (upd_chan ch (enter_subscription p cs skipFirst delay interval) w), cs)
   }"

definition SubscribeToChannel ::
  "Externs \<Rightarrow> ConnPtr \<Rightarrow> ChanPtr \<Rightarrow> ChannelSubscriptionOptions option \<Rightarrow> World \<Rightarrow>
   (World \<times> ChannelSubscription option \<times> bool) option" where
  "SubscribeToChannel E p ch options w =
     (if IsClosing (w_conn w p) then Some (w, None, False)
      else case map_of (ch_subscribedConnections (w_chan w ch)) (Conn p) of
        Some cs \<Rightarrow> (case options of
            None \<Rightarrow> Some (w, Some cs, False)
          | Some o' \<Rightarrow> do {
              let cs' = cs\<lparr>cs_options := ex_mergeSubOptions E (cs_options cs) o'\<rparr>;
              before \<leftarrow> so_DataAccess (cs_options cs);
              after \<leftarrow> so_DataAccess (cs_options cs');
              Some (upd_chan ch (\<lambda>c. c\<lparr>ch_subscribedConnections :=
                       AList.update (Conn p) cs' (ch_subscribedConnections c)\<rparr>) w,
                    Some cs', before \<noteq> after)
            })
      | None \<Rightarrow> do {
          (w', cs) \<leftarrow> new_subscription p ch
            (merge_options E (defaultSubOptions w (ch_channelType (w_chan w ch))) options) w;
          Some (w', Some cs, True)
        })"

definition leave_subscription :: "ConnPtr \<Rightarrow> ChannelSubscription \<Rightarrow> Channel \<Rightarrow> Channel" where
  "leave_subscription p cs c = c\<lparr>
     ch_fanOutQueue := filter (\<lambda>f. foc_elem f \<noteq> cs_fanOutElement cs) (ch_fanOutQueue c),
     ch_subscribedConnections := AList.delete (Conn p) (ch_subscribedConnections c)\<rparr>"

text \<open>\<open>UnsubscribeFromChannel\<close>: the result is \<open>None\<close> when there is no subscription (the Go error).\<close>

definition UnsubscribeFromChannel ::
  "ConnPtr \<Rightarrow> ChanPtr \<Rightarrow> World \<Rightarrow> World \<times> ChannelSubscriptionOptions option" where
  "UnsubscribeFromChannel p ch w =
     (case map_of (ch_subscribedConnections (w_chan w ch)) (Conn p) of
        None \<Rightarrow> (w, None)
      | Some cs \<Rightarrow>
          (drop_interest p ch (upd_chan ch (leave_subscription p cs) w), Some (cs_options cs)))"

definition HasInterestIn :: "World \<Rightarrow> ConnPtr \<Rightarrow> uint32 \<Rightarrow> bool" where
  "HasInterestIn w p spatialChId \<longleftrightarrow> map_of (c_spatialSubscriptions (w_conn w p)) spatialChId \<noteq> None"

definition sendSubscribed ::
  "Externs \<Rightarrow> ConnPtr \<Rightarrow> MessageContext \<Rightarrow> ChanPtr \<Rightarrow> ConnPtr \<Rightarrow> uint32 \<Rightarrow>
   ChannelSubscriptionOptions \<Rightarrow> World \<Rightarrow> World" where
  "sendSubscribed E c ctx ch connToSub stubId subOptions w =
     world_Send E c (ctx\<lparr>x_ChannelId := ch_id (w_chan w ch), x_StubId := stubId,
       x_MsgType := MessageType_SUB_TO_CHANNEL,
       x_Msg := SubscribedToChannelResultMessage (c_id (w_conn w connToSub)) subOptions
                  (c_connectionType (w_conn w connToSub)) (ch_channelType (w_chan w ch))\<rparr>) w"

definition sendUnsubscribed ::
  "Externs \<Rightarrow> ConnPtr \<Rightarrow> MessageContext \<Rightarrow> ChanPtr \<Rightarrow> ConnPtr option \<Rightarrow> uint32 \<Rightarrow> World \<Rightarrow> World" where
  "sendUnsubscribed E c ctx ch connToUnsub stubId w =
     (let u = (case connToUnsub of None \<Rightarrow> c | Some u \<Rightarrow> u) in
      world_Send E c (ctx\<lparr>x_ChannelId := ch_id (w_chan w ch), x_StubId := stubId,
       x_MsgType := MessageType_UNSUB_FROM_CHANNEL,
       x_Msg := UnsubscribedFromChannelResultMessage (c_id (w_conn w u))
                  (c_connectionType (w_conn w u)) (ch_channelType (w_chan w ch))\<rparr>) w)"

subsection \<open>Subscriptions and fan-out elements belong together\<close>

definition opts_full :: "ChannelSubscriptionOptions \<Rightarrow> bool" where
  "opts_full o' \<longleftrightarrow> so_DataAccess o' \<noteq> None \<and> so_FanOutIntervalMs o' \<noteq> None \<and>
     so_FanOutDelayMs o' \<noteq> None \<and> so_SkipSelfUpdateFanOut o' \<noteq> None \<and> so_SkipFirstFanOut o' \<noteq> None"

text \<open>
  The invariant of a channel's subscriptions: keys are distinct connections, every option is set;
  elements of the fan-out queue are distinct and older than the next one; an element belongs to the
  subscription of its connection, unless that connection is closing (then the element or the
  subscription may be gone already); and the subscription of a live connection has its element.
\<close>

definition fan_ok :: "World \<Rightarrow> Channel \<Rightarrow> bool" where
  "fan_ok w c \<longleftrightarrow>
     alist_ok (ch_subscribedConnections c) \<and>
     (\<forall>r cs. map_of (ch_subscribedConnections c) r = Some cs \<longrightarrow>
        (\<exists>p. r = Conn p) \<and> opts_full (cs_options cs)) \<and>
     distinct (map foc_elem (ch_fanOutQueue c)) \<and>
     (\<forall>f \<in> set (ch_fanOutQueue c). foc_elem f < ch_nextElement c \<and>
        (\<exists>p. foc_conn f = Conn p \<and> (IsClosing (w_conn w p) \<or>
           (\<exists>cs. map_of (ch_subscribedConnections c) (Conn p) = Some cs \<and> cs_fanOutElement cs = foc_elem f)))) \<and>
     (\<forall>p cs. map_of (ch_subscribedConnections c) (Conn p) = Some cs \<longrightarrow>
        cs_fanOutElement cs < ch_nextElement c \<and>
        (IsClosing (w_conn w p) \<or> (\<exists>f \<in> set (ch_fanOutQueue c). foc_elem f = cs_fanOutElement cs \<and> foc_conn f = Conn p)))"

lemma fan_okD:
  assumes "fan_ok w c"
  shows "alist_ok (ch_subscribedConnections c)"
    and "map_of (ch_subscribedConnections c) r = Some cs \<Longrightarrow> (\<exists>p. r = Conn p) \<and> opts_full (cs_options cs)"
    and "distinct (map foc_elem (ch_fanOutQueue c))"
    and "f \<in> set (ch_fanOutQueue c) \<Longrightarrow> foc_elem f < ch_nextElement c \<and>
        (\<exists>p. foc_conn f = Conn p \<and> (IsClosing (w_conn w p) \<or>
           (\<exists>cs. map_of (ch_subscribedConnections c) (Conn p) = Some cs \<and> cs_fanOutElement cs = foc_elem f)))"
    and "map_of (ch_subscribedConnections c) (Conn p) = Some cs \<Longrightarrow>
        cs_fanOutElement cs < ch_nextElement c \<and> (IsClosing (w_conn w p) \<or>
          (\<exists>f \<in> set (ch_fanOutQueue c). foc_elem f = cs_fanOutElement cs \<and> foc_conn f = Conn p))"
  using assms unfolding fan_ok_def by blast+

lemma fan_okI:
  assumes "alist_ok (ch_subscribedConnections c)"
    and "\<And>r cs. map_of (ch_subscribedConnections c) r = Some cs \<Longrightarrow> (\<exists>p. r = Conn p) \<and> opts_full (cs_options cs)"
    and "distinct (map foc_elem (ch_fanOutQueue c))"
    and "\<And>f. f \<in> set (ch_fanOutQueue c) \<Longrightarrow> foc_elem f < ch_nextElement c"
    and "\<And>f. f \<in> set (ch_fanOutQueue c) \<Longrightarrow> \<exists>p. foc_conn f = Conn p \<and> (IsClosing (w_conn w p) \<or>
           (\<exists>cs. map_of (ch_subscribedConnections c) (Conn p) = Some cs \<and> cs_fanOutElement cs = foc_elem f))"
    and "\<And>p cs. map_of (ch_subscribedConnections c) (Conn p) = Some cs \<Longrightarrow> cs_fanOutElement cs < ch_nextElement c"
    and "\<And>p cs. map_of (ch_subscribedConnections c) (Conn p) = Some cs \<Longrightarrow> \<not> IsClosing (w_conn w p) \<Longrightarrow>
          \<exists>f \<in> set (ch_fanOutQueue c). foc_elem f = cs_fanOutElement cs \<and> foc_conn f = Conn p"
  shows "fan_ok w c"
proof -
  have 7: "IsClosing (w_conn w p) \<or> (\<exists>f \<in> set (ch_fanOutQueue c). foc_elem f = cs_fanOutElement cs \<and> foc_conn f = Conn p)"
    if "map_of (ch_subscribedConnections c) (Conn p) = Some cs" for p cs
    using assms(7) [OF that] by blast
  show ?thesis
    unfolding fan_ok_def
    by (intro conjI allI ballI impI)
      (rule assms(1,3) | erule assms(2) [THEN conjunct1] | erule assms(2) [THEN conjunct2] |
       erule assms(4,5,6) | erule 7)+
qed

lemma opts_full_merge:
  assumes "merge_law E" and "opts_full dst"
  shows "opts_full (merge_options E dst src)"
proof (cases src)
  case (Some s)
  then show ?thesis using assms by (simp add: merge_law_def opts_full_def merge_options_def)
qed (use assms in \<open>simp add: merge_options_def\<close>)

lemma opts_full_default [simp]: "opts_full (defaultSubOptions w t)"
  by (simp add: opts_full_def defaultSubOptions_def)

lemma interest_frame [simp]:
  "w_chan (add_interest p ch w) = w_chan w" "w_chan (drop_interest p ch w) = w_chan w"
  "c_state (w_conn (add_interest p ch w) q) = c_state (w_conn w q)"
  "c_state (w_conn (drop_interest p ch w) q) = c_state (w_conn w q)"
  "w_allConnections (add_interest p ch w) = w_allConnections w"
  "w_allConnections (drop_interest p ch w) = w_allConnections w"
  "w_allChannels (add_interest p ch w) = w_allChannels w"
  "w_allChannels (drop_interest p ch w) = w_allChannels w"
  "q \<noteq> p \<Longrightarrow> w_conn (add_interest p ch w) q = w_conn w q"
  "q \<noteq> p \<Longrightarrow> w_conn (drop_interest p ch w) q = w_conn w q"
  by (auto simp: add_interest_def drop_interest_def)

lemma IsClosing_state: "c_state a = c_state b \<Longrightarrow> IsClosing a = IsClosing b"
  by (simp add: IsClosing_def)

lemma IsClosing_interest [simp]:
  "IsClosing (w_conn (add_interest p ch w) q) = IsClosing (w_conn w q)"
  "IsClosing (w_conn (drop_interest p ch w) q) = IsClosing (w_conn w q)"
  by (simp_all add: IsClosing_def)

lemma fan_ok_cong:
  assumes "\<And>q. IsClosing (w_conn w' q) = IsClosing (w_conn w q)"
  shows "fan_ok w' c = fan_ok w c"
  by (simp add: fan_ok_def assms)

lemma new_subscription_total:
  assumes "opts_full opts"
  shows "\<exists>skip delay interval. so_SkipFirstFanOut opts = Some skip \<and> so_FanOutDelayMs opts = Some delay \<and>
    so_FanOutIntervalMs opts = Some interval \<and>
    (let cs = \<lparr>cs_options = opts, cs_subTime = GetTime w ch,
               cs_fanOutElement = ch_nextElement (w_chan w ch)\<rparr> in
     new_subscription p ch opts w =
       Some (add_interest p ch (upd_chan ch (enter_subscription p cs skip delay interval) w), cs))"
  using assms by (auto simp: new_subscription_def opts_full_def Let_def)

lemma enter_subscription_fan_ok:
  assumes ok: "fan_ok w c" and fresh: "map_of (ch_subscribedConnections c) (Conn p) = None"
    and live: "\<not> IsClosing (w_conn w p)" and o: "opts_full (cs_options cs)"
    and e: "cs_fanOutElement cs = ch_nextElement c"
  shows "fan_ok w (enter_subscription p cs skip delay interval c)"
proof -
  note ok' = fan_okD [OF ok]
  show ?thesis
  proof (rule fan_okI)
    show "distinct (map foc_elem (ch_fanOutQueue (enter_subscription p cs skip delay interval c)))"
      using ok'(3) ok'(4) e by (force simp: enter_subscription_def)
  next
    fix f assume "f \<in> set (ch_fanOutQueue (enter_subscription p cs skip delay interval c))"
    then consider (new) "foc_elem f = ch_nextElement c" "foc_conn f = Conn p"
      | (old) "f \<in> set (ch_fanOutQueue c)"
      using e by (auto simp: enter_subscription_def)
    then show "\<exists>q. foc_conn f = Conn q \<and> (IsClosing (w_conn w q) \<or>
        (\<exists>cs'. map_of (ch_subscribedConnections (enter_subscription p cs skip delay interval c)) (Conn q) = Some cs' \<and>
           cs_fanOutElement cs' = foc_elem f))"
    proof cases
      case new
      then show ?thesis using e by (simp add: enter_subscription_def)
    next
      case old
      then show ?thesis using ok'(4) [OF old] fresh by (auto simp: enter_subscription_def)
    qed
  next
    fix f assume "f \<in> set (ch_fanOutQueue (enter_subscription p cs skip delay interval c))"
    then show "foc_elem f < ch_nextElement (enter_subscription p cs skip delay interval c)"
      using ok'(4) e by (auto simp: enter_subscription_def less_SucI)
  next
    fix q cs' assume "map_of (ch_subscribedConnections (enter_subscription p cs skip delay interval c)) (Conn q) = Some cs'"
    then show "cs_fanOutElement cs' < ch_nextElement (enter_subscription p cs skip delay interval c)"
      using ok'(5) e by (auto simp: enter_subscription_def less_SucI split: if_splits)
  next
    fix q cs'
    assume a: "map_of (ch_subscribedConnections (enter_subscription p cs skip delay interval c)) (Conn q) = Some cs'"
      "\<not> IsClosing (w_conn w q)"
    show "\<exists>f \<in> set (ch_fanOutQueue (enter_subscription p cs skip delay interval c)).
        foc_elem f = cs_fanOutElement cs' \<and> foc_conn f = Conn q"
    proof (cases "q = p")
      case True
      then show ?thesis using a by (simp add: enter_subscription_def)
    next
      case False
      then show ?thesis using a ok'(5) [of q cs'] by (simp add: enter_subscription_def)
    qed
  qed (use ok' o in \<open>auto simp: enter_subscription_def split: if_splits\<close>)
qed

lemma leave_subscription_fan_ok:
  assumes ok: "fan_ok w c" and cs: "map_of (ch_subscribedConnections c) (Conn p) = Some cs"
    and live: "\<not> IsClosing (w_conn w p)"
  shows "fan_ok w (leave_subscription p cs c)"
proof -
  from fan_okD(5) [OF ok cs] live obtain g where g: "g \<in> set (ch_fanOutQueue c)"
    "foc_elem g = cs_fanOutElement cs" "foc_conn g = Conn p" by blast
  have uniq: "f = g" if "f \<in> set (ch_fanOutQueue c)" "foc_elem f = cs_fanOutElement cs" for f
    using fan_okD(3) [OF ok] that g by (auto simp: distinct_map inj_on_def)
  have own: "foc_elem f = cs_fanOutElement cs" if "f \<in> set (ch_fanOutQueue c)" "foc_conn f = Conn p" for f
    using fan_okD(4) [OF ok that(1)] that(2) cs live by auto
  have keep: "\<exists>f \<in> set (ch_fanOutQueue c). foc_elem f \<noteq> cs_fanOutElement cs \<and>
      foc_elem f = cs_fanOutElement cs' \<and> foc_conn f = Conn q"
    if "map_of (ch_subscribedConnections c) (Conn q) = Some cs'" "q \<noteq> p" "\<not> IsClosing (w_conn w q)" for q cs'
    using fan_okD(5) [OF ok that(1)] that(2,3) uniq g by (metis ConnRef.inject)
  have kept: "foc_elem f < ch_nextElement c \<and> (\<exists>q. foc_conn f = Conn q \<and> (IsClosing (w_conn w q) \<or>
      (q \<noteq> p \<and> (\<exists>cs'. map_of (ch_subscribedConnections c) (Conn q) = Some cs' \<and>
         cs_fanOutElement cs' = foc_elem f))))"
    if "f \<in> set (ch_fanOutQueue c)" "foc_elem f \<noteq> cs_fanOutElement cs" for f
    using fan_okD(4) [OF ok that(1)] own [OF that(1)] that(2) by auto
  show ?thesis
  proof (rule fan_okI)
    fix f assume "f \<in> set (ch_fanOutQueue (leave_subscription p cs c))"
    then have "f \<in> set (ch_fanOutQueue c)" "foc_elem f \<noteq> cs_fanOutElement cs"
      by (auto simp: leave_subscription_def)
    from kept [OF this] show "\<exists>q. foc_conn f = Conn q \<and> (IsClosing (w_conn w q) \<or>
        (\<exists>cs'. map_of (ch_subscribedConnections (leave_subscription p cs c)) (Conn q) = Some cs' \<and>
           cs_fanOutElement cs' = foc_elem f))"
      by (auto simp: leave_subscription_def)
  next
    fix q cs'
    assume "map_of (ch_subscribedConnections (leave_subscription p cs c)) (Conn q) = Some cs'"
      "\<not> IsClosing (w_conn w q)"
    then show "\<exists>f \<in> set (ch_fanOutQueue (leave_subscription p cs c)).
        foc_elem f = cs_fanOutElement cs' \<and> foc_conn f = Conn q"
      using keep [of q cs'] by (auto simp: leave_subscription_def split: if_splits)
  qed (use fan_okD [OF ok] in \<open>auto simp: leave_subscription_def distinct_map_filter split: if_splits\<close>)
qed

subsection \<open>What the operations guarantee\<close>

text \<open>
  \<open>CheckACL\<close> is the documented table: level 3 admits anyone, level 2 the owner of the channel and
  the owner of the GLOBAL channel, level 1 the owner only, and no settings for the channel type, level
  0 and an illegal level admit nobody; an error is returned exactly when access is refused.
\<close>

theorem CheckACL_correct:
  assumes "w_globalChannel w = Some g"
  shows "\<exists>e. CheckACL w ch c a =
    Some (let level = acl_level w (ch_channelType (w_chan w ch)) a in
          level = 3 \<or> (level \<in> {1, 2} \<and> GetOwner w ch = c) \<or> (level = 2 \<and> GetOwner w g = c), e) \<and>
    (e = None \<longleftrightarrow>
      (let level = acl_level w (ch_channelType (w_chan w ch)) a in
       level = 3 \<or> (level \<in> {1, 2} \<and> GetOwner w ch = c) \<or> (level = 2 \<and> GetOwner w g = c)))"
  using assms by (auto simp: CheckACL_def Let_def)

theorem CheckACL_correct_witness:
  "let w = demo_world\<lparr>w_globalChannel := Some 0\<rparr> in
   \<exists>e. CheckACL w 0 (Conn 3) Access_Sub = Some (False, e) \<and> e \<noteq> None"
proof -
  let ?w = "demo_world\<lparr>w_globalChannel := Some 0\<rparr>"
  have "acl_level ?w (ch_channelType (w_chan ?w 0)) Access_Sub = 0"
    by (simp add: acl_level_def demo_world_def default_settings_def zero_channel_settings_def)
  with CheckACL_correct [of ?w 0 0 "Conn 3" Access_Sub] show ?thesis by (simp add: Let_def)
qed

lemma SubscribeToChannel_new:
  assumes "merge_law E" and "\<not> IsClosing (w_conn w p)"
    and "map_of (ch_subscribedConnections (w_chan w ch)) (Conn p) = None"
  obtains skip delay interval cs where
    "cs = \<lparr>cs_options = merge_options E (defaultSubOptions w (ch_channelType (w_chan w ch))) options,
       cs_subTime = GetTime w ch, cs_fanOutElement = ch_nextElement (w_chan w ch)\<rparr>"
    "opts_full (cs_options cs)"
    "so_SkipFirstFanOut (cs_options cs) = Some skip" "so_FanOutDelayMs (cs_options cs) = Some delay"
    "so_FanOutIntervalMs (cs_options cs) = Some interval"
    "SubscribeToChannel E p ch options w =
       Some (add_interest p ch (upd_chan ch (enter_subscription p cs skip delay interval) w), Some cs, True)"
proof -
  let ?o = "merge_options E (defaultSubOptions w (ch_channelType (w_chan w ch))) options"
  have full: "opts_full ?o" using opts_full_merge [OF assms(1)] by simp
  from new_subscription_total [OF full, of w ch p] obtain skip delay interval
    where "so_SkipFirstFanOut ?o = Some skip" "so_FanOutDelayMs ?o = Some delay"
    "so_FanOutIntervalMs ?o = Some interval"
    "new_subscription p ch ?o w = Some (add_interest p ch (upd_chan ch (enter_subscription p
       \<lparr>cs_options = ?o, cs_subTime = GetTime w ch, cs_fanOutElement = ch_nextElement (w_chan w ch)\<rparr>
       skip delay interval) w),
       \<lparr>cs_options = ?o, cs_subTime = GetTime w ch, cs_fanOutElement = ch_nextElement (w_chan w ch)\<rparr>)"
    by (auto simp: Let_def)
  with full assms(2,3) show thesis by (intro that) (auto simp: SubscribeToChannel_def)
qed

text \<open>A world with one spatial channel and one client, for the witnesses.\<close>

definition sub_world :: World where
  "sub_world = demo_world\<lparr>w_conn := (\<lambda>p. demo_conn 7 2), w_nconn := 1, w_allConnections := [(7, 0)],
     w_chan := (w_chan demo_world)(0 := (w_chan demo_world 0)\<lparr>ch_id := 65536, ch_channelType := 4\<rparr>),
     w_nchan := 1, w_allChannels := [(65536, 0)], w_now := 1000\<rparr>"

definition demo_sub :: ChannelSubscription where
  "demo_sub = \<lparr>cs_options = \<lparr>so_DataAccess = Some 1, so_DataFieldMasks = [], so_FanOutIntervalMs = Some 20,
       so_FanOutDelayMs = Some 0, so_SkipSelfUpdateFanOut = Some True, so_SkipFirstFanOut = Some False\<rparr>,
     cs_subTime = 0, cs_fanOutElement = 0\<rparr>"

definition resub_world :: World where
  "resub_world = upd_chan 0 (\<lambda>c. c\<lparr>ch_subscribedConnections := [(Conn 0, demo_sub)], ch_nextElement := 1,
     ch_fanOutQueue := [\<lparr>foc_elem = 0, foc_conn = Conn 0, foc_hadFirstFanOut = False,
       foc_lastFanOutTime = 0, foc_lastMessageIndex = 0\<rparr>]\<rparr>) sub_world"

definition write_options :: ChannelSubscriptionOptions where
  "write_options = \<lparr>so_DataAccess = Some 2, so_DataFieldMasks = [], so_FanOutIntervalMs = None,
     so_FanOutDelayMs = None, so_SkipSelfUpdateFanOut = None, so_SkipFirstFanOut = None\<rparr>"

lemma sub_world_facts:
  "\<not> IsClosing (w_conn sub_world 0)" "fan_ok sub_world (w_chan sub_world 0)"
  "map_of (ch_subscribedConnections (w_chan sub_world 0)) (Conn 0) = None"
  "ch_channelType (w_chan sub_world 0) = ChannelType_SPATIAL" "ch_id (w_chan sub_world 0) = 65536"
  by (simp_all add: sub_world_def demo_world_def demo_conn_def IsClosing_def fan_ok_def)

lemma resub_world_facts:
  "\<not> IsClosing (w_conn resub_world 0)" "fan_ok resub_world (w_chan resub_world 0)"
  "map_of (ch_subscribedConnections (w_chan resub_world 0)) (Conn 0) = Some demo_sub"
  by (simp_all add: resub_world_def sub_world_def demo_world_def demo_conn_def IsClosing_def fan_ok_def
      demo_sub_def opts_full_def alist_ok_def) blast

text \<open>
  The first subscription of a live connection always succeeds: the options are the channel type's
  defaults overridden by the requested ones, none of them unset; the subscription and its fan-out
  element, due one delay after now, are entered; the connection's interest in a spatial channel is
  recorded; other subscriptions and channels are untouched, and the invariant is kept.
\<close>

theorem SubscribeToChannel_first:
  assumes "merge_law E" and "\<not> IsClosing (w_conn w p)" and "fan_ok w (w_chan w ch)"
    and "map_of (ch_subscribedConnections (w_chan w ch)) (Conn p) = None"
  shows "\<exists>w' cs f. SubscribeToChannel E p ch options w = Some (w', Some cs, True) \<and>
    cs_options cs = merge_options E (defaultSubOptions w (ch_channelType (w_chan w ch))) options \<and>
    opts_full (cs_options cs) \<and>
    map_of (ch_subscribedConnections (w_chan w' ch)) =
      (map_of (ch_subscribedConnections (w_chan w ch)))(Conn p \<mapsto> cs) \<and>
    ch_fanOutQueue (w_chan w' ch) = f # ch_fanOutQueue (w_chan w ch) \<and>
    foc_conn f = Conn p \<and> foc_elem f = cs_fanOutElement cs \<and>
    Some (foc_hadFirstFanOut f) = so_SkipFirstFanOut (cs_options cs) \<and>
    foc_lastFanOutTime f = OffsetMs (GetTime w ch) (the (so_FanOutDelayMs (cs_options cs))) \<and>
    (ch_channelType (w_chan w ch) = ChannelType_SPATIAL \<longrightarrow> HasInterestIn w' p (ch_id (w_chan w ch))) \<and>
    (\<forall>c. c \<noteq> ch \<longrightarrow> w_chan w' c = w_chan w c) \<and> (\<forall>q. q \<noteq> p \<longrightarrow> w_conn w' q = w_conn w q) \<and>
    fan_ok w' (w_chan w' ch)"
proof (rule SubscribeToChannel_new [OF assms(1,2,4), of options])
  fix skip delay interval cs
  let ?w = "add_interest p ch (upd_chan ch (enter_subscription p cs skip delay interval) w)"
  assume cs: "cs = \<lparr>cs_options = merge_options E (defaultSubOptions w (ch_channelType (w_chan w ch))) options,
       cs_subTime = GetTime w ch, cs_fanOutElement = ch_nextElement (w_chan w ch)\<rparr>"
    and o: "opts_full (cs_options cs)"
    and r: "so_SkipFirstFanOut (cs_options cs) = Some skip" "so_FanOutDelayMs (cs_options cs) = Some delay"
    "so_FanOutIntervalMs (cs_options cs) = Some interval"
    "SubscribeToChannel E p ch options w = Some (?w, Some cs, True)"
  have "fan_ok w (enter_subscription p cs skip delay interval (w_chan w ch))"
    by (rule enter_subscription_fan_ok [OF assms(3,4,2) o]) (simp add: cs)
  then have "fan_ok ?w (w_chan ?w ch)" using fan_ok_cong [of ?w w] by simp
  moreover have "ch_channelType (w_chan w ch) = ChannelType_SPATIAL \<longrightarrow> HasInterestIn ?w p (ch_id (w_chan w ch))"
    by (simp add: HasInterestIn_def add_interest_def enter_subscription_def)
  ultimately show ?thesis using r o
    by (intro exI [of _ ?w] exI [of _ cs] exI) (auto simp: enter_subscription_def cs)
qed

theorem SubscribeToChannel_first_witness:
  "\<exists>w' cs f. SubscribeToChannel demo_externs 0 0 (Some write_options) sub_world = Some (w', Some cs, True) \<and>
    so_DataAccess (cs_options cs) = Some 2 \<and> foc_conn f = Conn 0 \<and>
    ch_fanOutQueue (w_chan w' 0) = [f] \<and> HasInterestIn w' 0 65536"
proof -
  have "so_DataAccess (merge_options demo_externs (defaultSubOptions sub_world 4) (Some write_options)) = Some 2"
    "ch_fanOutQueue (w_chan sub_world 0) = []"
    by (simp_all add: merge_options_def demo_externs_def merge_sub_options_def write_options_def
        sub_world_def demo_world_def)
  with SubscribeToChannel_first [OF merge_law_demo sub_world_facts(1,2,3), of "Some write_options"]
  show ?thesis by (auto simp: sub_world_facts(4,5))
qed

text \<open>Merging options into an existing subscription keeps the invariant.\<close>

lemma resubscribe_fan_ok:
  fixes o' :: ChannelSubscriptionOptions
  assumes "merge_law E" and "fan_ok w (w_chan w ch)"
    and "map_of (ch_subscribedConnections (w_chan w ch)) (Conn p) = Some cs"
  defines "cs' \<equiv> cs\<lparr>cs_options := ex_mergeSubOptions E (cs_options cs) o'\<rparr>"
  defines "w' \<equiv> upd_chan ch (\<lambda>c. c\<lparr>ch_subscribedConnections :=
                       AList.update (Conn p) cs' (ch_subscribedConnections c)\<rparr>) w"
  shows "fan_ok w' (w_chan w' ch)" and "opts_full (cs_options cs')"
    and "\<not> IsClosing (w_conn w p) \<Longrightarrow> SubscribeToChannel E p ch (Some o') w =
      Some (w', Some cs', so_DataAccess (cs_options cs) \<noteq> so_DataAccess (cs_options cs'))"
proof -
  note ok = fan_okD [OF assms(2)]
  show full: "opts_full (cs_options cs')"
    using opts_full_merge [OF assms(1), of "cs_options cs" "Some o'"] ok(2) [OF assms(3)]
    by (simp add: merge_options_def cs'_def)
  show "fan_ok w' (w_chan w' ch)"
  proof (rule fan_okI)
    fix f assume "f \<in> set (ch_fanOutQueue (w_chan w' ch))"
    then show "\<exists>q. foc_conn f = Conn q \<and> (IsClosing (w_conn w' q) \<or>
        (\<exists>cs'. map_of (ch_subscribedConnections (w_chan w' ch)) (Conn q) = Some cs' \<and> cs_fanOutElement cs' = foc_elem f))"
      using ok(4) [of f] assms(3) by (auto simp: w'_def cs'_def)
  next
    fix q cs''
    assume "map_of (ch_subscribedConnections (w_chan w' ch)) (Conn q) = Some cs''" "\<not> IsClosing (w_conn w' q)"
    then show "\<exists>f \<in> set (ch_fanOutQueue (w_chan w' ch)). foc_elem f = cs_fanOutElement cs'' \<and> foc_conn f = Conn q"
      using ok(5) [of q] assms(3) by (cases "q = p") (auto simp: w'_def cs'_def)
  qed (use ok assms(3) full in \<open>auto simp: w'_def cs'_def split: if_splits\<close>)
  obtain a b where "so_DataAccess (cs_options cs) = Some a" "so_DataAccess (cs_options cs') = Some b"
    using full ok(2) [OF assms(3)] by (auto simp: opts_full_def)
  then show "SubscribeToChannel E p ch (Some o') w =
      Some (w', Some cs', so_DataAccess (cs_options cs) \<noteq> so_DataAccess (cs_options cs'))"
    if "\<not> IsClosing (w_conn w p)"
    using that assms(3) by (simp add: SubscribeToChannel_def w'_def cs'_def Let_def)
qed

text \<open>
  Subscribing again never adds a fan-out element: the options are merged into the existing
  subscription, and the caller is told to send a notification exactly when the data access changed.
\<close>

theorem SubscribeToChannel_again:
  assumes "merge_law E" and "\<not> IsClosing (w_conn w p)" and "fan_ok w (w_chan w ch)"
    and "map_of (ch_subscribedConnections (w_chan w ch)) (Conn p) = Some cs"
  shows "\<exists>w' cs'. SubscribeToChannel E p ch options w =
      Some (w', Some cs', so_DataAccess (cs_options cs) \<noteq> so_DataAccess (cs_options cs')) \<and>
    cs' = cs\<lparr>cs_options := merge_options E (cs_options cs) options\<rparr> \<and>
    map_of (ch_subscribedConnections (w_chan w' ch)) =
      (map_of (ch_subscribedConnections (w_chan w ch)))(Conn p \<mapsto> cs') \<and>
    ch_fanOutQueue (w_chan w' ch) = ch_fanOutQueue (w_chan w ch) \<and> w_conn w' = w_conn w \<and>
    fan_ok w' (w_chan w' ch)"
proof (cases options)
  case None
  then show ?thesis using assms(2,3,4)
    by (intro exI [of _ w] exI [of _ cs]) (auto simp: SubscribeToChannel_def merge_options_def)
next
  case (Some o')
  show ?thesis
    using resubscribe_fan_ok [OF assms(1,3,4), of o'] assms(2) assms(4) Some
    by (auto simp: merge_options_def)
qed

theorem SubscribeToChannel_again_witness:
  "\<exists>w' cs'. SubscribeToChannel demo_externs 0 0 (Some write_options) resub_world = Some (w', Some cs', True) \<and>
    so_DataAccess (cs_options cs') = Some 2 \<and> fan_ok w' (w_chan w' 0)"
proof -
  have "so_DataAccess (merge_options demo_externs (cs_options demo_sub) (Some write_options)) = Some 2"
    "so_DataAccess (cs_options demo_sub) = Some 1"
    by (simp_all add: merge_options_def demo_externs_def merge_sub_options_def write_options_def demo_sub_def)
  with SubscribeToChannel_again [OF merge_law_demo resub_world_facts, of "Some write_options"]
  show ?thesis by auto
qed

text \<open>
  Unsubscribing removes the subscription, its fan-out element and the spatial interest, returns the
  options and keeps the invariant; and right after a first subscription it restores the channel's
  subscriptions and fan-out queue exactly.
\<close>

theorem UnsubscribeFromChannel_undoes:
  assumes "merge_law E" and "\<not> IsClosing (w_conn w p)" and "fan_ok w (w_chan w ch)"
    and "map_of (ch_subscribedConnections (w_chan w ch)) (Conn p) = None"
    and "SubscribeToChannel E p ch options w = Some (w', Some cs, b)"
  shows "let (w'', r) = UnsubscribeFromChannel p ch w' in
    r = Some (cs_options cs) \<and> b \<and>
    map_of (ch_subscribedConnections (w_chan w'' ch)) = map_of (ch_subscribedConnections (w_chan w ch)) \<and>
    ch_fanOutQueue (w_chan w'' ch) = ch_fanOutQueue (w_chan w ch) \<and> fan_ok w'' (w_chan w'' ch) \<and>
    (ch_channelType (w_chan w ch) = ChannelType_SPATIAL \<longrightarrow> \<not> HasInterestIn w'' p (ch_id (w_chan w ch)))"
proof (rule SubscribeToChannel_new [OF assms(1,2,4), of options])
  fix skip delay interval cs'
  let ?c = "enter_subscription p cs' skip delay interval (w_chan w ch)"
  assume cs: "cs' = \<lparr>cs_options = merge_options E (defaultSubOptions w (ch_channelType (w_chan w ch))) options,
       cs_subTime = GetTime w ch, cs_fanOutElement = ch_nextElement (w_chan w ch)\<rparr>"
    and o: "opts_full (cs_options cs')"
    and "SubscribeToChannel E p ch options w =
      Some (add_interest p ch (upd_chan ch (enter_subscription p cs' skip delay interval) w), Some cs', True)"
  with assms(5) have w': "w' = add_interest p ch (upd_chan ch (enter_subscription p cs' skip delay interval) w)"
    and c: "cs' = cs" "b" by auto
  have ok1: "fan_ok w ?c"
    by (rule enter_subscription_fan_ok [OF assms(3,4,2) o]) (simp add: cs)
  have m: "map_of (ch_subscribedConnections ?c) (Conn p) = Some cs'" by (simp add: enter_subscription_def)
  have "fan_ok w (leave_subscription p cs' ?c)"
    by (rule leave_subscription_fan_ok [OF ok1 m assms(2)])
  moreover have "\<forall>f \<in> set (ch_fanOutQueue (w_chan w ch)). foc_elem f \<noteq> cs_fanOutElement cs'"
    by (auto simp: cs dest: fan_okD(4) [OF assms(3)])
  then have "ch_fanOutQueue (leave_subscription p cs' ?c) = ch_fanOutQueue (w_chan w ch)"
    by (simp add: leave_subscription_def enter_subscription_def)
  moreover have "map_of (ch_subscribedConnections (leave_subscription p cs' ?c)) =
      map_of (ch_subscribedConnections (w_chan w ch))"
    using assms(4) by (auto simp: leave_subscription_def enter_subscription_def)
  moreover have "UnsubscribeFromChannel p ch w' =
      (drop_interest p ch (upd_chan ch (leave_subscription p cs') w'), Some (cs_options cs'))"
    using m by (simp add: UnsubscribeFromChannel_def w')
  moreover have "fan_ok (drop_interest p ch (upd_chan ch (leave_subscription p cs') w')) c = fan_ok w c" for c
    by (rule fan_ok_cong) (simp add: w')
  moreover have "w_chan w' ch = ?c" by (simp add: w')
  moreover have "ch_channelType (w_chan w ch) = ChannelType_SPATIAL \<longrightarrow>
      \<not> HasInterestIn (drop_interest p ch (upd_chan ch (leave_subscription p cs') w')) p (ch_id (w_chan w ch))"
    by (simp add: HasInterestIn_def drop_interest_def w' leave_subscription_def enter_subscription_def)
  ultimately show ?thesis using c by (simp add: Let_def)
qed

theorem UnsubscribeFromChannel_undoes_witness:
  "\<exists>w' cs b. SubscribeToChannel demo_externs 0 0 None sub_world = Some (w', Some cs, b) \<and>
    (let (w'', r) = UnsubscribeFromChannel 0 0 w' in
     r = Some (cs_options cs) \<and> b \<and> ch_fanOutQueue (w_chan w'' 0) = [] \<and> \<not> HasInterestIn w'' 0 65536)"
proof -
  obtain w' cs where r: "SubscribeToChannel demo_externs 0 0 None sub_world = Some (w', Some cs, True)"
    using SubscribeToChannel_new [OF merge_law_demo sub_world_facts(1,3), of None] by metis
  have "ch_fanOutQueue (w_chan sub_world 0) = []" by (simp add: sub_world_def demo_world_def)
  with UnsubscribeFromChannel_undoes [OF merge_law_demo sub_world_facts(1,2,3) r] r
  show ?thesis by (auto simp: sub_world_facts(4,5) Let_def split: prod.splits)
qed

lemma UnsubscribeFromChannel_fan_ok:
  assumes "fan_ok w (w_chan w ch)" and "\<not> IsClosing (w_conn w p)"
    and "UnsubscribeFromChannel p ch w = (w', r)"
  shows "fan_ok w' (w_chan w' ch)"
proof (cases "map_of (ch_subscribedConnections (w_chan w ch)) (Conn p)")
  case (Some cs)
  then have "w' = drop_interest p ch (upd_chan ch (leave_subscription p cs) w)"
    using assms(3) by (simp add: UnsubscribeFromChannel_def)
  then show ?thesis using leave_subscription_fan_ok [OF assms(1) Some assms(2)] fan_ok_cong [of w' w]
    by simp
qed (use assms in \<open>simp add: UnsubscribeFromChannel_def\<close>)

end
