(* ===== verification/ChannelData.thy ===== *)
theory ChannelData
  imports Subscription "HOL-Library.Multiset"
begin

text \<open>
  The data of a channel (\<open>data.go\<close>): initialisation, merging an update into the data, the buffer of
  recent updates, and the fan-out loop that sends every subscriber the updates of its time window.

  \<open>proto.Merge\<close>, \<open>anypb.New\<close>, \<open>fmutils.Filter\<close> and the merge functions of the application are
  parameters.  \<open>fmutils.Filter\<close> works in place, and so does the model: the first fan-out filters the
  channel's own data.
\<close>

subsection \<open>Registry and initialisation\<close>

definition RegisterChannelDataType :: "ChannelType \<Rightarrow> DataMsg \<Rightarrow> World \<Rightarrow> World" where
  "RegisterChannelDataType t template w =
     (if w_channelDataTypeRegistery w t \<noteq> None then w
      else w\<lparr>w_channelDataTypeRegistery := (w_channelDataTypeRegistery w)(t \<mapsto> template)\<rparr>)"

definition ReflectChannelDataMessage :: "Externs \<Rightarrow> World \<Rightarrow> ChannelType \<Rightarrow> DataMsg option" where
  "ReflectChannelDataMessage E w t = map_option (ex_protoNew E) (w_channelDataTypeRegistery w t)"

definition empty_data :: "DataMsg option \<Rightarrow> ChannelDataMergeOptions option \<Rightarrow> ChannelData" where
  "empty_data m opts = \<lparr>d_mergeOptions = opts, d_msg = m, d_accumulatedUpdateMsg = None,
     d_updateMsgBuffer = [], d_maxFanOutIntervalMs = 0, d_msgIndex = 0, d_extension = None\<rparr>"

definition initChannelDataExtension :: "World \<Rightarrow> ChannelType \<Rightarrow> ChannelData \<Rightarrow> ChannelData" where
  "initChannelDataExtension w t d = (case w_channelDataExtensionRegistery w t of
     Some ext \<Rightarrow> d\<lparr>d_extension := Some ext\<rparr>
   | None \<Rightarrow> d)"

definition run_initializer :: "Externs \<Rightarrow> World \<Rightarrow> ChannelType \<Rightarrow> DataMsg \<Rightarrow> ChannelData \<Rightarrow> ChannelData" where
  "run_initializer E w t m d = (case ex_initData E m of
     None \<Rightarrow> initChannelDataExtension w t d
   | Some (m', ok) \<Rightarrow>
       (if ok then initChannelDataExtension w t (d\<lparr>d_msg := Some m'\<rparr>) else d\<lparr>d_msg := Some m'\<rparr>))"

definition init_data ::
  "Externs \<Rightarrow> World \<Rightarrow> ChannelType \<Rightarrow> DataMsg option \<Rightarrow> ChannelDataMergeOptions option \<Rightarrow> ChannelData" where
  "init_data E w t dataMsg opts = (case dataMsg of
     Some m \<Rightarrow> run_initializer E w t m (empty_data (Some m) opts)
   | None \<Rightarrow> (case ReflectChannelDataMessage E w t of
       None \<Rightarrow> initChannelDataExtension w t (empty_data None opts)
     | Some m \<Rightarrow> run_initializer E w t m ((empty_data (Some m) opts)\<lparr>d_accumulatedUpdateMsg := Some m\<rparr>)))"

definition InitData ::
  "Externs \<Rightarrow> ChanPtr \<Rightarrow> DataMsg option \<Rightarrow> ChannelDataMergeOptions option \<Rightarrow> World \<Rightarrow> World" where
  "InitData E ch dataMsg opts w =
     upd_chan ch (\<lambda>c. c\<lparr>ch_data := Some (init_data E w (ch_channelType c) dataMsg opts)\<rparr>) w"

definition GetDataMessage :: "World \<Rightarrow> ChanPtr \<Rightarrow> DataMsg option" where
  "GetDataMessage w ch = (case ch_data (w_chan w ch) of None \<Rightarrow> None | Some d \<Rightarrow> d_msg d)"

subsection \<open>Merging\<close>

text \<open>The list options on one list: with a limit, \<open>TruncateTop\<close> shifts the last elements to the front
one by one before cutting the list.\<close>

fun shift_down :: "nat \<Rightarrow> nat \<Rightarrow> nat \<Rightarrow> 'a list \<Rightarrow> 'a list" where
  "shift_down i 0 offset xs = xs"
| "shift_down i (Suc n) offset xs = shift_down (i + 1) n offset (xs[i := xs ! (i + offset)])"

definition limit_list :: "ChannelDataMergeOptions \<Rightarrow> 'a list \<Rightarrow> 'a list" where
  "limit_list opts xs =
     (let limit = unat (mo_ListSizeLimit opts) in
      if limit > 0 \<and> length xs > limit then
        take limit (if mo_TruncateTop opts then shift_down 0 limit (length xs - limit) xs else xs)
      else xs)"

text \<open>
  One turn of \<open>Range\<close> in \<open>ReflectMerge\<close>; \<open>None\<close> is a panic: replacing a list by one that the source
  does not have (\<open>Set\<close> refuses an empty read-only list), or asking a map value that is not a message
  for its message.
\<close>

definition merge_field ::
  "ChannelDataMergeOptions \<Rightarrow> DataMsg \<Rightarrow> string \<times> PField \<Rightarrow> (string \<times> PField) option" where
  "merge_field opts src kf = (case kf of (k, f) \<Rightarrow> (case f of
     FList xs \<Rightarrow>
       (if mo_ShouldReplaceList opts then
          (case map_of (dm_fields src) k of
             Some (FList ys) \<Rightarrow> Some (k, FList (limit_list opts ys))
           | _ \<Rightarrow> None)
        else Some (k, FList (limit_list opts xs)))
   | FMap kvs \<Rightarrow>
       (if mo_ShouldCheckRemovableMapField opts then
          (if list_all (\<lambda>(mk, mv). pv_isMessage mv) kvs
           then Some (k, FMap (filter (\<lambda>(mk, mv). pv_removed mv \<noteq> Some True) kvs))
           else None)
        else Some (k, FMap kvs))
   | FScalar v \<Rightarrow> Some (k, FScalar v)))"

text \<open>The panic is recovered by the deferred function: the fields after it stay as they are.\<close>

fun merge_fields ::
  "ChannelDataMergeOptions \<Rightarrow> DataMsg \<Rightarrow> (string \<times> PField) list \<Rightarrow> (string \<times> PField) list" where
  "merge_fields opts src [] = []"
| "merge_fields opts src (kf # kfs) = (case merge_field opts src kf of
     None \<Rightarrow> kf # kfs
   | Some kf' \<Rightarrow> kf' # merge_fields opts src kfs)"

definition ReflectMerge ::
  "Externs \<Rightarrow> DataMsg \<Rightarrow> DataMsg \<Rightarrow> ChannelDataMergeOptions option \<Rightarrow> DataMsg" where
  "ReflectMerge E dst src options =
     (let dst' = ex_protoMerge E dst src in
      case options of
        None \<Rightarrow> dst'
      | Some opts \<Rightarrow> dst'\<lparr>dm_fields := merge_fields opts src (dm_fields dst')\<rparr>)"

definition default_merge_options :: ChannelDataMergeOptions where
  "default_merge_options = \<lparr>mo_ShouldReplaceList = False, mo_ListSizeLimit = 0,
     mo_TruncateTop = False, mo_ShouldCheckRemovableMapField = True\<rparr>"

definition mergeWithOptions ::
  "Externs \<Rightarrow> DataMsg \<Rightarrow> DataMsg \<Rightarrow> ChannelDataMergeOptions option \<Rightarrow> bool \<Rightarrow> DataMsg \<times> NotifyCall list" where
  "mergeWithOptions E dst src options notifier =
     (if ex_isMergeable E dst then
        ex_customMerge E dst src
          (case options of None \<Rightarrow> default_merge_options | Some opts \<Rightarrow> opts) notifier
      else (ReflectMerge E dst src options, []))"

subsection \<open>Updates\<close>

definition MaxUpdateMsgBufferSize :: nat where "MaxUpdateMsgBufferSize = 512"

definition merge_update ::
  "Externs \<Rightarrow> DataMsg \<Rightarrow> bool \<Rightarrow> ChannelData \<Rightarrow> ChannelData \<times> UpdateRef \<times> NotifyCall list" where
  "merge_update E updateMsg notifier d = (case d_msg d of
     None \<Rightarrow> (d\<lparr>d_msg := Some updateMsg\<rparr>, UpdAliasMsg, [])
   | Some m \<Rightarrow> (case mergeWithOptions E m updateMsg (d_mergeOptions d) notifier of
       (m', calls) \<Rightarrow> (d\<lparr>d_msg := Some m'\<rparr>, UpdVal updateMsg, calls)))"

definition buffer_update :: "UpdateRef \<Rightarrow> ChannelTime \<Rightarrow> uint32 \<Rightarrow> ChannelData \<Rightarrow> ChannelData" where
  "buffer_update ref t senderConnId d =
     (let idx = d_msgIndex d + 1;
          buf = d_updateMsgBuffer d @ [\<lparr>be_updateMsg = ref, be_arrivalTime = t,
                  be_senderConnId = senderConnId, be_messageIndex = idx\<rparr>];
          buf' = (if length buf > MaxUpdateMsgBufferSize \<and>
                     AddMs (be_arrivalTime (hd buf)) (d_maxFanOutIntervalMs d) < t
                  then tl buf else buf) in
      d\<lparr>d_msgIndex := idx, d_updateMsgBuffer := buf'\<rparr>)"

text \<open>The merge may call the notifier; the calls are handed to the caller (who makes them between the two
halves).\<close>

definition OnUpdate ::
  "Externs \<Rightarrow> DataMsg \<Rightarrow> ChannelTime \<Rightarrow> uint32 \<Rightarrow> bool \<Rightarrow> ChannelData \<Rightarrow> ChannelData \<times> NotifyCall list" where
  "OnUpdate E updateMsg t senderConnId notifier d = (case merge_update E updateMsg notifier d of
     (d1, ref, calls) \<Rightarrow> (buffer_update ref t senderConnId d1, calls))"

subsection \<open>The fan-out loop\<close>

text \<open>What a buffered update is when it is read: the stored message, or the channel's data itself.\<close>

definition deref_update :: "ChannelData \<Rightarrow> UpdateRef \<Rightarrow> DataMsg option" where
  "deref_update d r = (case r of UpdVal m \<Rightarrow> Some m | UpdAliasMsg \<Rightarrow> d_msg d)"

text \<open>
  The scan of the update buffer for one subscriber: its own updates are skipped on request; an update
  counts when its arrival time is between that of the last one counted (at first the last fan-out
  time) and the next fan-out time.  The result is the accumulated message (\<open>None\<close> as long as nothing
  was merged) and the index of the last update counted.
\<close>

record Scan =
  sc_acc :: DataMsg
  sc_hasEverMerged :: bool
  sc_lastUpdateTime :: ChannelTime
  sc_lastMessageIndex :: "64 word"

definition scan_one ::
  "Externs \<Rightarrow> ChannelData \<Rightarrow> uint32 \<Rightarrow> bool option \<Rightarrow> ChannelTime \<Rightarrow> updateMsgBufferElement \<Rightarrow> Scan \<Rightarrow> Scan option" where
  "scan_one E d connId skipSelf nextFanOutTime be s = do {
     skip \<leftarrow> (if be_senderConnId be = connId then skipSelf else Some False);
     (if skip then Some s
      else if be_arrivalTime be \<ge> sc_lastUpdateTime s \<and> be_arrivalTime be \<le> nextFanOutTime then do {
        m \<leftarrow> deref_update d (be_updateMsg be);
        Some (s\<lparr>sc_acc := (if \<not> sc_hasEverMerged s then ex_protoMerge E (sc_acc s) m
                           else fst (mergeWithOptions E (sc_acc s) m (d_mergeOptions d) False)),
               sc_hasEverMerged := True, sc_lastUpdateTime := be_arrivalTime be,
               sc_lastMessageIndex := be_messageIndex be\<rparr>)
      }
      else Some s)
   }"

fun scan_buffer ::
  "Externs \<Rightarrow> ChannelData \<Rightarrow> uint32 \<Rightarrow> bool option \<Rightarrow> ChannelTime \<Rightarrow> updateMsgBufferElement list \<Rightarrow> Scan \<Rightarrow> Scan option" where
  "scan_buffer E d connId skipSelf next [] s = Some s"
| "scan_buffer E d connId skipSelf next (be # bes) s = do {
     s' \<leftarrow> scan_one E d connId skipSelf next be s;
     scan_buffer E d connId skipSelf next bes s'
   }"

text \<open>\<open>fanOutDataUpdate\<close>: the message is filtered (in place) and sent; the first component is the
filtered message.\<close>

definition fanOutDataUpdate ::
  "Externs \<Rightarrow> ChanPtr \<Rightarrow> ConnPtr \<Rightarrow> ChannelSubscription \<Rightarrow> DataMsg \<Rightarrow> World \<Rightarrow> DataMsg \<times> World" where
  "fanOutDataUpdate E ch p cs updateMsg w =
     (let m = ex_filter E (so_DataFieldMasks (cs_options cs)) updateMsg in
      (m, case ex_anyNew E m of
            None \<Rightarrow> w
          | Some a \<Rightarrow> world_Send E p (empty_ctx\<lparr>x_MsgType := MessageType_CHANNEL_DATA_UPDATE,
              x_Msg := ChannelDataUpdateMessage (Some a) 0, x_Channel := Some ch,
              x_ChannelId := ch_id (w_chan w ch)\<rparr>) w))"

text \<open>Moving the element at a position of the queue behind the last element whose time is not later
(which exists and is not before it: the element itself qualifies).\<close>

definition upd_foc :: "nat \<Rightarrow> (fanOutConnection \<Rightarrow> fanOutConnection) \<Rightarrow> ChanPtr \<Rightarrow> World \<Rightarrow> World" where
  "upd_foc i f ch w = upd_chan ch (\<lambda>c. c\<lparr>ch_fanOutQueue := (ch_fanOutQueue c)[i := f (ch_fanOutQueue c ! i)]\<rparr>) w"

definition last_not_later :: "fanOutConnection list \<Rightarrow> ChannelTime \<Rightarrow> nat" where
  "last_not_later q t = fold (\<lambda>j acc. if foc_lastFanOutTime (q ! j) \<le> t then j else acc) [0..<length q] 0"

definition move_after :: "nat \<Rightarrow> nat \<Rightarrow> 'a list \<Rightarrow> 'a list" where
  "move_after i j q = take i q @ drop (i + 1) (take (j + 1) q) @ q ! i # drop (j + 1) q"

text \<open>The fan-out to one subscriber whose time has come.\<close>

definition fan_out_one ::
  "Externs \<Rightarrow> ChanPtr \<Rightarrow> ChannelTime \<Rightarrow> nat \<Rightarrow> ConnPtr \<Rightarrow> ChannelSubscription \<Rightarrow> ChannelTime \<Rightarrow> World \<Rightarrow> World option" where
  "fan_out_one E ch t i p cs next w = do {
     d \<leftarrow> ch_data (w_chan w ch);
     m \<leftarrow> d_msg d;
     let foc = ch_fanOutQueue (w_chan w ch) ! i;
     let acc0 = (case d_accumulatedUpdateMsg d of None \<Rightarrow> ex_protoNew E m | Some a \<Rightarrow> ex_protoReset E a);
     if \<not> foc_hadFirstFanOut foc then do {
       let (m', w1) = fanOutDataUpdate E ch p cs m w;
       let w2 = upd_chan ch (\<lambda>c. c\<lparr>ch_data := Some (d\<lparr>d_msg := Some m', d_accumulatedUpdateMsg := Some acc0\<rparr>)\<rparr>) w1;
       Some (upd_foc i (\<lambda>f. f\<lparr>foc_hadFirstFanOut := True, foc_lastMessageIndex := d_msgIndex d,
                              foc_lastFanOutTime := t\<rparr>) ch w2)
     }
     else do {
       s \<leftarrow> scan_buffer E d (c_id (w_conn w p)) (so_SkipSelfUpdateFanOut (cs_options cs)) next (d_updateMsgBuffer d)
              \<lparr>sc_acc = acc0, sc_hasEverMerged = False,
               sc_lastUpdateTime = max 0 (foc_lastFanOutTime foc),
               sc_lastMessageIndex = foc_lastMessageIndex foc\<rparr>;
       let (acc', w1) = (if sc_hasEverMerged s then fanOutDataUpdate E ch p cs (sc_acc s) w else (sc_acc s, w));
       let w2 = upd_chan ch (\<lambda>c. c\<lparr>ch_data := Some (d\<lparr>d_accumulatedUpdateMsg := Some acc'\<rparr>)\<rparr>) w1;
       Some (upd_foc i (\<lambda>f. f\<lparr>foc_lastMessageIndex := sc_lastMessageIndex s,
                              foc_lastFanOutTime := next\<rparr>) ch w2)
     }
   }"

text \<open>One turn of the loop at position \<open>i\<close> of the queue: the new state and the next position.\<close>

definition tick_one :: "Externs \<Rightarrow> ChanPtr \<Rightarrow> ChannelTime \<Rightarrow> nat \<Rightarrow> World \<Rightarrow> (World \<times> nat) option" where
  "tick_one E ch t i w =
     (let c = w_chan w ch; foc = ch_fanOutQueue c ! i in
      if foc_conn foc = NilIface then
        Some (upd_chan ch (\<lambda>c. c\<lparr>ch_fanOutQueue := take i (ch_fanOutQueue c) @ drop (i + 1) (ch_fanOutQueue c)\<rparr>) w, i)
      else do {
        p \<leftarrow> conn_deref (foc_conn foc);
        if IsClosing (w_conn w p) then
          Some (upd_chan ch (\<lambda>c. c\<lparr>ch_fanOutQueue := take i (ch_fanOutQueue c) @ drop (i + 1) (ch_fanOutQueue c)\<rparr>) w, i)
        else case map_of (ch_subscribedConnections c) (Conn p) of
          None \<Rightarrow> Some (w, i + 1)
        | Some cs \<Rightarrow> do {
            access \<leftarrow> so_DataAccess (cs_options cs);
            if access = DataAccess_NO_ACCESS then Some (w, i + 1)
            else do {
              interval \<leftarrow> so_FanOutIntervalMs (cs_options cs);
              let next = AddMs (foc_lastFanOutTime foc) interval;
              if t \<ge> next then do {
                w1 \<leftarrow> fan_out_one E ch t i p cs next w;
                let q = ch_fanOutQueue (w_chan w1 ch);
                let j = last_not_later q (foc_lastFanOutTime (q ! i));
                Some (upd_chan ch (\<lambda>c. c\<lparr>ch_fanOutQueue := move_after i j (ch_fanOutQueue c)\<rparr>) w1, i)
              }
              else Some (w, i + 1)
            }
          }
      })"

text \<open>The loop may run forever (an interval of 0 makes an element due again at once), so it is a
partial function: \<open>None\<close> is a panic or no return.\<close>

partial_function (option) tick_loop ::
  "Externs \<Rightarrow> ChanPtr \<Rightarrow> ChannelTime \<Rightarrow> nat \<Rightarrow> World \<Rightarrow> World option" where
  "tick_loop E ch t i w =
     (if i < length (ch_fanOutQueue (w_chan w ch)) then
        Option.bind (tick_one E ch t i w) (\<lambda>(w', i'). tick_loop E ch t i' w')
      else Some w)"

definition tickData :: "Externs \<Rightarrow> ChanPtr \<Rightarrow> ChannelTime \<Rightarrow> World \<Rightarrow> World option" where
  "tickData E ch t w = (case ch_data (w_chan w ch) of
     None \<Rightarrow> Some w
   | Some d \<Rightarrow> (case d_msg d of None \<Rightarrow> Some w | Some m \<Rightarrow> tick_loop E ch t 0 w))"

subsection \<open>The window of a fan-out\<close>

text \<open>Specification of the scan: the updates that are due to a connection in the window
\<open>[lo, hi]\<close>, and what they accumulate to.\<close>

definition due :: "uint32 \<Rightarrow> bool \<Rightarrow> ChannelTime \<Rightarrow> ChannelTime \<Rightarrow> updateMsgBufferElement \<Rightarrow> bool" where
  "due connId skipSelf lo hi be \<longleftrightarrow> \<not> (be_senderConnId be = connId \<and> skipSelf) \<and>
     lo \<le> be_arrivalTime be \<and> be_arrivalTime be \<le> hi"

fun accumulate ::
  "Externs \<Rightarrow> ChannelDataMergeOptions option \<Rightarrow> bool \<Rightarrow> DataMsg \<Rightarrow> DataMsg list \<Rightarrow> DataMsg" where
  "accumulate E opts merged acc [] = acc"
| "accumulate E opts merged acc (m # ms) = accumulate E opts True
     (if \<not> merged then ex_protoMerge E acc m else fst (mergeWithOptions E acc m opts False)) ms"

definition update_msg :: "ChannelData \<Rightarrow> updateMsgBufferElement \<Rightarrow> DataMsg" where
  "update_msg d be = the (deref_update d (be_updateMsg be))"

definition by_arrival :: "updateMsgBufferElement list \<Rightarrow> bool" where
  "by_arrival bes \<longleftrightarrow> sorted_wrt (\<lambda>a b. be_arrivalTime a \<le> be_arrivalTime b) bes"

lemma deref_update_total: "d_msg d \<noteq> None \<Longrightarrow> deref_update d r = Some (the (deref_update d r))"
  by (cases r) (auto simp: deref_update_def)

lemma scan_one_due:
  assumes "d_msg d \<noteq> None"
  shows "scan_one E d connId (Some skipSelf) hi be s =
    Some (if due connId skipSelf (sc_lastUpdateTime s) hi be then
            s\<lparr>sc_acc := (if \<not> sc_hasEverMerged s then ex_protoMerge E (sc_acc s) (update_msg d be)
                         else fst (mergeWithOptions E (sc_acc s) (update_msg d be) (d_mergeOptions d) False)),
              sc_hasEverMerged := True, sc_lastUpdateTime := be_arrivalTime be,
              sc_lastMessageIndex := be_messageIndex be\<rparr>
          else s)"
proof -
  obtain m where m: "deref_update d (be_updateMsg be) = Some m"
    using deref_update_total [OF assms, of "be_updateMsg be"] by blast
  show ?thesis by (auto simp: scan_one_def due_def update_msg_def m)
qed

lemma scan_buffer_total:
  assumes "d_msg d \<noteq> None"
  shows "\<exists>s'. scan_buffer E d connId (Some skipSelf) hi bes s = Some s'"
  by (induction bes arbitrary: s) (auto simp: scan_one_due [OF assms])

lemma scan_buffer_window:
  assumes "d_msg d \<noteq> None"
  shows "by_arrival bes \<Longrightarrow> scan_buffer E d connId (Some skipSelf) hi bes s = Some s' \<Longrightarrow>
    (let ds = filter (due connId skipSelf (sc_lastUpdateTime s) hi) bes in
     sc_acc s' = accumulate E (d_mergeOptions d) (sc_hasEverMerged s) (sc_acc s) (map (update_msg d) ds) \<and>
     sc_hasEverMerged s' = (sc_hasEverMerged s \<or> ds \<noteq> []) \<and>
     sc_lastMessageIndex s' = (if ds = [] then sc_lastMessageIndex s else be_messageIndex (last ds)))"
proof (induction bes arbitrary: s)
  case Nil
  then show ?case by simp
next
  case (Cons be bes)
  let ?d = "due connId skipSelf (sc_lastUpdateTime s) hi be"
  from Cons.prems have srt: "by_arrival bes" and ge: "\<forall>b \<in> set bes. be_arrivalTime be \<le> be_arrivalTime b"
    by (auto simp: by_arrival_def)
  have same: "filter (due connId skipSelf (be_arrivalTime be) hi) bes =
      filter (due connId skipSelf (sc_lastUpdateTime s) hi) bes" if ?d
    by (rule filter_cong [OF refl]) (use ge that in \<open>auto simp: due_def\<close>)
  show ?case
  proof (cases ?d)
    case True
    with Cons.prems(2) have run: "scan_buffer E d connId (Some skipSelf) hi bes
        (s\<lparr>sc_acc := (if \<not> sc_hasEverMerged s then ex_protoMerge E (sc_acc s) (update_msg d be)
                         else fst (mergeWithOptions E (sc_acc s) (update_msg d be) (d_mergeOptions d) False)),
              sc_hasEverMerged := True, sc_lastUpdateTime := be_arrivalTime be,
              sc_lastMessageIndex := be_messageIndex be\<rparr>) = Some s'"
      by (simp add: scan_one_due [OF assms])
    from Cons.IH [OF srt run] True show ?thesis by (simp add: Let_def same [OF True])
  next
    case False
    with Cons.prems(2) have run: "scan_buffer E d connId (Some skipSelf) hi bes s = Some s'"
      by (simp add: scan_one_due [OF assms])
    from Cons.IH [OF srt run] False show ?thesis by simp
  qed
qed


definition demo_data :: DataMsg where
  "demo_data = \<lparr>dm_type = ''T'', dm_fields = [(''a'', FScalar \<lparr>pv_repr = 1, pv_isMessage = False, pv_removed = None\<rparr>),
     (''b'', FScalar \<lparr>pv_repr = 2, pv_isMessage = False, pv_removed = None\<rparr>)]\<rparr>"

definition demo_update :: "uint32 \<Rightarrow> ChannelTime \<Rightarrow> updateMsgBufferElement" where
  "demo_update sender t = \<lparr>be_updateMsg = UpdVal demo_data, be_arrivalTime = t,
     be_senderConnId = sender, be_messageIndex = of_int t\<rparr>"

text \<open>A channel with data, two buffered updates and one subscriber.\<close>

definition fan_world :: "uint32 \<Rightarrow> bool \<Rightarrow> ChannelTime \<Rightarrow> World" where
  "fan_world interval hadFirst lastTime = upd_chan 0 (\<lambda>c. c\<lparr>
     ch_data := Some ((empty_data (Some demo_data) None)\<lparr>d_updateMsgBuffer := [demo_update 5 10, demo_update 7 20]\<rparr>),
     ch_subscribedConnections := [(Conn 0, demo_sub\<lparr>cs_options := (cs_options demo_sub)\<lparr>
        so_FanOutIntervalMs := Some interval, so_DataFieldMasks := [''b'']\<rparr>\<rparr>)],
     ch_nextElement := 1,
     ch_fanOutQueue := [\<lparr>foc_elem = 0, foc_conn = Conn 0, foc_hadFirstFanOut = hadFirst,
       foc_lastFanOutTime = lastTime, foc_lastMessageIndex = 0\<rparr>]\<rparr>) sub_world"

lemmas fan_world_defs = fan_world_def sub_world_def demo_world_def demo_conn_def demo_sub_def empty_data_def
  GetDataMessage_def


subsection \<open>Termination and the invariant\<close>

lemma conn_Send_frame [simp]:
  "c_state (conn_Send E ctx c) = c_state c" "c_id (conn_Send E ctx c) = c_id c"
  "c_connectionType (conn_Send E ctx c) = c_connectionType c" "c_pit (conn_Send E ctx c) = c_pit c"
  "c_recoverHandle (conn_Send E ctx c) = c_recoverHandle c"
  "c_spatialSubscriptions (conn_Send E ctx c) = c_spatialSubscriptions c"
  "c_written (conn_Send E ctx c) = c_written c"
  by (simp_all add: conn_Send_def queuedMessagePackSender_Send_def Let_def)

lemma IsClosing_Send [simp]: "IsClosing (conn_Send E ctx c) = IsClosing c"
  by (simp add: IsClosing_def)

lemma world_Send_frame [simp]:
  "w_chan (world_Send E p ctx w) = w_chan w" "w_allChannels (world_Send E p ctx w) = w_allChannels w"
  "w_allConnections (world_Send E p ctx w) = w_allConnections w"
  "w_settings (world_Send E p ctx w) = w_settings w" "w_globalChannel (world_Send E p ctx w) = w_globalChannel w"
  "w_now (world_Send E p ctx w) = w_now w" "w_log (world_Send E p ctx w) = w_log w"
  "w_conn (world_Send E p ctx w) q = (if q = p then conn_Send E ctx (w_conn w p) else w_conn w q)"
  by (simp_all add: world_Send_def)

lemma IsClosing_world_Send [simp]:
  "IsClosing (w_conn (world_Send E p ctx w) q) = IsClosing (w_conn w q)"
  by simp

lemma fanOutDataUpdate_frame:
  assumes "fanOutDataUpdate E ch p cs m w = (m', w')"
  shows "w_chan w' = w_chan w" "IsClosing (w_conn w' q) = IsClosing (w_conn w q)"
    "c_id (w_conn w' q) = c_id (w_conn w q)" "q \<noteq> p \<Longrightarrow> w_conn w' q = w_conn w q"
    "w_settings w' = w_settings w" "w_allChannels w' = w_allChannels w" "w_allConnections w' = w_allConnections w"
  using assms by (auto simp: fanOutDataUpdate_def Let_def split: option.splits if_splits)

lemma last_not_later_bounds:
  assumes "i < length q" and "foc_lastFanOutTime (q ! i) \<le> t"
  shows "i \<le> last_not_later q t \<and> last_not_later q t < length q"
proof -
  have "i < n \<Longrightarrow> n \<le> length q \<Longrightarrow>
      i \<le> fold (\<lambda>j acc. if foc_lastFanOutTime (q ! j) \<le> t then j else acc) [0..<n] 0 \<and>
      fold (\<lambda>j acc. if foc_lastFanOutTime (q ! j) \<le> t then j else acc) [0..<n] 0 < n" for n
  proof (induction n)
    case (Suc n)
    then show ?case using assms(2) by (cases "i = n") auto
  qed simp
  from this [of "length q"] assms(1) show ?thesis by (simp add: last_not_later_def)
qed

lemma mset_move_after:
  assumes "i \<le> j" and "j < length q"
  shows "mset (move_after i j q) = mset q"
proof -
  have "q = take i q @ q ! i # drop (i + 1) q" using assms by (simp add: id_take_nth_drop)
  also have "drop (i + 1) q = drop (i + 1) (take (j + 1) q) @ drop (j + 1) q"
    using assms drop_take [of "i + 1" "j + 1" q] append_take_drop_id [of "j - i" "drop (i + 1) q"]
    by (simp add: Suc_diff_le)
  finally have "mset q = mset (take i q @ q ! i # (drop (i + 1) (take (j + 1) q) @ drop (j + 1) q))"
    by simp
  then show ?thesis by (simp add: move_after_def)
qed

lemma upd_foc_frame [simp]:
  "w_conn (upd_foc i f ch w) = w_conn w"
  "w_chan (upd_foc i f ch w) = (w_chan w)(ch := (w_chan w ch)\<lparr>ch_fanOutQueue :=
     (ch_fanOutQueue (w_chan w ch))[i := f (ch_fanOutQueue (w_chan w ch) ! i)]\<rparr>)"
  "w_allChannels (upd_foc i f ch w) = w_allChannels w" "w_allConnections (upd_foc i f ch w) = w_allConnections w"
  by (simp_all add: upd_foc_def)

text \<open>What a fan-out to one subscriber does: it cannot fail, changes the queue only at its position,
keeps the identity of the element, and sets its time to now (first) or to the next fan-out time.\<close>

lemma fan_out_one_ok:
  assumes full: "opts_full (cs_options cs)" and m: "GetDataMessage w ch \<noteq> None"
  shows "\<exists>w' f'. fan_out_one E ch t i p cs next w = Some w' \<and>
    (let foc = ch_fanOutQueue (w_chan w ch) ! i in
     ch_fanOutQueue (w_chan w' ch) = (ch_fanOutQueue (w_chan w ch))[i := f'] \<and>
     foc_elem f' = foc_elem foc \<and> foc_conn f' = foc_conn foc \<and>
     foc_lastFanOutTime f' = (if foc_hadFirstFanOut foc then next else t)) \<and>
    ch_subscribedConnections (w_chan w' ch) = ch_subscribedConnections (w_chan w ch) \<and>
    ch_nextElement (w_chan w' ch) = ch_nextElement (w_chan w ch) \<and>
    GetDataMessage w' ch \<noteq> None \<and>
    (\<forall>q. IsClosing (w_conn w' q) = IsClosing (w_conn w q)) \<and>
    (\<forall>q. q \<noteq> p \<longrightarrow> w_conn w' q = w_conn w q) \<and>
    (\<forall>c. c \<noteq> ch \<longrightarrow> w_chan w' c = w_chan w c)"
proof -
  obtain d mm where d: "ch_data (w_chan w ch) = Some d" "d_msg d = Some mm"
    using m by (auto simp: GetDataMessage_def split: option.splits)
  obtain b where b: "so_SkipSelfUpdateFanOut (cs_options cs) = Some b" using full by (auto simp: opts_full_def)
  let ?foc = "ch_fanOutQueue (w_chan w ch) ! i"
  define acc0 where "acc0 = (case d_accumulatedUpdateMsg d of None \<Rightarrow> ex_protoNew E mm | Some a \<Rightarrow> ex_protoReset E a)"
  show ?thesis
  proof (cases "foc_hadFirstFanOut ?foc")
    case False
    obtain m' w1 where f: "fanOutDataUpdate E ch p cs mm w = (m', w1)" by force
    note fr = fanOutDataUpdate_frame [OF f]
    show ?thesis using False d f fr
      by (auto simp: fan_out_one_def Let_def GetDataMessage_def)
  next
    case True
    obtain s where s: "scan_buffer E d (c_id (w_conn w p)) (Some b) next (d_updateMsgBuffer d)
              \<lparr>sc_acc = acc0, sc_hasEverMerged = False,
               sc_lastUpdateTime = max 0 (foc_lastFanOutTime ?foc),
               sc_lastMessageIndex = foc_lastMessageIndex ?foc\<rparr> = Some s"
      using scan_buffer_total [of d] d by blast
    obtain m' w1 where f: "(if sc_hasEverMerged s then fanOutDataUpdate E ch p cs (sc_acc s) w
        else (sc_acc s, w)) = (m', w1)" by force
    then have fr: "w_chan w1 = w_chan w" "IsClosing (w_conn w1 q) = IsClosing (w_conn w q)"
      "q \<noteq> p \<Longrightarrow> w_conn w1 q = w_conn w q" for q
      using fanOutDataUpdate_frame [of E ch p cs "sc_acc s" w m' w1] by (auto split: if_splits)
    show ?thesis using True d b s f fr
      by (auto simp: fan_out_one_def Let_def GetDataMessage_def acc0_def split: if_splits)
  qed
qed

lemma fan_ok_requeue:
  assumes ok: "fan_ok w c"
    and q: "mset (map (\<lambda>f. (foc_elem f, foc_conn f)) (ch_fanOutQueue c')) =
            mset (map (\<lambda>f. (foc_elem f, foc_conn f)) (ch_fanOutQueue c))"
    and s: "ch_subscribedConnections c' = ch_subscribedConnections c" "ch_nextElement c' = ch_nextElement c"
    and cl: "\<And>p. IsClosing (w_conn w' p) = IsClosing (w_conn w p)"
  shows "fan_ok w' c'"
proof -
  let ?k = "\<lambda>f. (foc_elem f, foc_conn f)"
  have st: "?k ` set (ch_fanOutQueue c') = ?k ` set (ch_fanOutQueue c)"
    using arg_cong [OF q, of set_mset] by simp
  have "mset (map foc_elem (ch_fanOutQueue c')) = mset (map foc_elem (ch_fanOutQueue c))"
    using arg_cong [OF q, of "image_mset fst"] by (simp add: comp_def multiset.map_comp)
  then have dist: "distinct (map foc_elem (ch_fanOutQueue c'))"
    using fan_okD(3) [OF ok] mset_eq_imp_distinct_iff by blast
  have to: "\<exists>g \<in> set (ch_fanOutQueue c). foc_elem g = foc_elem f \<and> foc_conn g = foc_conn f"
    if "f \<in> set (ch_fanOutQueue c')" for f
  proof -
    have "?k f \<in> ?k ` set (ch_fanOutQueue c)" using st that by blast
    then show ?thesis by auto
  qed
  have fro: "\<exists>g \<in> set (ch_fanOutQueue c'). foc_elem g = foc_elem f \<and> foc_conn g = foc_conn f"
    if "f \<in> set (ch_fanOutQueue c)" for f
  proof -
    have "?k f \<in> ?k ` set (ch_fanOutQueue c')" using st that by blast
    then show ?thesis by auto
  qed
  show ?thesis
  proof (rule fan_okI)
    show "distinct (map foc_elem (ch_fanOutQueue c'))" by (rule dist)
  next
    fix f assume "f \<in> set (ch_fanOutQueue c')"
    then obtain g where "g \<in> set (ch_fanOutQueue c)" "foc_elem g = foc_elem f" "foc_conn g = foc_conn f"
      using to by blast
    then show "foc_elem f < ch_nextElement c'" and "\<exists>p. foc_conn f = Conn p \<and> (IsClosing (w_conn w' p) \<or>
           (\<exists>cs. map_of (ch_subscribedConnections c') (Conn p) = Some cs \<and> cs_fanOutElement cs = foc_elem f))"
      using fan_okD(4) [OF ok, of g] by (auto simp: s cl)
  next
    fix p cs assume "map_of (ch_subscribedConnections c') (Conn p) = Some cs" "\<not> IsClosing (w_conn w' p)"
    then obtain f where "f \<in> set (ch_fanOutQueue c)" "foc_elem f = cs_fanOutElement cs" "foc_conn f = Conn p"
      using fan_okD(5) [OF ok, of p cs] by (auto simp: s cl)
    then show "\<exists>f \<in> set (ch_fanOutQueue c'). foc_elem f = cs_fanOutElement cs \<and> foc_conn f = Conn p"
      using fro [of f] by auto
  qed (use fan_okD [OF ok] s in auto)
qed

lemma fan_ok_remove:
  assumes ok: "fan_ok w c" and i: "i < length (ch_fanOutQueue c)"
    and cl: "foc_conn (ch_fanOutQueue c ! i) = Conn p" "IsClosing (w_conn w p)"
  shows "fan_ok w (c\<lparr>ch_fanOutQueue := take i (ch_fanOutQueue c) @ drop (i + 1) (ch_fanOutQueue c)\<rparr>)"
proof -
  let ?q = "take i (ch_fanOutQueue c) @ drop (i + 1) (ch_fanOutQueue c)"
  have split: "ch_fanOutQueue c = take i (ch_fanOutQueue c) @ ch_fanOutQueue c ! i # drop (i + 1) (ch_fanOutQueue c)"
    using i by (simp add: id_take_nth_drop)
  have sub: "set ?q \<subseteq> set (ch_fanOutQueue c)"
    by (auto dest: in_set_takeD in_set_dropD)
  have "map foc_elem (ch_fanOutQueue c) = map foc_elem (take i (ch_fanOutQueue c)) @
      foc_elem (ch_fanOutQueue c ! i) # map foc_elem (drop (i + 1) (ch_fanOutQueue c))"
    using arg_cong [OF split, of "map foc_elem"] by simp
  then have dist: "distinct (map foc_elem ?q)" using fan_okD(3) [OF ok] by auto
  have keep: "f \<in> set ?q" if "f \<in> set (ch_fanOutQueue c)" "f \<noteq> ch_fanOutQueue c ! i" for f
  proof -
    from that(1) split have "f \<in> set (take i (ch_fanOutQueue c) @ ch_fanOutQueue c ! i # drop (i + 1) (ch_fanOutQueue c))"
      by metis
    with that(2) show ?thesis by auto
  qed
  show ?thesis
  proof (rule fan_okI)
    fix q cs
    assume "map_of (ch_subscribedConnections (c\<lparr>ch_fanOutQueue := ?q\<rparr>)) (Conn q) = Some cs" "\<not> IsClosing (w_conn w q)"
    then obtain f where f: "f \<in> set (ch_fanOutQueue c)" "foc_elem f = cs_fanOutElement cs" "foc_conn f = Conn q"
      using fan_okD(5) [OF ok, of q cs] by auto
    with cl \<open>\<not> IsClosing (w_conn w q)\<close> have "f \<noteq> ch_fanOutQueue c ! i" by auto
    with keep f show "\<exists>f \<in> set (ch_fanOutQueue (c\<lparr>ch_fanOutQueue := ?q\<rparr>)). foc_elem f = cs_fanOutElement cs \<and> foc_conn f = Conn q"
      by auto
  next
    fix f assume "f \<in> set (ch_fanOutQueue (c\<lparr>ch_fanOutQueue := ?q\<rparr>))"
    then have "f \<in> set (ch_fanOutQueue c)" using sub by auto
    from fan_okD(4) [OF ok this]
    show "foc_elem f < ch_nextElement (c\<lparr>ch_fanOutQueue := ?q\<rparr>)"
      "\<exists>p. foc_conn f = Conn p \<and> (IsClosing (w_conn w p) \<or>
         (\<exists>cs. map_of (ch_subscribedConnections (c\<lparr>ch_fanOutQueue := ?q\<rparr>)) (Conn p) = Some cs \<and>
            cs_fanOutElement cs = foc_elem f))"
      by auto
  qed (use fan_okD [OF ok] dist in auto)
qed

definition intervals_pos :: "Channel \<Rightarrow> bool" where
  "intervals_pos c \<longleftrightarrow> (\<forall>r cs. map_of (ch_subscribedConnections c) r = Some cs \<longrightarrow>
     so_DataAccess (cs_options cs) \<noteq> Some DataAccess_NO_ACCESS \<longrightarrow> so_FanOutIntervalMs (cs_options cs) \<noteq> Some 0)"

text \<open>An element that the loop has finished with: its connection is open and it is not due.\<close>

definition settled :: "World \<Rightarrow> Channel \<Rightarrow> ChannelTime \<Rightarrow> fanOutConnection \<Rightarrow> bool" where
  "settled w c t f \<longleftrightarrow> (\<exists>p. foc_conn f = Conn p \<and> \<not> IsClosing (w_conn w p) \<and>
     (\<forall>cs interval. map_of (ch_subscribedConnections c) (Conn p) = Some cs \<longrightarrow>
        so_DataAccess (cs_options cs) \<noteq> Some DataAccess_NO_ACCESS \<longrightarrow>
        so_FanOutIntervalMs (cs_options cs) = Some interval \<longrightarrow>
        t < AddMs (foc_lastFanOutTime f) interval))"

definition tick_inv :: "World \<Rightarrow> ChanPtr \<Rightarrow> ChannelTime \<Rightarrow> nat \<Rightarrow> bool" where
  "tick_inv w ch t i \<longleftrightarrow> (let c = w_chan w ch in
     fan_ok w c \<and> GetDataMessage w ch \<noteq> None \<and> intervals_pos c \<and> i \<le> length (ch_fanOutQueue c) \<and>
     (\<forall>k < i. settled w c t (ch_fanOutQueue c ! k)))"

definition lag :: "ChannelTime \<Rightarrow> fanOutConnection list \<Rightarrow> nat" where
  "lag t q = sum_list (map (\<lambda>f. nat (t - foc_lastFanOutTime f)) q)"

definition tick_frame :: "ChanPtr \<Rightarrow> World \<Rightarrow> World \<Rightarrow> bool" where
  "tick_frame ch w w' \<longleftrightarrow>
     ch_subscribedConnections (w_chan w' ch) = ch_subscribedConnections (w_chan w ch) \<and>
     (\<forall>q. IsClosing (w_conn w' q) = IsClosing (w_conn w q)) \<and>
     (\<forall>c. c \<noteq> ch \<longrightarrow> w_chan w' c = w_chan w c)"

lemma lag_mset: "mset q = mset q' \<Longrightarrow> lag t q = lag t q'"
proof -
  assume "mset q = mset q'"
  then have "mset (map (\<lambda>f. nat (t - foc_lastFanOutTime f)) q) = mset (map (\<lambda>f. nat (t - foc_lastFanOutTime f)) q')"
    by simp
  then show ?thesis unfolding lag_def by (metis sum_mset_sum_list)
qed

lemma lag_remove: "i < length q \<Longrightarrow> lag t (take i q @ drop (i + 1) q) \<le> lag t q"
proof -
  assume "i < length q"
  then have "q = take i q @ q ! i # drop (i + 1) q" by (simp add: id_take_nth_drop)
  then have "lag t q = lag t (take i q @ q ! i # drop (i + 1) q)" by simp
  then show ?thesis by (simp add: lag_def)
qed

lemma lag_update:
  assumes "i < length q" and "foc_lastFanOutTime (q ! i) < foc_lastFanOutTime f" and "foc_lastFanOutTime f \<le> t"
  shows "lag t (q[i := f]) < lag t q"
proof -
  have "q = take i q @ q ! i # drop (i + 1) q" using assms(1) by (simp add: id_take_nth_drop)
  then have "lag t q = lag t (take i q @ q ! i # drop (i + 1) q)" by simp
  moreover have "q[i := f] = take i q @ f # drop (i + 1) q" using assms(1) by (simp add: upd_conv_take_nth_drop)
  ultimately show ?thesis using assms by (simp add: lag_def)
qed

lemma take_move_after: "i \<le> j \<Longrightarrow> i \<le> length q \<Longrightarrow> k < i \<Longrightarrow> move_after i j q ! k = q ! k"
  by (simp add: move_after_def nth_append)

lemma settled_cong:
  assumes "tick_frame ch w w'" and "foc_conn f' = foc_conn f" and "foc_lastFanOutTime f' = foc_lastFanOutTime f"
  shows "settled w' (w_chan w' ch) t f' = settled w (w_chan w ch) t f"
  using assms by (simp add: settled_def tick_frame_def)

lemma tick_remove_step:
  assumes inv: "tick_inv w ch t i" and i: "i < length (ch_fanOutQueue (w_chan w ch))"
    and p: "foc_conn (ch_fanOutQueue (w_chan w ch) ! i) = Conn p" and cl: "IsClosing (w_conn w p)"
  defines "w' \<equiv> upd_chan ch (\<lambda>c. c\<lparr>ch_fanOutQueue := take i (ch_fanOutQueue c) @ drop (i + 1) (ch_fanOutQueue c)\<rparr>) w"
  shows "tick_inv w' ch t i \<and> tick_frame ch w w' \<and>
    lag t (ch_fanOutQueue (w_chan w' ch)) \<le> lag t (ch_fanOutQueue (w_chan w ch)) \<and>
    length (ch_fanOutQueue (w_chan w' ch)) < length (ch_fanOutQueue (w_chan w ch))"
proof -
  let ?c = "w_chan w ch"
  let ?q = "take i (ch_fanOutQueue ?c) @ drop (i + 1) (ch_fanOutQueue ?c)"
  have w': "w_chan w' ch = ?c\<lparr>ch_fanOutQueue := ?q\<rparr>" by (simp add: w'_def)
  have fr: "tick_frame ch w w'" by (simp add: tick_frame_def w'_def)
  have ok: "fan_ok w (?c\<lparr>ch_fanOutQueue := ?q\<rparr>)"
    using fan_ok_remove [OF _ i p cl] inv by (simp add: tick_inv_def Let_def)
  moreover have "fan_ok w' (w_chan w' ch) = fan_ok w (w_chan w' ch)"
    by (rule fan_ok_cong) (simp add: w'_def)
  moreover have "settled w' (w_chan w' ch) t (?q ! k)" if "k < i" for k
    using that inv i settled_cong [OF fr, of "?q ! k" "ch_fanOutQueue ?c ! k"]
    by (simp add: tick_inv_def Let_def nth_append)
  ultimately have "tick_inv w' ch t i"
    using inv i by (simp add: tick_inv_def Let_def w' GetDataMessage_def intervals_pos_def)
  with fr show ?thesis using i lag_remove [OF i] by (simp add: w')
qed

lemma tick_skip_step:
  assumes inv: "tick_inv w ch t i" and i: "i < length (ch_fanOutQueue (w_chan w ch))"
    and s: "settled w (w_chan w ch) t (ch_fanOutQueue (w_chan w ch) ! i)"
  shows "tick_inv w ch t (i + 1)"
  using assms by (auto simp: tick_inv_def Let_def less_Suc_eq)

lemma tick_fan_out_step:
  assumes inv: "tick_inv w ch t i" and i: "i < length (ch_fanOutQueue (w_chan w ch))"
    and cs: "map_of (ch_subscribedConnections (w_chan w ch)) (Conn p) = Some cs"
    and iv: "so_FanOutIntervalMs (cs_options cs) = Some interval" "interval \<noteq> 0"
    and due: "AddMs (foc_lastFanOutTime (ch_fanOutQueue (w_chan w ch) ! i)) interval \<le> t"
  shows "\<exists>w1. fan_out_one E ch t i p cs (AddMs (foc_lastFanOutTime (ch_fanOutQueue (w_chan w ch) ! i)) interval) w = Some w1 \<and>
    (let q = ch_fanOutQueue (w_chan w1 ch); j = last_not_later q (foc_lastFanOutTime (q ! i));
         w' = upd_chan ch (\<lambda>c. c\<lparr>ch_fanOutQueue := move_after i j (ch_fanOutQueue c)\<rparr>) w1 in
     tick_inv w' ch t i \<and> tick_frame ch w w' \<and>
     lag t (ch_fanOutQueue (w_chan w' ch)) < lag t (ch_fanOutQueue (w_chan w ch)))"
proof -
  let ?c = "w_chan w ch"
  let ?q = "ch_fanOutQueue ?c"
  let ?foc = "?q ! i"
  let ?next = "AddMs (foc_lastFanOutTime ?foc) interval"
  have "uint interval \<noteq> 0" using iv(2) by (simp add: uint_0_iff)
  then have "0 < uint interval" using uint_ge_0 [of interval] by linarith
  then have nx: "foc_lastFanOutTime ?foc < ?next" by (simp add: AddMs_def)
  from inv have ok: "fan_ok w ?c" and gd: "GetDataMessage w ch \<noteq> None" and ip: "intervals_pos ?c"
    and st: "\<forall>k < i. settled w ?c t (?q ! k)" by (auto simp: tick_inv_def Let_def)
  have full: "opts_full (cs_options cs)" using fan_okD(2) [OF ok cs] by simp
  from fan_out_one_ok [OF full gd, of E t i p ?next] obtain w1 f'
    where r: "fan_out_one E ch t i p cs ?next w = Some w1"
    and q1: "ch_fanOutQueue (w_chan w1 ch) = ?q[i := f']"
    and f': "foc_elem f' = foc_elem ?foc" "foc_conn f' = foc_conn ?foc"
      "foc_lastFanOutTime f' = (if foc_hadFirstFanOut ?foc then ?next else t)"
    and s1: "ch_subscribedConnections (w_chan w1 ch) = ch_subscribedConnections ?c"
      "ch_nextElement (w_chan w1 ch) = ch_nextElement ?c" "GetDataMessage w1 ch \<noteq> None"
    and c1: "\<forall>q. IsClosing (w_conn w1 q) = IsClosing (w_conn w q)" "\<forall>c. c \<noteq> ch \<longrightarrow> w_chan w1 c = w_chan w c"
    by (auto simp: Let_def)
  have f'i: "?q[i := f'] ! i = f'" using i by simp
  define j where "j = last_not_later (?q[i := f']) (foc_lastFanOutTime f')"
  have j: "i \<le> j" "j < length ?q"
    using last_not_later_bounds [of i "?q[i := f']" "foc_lastFanOutTime f'"] i by (auto simp: j_def)
  define w' where "w' = upd_chan ch (\<lambda>c. c\<lparr>ch_fanOutQueue := move_after i j (ch_fanOutQueue c)\<rparr>) w1"
  have q': "ch_fanOutQueue (w_chan w' ch) = move_after i j (?q[i := f'])" by (simp add: w'_def q1)
  have ms: "mset (move_after i j (?q[i := f'])) = mset (?q[i := f'])"
    by (rule mset_move_after) (use j in simp_all)
  have fr: "tick_frame ch w w'" using s1 c1 by (simp add: tick_frame_def w'_def)
  let ?k = "\<lambda>f. (foc_elem f, foc_conn f)"
  have "map ?k (?q[i := f']) = map ?k ?q"
    using f' i by (simp add: map_update list_update_same_conv)
  moreover have "mset (map ?k (move_after i j (?q[i := f']))) = mset (map ?k (?q[i := f']))"
    using ms by simp
  ultimately have "mset (map ?k (ch_fanOutQueue (w_chan w' ch))) = mset (map ?k ?q)"
    by (simp only: q')
  then have ok': "fan_ok w' (w_chan w' ch)"
    using s1 c1 by (intro fan_ok_requeue [OF ok]) (simp_all add: w'_def)
  have len: "length (move_after i j (?q[i := f'])) = length ?q"
    using arg_cong [OF ms, of size] by simp
  have "settled w' (w_chan w' ch) t (ch_fanOutQueue (w_chan w' ch) ! k)" if "k < i" for k
  proof -
    have "ch_fanOutQueue (w_chan w' ch) ! k = ?q ! k"
      using that i j by (simp add: q' take_move_after)
    then show ?thesis using settled_cong [OF fr, of "?q ! k" "?q ! k"] st that by simp
  qed
  moreover have "GetDataMessage w' ch \<noteq> None" "intervals_pos (w_chan w' ch)"
    using s1 ip by (auto simp: w'_def GetDataMessage_def intervals_pos_def)
  ultimately have "tick_inv w' ch t i"
    using ok' i len by (simp add: tick_inv_def Let_def q')
  moreover have "lag t (ch_fanOutQueue (w_chan w' ch)) < lag t ?q"
  proof -
    have "lag t (ch_fanOutQueue (w_chan w' ch)) = lag t (?q[i := f'])" using lag_mset [OF ms] by (simp add: q')
    also have "\<dots> < lag t ?q" using lag_update [OF i, of f' t] f'(3) nx due by (simp split: if_splits)
    finally show ?thesis .
  qed
  ultimately show ?thesis using r fr by (simp add: Let_def q1 f'i j_def [symmetric] w'_def [symmetric] q')
qed

lemma tick_one_step:
  assumes inv: "tick_inv w ch t i" and i: "i < length (ch_fanOutQueue (w_chan w ch))"
  shows "\<exists>w' i'. tick_one E ch t i w = Some (w', i') \<and> tick_inv w' ch t i' \<and> tick_frame ch w w' \<and>
    ((lag t (ch_fanOutQueue (w_chan w' ch)), length (ch_fanOutQueue (w_chan w' ch)) - i'),
     (lag t (ch_fanOutQueue (w_chan w ch)), length (ch_fanOutQueue (w_chan w ch)) - i))
      \<in> less_than <*lex*> less_than"
proof -
  let ?c = "w_chan w ch"
  let ?foc = "ch_fanOutQueue ?c ! i"
  from inv have ok: "fan_ok w ?c" and ip: "intervals_pos ?c" by (auto simp: tick_inv_def Let_def)
  have "?foc \<in> set (ch_fanOutQueue ?c)" using i by simp
  then obtain p where p: "foc_conn ?foc = Conn p" using fan_okD(4) [OF ok] by blast
  have frame_refl: "tick_frame ch w w" by (simp add: tick_frame_def)
  show ?thesis
  proof (cases "IsClosing (w_conn w p)")
    case True
    let ?w' = "upd_chan ch (\<lambda>c. c\<lparr>ch_fanOutQueue := take i (ch_fanOutQueue c) @ drop (i + 1) (ch_fanOutQueue c)\<rparr>) w"
    have "tick_one E ch t i w = Some (?w', i)" using p True by (simp add: tick_one_def Let_def)
    with tick_remove_step [OF inv i p True] i show ?thesis by (auto simp: diff_less_mono)
  next
    case live: False
    show ?thesis
    proof (cases "map_of (ch_subscribedConnections ?c) (Conn p)")
      case None
      then have "settled w ?c t ?foc" using p live by (simp add: settled_def)
      moreover have "tick_one E ch t i w = Some (w, i + 1)" using p live None by (simp add: tick_one_def Let_def)
      ultimately show ?thesis using tick_skip_step [OF inv i] frame_refl i by auto
    next
      case (Some cs)
      have full: "opts_full (cs_options cs)" using fan_okD(2) [OF ok Some] by simp
      then obtain a interval where a: "so_DataAccess (cs_options cs) = Some a"
        "so_FanOutIntervalMs (cs_options cs) = Some interval" by (auto simp: opts_full_def)
      show ?thesis
      proof (cases "a = DataAccess_NO_ACCESS \<or> t < AddMs (foc_lastFanOutTime ?foc) interval")
        case True
        then have "settled w ?c t ?foc" using p live Some a by (auto simp: settled_def)
        moreover have "tick_one E ch t i w = Some (w, i + 1)"
          using p live Some a True by (auto simp: tick_one_def Let_def)
        ultimately show ?thesis using tick_skip_step [OF inv i] frame_refl i by auto
      next
        case False
        then have iv: "interval \<noteq> 0" using ip Some a by (auto simp: intervals_pos_def)
        from False have due: "AddMs (foc_lastFanOutTime ?foc) interval \<le> t" by simp
        from tick_fan_out_step [OF inv i Some a(2) iv due, of E] obtain w1 where
          r: "fan_out_one E ch t i p cs (AddMs (foc_lastFanOutTime ?foc) interval) w = Some w1"
          and n: "let q = ch_fanOutQueue (w_chan w1 ch); j = last_not_later q (foc_lastFanOutTime (q ! i));
         w' = upd_chan ch (\<lambda>c. c\<lparr>ch_fanOutQueue := move_after i j (ch_fanOutQueue c)\<rparr>) w1 in
     tick_inv w' ch t i \<and> tick_frame ch w w' \<and>
     lag t (ch_fanOutQueue (w_chan w' ch)) < lag t (ch_fanOutQueue (w_chan w ch))" by blast
        then show ?thesis using p live Some a False by (auto simp: tick_one_def Let_def)
      qed
    qed
  qed
qed

lemma tick_frame_trans: "tick_frame ch w w' \<Longrightarrow> tick_frame ch w' w'' \<Longrightarrow> tick_frame ch w w''"
  by (simp add: tick_frame_def)

lemma tick_loop_terminates:
  assumes "tick_inv w ch t i"
  shows "\<exists>w'. tick_loop E ch t i w = Some w' \<and>
    tick_inv w' ch t (length (ch_fanOutQueue (w_chan w' ch))) \<and> tick_frame ch w w'"
  using assms
proof (induction "(lag t (ch_fanOutQueue (w_chan w ch)), length (ch_fanOutQueue (w_chan w ch)) - i)"
    arbitrary: w i rule: wf_induct_rule [OF wf_lex_prod [OF wf_less_than wf_less_than]])
  case 1
  show ?case
  proof (cases "i < length (ch_fanOutQueue (w_chan w ch))")
    case False
    with 1(2) have "i = length (ch_fanOutQueue (w_chan w ch))" by (simp add: tick_inv_def Let_def)
    with 1(2) False show ?thesis by (simp add: tick_loop.simps tick_frame_def)
  next
    case True
    from tick_one_step [OF 1(2) True, of E] obtain w1 i1 where
      r: "tick_one E ch t i w = Some (w1, i1)" and inv: "tick_inv w1 ch t i1" and fr: "tick_frame ch w w1"
      and d: "((lag t (ch_fanOutQueue (w_chan w1 ch)), length (ch_fanOutQueue (w_chan w1 ch)) - i1),
         (lag t (ch_fanOutQueue (w_chan w ch)), length (ch_fanOutQueue (w_chan w ch)) - i))
          \<in> less_than <*lex*> less_than" by blast
    from 1(1) [OF d inv] obtain w' where "tick_loop E ch t i1 w1 = Some w'"
      "tick_inv w' ch t (length (ch_fanOutQueue (w_chan w' ch)))" "tick_frame ch w1 w'" by blast
    with r True fr show ?thesis by (auto simp: tick_loop.simps [of E ch t i w] intro: tick_frame_trans)
  qed
qed

text \<open>
  C11. With fan-out intervals of at least a millisecond, \<open>tickData\<close> terminates without a panic; when it
  is done, every element left in the fan-out queue belongs to an open connection and no subscriber
  with access is overdue; subscriptions and other channels are untouched, and the invariant is kept.
\<close>

theorem tickData_terminates:
  assumes "fan_ok w (w_chan w ch)" and "intervals_pos (w_chan w ch)" and "GetDataMessage w ch \<noteq> None"
  shows "\<exists>w'. tickData E ch t w = Some w' \<and> fan_ok w' (w_chan w' ch) \<and>
    (\<forall>f \<in> set (ch_fanOutQueue (w_chan w' ch)). settled w' (w_chan w' ch) t f) \<and> tick_frame ch w w'"
proof -
  have "tick_inv w ch t 0" using assms by (simp add: tick_inv_def Let_def)
  from tick_loop_terminates [OF this, of E] obtain w' where w': "tick_loop E ch t 0 w = Some w'"
    "tick_inv w' ch t (length (ch_fanOutQueue (w_chan w' ch)))" "tick_frame ch w w'" by blast
  moreover have "tickData E ch t w = tick_loop E ch t 0 w"
    using assms(3) by (auto simp: tickData_def GetDataMessage_def split: option.splits)
  moreover have "\<forall>f \<in> set (ch_fanOutQueue (w_chan w' ch)). settled w' (w_chan w' ch) t f"
    using w'(2) by (auto simp: tick_inv_def Let_def in_set_conv_nth)
  ultimately show ?thesis by (auto simp: tick_inv_def Let_def)
qed

theorem tickData_terminates_witness:
  "\<exists>w'. tickData demo_externs 0 50000000 (fan_world 20 False 0) = Some w' \<and> fan_ok w' (w_chan w' 0) \<and>
    (\<forall>f \<in> set (ch_fanOutQueue (w_chan w' 0)). settled w' (w_chan w' 0) 50000000 f) \<and>
    tick_frame 0 (fan_world 20 False 0) w'"
proof -
  have "fan_ok (fan_world 20 False 0) (w_chan (fan_world 20 False 0) 0)"
    by (auto simp: fan_world_defs fan_ok_def alist_ok_def opts_full_def IsClosing_def)
  moreover have "intervals_pos (w_chan (fan_world 20 False 0) 0)"
    by (auto simp: fan_world_defs intervals_pos_def)
  moreover have "GetDataMessage (fan_world 20 False 0) 0 \<noteq> None" by (simp add: fan_world_defs)
  ultimately show ?thesis by (rule tickData_terminates)
qed

subsection \<open>Where the fan-out goes wrong\<close>

text \<open>The situation of a subscriber with an interval of 0 that is alone in the queue and due.\<close>

definition zero_interval :: "ChanPtr \<Rightarrow> ChannelTime \<Rightarrow> World \<Rightarrow> bool" where
  "zero_interval ch t w \<longleftrightarrow> (\<exists>f p cs. ch_fanOutQueue (w_chan w ch) = [f] \<and> foc_conn f = Conn p \<and>
     \<not> IsClosing (w_conn w p) \<and> foc_lastFanOutTime f \<le> t \<and> GetDataMessage w ch \<noteq> None \<and>
     map_of (ch_subscribedConnections (w_chan w ch)) (Conn p) = Some cs \<and> opts_full (cs_options cs) \<and>
     so_DataAccess (cs_options cs) \<noteq> Some DataAccess_NO_ACCESS \<and> so_FanOutIntervalMs (cs_options cs) = Some 0)"

lemma zero_interval_step:
  assumes "zero_interval ch t w"
  shows "\<exists>w'. tick_one E ch t 0 w = Some (w', 0) \<and> zero_interval ch t w'"
proof -
  from assms obtain f p cs where a: "ch_fanOutQueue (w_chan w ch) = [f]" "foc_conn f = Conn p"
     "\<not> IsClosing (w_conn w p)" "foc_lastFanOutTime f \<le> t" "GetDataMessage w ch \<noteq> None"
     "map_of (ch_subscribedConnections (w_chan w ch)) (Conn p) = Some cs" "opts_full (cs_options cs)"
     "so_DataAccess (cs_options cs) \<noteq> Some DataAccess_NO_ACCESS" "so_FanOutIntervalMs (cs_options cs) = Some 0"
    unfolding zero_interval_def by blast
  obtain x where x: "so_DataAccess (cs_options cs) = Some x" "x \<noteq> 0" using a(7,8) by (auto simp: opts_full_def)
  from fan_out_one_ok [OF a(7,5), of E t 0 p "foc_lastFanOutTime f"] obtain w1 f' where
    r: "fan_out_one E ch t 0 p cs (foc_lastFanOutTime f) w = Some w1"
    and q: "ch_fanOutQueue (w_chan w1 ch) = [f']" "foc_conn f' = Conn p" "foc_lastFanOutTime f' \<le> t"
    and s: "ch_subscribedConnections (w_chan w1 ch) = ch_subscribedConnections (w_chan w ch)"
      "GetDataMessage w1 ch \<noteq> None" "\<forall>q. IsClosing (w_conn w1 q) = IsClosing (w_conn w q)"
    using a by (auto simp: Let_def split: if_splits)
  have n: "AddMs (foc_lastFanOutTime f) 0 = foc_lastFanOutTime f" by (simp add: AddMs_def)
  have l: "last_not_later [f'] (foc_lastFanOutTime f') = 0" by (simp add: last_not_later_def)
  let ?w' = "upd_chan ch (\<lambda>c. c\<lparr>ch_fanOutQueue := move_after 0 0 (ch_fanOutQueue c)\<rparr>) w1"
  have "tick_one E ch t 0 w = Some (?w', 0)"
    using a x r q n l by (simp add: tick_one_def Let_def)
  moreover have "zero_interval ch t ?w'"
    unfolding zero_interval_def using a q s
    by (intro exI [of _ f'] exI [of _ p] exI [of _ cs]) (simp add: move_after_def GetDataMessage_def)
  ultimately show ?thesis by blast
qed

lemma zero_interval_no_result:
  assumes "tick_loop E ch t i w = Some r"
  shows "\<not> (i = 0 \<and> zero_interval ch t w)"
proof (rule tick_loop.raw_induct [where P = "\<lambda>E ch t i w r. \<not> (i = 0 \<and> zero_interval ch t w)", OF _ assms])
  fix f :: "Externs \<Rightarrow> ChanPtr \<Rightarrow> ChannelTime \<Rightarrow> nat \<Rightarrow> World \<Rightarrow> World option"
    and E :: Externs and ch :: ChanPtr and t :: ChannelTime and i :: nat and w r :: World
  assume IH: "\<And>E ch t i w r. f E ch t i w = Some r \<Longrightarrow> \<not> (i = 0 \<and> zero_interval ch t w)"
    and eq: "(if i < length (ch_fanOutQueue (w_chan w ch))
        then tick_one E ch t i w \<bind> (\<lambda>(w', i'). f E ch t i' w') else Some w) = Some r"
  show "\<not> (i = 0 \<and> zero_interval ch t w)"
  proof
    assume z: "i = 0 \<and> zero_interval ch t w"
    then obtain w' where w': "tick_one E ch t 0 w = Some (w', 0)" "zero_interval ch t w'"
      using zero_interval_step by blast
    from z have "0 < length (ch_fanOutQueue (w_chan w ch))" by (auto simp: zero_interval_def)
    with eq w' z have "f E ch t 0 w' = Some r" by simp
    with IH [OF this] w'(2) show False by blast
  qed
qed

text \<open>
  A subscriber that asks for a fan-out interval of 0 (nothing checks the value it sends) hangs the
  channel: once it is due, \<open>tickData\<close> never returns.
\<close>

theorem tickData_zero_interval_hangs:
  assumes "zero_interval ch t w"
  shows "tickData E ch t w = None"
proof -
  from assms have "GetDataMessage w ch \<noteq> None" by (auto simp: zero_interval_def)
  then have "tickData E ch t w = tick_loop E ch t 0 w"
    by (auto simp: tickData_def GetDataMessage_def split: option.splits)
  then show ?thesis using zero_interval_no_result [of E ch t 0 w] assms by fastforce
qed

theorem tickData_zero_interval_hangs_witness:
  "tickData demo_externs 0 30 (fan_world 0 False 0) = None"
proof (rule tickData_zero_interval_hangs)
  show "zero_interval 0 30 (fan_world 0 False 0)"
    by (auto simp: zero_interval_def fan_world_defs IsClosing_def opts_full_def)
qed

text \<open>
  An update whose arrival time lies before the last fan-out time of a subscriber is never sent to
  it: a fan-out that finds only such updates (or the subscriber's own) sends nothing to anybody, and
  moves the window further on.  The arrival time is taken when the message is queued, so an update that
  waits in the channel's queue while the window around its arrival is fanned out is lost.
\<close>

theorem late_update_is_lost:
  assumes "ch_data (w_chan w ch) = Some d" and "d_msg d \<noteq> None"
    and "foc = ch_fanOutQueue (w_chan w ch) ! i" and "i < length (ch_fanOutQueue (w_chan w ch))"
    and "foc_hadFirstFanOut foc" and "so_SkipSelfUpdateFanOut (cs_options cs) = Some True"
    and "\<forall>be \<in> set (d_updateMsgBuffer d). be_senderConnId be = c_id (w_conn w p) \<or>
      be_arrivalTime be < foc_lastFanOutTime foc"
    and "by_arrival (d_updateMsgBuffer d)" and "foc_lastFanOutTime foc < next"
  shows "\<exists>w'. fan_out_one E ch t i p cs next w = Some w' \<and> w_conn w' = w_conn w \<and>
    foc_lastFanOutTime (ch_fanOutQueue (w_chan w' ch) ! i) = next \<and>
    (\<forall>be \<in> set (d_updateMsgBuffer d). \<not> due (c_id (w_conn w p)) True next hi be)"
proof -
  obtain m where m: "d_msg d = Some m" using assms(2) by blast
  let ?lo = "max 0 (foc_lastFanOutTime foc)"
  have none: "filter (due (c_id (w_conn w p)) True ?lo next) (d_updateMsgBuffer d) = []"
    using assms(7) by (auto simp: filter_empty_conv due_def)
  have later: "\<forall>be \<in> set (d_updateMsgBuffer d). \<not> due (c_id (w_conn w p)) True next hi be"
    using assms(7,9) by (force simp: due_def)
  define acc0 where "acc0 = (case d_accumulatedUpdateMsg d of None \<Rightarrow> ex_protoNew E m | Some a \<Rightarrow> ex_protoReset E a)"
  let ?s = "\<lparr>sc_acc = acc0, sc_hasEverMerged = False, sc_lastUpdateTime = ?lo,
               sc_lastMessageIndex = foc_lastMessageIndex foc\<rparr>"
  obtain s' where s': "scan_buffer E d (c_id (w_conn w p)) (Some True) next (d_updateMsgBuffer d) ?s = Some s'"
    using scan_buffer_total [OF assms(2)] by blast
  from scan_buffer_window [OF assms(2,8) s'] none have "\<not> sc_hasEverMerged s'" by (simp add: Let_def)
  with m s' assms(1,3,4,5,6) later show ?thesis
    by (auto simp: fan_out_one_def Let_def acc0_def)
qed

theorem late_update_is_lost_witness:
  "\<exists>w'. fan_out_one demo_externs 0 200 0 0 (demo_sub) 150 (fan_world 20 True 100) = Some w' \<and>
     w_conn w' = w_conn (fan_world 20 True 100) \<and>
     foc_lastFanOutTime (ch_fanOutQueue (w_chan w' 0) ! 0) = 150 \<and>
     (\<forall>be \<in> set [demo_update 5 10, demo_update 7 20]. \<not> due 7 True 150 1000 be)"
proof -
  let ?w = "fan_world 20 True 100"
  let ?d = "(empty_data (Some demo_data) None)\<lparr>d_updateMsgBuffer := [demo_update 5 10, demo_update 7 20]\<rparr>"
  let ?foc = "\<lparr>foc_elem = 0, foc_conn = Conn 0, foc_hadFirstFanOut = True,
       foc_lastFanOutTime = 100, foc_lastMessageIndex = 0\<rparr>"
  have a: "ch_data (w_chan ?w 0) = Some ?d" "?foc = ch_fanOutQueue (w_chan ?w 0) ! 0"
    "0 < length (ch_fanOutQueue (w_chan ?w 0))" "c_id (w_conn ?w 0) = 7"
    by (simp_all add: fan_world_defs)
  have b: "d_msg ?d \<noteq> None" "foc_hadFirstFanOut ?foc" "so_SkipSelfUpdateFanOut (cs_options demo_sub) = Some True"
    "\<forall>be \<in> set (d_updateMsgBuffer ?d). be_senderConnId be = c_id (w_conn ?w 0) \<or> be_arrivalTime be < foc_lastFanOutTime ?foc"
    "by_arrival (d_updateMsgBuffer ?d)" "foc_lastFanOutTime ?foc < 150"
    by (simp_all add: empty_data_def demo_sub_def demo_update_def by_arrival_def)
  from late_update_is_lost [OF a(1) b(1) a(2,3) b(2-6), of demo_externs 200 1000] show ?thesis
    by (simp add: a(4) empty_data_def)
qed

text \<open>
  The first fan-out to a subscriber with field masks replaces the channel's own data by the filtered
  message: whatever the masks leave out is gone for every other subscriber as well.
\<close>

theorem first_fan_out_filters_channel_data:
  assumes "GetDataMessage w ch = Some m" and "i < length (ch_fanOutQueue (w_chan w ch))"
    and "\<not> foc_hadFirstFanOut (ch_fanOutQueue (w_chan w ch) ! i)"
  shows "\<exists>w'. fan_out_one E ch t i p cs next w = Some w' \<and>
    GetDataMessage w' ch = Some (ex_filter E (so_DataFieldMasks (cs_options cs)) m)"
proof -
  obtain d where d: "ch_data (w_chan w ch) = Some d" "d_msg d = Some m"
    using assms(1) by (auto simp: GetDataMessage_def split: option.splits)
  obtain m' w1 where f: "fanOutDataUpdate E ch p cs m w = (m', w1)" by force
  then have "m' = ex_filter E (so_DataFieldMasks (cs_options cs)) m" by (simp add: fanOutDataUpdate_def Let_def)
  with f d assms(3) show ?thesis by (simp add: fan_out_one_def Let_def GetDataMessage_def)
qed

theorem first_fan_out_filters_channel_data_witness:
  "\<exists>w' cs. fan_out_one demo_externs 0 200 0 0 cs 150 (fan_world 20 False 0) = Some w' \<and>
    map_of (dm_fields (the (GetDataMessage (fan_world 20 False 0) 0))) ''a'' \<noteq> None \<and>
    map_of (dm_fields (the (GetDataMessage w' 0))) ''a'' = None"
proof -
  let ?w = "fan_world 20 False 0"
  let ?cs = "demo_sub\<lparr>cs_options := (cs_options demo_sub)\<lparr>so_DataFieldMasks := [''b'']\<rparr>\<rparr>"
  have "GetDataMessage ?w 0 = Some demo_data" "0 < length (ch_fanOutQueue (w_chan ?w 0))"
    "\<not> foc_hadFirstFanOut (ch_fanOutQueue (w_chan ?w 0) ! 0)" by (simp_all add: fan_world_defs)
  from first_fan_out_filters_channel_data [OF this, of demo_externs 200 0 ?cs 150] obtain w' where
    "fan_out_one demo_externs 0 200 0 0 ?cs 150 ?w = Some w'"
    "GetDataMessage w' 0 = Some (ex_filter demo_externs [''b''] demo_data)" by auto
  then show ?thesis using \<open>GetDataMessage ?w 0 = Some demo_data\<close>
    by (intro exI [of _ w'] exI [of _ ?cs]) (simp add: demo_externs_def demo_data_def)
qed

subsection \<open>Merging and buffering\<close>

lemma shift_down_nth:
  "i + n + off \<le> length xs \<Longrightarrow> 0 < off \<Longrightarrow>
   length (shift_down i n off xs) = length xs \<and>
   (\<forall>k < length xs. shift_down i n off xs ! k = (if i \<le> k \<and> k < i + n then xs ! (k + off) else xs ! k))"
proof (induction n arbitrary: i xs)
  case (Suc n)
  let ?ys = "xs[i := xs ! (i + off)]"
  from Suc.IH [of "i + 1" ?ys] Suc.prems have
    IH: "length (shift_down (i + 1) n off ?ys) = length xs"
    "\<forall>k < length xs. shift_down (i + 1) n off ?ys ! k =
      (if i + 1 \<le> k \<and> k < i + 1 + n then ?ys ! (k + off) else ?ys ! k)" by auto
  show ?case
  proof (intro conjI allI impI)
    show "length (shift_down i (Suc n) off xs) = length xs" using IH(1) by simp
    fix k assume k: "k < length xs"
    have "?ys ! (k + off) = xs ! (k + off)" if "i + 1 \<le> k" using that Suc.prems by simp
    moreover have "?ys ! k = (if k = i then xs ! (i + off) else xs ! k)" using k by simp
    ultimately show "shift_down i (Suc n) off xs ! k = (if i \<le> k \<and> k < i + Suc n then xs ! (k + off) else xs ! k)"
      using IH(2) k by auto
  qed
qed auto

text \<open>
  A list limit keeps the last elements of a list that is too long with \<open>TruncateTop\<close> and the first
  ones without, never more than the limit, and leaves other lists alone; a limit of 0 is no limit.
\<close>

theorem limit_list_correct:
  shows "limit_list opts xs =
    (let n = unat (mo_ListSizeLimit opts) in
     if n = 0 \<or> length xs \<le> n then xs
     else if mo_TruncateTop opts then drop (length xs - n) xs else take n xs)"
proof -
  let ?n = "unat (mo_ListSizeLimit opts)"
  have "take ?n (shift_down 0 ?n (length xs - ?n) xs) = drop (length xs - ?n) xs" if "?n < length xs"
  proof (rule nth_equalityI)
    from shift_down_nth [of 0 ?n "length xs - ?n" xs] that
    have s: "length (shift_down 0 ?n (length xs - ?n) xs) = length xs"
      "\<forall>k < length xs. shift_down 0 ?n (length xs - ?n) xs ! k =
         (if 0 \<le> k \<and> k < 0 + ?n then xs ! (k + (length xs - ?n)) else xs ! k)" by auto
    then show "length (take ?n (shift_down 0 ?n (length xs - ?n) xs)) = length (drop (length xs - ?n) xs)"
      using that by simp
    fix k assume "k < length (take ?n (shift_down 0 ?n (length xs - ?n) xs))"
    with s that show "take ?n (shift_down 0 ?n (length xs - ?n) xs) ! k = drop (length xs - ?n) xs ! k"
      by (simp add: add.commute)
  qed
  then show ?thesis by (auto simp: limit_list_def Let_def)
qed

definition clean_field :: "ChannelDataMergeOptions \<Rightarrow> PField \<Rightarrow> PField" where
  "clean_field opts f = (case f of
     FScalar v \<Rightarrow> FScalar v
   | FList xs \<Rightarrow> FList (limit_list opts xs)
   | FMap kvs \<Rightarrow> FMap (filter (\<lambda>(k, v). pv_removed v \<noteq> Some True) kvs))"

lemma merge_fields_clean:
  assumes "\<not> mo_ShouldReplaceList opts" and "mo_ShouldCheckRemovableMapField opts"
  shows "\<forall>(k, f) \<in> set kfs. \<forall>kvs. f = FMap kvs \<longrightarrow> list_all (\<lambda>(mk, mv). pv_isMessage mv) kvs \<Longrightarrow>
    merge_fields opts src kfs = map (\<lambda>(k, f). (k, clean_field opts f)) kfs"
proof (induction kfs)
  case (Cons kf kfs)
  obtain k f where kf: "kf = (k, f)" by force
  have "merge_field opts src kf = Some (k, clean_field opts f)"
    using Cons.prems assms by (cases f) (auto simp: merge_field_def clean_field_def kf)
  with Cons show ?case by (simp add: kf)
qed simp



text \<open>
  With list replacement, a list of the data that an update does not carry makes the merge panic (and
  recover) at that list: the options are then not applied to any later field, so entries marked as
  removed stay in the data.
\<close>

theorem ReflectMerge_replace_aborts:
  assumes "mo_ShouldReplaceList opts" and "dm_fields (ex_protoMerge E dst src) = (k, FList xs) # rest"
    and "map_of (dm_fields src) k = None"
  shows "ReflectMerge E dst src (Some opts) = ex_protoMerge E dst src"
  using assms by (simp add: ReflectMerge_def Let_def merge_field_def)

theorem ReflectMerge_replace_aborts_witness:
  "let v = (\<lambda>r. \<lparr>pv_repr = 1, pv_isMessage = True, pv_removed = Some r\<rparr>);
       dst = \<lparr>dm_type = ''T'', dm_fields = [(''l'', FList [v False]), (''m'', FMap [(2, v True)])]\<rparr>;
       src = \<lparr>dm_type = ''T'', dm_fields = []\<rparr> in
   dm_fields (ReflectMerge demo_externs dst src (Some (default_merge_options\<lparr>mo_ShouldReplaceList := True\<rparr>))) =
     dm_fields dst"
proof -
  let ?v = "\<lambda>r. \<lparr>pv_repr = 1, pv_isMessage = True, pv_removed = Some r\<rparr>"
  let ?dst = "\<lparr>dm_type = ''T'', dm_fields = [(''l'', FList [?v False]), (''m'', FMap [(2, ?v True)])]\<rparr>"
  let ?src = "\<lparr>dm_type = ''T'', dm_fields = []\<rparr>"
  have "ReflectMerge demo_externs ?dst ?src (Some (default_merge_options\<lparr>mo_ShouldReplaceList := True\<rparr>)) =
      ex_protoMerge demo_externs ?dst ?src"
    by (rule ReflectMerge_replace_aborts) (simp_all add: demo_externs_def default_merge_options_def)
  then show ?thesis by (simp add: Let_def demo_externs_def)
qed

text \<open>
  \<open>OnUpdate\<close>: the data becomes the merge of the data and the update (or the update itself when
  there was none), the update is buffered last with the next message index, the buffer stays ordered
  by arrival, and no buffered update is dropped unless the buffer is over its limit and the update, the
  oldest one, is older than the longest fan-out interval.
\<close>

theorem OnUpdate_correct:
  assumes "by_arrival (d_updateMsgBuffer d)" and "\<forall>be \<in> set (d_updateMsgBuffer d). be_arrivalTime be \<le> t"
    and "OnUpdate E m t sender notifier d = (d', calls)"
  shows "by_arrival (d_updateMsgBuffer d') \<and> d_updateMsgBuffer d' \<noteq> [] \<and>
    (let be = last (d_updateMsgBuffer d') in be_arrivalTime be = t \<and> be_senderConnId be = sender \<and>
       be_messageIndex be = d_msgIndex d' \<and> d_msgIndex d' = d_msgIndex d + 1 \<and>
       (d_msg d \<noteq> None \<longrightarrow> deref_update d' (be_updateMsg be) = Some m)) \<and>
    d_msg d' = Some (case d_msg d of None \<Rightarrow> m
      | Some m0 \<Rightarrow> fst (mergeWithOptions E m0 m (d_mergeOptions d) notifier)) \<and>
    (\<forall>be \<in> set (d_updateMsgBuffer d). be \<in> set (d_updateMsgBuffer d') \<or>
       (be = hd (d_updateMsgBuffer d) \<and> MaxUpdateMsgBufferSize \<le> length (d_updateMsgBuffer d) \<and>
        AddMs (be_arrivalTime be) (d_maxFanOutIntervalMs d) < t))"
proof -
  let ?buf = "d_updateMsgBuffer d"
  define ref where "ref = (case d_msg d of None \<Rightarrow> UpdAliasMsg | Some _ \<Rightarrow> UpdVal m)"
  define new where "new = \<lparr>be_updateMsg = ref, be_arrivalTime = t, be_senderConnId = sender,
    be_messageIndex = d_msgIndex d + 1\<rparr>"
  define drop1 where "drop1 \<longleftrightarrow> length (?buf @ [new]) > MaxUpdateMsgBufferSize \<and>
     AddMs (be_arrivalTime (hd (?buf @ [new]))) (d_maxFanOutIntervalMs d) < t"
  have d': "d_updateMsgBuffer d' = (if drop1 then tl (?buf @ [new]) else ?buf @ [new])"
    "d_msgIndex d' = d_msgIndex d + 1"
    "d_msg d' = Some (case d_msg d of None \<Rightarrow> m | Some m0 \<Rightarrow> fst (mergeWithOptions E m0 m (d_mergeOptions d) notifier))"
    using assms(3) by (auto simp: OnUpdate_def merge_update_def buffer_update_def Let_def new_def ref_def drop1_def split: option.splits prod.splits)
  have srt: "by_arrival (?buf @ [new])"
    using assms(1,2) by (simp add: by_arrival_def sorted_wrt_append new_def)
  have nonempty: "?buf \<noteq> []" if drop1
    using that by (auto simp: drop1_def MaxUpdateMsgBufferSize_def)
  have "last (d_updateMsgBuffer d') = new" "d_updateMsgBuffer d' \<noteq> []"
    using d'(1) nonempty by (auto simp: tl_append split: list.splits)
  moreover have "by_arrival (d_updateMsgBuffer d')"
    using d'(1) srt by (cases "?buf @ [new]") (auto simp: by_arrival_def)
  moreover have "be \<in> set (d_updateMsgBuffer d') \<or>
       (be = hd ?buf \<and> MaxUpdateMsgBufferSize \<le> length ?buf \<and>
        AddMs (be_arrivalTime be) (d_maxFanOutIntervalMs d) < t)" if "be \<in> set ?buf" for be
    using that d'(1) by (cases ?buf) (auto simp: drop1_def)
  ultimately show ?thesis using d'(2,3)
    by (auto simp: Let_def new_def ref_def deref_update_def)
qed

theorem OnUpdate_correct_witness:
  "let d = (empty_data None None)\<lparr>d_updateMsgBuffer := [demo_update 5 10]\<rparr>;
       (d', calls) = OnUpdate demo_externs demo_data 30 7 False d in
   d_msg d' = Some demo_data \<and> demo_update 5 10 \<in> set (d_updateMsgBuffer d') \<and>
   be_senderConnId (last (d_updateMsgBuffer d')) = 7"
proof -
  let ?d = "(empty_data None None)\<lparr>d_updateMsgBuffer := [demo_update 5 10]\<rparr>"
  obtain d' calls where r: "OnUpdate demo_externs demo_data 30 7 False ?d = (d', calls)" by force
  have "by_arrival (d_updateMsgBuffer ?d)" "\<forall>be \<in> set (d_updateMsgBuffer ?d). be_arrivalTime be \<le> 30"
    by (simp_all add: by_arrival_def demo_update_def)
  from OnUpdate_correct [OF this r] show ?thesis
    by (simp add: Let_def r MaxUpdateMsgBufferSize_def) (simp add: empty_data_def)
qed

end
