(* ===== verification/EntityGroups.thy ===== *)
theory EntityGroups
  imports Subscription
begin

text \<open>
  Entity groups (\<open>entity.go\<close>): the flat controller of an entity channel, which shares handover and
  lock groups with the channels of other entities.  Groups are objects in the store \<open>w_group\<close>, so that
  two controllers can hold the same group; the controller of a channel is addressed by the channel.
\<close>

definition EntityGroupType_HANDOVER :: int where [simp]: "EntityGroupType_HANDOVER = 0"
definition EntityGroupType_LOCK :: int where [simp]: "EntityGroupType_LOCK = 1"

definition newEntityGroup :: "World \<Rightarrow> World \<times> GroupPtr" where
  "newEntityGroup w = (let g = w_ngroup w in (w\<lparr>w_group := (w_group w)(g := []), w_ngroup := g + 1\<rparr>, g))"

definition group_store :: "uint32 \<Rightarrow> uint32 list \<Rightarrow> uint32 list" where
  "group_store k ks = (if k \<in> set ks then ks else ks @ [k])"

text \<open>\<open>EntityGroup.Add\<close>; adding the nil group does nothing.\<close>

definition group_Add :: "GroupPtr \<Rightarrow> GroupPtr option \<Rightarrow> World \<Rightarrow> World" where
  "group_Add g groupToAdd w = (case groupToAdd of
     None \<Rightarrow> w
   | Some src \<Rightarrow> upd_group g (fold group_store (w_group w src)) w)"

definition Initialize :: "ChanPtr \<Rightarrow> World \<Rightarrow> World" where
  "Initialize ch = upd_chan ch (\<lambda>c. c\<lparr>ch_entityController :=
     Some \<lparr>ec_entityId = ch_id c, ec_handoverGroup = None, ec_lockGroup = None\<rparr>\<rparr>)"

definition set_group :: "int \<Rightarrow> GroupPtr \<Rightarrow> ChanPtr \<Rightarrow> World \<Rightarrow> World" where
  "set_group t g ch = upd_chan ch (\<lambda>c. c\<lparr>ch_entityController :=
     map_option (\<lambda>ec. if t = EntityGroupType_HANDOVER then ec\<lparr>ec_handoverGroup := Some g\<rparr>
                      else ec\<lparr>ec_lockGroup := Some g\<rparr>) (ch_entityController c)\<rparr>)"

definition get_group :: "int \<Rightarrow> FlatEntityGroupController \<Rightarrow> GroupPtr option" where
  "get_group t ec = (if t = EntityGroupType_HANDOVER then ec_handoverGroup ec else ec_lockGroup ec)"

definition is_locked :: "World \<Rightarrow> FlatEntityGroupController \<Rightarrow> bool" where
  "is_locked w ec = (case ec_lockGroup ec of None \<Rightarrow> False | Some g \<Rightarrow> w_group w g \<noteq> [])"

definition cascadeGroup :: "int \<Rightarrow> GroupPtr \<Rightarrow> ChanPtr \<Rightarrow> FlatEntityGroupController \<Rightarrow> World \<Rightarrow> World" where
  "cascadeGroup t g ch ec w =
     (if is_locked w ec then w
      else if t = EntityGroupType_HANDOVER then
        set_group EntityGroupType_HANDOVER g ch (group_Add g (ec_handoverGroup ec) w)
      else if t = EntityGroupType_LOCK then
        set_group EntityGroupType_LOCK g ch (group_Add g (ec_lockGroup ec) (group_Add g (ec_handoverGroup ec) w))
      else w)"

text \<open>One turn of the loop of \<open>AddToGroup\<close>: the entity enters the controller's group, and the
controller of its channel, if there is one, takes the group over.\<close>

definition add_one :: "int \<Rightarrow> GroupPtr \<Rightarrow> uint32 \<Rightarrow> World \<Rightarrow> World" where
  "add_one t g entityId w =
     (let w1 = upd_group g (group_store entityId) w in
      case GetChannel w1 entityId of
        None \<Rightarrow> w1
      | Some ch \<Rightarrow> (case ch_entityController (w_chan w1 ch) of
          None \<Rightarrow> w1
        | Some ec \<Rightarrow> cascadeGroup t g ch ec w1))"

text \<open>The loop reads the controller's group field in every turn; the cascade may replace it, when the
controller's own entity is among the added ones, only by the same group.\<close>

fun add_loop :: "int \<Rightarrow> ChanPtr \<Rightarrow> uint32 list \<Rightarrow> World \<Rightarrow> World option" where
  "add_loop t ch [] w = Some w"
| "add_loop t ch (e # es) w = do {
     ec \<leftarrow> ch_entityController (w_chan w ch);
     g \<leftarrow> get_group t ec;
     add_loop t ch es (add_one t g e w)
   }"

definition AddToGroup :: "int \<Rightarrow> uint32 list \<Rightarrow> ChanPtr \<Rightarrow> World \<Rightarrow> World option" where
  "AddToGroup t entitiesToAdd ch w =
     (if t = EntityGroupType_HANDOVER \<or> t = EntityGroupType_LOCK then do {
        ec \<leftarrow> ch_entityController (w_chan w ch);
        let w1 = (case get_group t ec of
          None \<Rightarrow> (case newEntityGroup w of (w', g) \<Rightarrow> set_group t g ch w')
        | Some _ \<Rightarrow> w);
        add_loop t ch entitiesToAdd w1
      }
      else Some w)"

text \<open>\<open>RemoveFromGroup\<close>: the result says whether it succeeded (no error).  The channel of a removed
entity must have a flat controller; the type assertion panics otherwise.\<close>

fun remove_loop :: "int \<Rightarrow> ChanPtr \<Rightarrow> uint32 list \<Rightarrow> World \<Rightarrow> World option" where
  "remove_loop t ch [] w = Some w"
| "remove_loop t ch (e # es) w = do {
     ec \<leftarrow> ch_entityController (w_chan w ch);
     g \<leftarrow> get_group t ec;
     let w1 = upd_group g (removeAll e) w;
     w2 \<leftarrow> (case GetChannel w1 e of
        None \<Rightarrow> Some w1
      | Some ech \<Rightarrow>
          (if ch_entityController (w_chan w1 ech) = None then None
           else case newEntityGroup w1 of (w', g') \<Rightarrow> Some (set_group t g' ech w')));
     remove_loop t ch es w2
   }"

definition RemoveFromGroup :: "int \<Rightarrow> uint32 list \<Rightarrow> ChanPtr \<Rightarrow> World \<Rightarrow> (World \<times> bool) option" where
  "RemoveFromGroup t entitiesToRemove ch w =
     (if t = EntityGroupType_HANDOVER \<or> t = EntityGroupType_LOCK then do {
        ec \<leftarrow> ch_entityController (w_chan w ch);
        (case get_group t ec of
           None \<Rightarrow> Some (w, False)
         | Some _ \<Rightarrow> do { w' \<leftarrow> remove_loop t ch entitiesToRemove w; Some (w', True) })
      }
      else Some (w, True))"

definition Uninitialize :: "ChanPtr \<Rightarrow> World \<Rightarrow> World option" where
  "Uninitialize ch w =
     (if ch_channelType (w_chan w ch) \<noteq> ChannelType_ENTITY then Some w
      else do {
        ec \<leftarrow> ch_entityController (w_chan w ch);
        (w1, _) \<leftarrow> RemoveFromGroup EntityGroupType_HANDOVER [ec_entityId ec] ch w;
        (w2, _) \<leftarrow> RemoveFromGroup EntityGroupType_LOCK [ec_entityId ec] ch w1;
        Some w2
      })"

definition GetHandoverEntities :: "World \<Rightarrow> FlatEntityGroupController \<Rightarrow> uint32 list" where
  "GetHandoverEntities w ec = (case ec_handoverGroup ec of
     None \<Rightarrow> [ec_entityId ec]
   | Some g \<Rightarrow>
       let locked = (case ec_lockGroup ec of None \<Rightarrow> [] | Some l \<Rightarrow> w_group w l) in
       if \<exists>k \<in> set (w_group w g). k \<in> set locked then [] else w_group w g)"

subsection \<open>Sharing\<close>

lemma set_group_store [simp]: "set (group_store k ks) = insert k (set ks)"
  by (auto simp: group_store_def)

lemma set_fold_group_store [simp]: "set (fold group_store xs ks) = set xs \<union> set ks"
  by (induction xs arbitrary: ks) auto

lemma upd_group_frame [simp]:
  "w_chan (upd_group g f w) = w_chan w" "w_allChannels (upd_group g f w) = w_allChannels w"
  "w_conn (upd_group g f w) = w_conn w"
  by (simp_all add: upd_group_def)

lemma GetChannel_frame [simp]:
  "GetChannel (upd_group g f w) e = GetChannel w e" "GetChannel (set_group t g ch w) e = GetChannel w e"
  "GetChannel (group_Add g src w) e = GetChannel w e"
  by (simp_all add: GetChannel_def set_group_def group_Add_def split: option.splits)

text \<open>The fields a handover cascade can change: the group of one channel's controller.\<close>

lemma set_group_ctl:
  "ch_entityController (w_chan (set_group t g ch w) c) =
     (if c = ch then map_option (\<lambda>ec. if t = EntityGroupType_HANDOVER then ec\<lparr>ec_handoverGroup := Some g\<rparr>
        else ec\<lparr>ec_lockGroup := Some g\<rparr>) (ch_entityController (w_chan w ch))
      else ch_entityController (w_chan w c))"
  "w_group (set_group t g ch w) = w_group w"
  by (simp_all add: set_group_def)

lemma group_Add_frame [simp]:
  "w_chan (group_Add g src w) = w_chan w" "set (w_group w g) \<subseteq> set (w_group (group_Add g src w) g)"
  by (auto simp: group_Add_def split: option.splits)

definition unlocked :: "World \<Rightarrow> uint32 list \<Rightarrow> bool" where
  "unlocked w es \<longleftrightarrow> (\<forall>e \<in> set es. \<forall>ech ec. GetChannel w e = Some ech \<longrightarrow>
     ch_entityController (w_chan w ech) = Some ec \<longrightarrow> ec_lockGroup ec = None)"

lemma unlocked_alt: "unlocked w es \<longleftrightarrow> (\<forall>e \<in> set es. \<forall>ech. GetChannel w e = Some ech \<longrightarrow>
    map_option ec_lockGroup (ch_entityController (w_chan w ech)) \<in> {None, Some None})"
  by (fastforce simp: unlocked_def)

text \<open>What adding one unlocked entity to a handover group does to the controllers.\<close>

definition shared :: "World \<Rightarrow> GroupPtr \<Rightarrow> uint32 \<Rightarrow> bool" where
  "shared w g e \<longleftrightarrow> e \<in> set (w_group w g) \<and> (\<forall>ech ec. GetChannel w e = Some ech \<longrightarrow>
     ch_entityController (w_chan w ech) = Some ec \<longrightarrow> ec_handoverGroup ec = Some g)"

lemma add_one_handover:
  fixes g :: GroupPtr
  assumes "unlocked w [e]"
  defines "w' \<equiv> add_one EntityGroupType_HANDOVER g e w"
  shows "shared w' g e" "GetChannel w' = GetChannel w" "set (w_group w g) \<subseteq> set (w_group w' g)"
    "ch_entityController (w_chan w' c) = (if GetChannel w e = Some c
       then map_option (\<lambda>ec. ec\<lparr>ec_handoverGroup := Some g\<rparr>) (ch_entityController (w_chan w c))
       else ch_entityController (w_chan w c))"
proof -
  have *: "\<not> is_locked (upd_group g (group_store e) w) ec"
    if "GetChannel w e = Some ech" "ch_entityController (w_chan w ech) = Some ec" for ech ec
    using assms(1) that by (simp add: unlocked_def is_locked_def)
  show c: "ch_entityController (w_chan w' c) = (if GetChannel w e = Some c
       then map_option (\<lambda>ec. ec\<lparr>ec_handoverGroup := Some g\<rparr>) (ch_entityController (w_chan w c))
       else ch_entityController (w_chan w c))" for c
    using * by (auto simp: w'_def add_one_def Let_def cascadeGroup_def set_group_ctl split: option.splits)
  show g: "GetChannel w' = GetChannel w"
    by (rule ext) (auto simp: w'_def add_one_def Let_def cascadeGroup_def split: option.splits)
  show s: "set (w_group w g) \<subseteq> set (w_group w' g)"
    by (auto simp: w'_def add_one_def Let_def cascadeGroup_def set_group_ctl group_Add_def split: option.splits)
  have "e \<in> set (w_group w' g)"
    by (auto simp: w'_def add_one_def Let_def cascadeGroup_def set_group_ctl group_Add_def split: option.splits)
  then show "shared w' g e" by (auto simp: shared_def c g)
qed

lemma shared_add_one:
  assumes "unlocked w [e]" and "shared w g e'"
  shows "shared (add_one EntityGroupType_HANDOVER g e w) g e'"
  using assms(2) add_one_handover [OF assms(1), of g] by (auto simp: shared_def)

lemma unlocked_add_one:
  assumes "unlocked w [e]" and "unlocked w es"
  shows "unlocked (add_one EntityGroupType_HANDOVER g e w) es"
  using assms(2) add_one_handover(2,4) [OF assms(1), of g] by (auto simp: unlocked_def)

lemma add_loop_shares:
  assumes "\<exists>ec. ch_entityController (w_chan w ch) = Some ec \<and> ec_handoverGroup ec = Some g"
    and "unlocked w es" and "\<forall>e \<in> D. shared w g e"
  shows "\<exists>w'. add_loop EntityGroupType_HANDOVER ch es w = Some w' \<and>
    (\<exists>ec. ch_entityController (w_chan w' ch) = Some ec \<and> ec_handoverGroup ec = Some g) \<and>
    GetChannel w' = GetChannel w \<and> (\<forall>e \<in> D \<union> set es. shared w' g e) \<and>
    (\<forall>c. (ch_entityController (w_chan w' c) = None) = (ch_entityController (w_chan w c) = None))"
  using assms
proof (induction es arbitrary: w D)
  case (Cons e es)
  have u: "unlocked w [e]" "unlocked w es" using Cons.prems(2) by (auto simp: unlocked_def)
  let ?w = "add_one EntityGroupType_HANDOVER g e w"
  note a = add_one_handover [OF u(1), of g]
  have "\<exists>ec. ch_entityController (w_chan ?w ch) = Some ec \<and> ec_handoverGroup ec = Some g"
    using Cons.prems(1) a(4) [of ch] by auto
  moreover have "\<forall>e' \<in> insert e D. shared ?w g e'"
    using Cons.prems(3) shared_add_one [OF u(1)] a(1) by blast
  ultimately obtain w' where "add_loop EntityGroupType_HANDOVER ch es ?w = Some w'"
    "\<exists>ec. ch_entityController (w_chan w' ch) = Some ec \<and> ec_handoverGroup ec = Some g"
    "GetChannel w' = GetChannel ?w" "\<forall>e' \<in> insert e D \<union> set es. shared w' g e'"
    "\<forall>c. (ch_entityController (w_chan w' c) = None) = (ch_entityController (w_chan ?w c) = None)"
    using Cons.IH [OF _ unlocked_add_one [OF u, of g]] by blast
  moreover have "(ch_entityController (w_chan ?w c) = None) = (ch_entityController (w_chan w c) = None)" for c
    using a(4) [of c] by simp
  ultimately show ?case using Cons.prems(1) a(2) by (auto simp: get_group_def)
qed auto

text \<open>
  Adding entities to a handover group: the group of the channel's controller contains all of them,
  and the controller of every added entity that has a channel and is not in a lock group holds the very
  same group afterwards, so that later additions through any of them are seen by all.
\<close>

theorem AddToGroup_shares:
  assumes "ch_entityController (w_chan w ch) \<noteq> None" and "unlocked w es"
  shows "\<exists>w' g ec. AddToGroup EntityGroupType_HANDOVER es ch w = Some w' \<and>
    ch_entityController (w_chan w' ch) = Some ec \<and> ec_handoverGroup ec = Some g \<and>
    set es \<subseteq> set (w_group w' g) \<and>
    (\<forall>e \<in> set es. \<forall>ech. GetChannel w e = Some ech \<longrightarrow> ch_entityController (w_chan w ech) \<noteq> None \<longrightarrow>
       (\<exists>ec'. ch_entityController (w_chan w' ech) = Some ec' \<and> ec_handoverGroup ec' = Some g))"
proof -
  obtain ec0 where ec0: "ch_entityController (w_chan w ch) = Some ec0" using assms(1) by blast
  define w1 where "w1 = (case ec_handoverGroup ec0 of
      None \<Rightarrow> (case newEntityGroup w of (w', g) \<Rightarrow> set_group EntityGroupType_HANDOVER g ch w') | Some _ \<Rightarrow> w)"
  have w1: "\<exists>g ec. ch_entityController (w_chan w1 ch) = Some ec \<and> ec_handoverGroup ec = Some g"
    "GetChannel w1 = GetChannel w"
    "\<And>c. map_option ec_lockGroup (ch_entityController (w_chan w1 c)) = map_option ec_lockGroup (ch_entityController (w_chan w c))"
    using ec0 by (auto simp: w1_def newEntityGroup_def Let_def set_group_ctl GetChannel_def fun_eq_iff
        set_group_def option.map_comp comp_def split: option.splits intro!: option.map_cong)
  have keep: "(ch_entityController (w_chan w1 c) = None) = (ch_entityController (w_chan w c) = None)" for c
    using arg_cong [OF w1(3) [of c], of "\<lambda>x. x = None"] by simp
  moreover have "unlocked w1 es" using assms(2) unfolding unlocked_alt w1(2,3) .
  moreover obtain g where g: "\<exists>ec. ch_entityController (w_chan w1 ch) = Some ec \<and> ec_handoverGroup ec = Some g"
    using w1(1) by blast
  ultimately obtain w' where w': "add_loop EntityGroupType_HANDOVER ch es w1 = Some w'"
    "\<exists>ec. ch_entityController (w_chan w' ch) = Some ec \<and> ec_handoverGroup ec = Some g"
    "GetChannel w' = GetChannel w" "\<forall>e \<in> set es. shared w' g e"
    "\<forall>c. (ch_entityController (w_chan w' c) = None) = (ch_entityController (w_chan w c) = None)"
    using add_loop_shares [OF g, of es "{}"] w1(2) by auto
  moreover have "AddToGroup EntityGroupType_HANDOVER es ch w = Some w'"
    using w'(1) ec0 unfolding w1_def by (simp add: AddToGroup_def get_group_def split: option.splits)
  moreover have "set es \<subseteq> set (w_group w' g)" using w'(4) by (auto simp: shared_def)
  moreover have "\<exists>ec'. ch_entityController (w_chan w' ech) = Some ec' \<and> ec_handoverGroup ec' = Some g"
    if "e \<in> set es" "GetChannel w e = Some ech" "ch_entityController (w_chan w ech) \<noteq> None" for e ech
  proof -
    note t = that
    obtain ec' where "ch_entityController (w_chan w' ech) = Some ec'"
      using t(3) w'(5) keep by (cases "ch_entityController (w_chan w' ech)") auto
    then show ?thesis using w'(3,4) t(1,2) by (auto simp: shared_def)
  qed
  ultimately show ?thesis by blast
qed

text \<open>The GLOBAL channel and two entity channels, the first with a lock group.\<close>

definition group_world :: World where
  "group_world = demo_world\<lparr>w_chan := (\<lambda>p. (w_chan demo_world 0)\<lparr>
       ch_id := (if p = 0 then 0 else 0x80000 + of_nat p), ch_channelType := (if p = 0 then 1 else 5),
       ch_entityController := (if p = 0 then None else Some \<lparr>ec_entityId = 0x80000 + of_nat p,
         ec_handoverGroup = None, ec_lockGroup = (if p = 1 then Some 0 else None)\<rparr>)\<rparr>),
     w_nchan := 4, w_allChannels := [(0, 0), (0x80001, 1), (0x80002, 2), (0x80003, 3)], w_ngroup := 1\<rparr>"

theorem AddToGroup_shares_witness:
  "\<exists>w' g. AddToGroup EntityGroupType_HANDOVER [0x80002, 0x80003, 0x80009] 2 group_world = Some w' \<and>
    {0x80002, 0x80003, 0x80009} \<subseteq> set (w_group w' g) \<and>
    (\<exists>ec'. ch_entityController (w_chan w' 3) = Some ec' \<and> ec_handoverGroup ec' = Some g)"
proof -
  have a: "ch_entityController (w_chan group_world 2) \<noteq> None"
    "ch_entityController (w_chan group_world 3) \<noteq> None" "GetChannel group_world 0x80003 = Some 3"
    by (simp_all add: group_world_def GetChannel_def)
  have u: "unlocked group_world [0x80002, 0x80003, 0x80009]"
    by (auto simp: unlocked_def group_world_def GetChannel_def split: if_splits)
  from AddToGroup_shares [OF a(1) u] a(2,3) show ?thesis by auto
qed

text \<open>
  Removing an entity from a group panics when a channel with the entity's identifier exists but is
  not an entity channel (the GLOBAL channel, say): the type assertion on its nil controller fails.
\<close>

theorem RemoveFromGroup_panics:
  assumes "ch_entityController (w_chan w ch) = Some ec" and "get_group t ec = Some g"
    and "t = EntityGroupType_HANDOVER \<or> t = EntityGroupType_LOCK"
    and "GetChannel w e = Some ech" and "ch_entityController (w_chan w ech) = None"
  shows "RemoveFromGroup t (e # es) ch w = None"
  using assms by (auto simp: RemoveFromGroup_def)

theorem RemoveFromGroup_panics_witness:
  "RemoveFromGroup EntityGroupType_LOCK [0] 1 group_world = None"
  by (rule RemoveFromGroup_panics [where ec = "\<lparr>ec_entityId = 0x80001, ec_handoverGroup = None, ec_lockGroup = Some 0\<rparr>"
        and g = 0 and ech = 0])
    (simp_all add: group_world_def demo_world_def get_group_def GetChannel_def)

end
