(* ===== verification/Channels.thy ===== *)
theory Channels
  imports ChannelData EntityGroups
begin

text \<open>
  Channels (\<open>channel.go\<close>, and the channel side of \<open>connection_recovery.go\<close>): creation under a free
  identifier, removal, the message queue, broadcasting, and the per-tick clean-up of subscriptions of
  closed connections and their recovery.
\<close>

subsection \<open>Creation and removal\<close>

datatype ChannelError = ErrGlobalExists | ErrNonSpatialChannelFull | ErrSpatialChannelFull

definition new_channel :: "Externs \<Rightarrow> World \<Rightarrow> uint32 \<Rightarrow> ChannelType \<Rightarrow> ConnRef \<Rightarrow> Channel" where
  "new_channel E w channelId t owner = \<lparr>ch_id = channelId, ch_channelType = t, ch_state = 0,
     ch_ownerConnection = owner, ch_subscribedConnections = [], ch_metadata = [], ch_data = None,
     ch_latestDataUpdateConnId = 0,
     ch_spatialNotifier = (t = ChannelType_ENTITY \<and> ex_spatial E \<noteq> None),
     ch_entityController = (if t = ChannelType_ENTITY
       then Some \<lparr>ec_entityId = channelId, ec_handoverGroup = None, ec_lockGroup = None\<rparr> else None),
     ch_inMsgQueue = [], ch_inMsgQueueClosed = False, ch_fanOutQueue = [], ch_nextElement = 0,
     ch_startTime = w_now w,
     ch_tickInterval = int (cst_TickIntervalMs (GetChannelSettings (w_settings w) t)) * 1000000,
     ch_tickFrames = 0, ch_enableClientBroadcast = False, ch_removing = 0, ch_recoverableSubs = []\<rparr>"

definition register_channel :: "Channel \<Rightarrow> World \<Rightarrow> World" where
  "register_channel c w =
     (let p = w_nchan w in
      w\<lparr>w_chan := (w_chan w)(p := c), w_nchan := p + 1,
        w_allChannels := AList.update (ch_id c) p (w_allChannels w)\<rparr>)"

definition createChannelWithId ::
  "Externs \<Rightarrow> uint32 \<Rightarrow> ChannelType \<Rightarrow> ConnRef \<Rightarrow> World \<Rightarrow> (World \<times> ChanPtr) option" where
  "createChannelWithId E channelId t owner w = do {
     let c = new_channel E w channelId t owner;
     alive \<leftarrow> (case owner of NilIface \<Rightarrow> Some False | r \<Rightarrow> map_option Not (ref_closing w r));
     let p = w_nchan w;
     let w1 = register_channel (c\<lparr>ch_state := (if alive then 1 else 0)\<rparr>) w;
     Some (log_event (EvChannelCreated p) w1, p)
   }"

definition CreateChannel ::
  "Externs \<Rightarrow> ChannelType \<Rightarrow> ConnRef \<Rightarrow> World \<Rightarrow> (World \<times> (ChannelError + ChanPtr)) option" where
  "CreateChannel E t owner w =
     (if t = ChannelType_GLOBAL \<and> w_globalChannel w \<noteq> None then Some (w, Inl ErrGlobalExists)
      else if t = ChannelType_SPATIAL then
        (if w_spatialChannelFull w then Some (w, Inl ErrSpatialChannelFull)
         else do {
           (channelId, ok) \<leftarrow> GetNextIdTyped (GetChannel w) (w_nextSpatialChannelId w)
             (gs_SpatialChannelIdStart (w_settings w)) (gs_EntityChannelIdStart (w_settings w) - 1);
           if ok then do {
             (w', p) \<leftarrow> createChannelWithId E channelId t owner (w\<lparr>w_nextSpatialChannelId := channelId\<rparr>);
             Some (w', Inr p)
           }
           else Some (w\<lparr>w_spatialChannelFull := True\<rparr>, Inl ErrSpatialChannelFull)
         })
      else
        (if w_nonSpatialChannelFull w then Some (w, Inl ErrNonSpatialChannelFull)
         else do {
           (channelId, ok) \<leftarrow> GetNextIdTyped (GetChannel w) (w_nextChannelId w)
             1 (gs_SpatialChannelIdStart (w_settings w) - 1);
           if ok then do {
             (w', p) \<leftarrow> createChannelWithId E channelId t owner (w\<lparr>w_nextChannelId := channelId\<rparr>);
             Some (w', Inr p)
           }
           else Some (w\<lparr>w_nonSpatialChannelFull := True\<rparr>, Inl ErrNonSpatialChannelFull)
         }))"

text \<open>\<open>InitChannels\<close> on a fresh process; the data types named in the settings are looked up in the
protobuf registry, which is the argument.\<close>

definition InitChannels :: "Externs \<Rightarrow> (ChannelType \<times> DataMsg) list \<Rightarrow> World \<Rightarrow> World option" where
  "InitChannels E dataTypes w = do {
     let w1 = w\<lparr>w_allChannels := [], w_nextChannelId := 0,
                w_nextSpatialChannelId := gs_SpatialChannelIdStart (w_settings w)\<rparr>;
     (w2, r) \<leftarrow> CreateChannel E ChannelType_GLOBAL NilIface w1;
     (case r of
        Inl e \<Rightarrow> None
      | Inr p \<Rightarrow> Some (fold (\<lambda>(t, m). RegisterChannelDataType t m) dataTypes (w2\<lparr>w_globalChannel := Some p\<rparr>)))
   }"

definition IsRemoving :: "World \<Rightarrow> ChanPtr \<Rightarrow> bool" where
  "IsRemoving w ch \<longleftrightarrow> ch_removing (w_chan w ch) > 0"

text \<open>Closing a closed message queue is a panic.\<close>

definition unregister_channel :: "ChanPtr \<Rightarrow> World \<Rightarrow> World option" where
  "unregister_channel ch w =
     (if ch_inMsgQueueClosed (w_chan w ch) then None
      else
        let c = w_chan w ch;
            w1 = upd_chan ch (\<lambda>c. c\<lparr>ch_removing := ch_removing c + 1, ch_inMsgQueueClosed := True\<rparr>) w;
            w2 = w1\<lparr>w_allChannels := AList.delete (ch_id c) (w_allChannels w1)\<rparr>;
            w3 = (if ch_channelType c = ChannelType_SPATIAL then
                    w2\<lparr>w_spatialChannelFull := False, w_nextSpatialChannelId := ch_id c\<rparr>
                  else if ch_channelType c = ChannelType_ENTITY then w2
                  else w2\<lparr>w_nonSpatialChannelFull := False, w_nextChannelId := ch_id c\<rparr>) in
        Some (log_event (EvChannelRemoved (ch_id c)) w3))"

definition RemoveChannel :: "ChanPtr \<Rightarrow> World \<Rightarrow> World option" where
  "RemoveChannel ch w = do {
     let w1 = log_event (EvChannelRemoving ch) w;
     w2 \<leftarrow> (if ch_channelType (w_chan w ch) = ChannelType_ENTITY then do {
              w' \<leftarrow> Uninitialize ch w1;
              e \<leftarrow> event_UnlistenFor (w_Event_AuthComplete w') (Some ch);
              Some (w'\<lparr>w_Event_AuthComplete := e\<rparr>)
            }
            else Some w1);
     unregister_channel ch w2
   }"

subsection \<open>The message queue\<close>

definition put_queue :: "ChanPtr \<Rightarrow> channelMessage \<Rightarrow> World \<Rightarrow> World option" where
  "put_queue ch cm w =
     (if ch_inMsgQueueClosed (w_chan w ch) then None
      else Some (upd_chan ch (\<lambda>c. c\<lparr>ch_inMsgQueue := ch_inMsgQueue c @ [cm]\<rparr>) w))"

definition PutMessage ::
  "ChanPtr \<Rightarrow> Msg \<Rightarrow> Handler \<Rightarrow> ConnRef \<Rightarrow> 'b MessagePack \<Rightarrow> World \<Rightarrow> World option" where
  "PutMessage ch msg handler conn pack w =
     (if IsRemoving w ch then Some w
      else put_queue ch \<lparr>cm_ctx = \<lparr>x_MsgType = mp_MsgType pack, x_Msg = msg,
             x_Broadcast = mp_Broadcast pack, x_StubId = mp_StubId pack,
             x_ChannelId = mp_ChannelId pack, x_Connection = conn, x_Channel = Some ch,
             x_arrivalTime = GetTime w ch\<rparr>, cm_handler = handler\<rparr> w)"

definition PutMessageContext :: "ChanPtr \<Rightarrow> MessageContext \<Rightarrow> Handler \<Rightarrow> World \<Rightarrow> World option" where
  "PutMessageContext ch ctx handler w =
     (if IsRemoving w ch then Some w else put_queue ch \<lparr>cm_ctx = ctx, cm_handler = handler\<rparr> w)"

text \<open>The built-in message map.\<close>

definition MessageMap :: "MessageType \<Rightarrow> Handler option" where
  "MessageMap t =
     (if t = MessageType_AUTH then Some H_Auth
      else if t = MessageType_CREATE_CHANNEL then Some H_CreateChannel
      else if t = MessageType_REMOVE_CHANNEL then Some H_RemoveChannel
      else if t = MessageType_LIST_CHANNEL then Some H_ListChannel
      else if t = MessageType_SUB_TO_CHANNEL then Some H_SubToChannel
      else if t = MessageType_UNSUB_FROM_CHANNEL then Some H_UnsubFromChannel
      else if t = MessageType_CHANNEL_DATA_UPDATE then Some H_ChannelDataUpdate
      else if t = MessageType_DISCONNECT then Some H_Disconnect
      else if t = MessageType_CREATE_SPATIAL_CHANNEL then Some H_CreateChannel
      else if t = MessageType_QUERY_SPATIAL_CHANNEL then Some H_QuerySpatialChannel
      else if t = MessageType_DEBUG_GET_SPATIAL_REGIONS then Some H_GetSpatialRegions
      else if t = MessageType_UPDATE_SPATIAL_INTEREST then Some H_UpdateSpatialInterest
      else if t = MessageType_CREATE_ENTITY_CHANNEL then Some H_CreateEntityChannel
      else if t = MessageType_ENTITY_GROUP_ADD then Some H_AddEntityGroup
      else if t = MessageType_ENTITY_GROUP_REMOVE then Some H_RemoveEntityGroup
      else None)"

definition PutMessageInternal :: "ChanPtr \<Rightarrow> MessageType \<Rightarrow> Msg \<Rightarrow> World \<Rightarrow> World option" where
  "PutMessageInternal ch msgType msg w =
     (if IsRemoving w ch then Some w
      else case MessageMap msgType of
        None \<Rightarrow> Some w
      | Some handler \<Rightarrow> put_queue ch \<lparr>cm_ctx = empty_ctx\<lparr>x_MsgType := msgType, x_Msg := msg,
             x_ChannelId := ch_id (w_chan w ch), x_Connection := GetOwner w ch, x_Channel := Some ch,
             x_arrivalTime := GetTime w ch\<rparr>, cm_handler = handler\<rparr> w)"

text \<open>\<open>Execute\<close> does not look at \<open>removing\<close>: on a removed channel it panics.\<close>

definition Execute :: "ChanPtr \<Rightarrow> Handler \<Rightarrow> World \<Rightarrow> World option" where
  "Execute ch callback w = put_queue ch \<lparr>cm_ctx = empty_ctx, cm_handler = callback\<rparr> w"

subsection \<open>Sending to the channel\<close>

text \<open>A loop over connections whose body may panic.\<close>

fun for_each :: "('a \<Rightarrow> World \<Rightarrow> World option) \<Rightarrow> 'a list \<Rightarrow> World \<Rightarrow> World option" where
  "for_each f [] w = Some w"
| "for_each f (x # xs) w = do { w' \<leftarrow> f x w; for_each f xs w' }"

definition broadcast_one :: "Externs \<Rightarrow> ChanPtr \<Rightarrow> MessageContext \<Rightarrow> ConnRef \<Rightarrow> World \<Rightarrow> World option" where
  "broadcast_one E ch ctx conn w =
     (if conn = NilIface then Some w
      else if bcheck Broadcast_ALL_BUT_SENDER (x_Broadcast ctx) \<and> conn = x_Connection ctx then Some w
      else if bcheck Broadcast_ALL_BUT_OWNER (x_Broadcast ctx) \<and> conn = GetOwner w ch then Some w
      else do {
        p \<leftarrow> conn_deref conn;
        if bcheck Broadcast_ALL_BUT_CLIENT (x_Broadcast ctx) \<and>
           c_connectionType (w_conn w p) = ConnectionType_CLIENT then Some w
        else if bcheck Broadcast_ALL_BUT_SERVER (x_Broadcast ctx) \<and>
           c_connectionType (w_conn w p) = ConnectionType_SERVER then Some w
        else Some (world_Send E p ctx w)
      })"

definition Broadcast :: "Externs \<Rightarrow> ChanPtr \<Rightarrow> MessageContext \<Rightarrow> World \<Rightarrow> World option" where
  "Broadcast E ch ctx w =
     for_each (broadcast_one E ch ctx) (alist_keys (ch_subscribedConnections (w_chan w ch))) w"

definition GetAllConnections :: "World \<Rightarrow> ChanPtr \<Rightarrow> ConnRef list" where
  "GetAllConnections w ch = alist_keys (ch_subscribedConnections (w_chan w ch))"

definition SendToOwner :: "Externs \<Rightarrow> ChanPtr \<Rightarrow> MessageContext \<Rightarrow> World \<Rightarrow> (World \<times> bool) option" where
  "SendToOwner E ch ctx w = (case GetOwner w ch of
     NilIface \<Rightarrow> Some (w, False)
   | r \<Rightarrow> do {
       p \<leftarrow> conn_deref r;
       Some (if IsClosing (w_conn w p) then (w, False) else (world_Send E p ctx w, True))
     })"

definition SendMessageToOwner :: "Externs \<Rightarrow> ChanPtr \<Rightarrow> MessageType \<Rightarrow> Msg \<Rightarrow> World \<Rightarrow> (World \<times> bool) option" where
  "SendMessageToOwner E ch msgType msg w =
     SendToOwner E ch (empty_ctx\<lparr>x_MsgType := msgType, x_Msg := msg, x_ChannelId := ch_id (w_chan w ch)\<rparr>) w"

subsection \<open>Cleaning up after closed connections\<close>

text \<open>The removal of a channel whose owner is gone: the global channel gets a message without sender,
and with no message type.\<close>

definition removeChannelAfterOwnerRemoved :: "ChanPtr \<Rightarrow> World \<Rightarrow> World option" where
  "removeChannelAfterOwnerRemoved ch w =
     (let w1 = upd_chan ch (\<lambda>c. c\<lparr>ch_removing := ch_removing c + 1\<rparr>) w in
      if w_globalChannel w1 = Some ch then Some w1
      else do {
        g \<leftarrow> w_globalChannel w1;
        PutMessage g (RemoveChannelMessage (ch_id (w_chan w1 ch))) H_RemoveChannel NilConn
          \<lparr>mp_ChannelId = GlobalChannelId, mp_Broadcast = 0, mp_StubId = 0, mp_MsgType = 0, mp_MsgBody = ()\<rparr> w1
      })"

text \<open>The parts of the loop body of \<open>tickConnections\<close> for a closing connection: the subscription is kept
for recovery, the others hear of a lost owner, the subscription goes, and the owner is reset or told.\<close>

definition keep_recoverable :: "ConnPtr \<Rightarrow> ChanPtr \<Rightarrow> HandlePtr \<Rightarrow> World \<Rightarrow> World" where
  "keep_recoverable p ch h w =
     (case map_of (ch_subscribedConnections (w_chan w ch)) (Conn p) of
        None \<Rightarrow> w
      | Some cs \<Rightarrow> upd_chan ch (\<lambda>c. c\<lparr>ch_recoverableSubs := AList.update (c_pit (w_conn w p))
          \<lparr>rs_connHandle = h, rs_isOwner = (ch_ownerConnection c = Conn p),
           rs_oldSubTime = ch_startTime c + cs_subTime cs, rs_oldSubOptions = cs_options cs\<rparr>
          (ch_recoverableSubs c)\<rparr>) w)"

definition prepare_recovery :: "Externs \<Rightarrow> ChanPtr \<Rightarrow> ConnPtr \<Rightarrow> World \<Rightarrow> World option" where
  "prepare_recovery E ch p w = (case c_recoverHandle (w_conn w p) of
     None \<Rightarrow> Some w
   | Some h \<Rightarrow>
       let w1 = keep_recoverable p ch h w in
       if GetOwner w ch = Conn p \<and>
          cst_SendOwnerLostAndRecovered (GetChannelSettings (w_settings w) (ch_channelType (w_chan w ch)))
       then Broadcast E ch (empty_ctx\<lparr>x_MsgType := MessageType_CHANNEL_OWNER_LOST,
              x_Msg := ChannelOwnerLostMessage, x_Broadcast := Broadcast_ALL_BUT_OWNER,
              x_ChannelId := ch_id (w_chan w ch)\<rparr>) w1
       else Some w1)"

definition owner_gone :: "ChanPtr \<Rightarrow> ConnPtr \<Rightarrow> World \<Rightarrow> (World \<times> bool) option" where
  "owner_gone ch p w =
     (let w1 = SetOwner ch NilIface w;
          w2 = (if ch_channelType (w_chan w1 ch) = ChannelType_GLOBAL
                then log_event EvGlobalChannelUnpossessed w1 else w1) in
      if cst_RemoveChannelAfterOwnerRemoved (GetChannelSettings (w_settings w2) (ch_channelType (w_chan w2 ch))) \<and>
         c_recoverHandle (w_conn w2 p) = None
      then do { w3 \<leftarrow> removeChannelAfterOwnerRemoved ch w2; Some (w3, True) }
      else Some (w2, False))"

definition tell_owner :: "Externs \<Rightarrow> ChanPtr \<Rightarrow> ConnPtr \<Rightarrow> World \<Rightarrow> World option" where
  "tell_owner E ch p w = (case GetOwner w ch of
     NilIface \<Rightarrow> Some w
   | r \<Rightarrow> do { owner \<leftarrow> conn_deref r; Some (sendUnsubscribed E owner empty_ctx ch (Some p) 0 w) })"

text \<open>One round of the loop; the flag says that the function returns.\<close>

definition tick_conn_one :: "Externs \<Rightarrow> ChanPtr \<Rightarrow> ConnRef \<Rightarrow> World \<Rightarrow> (World \<times> bool) option" where
  "tick_conn_one E ch key w = do {
     p \<leftarrow> conn_deref key;
     if \<not> IsClosing (w_conn w p) then Some (w, False)
     else do {
       w1 \<leftarrow> prepare_recovery E ch p w;
       let w2 = upd_chan ch (\<lambda>c. c\<lparr>ch_subscribedConnections :=
                  AList.delete (Conn p) (ch_subscribedConnections c)\<rparr>) w1;
       if GetOwner w2 ch = Conn p then owner_gone ch p w2
       else do { w3 \<leftarrow> tell_owner E ch p w2; Some (w3, False) }
     }
   }"

fun tick_conns :: "Externs \<Rightarrow> ChanPtr \<Rightarrow> ConnRef list \<Rightarrow> World \<Rightarrow> World option" where
  "tick_conns E ch [] w = Some w"
| "tick_conns E ch (key # keys) w = do {
     (w', stop) \<leftarrow> tick_conn_one E ch key w;
     if stop then Some w' else tick_conns E ch keys w'
   }"

definition tickConnections :: "Externs \<Rightarrow> ChanPtr \<Rightarrow> World \<Rightarrow> World option" where
  "tickConnections E ch w = tick_conns E ch (alist_keys (ch_subscribedConnections (w_chan w ch))) w"

subsection \<open>Recovering subscriptions\<close>

text \<open>What a recovered connection is told of the channel, \<open>None\<close> when the data does not marshal.  A
channel without data has no message to marshal.\<close>

definition recovery_message ::
  "Externs \<Rightarrow> World \<Rightarrow> ChanPtr \<Rightarrow> recoverableSubscription \<Rightarrow> ChannelSubscriptionOptions \<Rightarrow> Msg option option" where
  "recovery_message E w ch rs opts =
     (case (case GetDataMessage w ch of None \<Rightarrow> None | Some m \<Rightarrow> ex_anyNew E m) of
        None \<Rightarrow> Some None
      | Some channelData \<Rightarrow> do {
          hasOwner \<leftarrow> HasOwner w ch;
          let ownerConnId = (if hasOwner
            then (case conn_deref (GetOwner w ch) of None \<Rightarrow> 0 | Some p \<Rightarrow> c_id (w_conn w p)) else 0);
          d \<leftarrow> ch_data (w_chan w ch);
          let msg = ChannelDataRecoveryMessage (ch_id (w_chan w ch)) (ch_channelType (w_chan w ch))
                (ch_metadata (w_chan w ch)) ownerConnId (rs_oldSubTime rs) opts channelData;
          Some (case d_extension d of
            None \<Rightarrow> Some (msg None)
          | Some ext \<Rightarrow> (case (case ex_recoveryData E ext of None \<Rightarrow> None | Some m \<Rightarrow> ex_anyNew E m) of
              None \<Rightarrow> None
            | Some any \<Rightarrow> Some (msg (Some any))))
        })"

definition restore_owner :: "ChanPtr \<Rightarrow> ConnPtr \<Rightarrow> recoverableSubscription \<Rightarrow> World \<Rightarrow> World option" where
  "restore_owner ch p rs w =
     (if rs_isOwner rs then do {
        hasOwner \<leftarrow> HasOwner w ch;
        Some (if hasOwner then w else SetOwner ch (Conn p) w)
      }
      else Some w)"

text \<open>The recovery of one subscription on the new connection \<open>p\<close>; the flag says that the loop is left.\<close>

definition recover_one ::
  "Externs \<Rightarrow> ChanPtr \<Rightarrow> string \<Rightarrow> recoverableSubscription \<Rightarrow> ConnPtr \<Rightarrow> World \<Rightarrow> (World \<times> bool) option" where
  "recover_one E ch key rs p w = do {
     w1 \<leftarrow> restore_owner ch p rs w;
     let opts = (rs_oldSubOptions rs)\<lparr>so_SkipFirstFanOut := Some True\<rparr>;
     let w2 = upd_chan ch (\<lambda>c. c\<lparr>ch_recoverableSubs :=
                AList.update key (rs\<lparr>rs_oldSubOptions := opts\<rparr>) (ch_recoverableSubs c)\<rparr>) w1;
     (w3, _) \<leftarrow> SubscribeToChannel E p ch (Some opts) w2;
     r \<leftarrow> recovery_message E w3 ch rs opts;
     (case r of
        None \<Rightarrow> Some (w3, True)
      | Some msg \<Rightarrow>
          let w4 = world_Send E p (empty_ctx\<lparr>x_MsgType := MessageType_RECOVERY_CHANNEL_DATA,
                     x_Msg := msg, x_ChannelId := ch_id (w_chan w3 ch)\<rparr>) w3;
              w5 = upd_chan ch (\<lambda>c. c\<lparr>ch_recoverableSubs := AList.delete key (ch_recoverableSubs c)\<rparr>) w4 in
          Some (if cst_SendOwnerLostAndRecovered (GetChannelSettings (w_settings w5) (ch_channelType (w_chan w5 ch)))
                then w5\<lparr>w_tasks := w_tasks w5 @ [T_OwnerRecovered ch (w_now w5 + ChannelDataRecoveryTimeout)]\<rparr>
                else w5, False))
   }"

fun recover_loop ::
  "Externs \<Rightarrow> ChanPtr \<Rightarrow> (string \<times> recoverableSubscription) list \<Rightarrow> World \<Rightarrow> World option" where
  "recover_loop E ch [] w = Some w"
| "recover_loop E ch ((key, rs) # rest) w =
     (if IsTimeOut w (rs_connHandle rs) then
        let w1 = upd_chan ch (\<lambda>c. c\<lparr>ch_recoverableSubs := []\<rparr>) w in
        if cst_RemoveChannelAfterOwnerRemoved (GetChannelSettings (w_settings w1) (ch_channelType (w_chan w1 ch)))
        then removeChannelAfterOwnerRemoved ch w1 else Some w1
      else case rh_newConn (w_handle w (rs_connHandle rs)) of
        None \<Rightarrow> recover_loop E ch rest w
      | Some p \<Rightarrow> do {
          (w', stop) \<leftarrow> recover_one E ch key rs p w;
          if stop then Some w' else recover_loop E ch rest w'
        })"

definition tickRecoverableSubscriptions :: "Externs \<Rightarrow> ChanPtr \<Rightarrow> World \<Rightarrow> World option" where
  "tickRecoverableSubscriptions E ch w = recover_loop E ch (ch_recoverableSubs (w_chan w ch)) w"

text \<open>The delayed broadcast that the owner is back.\<close>

definition owner_recovered_task :: "Externs \<Rightarrow> ChanPtr \<Rightarrow> World \<Rightarrow> World option" where
  "owner_recovered_task E ch w =
     Broadcast E ch (empty_ctx\<lparr>x_MsgType := MessageType_CHANNEL_OWNER_RECOVERED,
       x_Msg := ChannelOwnerRecoveredMessage, x_Broadcast := Broadcast_ALL_BUT_OWNER,
       x_ChannelId := ch_id (w_chan w ch)\<rparr>) w"

subsection \<open>The registry of channels\<close>

text \<open>The channel registry provides the lookup interface of the identifier allocator.\<close>

interpretation chan_map: map_read map_of AList.update AList.delete
  by unfold_locales (auto simp: update_conv' delete_conv')

text \<open>
  The invariant of the registry: a channel is registered under its own identifier, spatial channels
  have identifiers of the spatial range and system channels (neither spatial nor entity) identifiers
  below it, the searches start inside their ranges, and identifier 0 is taken (by the global channel).
\<close>

definition id_fits :: "GlobalSettingsType \<Rightarrow> ChannelType \<Rightarrow> uint32 \<Rightarrow> bool" where
  "id_fits s t i \<longleftrightarrow>
     (t = ChannelType_SPATIAL \<longrightarrow> gs_SpatialChannelIdStart s \<le> i \<and> i < gs_EntityChannelIdStart s) \<and>
     (t \<noteq> ChannelType_SPATIAL \<and> t \<noteq> ChannelType_ENTITY \<longrightarrow> i < gs_SpatialChannelIdStart s)"

definition registry_ok :: "World \<Rightarrow> bool" where
  "registry_ok w \<longleftrightarrow>
     alist_ok (w_allChannels w) \<and> map_of (w_allChannels w) 0 \<noteq> None \<and>
     (\<forall>i p. map_of (w_allChannels w) i = Some p \<longrightarrow> p < w_nchan w \<and> ch_id (w_chan w p) = i \<and>
        id_fits (w_settings w) (ch_channelType (w_chan w p)) i) \<and>
     1 < gs_SpatialChannelIdStart (w_settings w) \<and>
     gs_SpatialChannelIdStart (w_settings w) < gs_EntityChannelIdStart (w_settings w) \<and>
     w_nextChannelId w < gs_SpatialChannelIdStart (w_settings w) \<and>
     gs_SpatialChannelIdStart (w_settings w) \<le> w_nextSpatialChannelId w \<and>
     w_nextSpatialChannelId w < gs_EntityChannelIdStart (w_settings w)"

lemma word_pred_le:
  assumes "(b :: uint32) < a"
  shows "b \<le> a - 1 \<and> a - 1 < a \<and> a - 1 < - 1"
proof -
  have "a \<noteq> 0" using assms by auto
  then have u: "unat (a - 1) = unat a - 1" by (simp add: unat_minus_one)
  have "b \<le> a - 1" using assms u by (simp add: word_le_nat_alt word_less_nat_alt)
  moreover have lt: "a - 1 < a" using u assms by (simp add: word_less_nat_alt)
  moreover have "a \<le> - 1" by simp
  ultimately show ?thesis by (metis order_less_le_trans)
qed

text \<open>Where the allocator finds an identifier.\<close>

lemma probe_bounds:
  "probe ex n s mn mx = (c, True) \<Longrightarrow> s \<le> mx \<Longrightarrow> mn \<le> mx \<Longrightarrow> \<not> ex c \<and> c \<le> mx \<and> (mn \<le> s \<longrightarrow> mn \<le> c)"
proof (induction n arbitrary: s)
  case (Suc n)
  have le: "next_candidate mn mx s \<le> mx" "mn \<le> s \<longrightarrow> mn \<le> next_candidate mn mx s"
    using Suc.prems(2,3) unat_Suc_word [of s mx]
    by (auto simp: next_candidate_def word_le_nat_alt word_less_nat_alt)
  show ?case
  proof (cases "ex s")
    case True
    with Suc.prems(1) have "probe ex n (next_candidate mn mx s) mn mx = (c, True)" by simp
    from Suc.IH [OF this le(1) Suc.prems(3)] le(2) show ?thesis by blast
  qed (use Suc.prems in auto)
qed simp

lemma alloc_total:
  assumes "mx < - 1"
  shows "\<exists>c ok. GetNextIdTyped load s mn mx = Some (c, ok)"
  using next_id_loop_probe [OF assms refl, of "\<lambda>k. load k \<noteq> None" mn s mn]
  by (metis GetNextIdTyped_def surj_pair)

lemma alloc_bounds:
  assumes "GetNextIdTyped load s mn mx = Some (c, True)" and "mx < - 1" and "s \<le> mx" and "mn \<le> mx"
  shows "load c = None \<and> c \<le> mx \<and> (mn \<le> s \<longrightarrow> mn \<le> c)"
proof -
  have "probe (\<lambda>k. load k \<noteq> None) (Suc (unat mx) - unat mn) s mn mx = (c, True)"
    using assms(1) next_id_loop_probe [OF assms(2) refl, of "\<lambda>k. load k \<noteq> None" mn s mn]
    by (simp add: GetNextIdTyped_def)
  from probe_bounds [OF this assms(3,4)] show ?thesis by simp
qed

lemma registry_okD:
  assumes "registry_ok w"
  shows "alist_ok (w_allChannels w)" "map_of (w_allChannels w) 0 \<noteq> None"
    "map_of (w_allChannels w) i = Some p \<Longrightarrow> p < w_nchan w \<and> ch_id (w_chan w p) = i \<and>
        id_fits (w_settings w) (ch_channelType (w_chan w p)) i"
    "1 < gs_SpatialChannelIdStart (w_settings w)"
    "gs_SpatialChannelIdStart (w_settings w) < gs_EntityChannelIdStart (w_settings w)"
    "w_nextChannelId w < gs_SpatialChannelIdStart (w_settings w)"
    "gs_SpatialChannelIdStart (w_settings w) \<le> w_nextSpatialChannelId w"
    "w_nextSpatialChannelId w < gs_EntityChannelIdStart (w_settings w)"
  using assms by (simp_all add: registry_ok_def)

text \<open>Entering a channel under a free identifier keeps the invariant.\<close>

lemma register_channel_ok:
  assumes "registry_ok w" and "map_of (w_allChannels w) (ch_id c) = None"
    and "id_fits (w_settings w) (ch_channelType c) (ch_id c)"
  shows "registry_ok (register_channel c w)"
proof -
  have "p < w_nchan w" if "map_of (w_allChannels w) i = Some p" for i p
    using registry_okD(3) [OF assms(1) that] by simp
  then have ne: "map_of (w_allChannels w) i \<noteq> Some (w_nchan w)" for i by blast
  have w: "w_settings (register_channel c w) = w_settings w"
    "w_nextChannelId (register_channel c w) = w_nextChannelId w"
    "w_nextSpatialChannelId (register_channel c w) = w_nextSpatialChannelId w"
    "w_nchan (register_channel c w) = w_nchan w + 1"
    "w_chan (register_channel c w) = (w_chan w)(w_nchan w := c)"
    "w_allChannels (register_channel c w) = AList.update (ch_id c) (w_nchan w) (w_allChannels w)"
    by (simp_all add: register_channel_def Let_def)
  have 3: "p < w_nchan w + 1 \<and> ch_id (((w_chan w)(w_nchan w := c)) p) = i \<and>
      id_fits (w_settings w) (ch_channelType (((w_chan w)(w_nchan w := c)) p)) i"
    if "map_of (AList.update (ch_id c) (w_nchan w) (w_allChannels w)) i = Some p" for i p
  proof (cases "i = ch_id c")
    case True
    with that assms(3) show ?thesis by simp
  next
    case False
    with that have m: "map_of (w_allChannels w) i = Some p" by simp
    with ne have "p \<noteq> w_nchan w" by blast
    with registry_okD(3) [OF assms(1) m] show ?thesis by simp
  qed
  show ?thesis
    unfolding registry_ok_def w using registry_okD [OF assms(1)] 3 by simp
qed

lemma createChannelWithId_result:
  assumes "createChannelWithId E i t owner w = Some (w', p)"
  obtains c where "w' = log_event (EvChannelCreated p) (register_channel c w)" "p = w_nchan w"
    "ch_id c = i" "ch_channelType c = t" "ch_ownerConnection c = owner" "ch_subscribedConnections c = []"
    "ch_data c = None" "ch_removing c = 0" "\<not> ch_inMsgQueueClosed c" "ch_inMsgQueue c = []"
    "ch_fanOutQueue c = []" "ch_state c = (if owner = NilIface \<or> ref_closing w owner = Some True then 0 else 1)"
proof -
  from assms obtain alive where
    "(case owner of NilIface \<Rightarrow> Some False | r \<Rightarrow> map_option Not (ref_closing w r)) = Some alive"
    "w' = log_event (EvChannelCreated p) (register_channel ((new_channel E w i t owner)\<lparr>ch_state := (if alive then 1 else 0)\<rparr>) w)"
    "p = w_nchan w"
    by (auto simp: createChannelWithId_def Let_def bind_Some_iff)
  then show thesis
    by (intro that [of "(new_channel E w i t owner)\<lparr>ch_state := (if alive then 1 else 0)\<rparr>"])
      (auto simp: new_channel_def split: ConnRef.splits)
qed

lemma registry_ok_log [simp]: "registry_ok (log_event e w) = registry_ok w"
  by (simp add: registry_ok_def)

text \<open>A successful \<open>CreateChannel\<close> enters one channel under an identifier that was free.\<close>

lemma CreateChannel_result:
  assumes "CreateChannel E t owner w = Some (w', Inr p)" and "registry_ok w"
  obtains i w1 where "createChannelWithId E i t owner w1 = Some (w', p)" "registry_ok w1"
    "map_of (w_allChannels w) i = None" "id_fits (w_settings w) t i"
    "t = ChannelType_SPATIAL \<or> i < gs_SpatialChannelIdStart (w_settings w)"
    "w1 = w\<lparr>w_nextSpatialChannelId := i\<rparr> \<or> w1 = w\<lparr>w_nextChannelId := i\<rparr>"
proof (cases "t = ChannelType_SPATIAL")
  case True
  note r = registry_okD [OF assms(2)]
  let ?mn = "gs_SpatialChannelIdStart (w_settings w)" and ?mx = "gs_EntityChannelIdStart (w_settings w) - 1"
  from assms(1) True obtain i where
    a: "GetNextIdTyped (map_of (w_allChannels w)) (w_nextSpatialChannelId w) ?mn ?mx = Some (i, True)"
    and c: "createChannelWithId E i t owner (w\<lparr>w_nextSpatialChannelId := i\<rparr>) = Some (w', p)"
    by (auto simp: CreateChannel_def bind_Some_iff GetChannel_def [abs_def] split: if_splits)
  note mx = word_pred_le [OF r(5)]
  have "w_nextSpatialChannelId w \<le> ?mx" using r(8) word_pred_le by blast
  from alloc_bounds [OF a _ this] mx r(7) have i: "map_of (w_allChannels w) i = None" "i \<le> ?mx" "?mn \<le> i" by auto
  have i2: "i < gs_EntityChannelIdStart (w_settings w)" using i(2) mx by (metis order_le_less_trans)
  show thesis
    by (rule that [OF c _ i(1)])
      (use assms(2) i i2 True in \<open>auto simp: registry_ok_def id_fits_def\<close>)
next
  case False
  note r = registry_okD [OF assms(2)]
  let ?mx = "gs_SpatialChannelIdStart (w_settings w) - 1"
  from assms(1) False obtain i where
    a: "GetNextIdTyped (map_of (w_allChannels w)) (w_nextChannelId w) 1 ?mx = Some (i, True)"
    and c: "createChannelWithId E i t owner (w\<lparr>w_nextChannelId := i\<rparr>) = Some (w', p)"
    by (auto simp: CreateChannel_def bind_Some_iff GetChannel_def [abs_def] split: if_splits)
  note mx = word_pred_le [OF r(4)]
  have "w_nextChannelId w \<le> ?mx" using r(6) word_pred_le by blast
  from alloc_bounds [OF a _ this] mx have i: "map_of (w_allChannels w) i = None" "i \<le> ?mx" by auto
  have i2: "i < gs_SpatialChannelIdStart (w_settings w)" using i(2) mx by (metis order_le_less_trans)
  show thesis
    by (rule that [OF c _ i(1)])
      (use assms(2) i i2 r(5) False in \<open>auto simp: registry_ok_def id_fits_def\<close>)
qed

text \<open>
  C13. \<open>CreateChannel\<close> registers the new channel under an identifier that no channel has: a spatial
  channel inside \<open>[SpatialChannelIdStart, EntityChannelIdStart)\<close>, any other below that and not 0, the
  identifier of the global channel.  Every other channel and registration is untouched, and the registry
  stays well-formed.
\<close>

theorem CreateChannel_correct:
  assumes "registry_ok w" and "CreateChannel E t owner w = Some (w', Inr p)"
  shows "let c = w_chan w' p in
    GetChannel w (ch_id c) = None \<and> GetChannel w' (ch_id c) = Some p \<and>
    ch_channelType c = t \<and> ch_ownerConnection c = owner \<and> \<not> IsRemoving w' p \<and>
    (if t = ChannelType_SPATIAL
     then gs_SpatialChannelIdStart (w_settings w) \<le> ch_id c \<and> ch_id c < gs_EntityChannelIdStart (w_settings w)
     else ch_id c \<noteq> 0 \<and> ch_id c < gs_SpatialChannelIdStart (w_settings w)) \<and>
    (\<forall>i. i \<noteq> ch_id c \<longrightarrow> GetChannel w' i = GetChannel w i) \<and>
    (\<forall>q. q \<noteq> p \<longrightarrow> w_chan w' q = w_chan w q) \<and> registry_ok w'"
proof -
  obtain i w1 where r: "createChannelWithId E i t owner w1 = Some (w', p)" "registry_ok w1"
    and i: "map_of (w_allChannels w) i = None" "id_fits (w_settings w) t i"
      "t = ChannelType_SPATIAL \<or> i < gs_SpatialChannelIdStart (w_settings w)"
    and w1: "w1 = w\<lparr>w_nextSpatialChannelId := i\<rparr> \<or> w1 = w\<lparr>w_nextChannelId := i\<rparr>"
    by (rule CreateChannel_result [OF assms(2,1)])
  obtain c where c: "w' = log_event (EvChannelCreated p) (register_channel c w1)" "p = w_nchan w1"
    "ch_id c = i" "ch_channelType c = t" "ch_ownerConnection c = owner" "ch_removing c = 0"
    by (rule createChannelWithId_result [OF r(1)])
  have e: "w_allChannels w1 = w_allChannels w" "w_settings w1 = w_settings w" "w_nchan w1 = w_nchan w"
    "w_chan w1 = w_chan w" using w1 by auto
  have ok: "registry_ok (register_channel c w1)"
    by (rule register_channel_ok [OF r(2)]) (use i c e in auto)
  have "i \<noteq> 0" using i(1) registry_okD(2) [OF assms(1)] by auto
  then show ?thesis
    using ok c i e by (auto simp: Let_def register_channel_def GetChannel_def IsRemoving_def id_fits_def)
qed

lemma GetNextIdTyped_free:
  assumes "load s = None" and "mn \<le> mx"
  shows "GetNextIdTyped load s mn mx = Some (s, True)"
  using assms by (simp add: GetNextIdTyped_def next_id_loop.simps)

text \<open>\<open>InitChannels\<close> of a process that has no channel yet.\<close>

lemma RegisterChannelDataType_frame [simp]:
  "w_allChannels (RegisterChannelDataType t m w) = w_allChannels w"
  "w_chan (RegisterChannelDataType t m w) = w_chan w" "w_nchan (RegisterChannelDataType t m w) = w_nchan w"
  "w_settings (RegisterChannelDataType t m w) = w_settings w"
  "w_nextChannelId (RegisterChannelDataType t m w) = w_nextChannelId w"
  "w_nextSpatialChannelId (RegisterChannelDataType t m w) = w_nextSpatialChannelId w"
  "w_globalChannel (RegisterChannelDataType t m w) = w_globalChannel w"
  by (simp_all add: RegisterChannelDataType_def)

lemma fold_register_frame:
  "w_allChannels (fold (\<lambda>(t, m). RegisterChannelDataType t m) ds w) = w_allChannels w \<and>
   w_chan (fold (\<lambda>(t, m). RegisterChannelDataType t m) ds w) = w_chan w \<and>
   w_nchan (fold (\<lambda>(t, m). RegisterChannelDataType t m) ds w) = w_nchan w \<and>
   w_settings (fold (\<lambda>(t, m). RegisterChannelDataType t m) ds w) = w_settings w \<and>
   w_nextChannelId (fold (\<lambda>(t, m). RegisterChannelDataType t m) ds w) = w_nextChannelId w \<and>
   w_nextSpatialChannelId (fold (\<lambda>(t, m). RegisterChannelDataType t m) ds w) = w_nextSpatialChannelId w \<and>
   w_globalChannel (fold (\<lambda>(t, m). RegisterChannelDataType t m) ds w) = w_globalChannel w"
  by (induction ds arbitrary: w) auto

definition settings_ok :: "GlobalSettingsType \<Rightarrow> bool" where
  "settings_ok s \<longleftrightarrow> 1 < gs_SpatialChannelIdStart s \<and> gs_SpatialChannelIdStart s < gs_EntityChannelIdStart s"

lemma InitChannels_result:
  assumes "settings_ok (w_settings w)" and "w_globalChannel w = None" and "\<not> w_nonSpatialChannelFull w"
  obtains k where "InitChannels E dataTypes w = Some (fold (\<lambda>(t, m). RegisterChannelDataType t m) dataTypes
      ((log_event (EvChannelCreated (w_nchan w)) (register_channel k (w\<lparr>w_allChannels := [], w_nextChannelId := 0,
         w_nextSpatialChannelId := gs_SpatialChannelIdStart (w_settings w)\<rparr>)))\<lparr>w_globalChannel := Some (w_nchan w)\<rparr>))"
    "ch_id k = 0" "ch_channelType k = ChannelType_GLOBAL" "ch_ownerConnection k = NilIface" "ch_removing k = 0"
    "\<not> ch_inMsgQueueClosed k"
proof -
  let ?w1 = "w\<lparr>w_allChannels := [], w_nextChannelId := 0,
                w_nextSpatialChannelId := gs_SpatialChannelIdStart (w_settings w)\<rparr>"
  have mx: "1 \<le> gs_SpatialChannelIdStart (w_settings w) - 1"
    using assms(1) word_pred_le by (auto simp: settings_ok_def)
  have a: "GetNextIdTyped (GetChannel ?w1) 0 1 (gs_SpatialChannelIdStart (w_settings w) - 1) = Some (0, True)"
    by (rule GetNextIdTyped_free) (use mx in \<open>auto simp: GetChannel_def\<close>)
  have "\<exists>w2 g. CreateChannel E ChannelType_GLOBAL NilIface ?w1 = Some (w2, Inr g) \<and>
      createChannelWithId E 0 ChannelType_GLOBAL NilIface (?w1\<lparr>w_nextChannelId := 0\<rparr>) = Some (w2, g)"
    using a assms(2,3) by (simp add: CreateChannel_def createChannelWithId_def Let_def)
  then obtain w2 g where c: "CreateChannel E ChannelType_GLOBAL NilIface ?w1 = Some (w2, Inr g)"
    and d: "createChannelWithId E 0 ChannelType_GLOBAL NilIface (?w1\<lparr>w_nextChannelId := 0\<rparr>) = Some (w2, g)"
    by blast
  obtain k where k: "w2 = log_event (EvChannelCreated g) (register_channel k (?w1\<lparr>w_nextChannelId := 0\<rparr>))"
    "g = w_nchan w" "ch_id k = 0" "ch_channelType k = ChannelType_GLOBAL" "ch_ownerConnection k = NilIface"
    "ch_removing k = 0" "\<not> ch_inMsgQueueClosed k"
    by (rule createChannelWithId_result [OF d]) simp
  have "?w1\<lparr>w_nextChannelId := 0\<rparr> = ?w1" by simp
  note k = k [unfolded this]
  show thesis
    by (rule that [of k]) (use c k in \<open>simp_all only: InitChannels_def Let_def bind.bind_lunit prod.case sum.case not_False_eq_True\<close>)
qed

text \<open>
  With sane identifier ranges in the settings \<open>InitChannels\<close> creates the global channel with
  identifier 0, open for a first owner, and leaves a well-formed registry that holds just that channel.
\<close>

theorem InitChannels_correct:
  assumes "settings_ok (w_settings w)" and "w_globalChannel w = None" and "\<not> w_nonSpatialChannelFull w"
  shows "\<exists>w' g. InitChannels E dataTypes w = Some w' \<and> w_globalChannel w' = Some g \<and>
    w_allChannels w' = [(0, g)] \<and> ch_id (w_chan w' g) = 0 \<and>
    ch_channelType (w_chan w' g) = ChannelType_GLOBAL \<and> HasOwner w' g = Some False \<and>
    \<not> IsRemoving w' g \<and> registry_ok w'"
proof -
  obtain k where i: "InitChannels E dataTypes w = Some (fold (\<lambda>(t, m). RegisterChannelDataType t m) dataTypes
      ((log_event (EvChannelCreated (w_nchan w)) (register_channel k (w\<lparr>w_allChannels := [], w_nextChannelId := 0,
         w_nextSpatialChannelId := gs_SpatialChannelIdStart (w_settings w)\<rparr>)))\<lparr>w_globalChannel := Some (w_nchan w)\<rparr>))"
    (is "_ = Some (fold _ _ ?w2)") and k: "ch_id k = 0" "ch_channelType k = ChannelType_GLOBAL"
    "ch_ownerConnection k = NilIface" "ch_removing k = 0"
    by (rule InitChannels_result [OF assms]) blast
  note f = fold_register_frame [of dataTypes ?w2]
  have s: "0 < gs_SpatialChannelIdStart (w_settings w)"
    using assms(1) by (auto simp: settings_ok_def word_less_nat_alt)
  show ?thesis
    using i f k assms(1) s
    by (intro exI [of _ "fold (\<lambda>(t, m). RegisterChannelDataType t m) dataTypes ?w2"] exI [of _ "w_nchan w"])
      (simp add: HasOwner_def GetOwner_def IsRemoving_def registry_ok_def settings_ok_def id_fits_def
        register_channel_def Let_def alist_ok_def)
qed

subsection \<open>Removal\<close>

text \<open>What the entity controllers do leaves the registry alone.\<close>

definition same_registry :: "World \<Rightarrow> World \<Rightarrow> bool" where
  "same_registry w w' \<longleftrightarrow>
     w_allChannels w' = w_allChannels w \<and> w_nchan w' = w_nchan w \<and> w_settings w' = w_settings w \<and>
     w_nextChannelId w' = w_nextChannelId w \<and> w_nextSpatialChannelId w' = w_nextSpatialChannelId w \<and>
     w_globalChannel w' = w_globalChannel w \<and>
     (\<forall>p. ch_id (w_chan w' p) = ch_id (w_chan w p) \<and>
        ch_channelType (w_chan w' p) = ch_channelType (w_chan w p) \<and>
        ch_removing (w_chan w' p) = ch_removing (w_chan w p) \<and>
        ch_inMsgQueueClosed (w_chan w' p) = ch_inMsgQueueClosed (w_chan w p))"

lemma same_registry_refl [simp]: "same_registry w w"
  by (simp add: same_registry_def)

lemma same_registry_trans [trans]:
  "same_registry a b \<Longrightarrow> same_registry b c \<Longrightarrow> same_registry a c"
  by (simp add: same_registry_def)

lemma same_registry_steps [frame_simps]:
  "same_registry w (upd_group g f w)" "same_registry w (fst (newEntityGroup w))"
  "same_registry w (set_group t g ch w)" "same_registry w (log_event e w)"
  by (simp_all add: same_registry_def upd_group_def newEntityGroup_def Let_def set_group_def)

lemma remove_loop_registry: "remove_loop t ch es w = Some w' \<Longrightarrow> same_registry w w'"
proof (induction t ch es w rule: remove_loop.induct)
  case (2 t ch e es w)
  then obtain ec g w2 where g: "ch_entityController (w_chan w ch) = Some ec" "get_group t ec = Some g"
    and w2: "(case GetChannel (upd_group g (removeAll e) w) e of
        None \<Rightarrow> Some (upd_group g (removeAll e) w)
      | Some ech \<Rightarrow>
          (if ch_entityController (w_chan (upd_group g (removeAll e) w) ech) = None then None
           else case newEntityGroup (upd_group g (removeAll e) w) of (w', g') \<Rightarrow> Some (set_group t g' ech w'))) = Some w2"
    and r: "remove_loop t ch es w2 = Some w'"
    by (auto simp: bind_Some_iff Let_def)
  have "same_registry w (upd_group g (removeAll e) w)" by (rule same_registry_steps)
  also have "same_registry (upd_group g (removeAll e) w) w2"
    using w2
    by (auto simp: newEntityGroup_def Let_def same_registry_def set_group_def split: option.splits if_splits)
  also have "same_registry w2 w'" using 2(1) g w2 r by (simp add: Let_def)
  finally show ?case .
qed simp

lemma RemoveFromGroup_registry: "RemoveFromGroup t es ch w = Some (w', ok) \<Longrightarrow> same_registry w w'"
  by (auto simp: RemoveFromGroup_def bind_Some_iff split: if_splits option.splits
      intro: remove_loop_registry)

lemma Uninitialize_registry: "Uninitialize ch w = Some w' \<Longrightarrow> same_registry w w'"
  by (auto simp: Uninitialize_def bind_Some_iff split: if_splits
      dest!: RemoveFromGroup_registry intro: same_registry_trans)

lemma RemoveChannel_result:
  assumes "RemoveChannel ch w = Some w'"
  obtains w2 where "same_registry w w2" "unregister_channel ch w2 = Some w'"
proof -
  from assms obtain w2 where u: "unregister_channel ch w2 = Some w'"
    and s: "(if ch_channelType (w_chan w ch) = ChannelType_ENTITY then do {
              w' \<leftarrow> Uninitialize ch (log_event (EvChannelRemoving ch) w);
              e \<leftarrow> event_UnlistenFor (w_Event_AuthComplete w') (Some ch);
              Some (w'\<lparr>w_Event_AuthComplete := e\<rparr>)
            }
            else Some (log_event (EvChannelRemoving ch) w)) = Some w2"
    by (auto simp: RemoveChannel_def Let_def bind_Some_iff simp del: log_event_frame)
  have "same_registry w (log_event (EvChannelRemoving ch) w)" by (rule same_registry_steps)
  also have "same_registry (log_event (EvChannelRemoving ch) w) w2"
    using s by (auto simp: bind_Some_iff split: if_splits dest!: Uninitialize_registry)
      (simp add: same_registry_def)
  finally show thesis using u that by blast
qed

lemma same_registry_ok: "same_registry w w' \<Longrightarrow> registry_ok w' = registry_ok w"
  by (simp add: same_registry_def registry_ok_def)

lemma unregister_channel_result:
  assumes "unregister_channel ch w = Some w'"
  shows "w_allChannels w' = AList.delete (ch_id (w_chan w ch)) (w_allChannels w)"
    and "w_chan w' = (w_chan w)(ch := (w_chan w ch)\<lparr>ch_removing := ch_removing (w_chan w ch) + 1, ch_inMsgQueueClosed := True\<rparr>)"
    and "w_nchan w' = w_nchan w" "w_settings w' = w_settings w" "\<not> ch_inMsgQueueClosed (w_chan w ch)"
    and "w_globalChannel w' = w_globalChannel w"
    and "w_nextSpatialChannelId w' = (if ch_channelType (w_chan w ch) = ChannelType_SPATIAL
           then ch_id (w_chan w ch) else w_nextSpatialChannelId w)"
    and "w_nextChannelId w' = (if ch_channelType (w_chan w ch) \<in> {ChannelType_SPATIAL, ChannelType_ENTITY}
           then w_nextChannelId w else ch_id (w_chan w ch))"
    and "ch_channelType (w_chan w ch) = ChannelType_SPATIAL \<Longrightarrow> \<not> w_spatialChannelFull w'"
    and "ch_channelType (w_chan w ch) \<notin> {ChannelType_SPATIAL, ChannelType_ENTITY} \<Longrightarrow> \<not> w_nonSpatialChannelFull w'"
  using assms by (auto simp: unregister_channel_def Let_def split: if_splits)

lemma createChannelWithId_id:
  "createChannelWithId E i t owner w = Some (w', p) \<Longrightarrow> ch_id (w_chan w' p) = i"
  by (erule createChannelWithId_result) (simp add: register_channel_def Let_def)

text \<open>The next channel of the kind gets the identifier the search starts at, when that is free.\<close>

lemma CreateChannel_first_free:
  assumes "registry_ok w" and "CreateChannel E t owner w = Some (w', Inr p)" and "GetChannel w i = None"
    and "if t = ChannelType_SPATIAL then w_nextSpatialChannelId w = i else w_nextChannelId w = i"
  shows "ch_id (w_chan w' p) = i"
proof (cases "t = ChannelType_SPATIAL")
  case True
  have "gs_SpatialChannelIdStart (w_settings w) \<le> gs_EntityChannelIdStart (w_settings w) - 1"
    using registry_okD(5) [OF assms(1)] word_pred_le by blast
  with assms(3,4) True have "GetNextIdTyped (GetChannel w) (w_nextSpatialChannelId w)
      (gs_SpatialChannelIdStart (w_settings w)) (gs_EntityChannelIdStart (w_settings w) - 1) = Some (i, True)"
    by (simp add: GetNextIdTyped_free)
  with assms(2) True show ?thesis
    by (auto simp: CreateChannel_def bind_Some_iff createChannelWithId_id split: if_splits)
next
  case False
  have "1 \<le> gs_SpatialChannelIdStart (w_settings w) - 1"
    using registry_okD(4) [OF assms(1)] word_pred_le by blast
  with assms(3,4) False have "GetNextIdTyped (GetChannel w) (w_nextChannelId w) 1
      (gs_SpatialChannelIdStart (w_settings w) - 1) = Some (i, True)"
    by (simp add: GetNextIdTyped_free)
  with assms(2) False show ?thesis
    by (auto simp: CreateChannel_def bind_Some_iff createChannelWithId_id split: if_splits)
qed

text \<open>
  C14. Removing a registered channel other than the global one takes exactly its registration away and
  closes its message queue, keeps the registry well-formed, cannot be done twice (the second attempt
  closes a closed queue, a panic), and hands its identifier to the next channel created of its type,
  unless it is an entity channel, whose identifier is the entity's.
\<close>

theorem RemoveChannel_correct:
  assumes "registry_ok w" and "GetChannel w i = Some ch" and "i \<noteq> 0" and "0 \<le> ch_removing (w_chan w ch)"
    and "RemoveChannel ch w = Some w'"
  shows "GetChannel w' = (GetChannel w)(i := None) \<and> IsRemoving w' ch \<and> registry_ok w' \<and>
    RemoveChannel ch w' = None \<and>
    (\<forall>E owner w'' p. ch_channelType (w_chan w ch) \<noteq> ChannelType_ENTITY \<longrightarrow>
       CreateChannel E (ch_channelType (w_chan w ch)) owner w' = Some (w'', Inr p) \<longrightarrow>
       ch_id (w_chan w'' p) = i)"
proof -
  obtain w2 where s: "same_registry w w2" and u: "unregister_channel ch w2 = Some w'"
    by (rule RemoveChannel_result [OF assms(5)])
  note r = unregister_channel_result [OF u]
  have ok2: "registry_ok w2" using same_registry_ok [OF s] assms(1) by simp
  have m: "map_of (w_allChannels w2) i = Some ch" using s assms(2) by (simp add: GetChannel_def same_registry_def)
  note k = registry_okD(3) [OF ok2 m]
  have ids: "ch_id (w_chan w ch) = i" "ch_channelType (w_chan w2 ch) = ch_channelType (w_chan w ch)"
    using s k by (simp_all add: same_registry_def)
  have get: "GetChannel w' = (GetChannel w)(i := None)"
    using s k r(1) by (auto simp: fun_eq_iff GetChannel_def same_registry_def)
  have closed: "ch_inMsgQueueClosed (w_chan w' ch)" "ch_removing (w_chan w' ch) > 0"
    using r(2) s assms(4) by (simp_all add: same_registry_def)
  have ok: "registry_ok w'"
  proof -
    have "gs_SpatialChannelIdStart (w_settings w2) \<le> w_nextSpatialChannelId w' \<and>
        w_nextSpatialChannelId w' < gs_EntityChannelIdStart (w_settings w2) \<and>
        w_nextChannelId w' < gs_SpatialChannelIdStart (w_settings w2)"
      using r(7,8) k registry_okD(6,7,8) [OF ok2] by (simp add: id_fits_def)
    moreover have "p < w_nchan w' \<and> ch_id (w_chan w' p) = j \<and>
        id_fits (w_settings w') (ch_channelType (w_chan w' p)) j"
      if "map_of (w_allChannels w') j = Some p" for j p
      using that registry_okD(3) [OF ok2, of j p] r(1-4) by (auto split: if_splits)
    ultimately show ?thesis
      unfolding registry_ok_def using r(1,4) assms(3) k registry_okD [OF ok2] by simp
  qed
  have twice: "RemoveChannel ch w' = None"
  proof (rule ccontr)
    assume "RemoveChannel ch w' \<noteq> None"
    then obtain x where "RemoveChannel ch w' = Some x" by auto
    then obtain y where "same_registry w' y" "unregister_channel ch y = Some x" by (rule RemoveChannel_result)
    with closed(1) show False using unregister_channel_result(5) by (auto simp: same_registry_def)
  qed
  have again: "ch_id (w_chan w'' p) = i"
    if "ch_channelType (w_chan w ch) \<noteq> ChannelType_ENTITY"
      and c: "CreateChannel E (ch_channelType (w_chan w ch)) owner w' = Some (w'', Inr p)" for E owner w'' p
    by (rule CreateChannel_first_free [OF ok c]) (use that r(7,8) k ids get in auto)
  show ?thesis using get ok twice closed(2) again by (auto simp: IsRemoving_def)
qed

text \<open>The witnesses run on a process after \<open>InitChannels\<close> with one subworld channel, 1, and a spatial
one, 0x10000.\<close>

definition chan_world :: World where
  "chan_world = demo_world\<lparr>w_chan := (\<lambda>p. (w_chan demo_world 0)\<lparr>
       ch_id := (if p = 0 then 0 else if p = 1 then 1 else 0x10000),
       ch_channelType := (if p = 0 then 1 else if p = 1 then 3 else 4)\<rparr>),
     w_nchan := 3, w_allChannels := [(0, 0), (1, 1), (0x10000, 2)], w_globalChannel := Some 0,
     w_nextChannelId := 1\<rparr>"

lemma chan_world_ok: "registry_ok chan_world"
  by (auto simp: registry_ok_def chan_world_def demo_world_def default_settings_def id_fits_def alist_ok_def)

theorem CreateChannel_correct_witness:
  "\<exists>w' p. CreateChannel demo_externs 4 NilIface chan_world = Some (w', Inr p) \<and>
    GetChannel w' 0x10001 = Some p \<and> registry_ok w'"
proof -
  have "\<exists>w' p. CreateChannel demo_externs 4 NilIface chan_world = Some (w', Inr p) \<and> ch_id (w_chan w' p) = 0x10001"
    by (simp add: CreateChannel_def chan_world_def demo_world_def default_settings_def GetNextIdTyped_def
        next_id_loop.simps createChannelWithId_def GetChannel_def register_channel_def new_channel_def Let_def)
  then obtain w' p where c: "CreateChannel demo_externs 4 NilIface chan_world = Some (w', Inr p)"
    and i: "ch_id (w_chan w' p) = 0x10001" by blast
  from CreateChannel_correct [OF chan_world_ok c] i c show ?thesis by (auto simp: Let_def)
qed

theorem InitChannels_correct_witness:
  "\<exists>w' g. InitChannels demo_externs [(3, \<lparr>dm_type = ''tps.Data'', dm_fields = []\<rparr>)] demo_world = Some w' \<and>
    w_globalChannel w' = Some g \<and> GetChannel w' 0 = Some g \<and> registry_ok w'"
proof -
  have "settings_ok (w_settings demo_world)" "w_globalChannel demo_world = None" "\<not> w_nonSpatialChannelFull demo_world"
    by (simp_all add: demo_world_def settings_ok_def default_settings_def)
  from InitChannels_correct [OF this, of demo_externs "[(3, \<lparr>dm_type = ''tps.Data'', dm_fields = []\<rparr>)]"]
  show ?thesis by (fastforce simp: GetChannel_def)
qed

theorem RemoveChannel_correct_witness:
  "\<exists>w'. RemoveChannel 1 chan_world = Some w' \<and> GetChannel w' 1 = None \<and> registry_ok w' \<and>
    RemoveChannel 1 w' = None"
proof -
  have g: "GetChannel chan_world 1 = Some 1" "0 \<le> ch_removing (w_chan chan_world 1)"
    by (simp_all add: GetChannel_def chan_world_def demo_world_def)
  have "\<exists>w'. RemoveChannel 1 chan_world = Some w'"
    by (simp add: RemoveChannel_def unregister_channel_def chan_world_def demo_world_def Let_def)
  then obtain w' where r: "RemoveChannel 1 chan_world = Some w'" by blast
  from RemoveChannel_correct [OF chan_world_ok g(1) _ g(2) r] r show ?thesis by auto
qed

subsection \<open>Who receives a broadcast\<close>

text \<open>Sending changes one connection's queue and nothing else.\<close>

lemma conn_Send_closing [simp]: "IsClosing c \<Longrightarrow> conn_Send E ctx c = c"
  by (simp add: conn_Send_def)

definition receives :: "World \<Rightarrow> ChanPtr \<Rightarrow> MessageContext \<Rightarrow> ConnPtr \<Rightarrow> bool" where
  "receives w ch ctx p \<longleftrightarrow>
     \<not> (bcheck Broadcast_ALL_BUT_SENDER (x_Broadcast ctx) \<and> x_Connection ctx = Conn p) \<and>
     \<not> (bcheck Broadcast_ALL_BUT_OWNER (x_Broadcast ctx) \<and> GetOwner w ch = Conn p) \<and>
     \<not> (bcheck Broadcast_ALL_BUT_CLIENT (x_Broadcast ctx) \<and>
        c_connectionType (w_conn w p) = ConnectionType_CLIENT) \<and>
     \<not> (bcheck Broadcast_ALL_BUT_SERVER (x_Broadcast ctx) \<and>
        c_connectionType (w_conn w p) = ConnectionType_SERVER)"

definition send_to :: "Externs \<Rightarrow> MessageContext \<Rightarrow> (ConnPtr \<Rightarrow> bool) \<Rightarrow> World \<Rightarrow> World" where
  "send_to E ctx P w = w\<lparr>w_conn := (\<lambda>p. if P p then conn_Send E ctx (w_conn w p) else w_conn w p)\<rparr>"

lemma broadcast_one_send_to:
  "broadcast_one E ch ctx (Conn p) w = Some (send_to E ctx (\<lambda>q. q = p \<and> receives w ch ctx p) w)"
  by (auto simp: broadcast_one_def receives_def send_to_def world_Send_def upd_conn_def intro!: World.fold_congs)

lemma send_to_frame [simp]:
  "w_chan (send_to E ctx P w) = w_chan w" "w_allChannels (send_to E ctx P w) = w_allChannels w"
  "w_globalChannel (send_to E ctx P w) = w_globalChannel w" "w_settings (send_to E ctx P w) = w_settings w"
  "w_handle (send_to E ctx P w) = w_handle w" "w_now (send_to E ctx P w) = w_now w"
  "c_connectionType (w_conn (send_to E ctx P w) p) = c_connectionType (w_conn w p)"
  "c_state (w_conn (send_to E ctx P w) p) = c_state (w_conn w p)"
  "c_pit (w_conn (send_to E ctx P w) p) = c_pit (w_conn w p)"
  "c_id (w_conn (send_to E ctx P w) p) = c_id (w_conn w p)"
  "c_recoverHandle (w_conn (send_to E ctx P w) p) = c_recoverHandle (w_conn w p)"
  "IsClosing (w_conn (send_to E ctx P w) p) = IsClosing (w_conn w p)"
  "GetOwner (send_to E ctx P w) ch = GetOwner w ch"
  "receives (send_to E ctx P w) ch ctx' p = receives w ch ctx' p"
  by (simp_all add: send_to_def GetOwner_def receives_def)

lemma send_to_twice:
  assumes "\<And>p. \<not> (P p \<and> Q p)"
  shows "send_to E ctx Q (send_to E ctx P w) = send_to E ctx (\<lambda>p. P p \<or> Q p) w"
  using assms by (auto simp: send_to_def intro!: World.fold_congs)

lemma broadcast_loop_sends:
  assumes "distinct rs" and "\<forall>r \<in> set rs. \<exists>p. r = Conn p"
  shows "for_each (broadcast_one E ch ctx) rs w = Some (send_to E ctx (\<lambda>p. Conn p \<in> set rs \<and> receives w ch ctx p) w)"
  using assms
proof (induction rs arbitrary: w)
  case (Cons r rs)
  then obtain p where r: "r = Conn p" by auto
  let ?w = "send_to E ctx (\<lambda>q. q = p \<and> receives w ch ctx p) w"
  have "for_each (broadcast_one E ch ctx) rs ?w = Some (send_to E ctx (\<lambda>q. Conn q \<in> set rs \<and> receives w ch ctx q) ?w)"
    using Cons.IH [of ?w] Cons.prems by simp
  also have "send_to E ctx (\<lambda>q. Conn q \<in> set rs \<and> receives w ch ctx q) ?w =
      send_to E ctx (\<lambda>q. (q = p \<and> receives w ch ctx p) \<or> (Conn q \<in> set rs \<and> receives w ch ctx q)) w"
    by (rule send_to_twice) (use Cons.prems(1) r in auto)
  also have "(\<lambda>q. (q = p \<and> receives w ch ctx p) \<or> (Conn q \<in> set rs \<and> receives w ch ctx q)) =
      (\<lambda>q. Conn q \<in> set (r # rs) \<and> receives w ch ctx q)"
    using r by auto
  finally show ?case using r by (simp add: broadcast_one_send_to)
qed (simp add: send_to_def)

text \<open>
  C20. \<open>Broadcast\<close> queues the message once on each subscribed connection that none of the flags of the
  broadcast type excludes (the sender, the owner, the clients, the servers), on no other connection,
  and changes nothing else.
\<close>

theorem Broadcast_correct:
  assumes "fan_ok w (w_chan w ch)"
  shows "Broadcast E ch ctx w = Some (w\<lparr>w_conn := (\<lambda>p.
    if map_of (ch_subscribedConnections (w_chan w ch)) (Conn p) \<noteq> None \<and> receives w ch ctx p
    then conn_Send E ctx (w_conn w p) else w_conn w p)\<rparr>)"
proof -
  have k: "distinct (alist_keys (ch_subscribedConnections (w_chan w ch)))"
    using fan_okD(1) [OF assms] by (simp add: alist_ok_def alist_keys_def)
  have c: "\<forall>r \<in> set (alist_keys (ch_subscribedConnections (w_chan w ch))). \<exists>p. r = Conn p"
    using fan_okD(2) [OF assms] by (auto simp: set_alist_keys)
  show ?thesis
    unfolding Broadcast_def broadcast_loop_sends [OF k c] send_to_def
    by (simp add: set_alist_keys dom_def)
qed

theorem Broadcast_correct_witness:
  "\<exists>w'. Broadcast demo_externs 0 (empty_ctx\<lparr>x_Broadcast := 32\<rparr>) resub_world = Some w' \<and>
    length (c_sendQueue (w_conn w' 0)) = 1 \<and> w_conn w' 5 = w_conn resub_world 5"
  using Broadcast_correct [OF resub_world_facts(2), of demo_externs "empty_ctx\<lparr>x_Broadcast := 32\<rparr>"]
  by (simp add: receives_def bcheck_def empty_ctx_def conn_Send_def queuedMessagePackSender_Send_def Let_def
      resub_world_def sub_world_def demo_world_def demo_conn_def IsClosing_def demo_externs_def
      MaxPacketSize_def PacketHeaderSize_def)

subsection \<open>The clean-up of closed connections\<close>

text \<open>What the clean-up relies on of the connections, and keeps of them.\<close>

definition conns_kept :: "World \<Rightarrow> World \<Rightarrow> bool" where
  "conns_kept w w' \<longleftrightarrow> w_settings w' = w_settings w \<and> w_globalChannel w' = w_globalChannel w \<and>
     w_now w' = w_now w \<and> (\<forall>p. c_state (w_conn w' p) = c_state (w_conn w p) \<and>
     c_pit (w_conn w' p) = c_pit (w_conn w p) \<and> c_id (w_conn w' p) = c_id (w_conn w p) \<and>
     c_recoverHandle (w_conn w' p) = c_recoverHandle (w_conn w p) \<and>
     c_connectionType (w_conn w' p) = c_connectionType (w_conn w p))"

lemma conns_kept_refl [simp]: "conns_kept w w"
  by (simp add: conns_kept_def)

lemma conns_kept_trans [trans]: "conns_kept a b \<Longrightarrow> conns_kept b c \<Longrightarrow> conns_kept a c"
  by (simp add: conns_kept_def)

lemma conns_kept_send [simp]: "conns_kept w (world_Send E p ctx w)" "conns_kept w (send_to E ctx P w)"
  by (simp_all add: conns_kept_def world_Send_def)

lemma conns_kept_chan [simp]: "conns_kept w (upd_chan ch f w)" "conns_kept w (log_event e w)"
  by (simp_all add: conns_kept_def)

lemma conns_kept_closing: "conns_kept w w' \<Longrightarrow> IsClosing (w_conn w' p) = IsClosing (w_conn w p)"
  by (simp add: conns_kept_def IsClosing_def)

lemma world_Send_registry [simp]:
  "w_chan (world_Send E p ctx w) = w_chan w" "w_settings (world_Send E p ctx w) = w_settings w"
  "w_allChannels (world_Send E p ctx w) = w_allChannels w"
  "w_globalChannel (world_Send E p ctx w) = w_globalChannel w"
  "w_handle (world_Send E p ctx w) = w_handle w" "w_now (world_Send E p ctx w) = w_now w"
  "IsClosing (w_conn (world_Send E p ctx w) q) = IsClosing (w_conn w q)"
  "c_id (w_conn (world_Send E p ctx w) q) = c_id (w_conn w q)"
  by (simp_all add: world_Send_def)

text \<open>What \<open>recoverableSubs\<close> holds after the round of a closing connection.\<close>

definition recover_entry :: "World \<Rightarrow> ChanPtr \<Rightarrow> ConnPtr \<Rightarrow> recoverableSubscription option" where
  "recover_entry w ch p = (case (c_recoverHandle (w_conn w p),
       map_of (ch_subscribedConnections (w_chan w ch)) (Conn p)) of
     (Some h, Some cs) \<Rightarrow> Some \<lparr>rs_connHandle = h, rs_isOwner = (GetOwner w ch = Conn p),
       rs_oldSubTime = ch_startTime (w_chan w ch) + cs_subTime cs, rs_oldSubOptions = cs_options cs\<rparr>
   | _ \<Rightarrow> None)"

definition round_of :: "World \<Rightarrow> ChanPtr \<Rightarrow> ConnPtr \<Rightarrow> Channel \<Rightarrow> Channel" where
  "round_of w ch p c = c\<lparr>
     ch_recoverableSubs := (case recover_entry w ch p of
        None \<Rightarrow> ch_recoverableSubs c
      | Some rs \<Rightarrow> AList.update (c_pit (w_conn w p)) rs (ch_recoverableSubs c)),
     ch_subscribedConnections := AList.delete (Conn p) (ch_subscribedConnections c),
     ch_ownerConnection := (if ch_ownerConnection c = Conn p then NilIface else ch_ownerConnection c)\<rparr>"

lemma fan_ok_recoverable [simp]:
  "fan_ok w (c\<lparr>ch_recoverableSubs := x\<rparr>) = fan_ok w c"
  by (simp add: fan_ok_def)

lemma prepare_recovery_result:
  assumes "fan_ok w (w_chan w ch)"
  shows "\<exists>w1. prepare_recovery E ch p w = Some w1 \<and> conns_kept w w1 \<and> w_globalChannel w1 = w_globalChannel w \<and>
    w_chan w1 = (w_chan w)(ch := (w_chan w ch)\<lparr>ch_recoverableSubs := (case recover_entry w ch p of
        None \<Rightarrow> ch_recoverableSubs (w_chan w ch)
      | Some rs \<Rightarrow> AList.update (c_pit (w_conn w p)) rs (ch_recoverableSubs (w_chan w ch)))\<rparr>)"
proof (cases "c_recoverHandle (w_conn w p)")
  case None
  then show ?thesis by (simp add: prepare_recovery_def recover_entry_def)
next
  case (Some h)
  let ?w1 = "keep_recoverable p ch h w"
  have c: "w_chan ?w1 = (w_chan w)(ch := (w_chan w ch)\<lparr>ch_recoverableSubs := (case recover_entry w ch p of
        None \<Rightarrow> ch_recoverableSubs (w_chan w ch)
      | Some rs \<Rightarrow> AList.update (c_pit (w_conn w p)) rs (ch_recoverableSubs (w_chan w ch)))\<rparr>)"
    using Some by (auto simp: keep_recoverable_def recover_entry_def GetOwner_def split: option.splits)
  have k: "conns_kept w ?w1" "w_globalChannel ?w1 = w_globalChannel w"
    by (simp_all add: keep_recoverable_def split: option.splits)
  have "fan_ok ?w1 (w_chan ?w1 ch)"
    using assms c conns_kept_closing [OF k(1)] fan_ok_cong [of ?w1 w] by simp
  note b = fan_okD(1,2) [OF this]
  have "\<exists>w2. Broadcast E ch ctx ?w1 = Some w2 \<and> conns_kept ?w1 w2 \<and> w_chan w2 = w_chan ?w1 \<and>
      w_globalChannel w2 = w_globalChannel ?w1" for ctx
    unfolding Broadcast_def
    by (subst broadcast_loop_sends) (use b in \<open>auto simp: alist_ok_def alist_keys_def dest: map_of_SomeD\<close>)
  then show ?thesis
    using Some c k conns_kept_trans by (fastforce simp: prepare_recovery_def Let_def)
qed

lemma round_of_fan_ok:
  assumes "fan_ok w c" and "IsClosing (w_conn w p)"
  shows "fan_ok w (round_of w' ch p c)"
proof -
  note ok = fan_okD [OF assms(1)]
  show ?thesis
  proof (rule fan_okI)
    fix f assume "f \<in> set (ch_fanOutQueue (round_of w' ch p c))"
    then have f: "f \<in> set (ch_fanOutQueue c)" by (simp add: round_of_def)
    from ok(4) [OF f] assms(2)
    show "\<exists>q. foc_conn f = Conn q \<and> (IsClosing (w_conn w q) \<or>
        (\<exists>cs. map_of (ch_subscribedConnections (round_of w' ch p c)) (Conn q) = Some cs \<and> cs_fanOutElement cs = foc_elem f))"
      by (auto simp: round_of_def)
    from ok(4) [OF f] show "foc_elem f < ch_nextElement (round_of w' ch p c)" by (simp add: round_of_def)
  next
    fix q cs assume "map_of (ch_subscribedConnections (round_of w' ch p c)) (Conn q) = Some cs"
    then have q: "map_of (ch_subscribedConnections c) (Conn q) = Some cs"
      by (simp add: round_of_def split: if_splits)
    from ok(5) [OF q] show "cs_fanOutElement cs < ch_nextElement (round_of w' ch p c)" by (simp add: round_of_def)
    assume "\<not> IsClosing (w_conn w q)"
    with ok(5) [OF q] show "\<exists>f \<in> set (ch_fanOutQueue (round_of w' ch p c)).
        foc_elem f = cs_fanOutElement cs \<and> foc_conn f = Conn q" by (simp add: round_of_def)
  qed (use ok in \<open>auto simp: round_of_def split: if_splits\<close>)
qed

text \<open>One round of the loop when the channel outlives its owner.\<close>

definition keeps_channel :: "World \<Rightarrow> ChanPtr \<Rightarrow> bool" where
  "keeps_channel w ch \<longleftrightarrow> \<not> cst_RemoveChannelAfterOwnerRemoved
     (GetChannelSettings (w_settings w) (ch_channelType (w_chan w ch)))"

lemma tick_conn_one_live:
  "\<not> IsClosing (w_conn w p) \<Longrightarrow> tick_conn_one E ch (Conn p) w = Some (w, False)"
  by (simp add: tick_conn_one_def)

lemma tick_conn_one_closing:
  assumes "fan_ok w (w_chan w ch)" and "IsClosing (w_conn w p)" and "GetOwner w ch \<noteq> NilConn"
    and "keeps_channel w ch \<or> GetOwner w ch \<noteq> Conn p"
  shows "\<exists>w'. tick_conn_one E ch (Conn p) w = Some (w', False) \<and> conns_kept w w' \<and>
    w_chan w' = (w_chan w)(ch := round_of w ch p (w_chan w ch)) \<and> fan_ok w' (w_chan w' ch)"
proof -
  obtain w1 where w1: "prepare_recovery E ch p w = Some w1" "conns_kept w w1"
    "w_chan w1 = (w_chan w)(ch := (w_chan w ch)\<lparr>ch_recoverableSubs := (case recover_entry w ch p of
        None \<Rightarrow> ch_recoverableSubs (w_chan w ch)
      | Some rs \<Rightarrow> AList.update (c_pit (w_conn w p)) rs (ch_recoverableSubs (w_chan w ch)))\<rparr>)"
    using prepare_recovery_result [OF assms(1), of E p] by blast
  let ?w2 = "upd_chan ch (\<lambda>c. c\<lparr>ch_subscribedConnections := AList.delete (Conn p) (ch_subscribedConnections c)\<rparr>) w1"
  have c2: "w_chan ?w2 = (w_chan w)(ch := (round_of w ch p (w_chan w ch))\<lparr>ch_ownerConnection := GetOwner w ch\<rparr>)"
    using w1(3) by (auto simp: round_of_def GetOwner_def fun_eq_iff)
  then have o2: "GetOwner ?w2 ch = GetOwner w ch" by (simp add: GetOwner_def)
  have k2: "conns_kept w ?w2" using w1(2) conns_kept_chan(1) by (rule conns_kept_trans)
  have t: "ch_channelType (w_chan ?w2 ch) = ch_channelType (w_chan w ch)" using c2 by (simp add: round_of_def)
  have run: "tick_conn_one E ch (Conn p) w =
      (if GetOwner ?w2 ch = Conn p then owner_gone ch p ?w2
       else do { w3 \<leftarrow> tell_owner E ch p ?w2; Some (w3, False) })"
    using assms(2) w1(1) by (simp add: tick_conn_one_def Let_def)
  have "\<exists>w'. tick_conn_one E ch (Conn p) w = Some (w', False) \<and> conns_kept w w' \<and>
      w_chan w' = (w_chan w)(ch := round_of w ch p (w_chan w ch))"
  proof (cases "GetOwner w ch = Conn p")
    case True
    let ?w3 = "SetOwner ch NilIface ?w2"
    have "w_chan ?w3 = (w_chan w)(ch := round_of w ch p (w_chan w ch))"
      using c2 True by (simp add: SetOwner_def round_of_def GetOwner_def)
    moreover have "conns_kept w ?w3"
      unfolding SetOwner_def using k2 conns_kept_chan(1) by (rule conns_kept_trans)
    moreover have "owner_gone ch p ?w2 = Some (if ch_channelType (w_chan ?w3 ch) = ChannelType_GLOBAL
        then log_event EvGlobalChannelUnpossessed ?w3 else ?w3, False)"
      using assms(4) True k2 t by (auto simp: owner_gone_def Let_def keeps_channel_def conns_kept_def SetOwner_def)
    ultimately show ?thesis using run o2 True conns_kept_trans [OF _ conns_kept_chan(2)] by auto
  next
    case False
    have same: "(round_of w ch p (w_chan w ch))\<lparr>ch_ownerConnection := GetOwner w ch\<rparr> = round_of w ch p (w_chan w ch)"
      using False by (simp add: round_of_def GetOwner_def)
    have "\<exists>w3. tell_owner E ch p ?w2 = Some w3 \<and> conns_kept ?w2 w3 \<and> w_chan w3 = w_chan ?w2"
      using assms(3) o2 by (cases "GetOwner w ch") (auto simp: tell_owner_def sendUnsubscribed_def Let_def)
    then show ?thesis using run o2 False c2 same conns_kept_trans [OF k2] by auto
  qed
  then obtain w' where w': "tick_conn_one E ch (Conn p) w = Some (w', False)" "conns_kept w w'"
    "w_chan w' = (w_chan w)(ch := round_of w ch p (w_chan w ch))" by blast
  have "fan_ok w' (w_chan w' ch)"
    using round_of_fan_ok [OF assms(1,2)] conns_kept_closing [OF w'(2)] fan_ok_cong [of w' w] w'(3) by simp
  with w' show ?thesis by blast
qed

text \<open>What the loop over some keys leaves behind.\<close>

definition cleaned :: "World \<Rightarrow> ChanPtr \<Rightarrow> ConnRef set \<Rightarrow> World \<Rightarrow> bool" where
  "cleaned w ch K w' \<longleftrightarrow>
     (\<forall>p. map_of (ch_subscribedConnections (w_chan w' ch)) (Conn p) =
        (if Conn p \<in> K \<and> IsClosing (w_conn w p) then None
         else map_of (ch_subscribedConnections (w_chan w ch)) (Conn p))) \<and>
     GetOwner w' ch = (if \<exists>p. GetOwner w ch = Conn p \<and> Conn p \<in> K \<and> IsClosing (w_conn w p)
       then NilIface else GetOwner w ch) \<and>
     (\<forall>k. (\<forall>p. Conn p \<in> K \<longrightarrow> c_pit (w_conn w p) \<noteq> k) \<longrightarrow>
        map_of (ch_recoverableSubs (w_chan w' ch)) k = map_of (ch_recoverableSubs (w_chan w ch)) k) \<and>
     (\<forall>p rs. Conn p \<in> K \<longrightarrow> IsClosing (w_conn w p) \<longrightarrow> recover_entry w ch p = Some rs \<longrightarrow>
        (\<forall>q. q \<noteq> p \<longrightarrow> Conn q \<in> K \<longrightarrow> c_pit (w_conn w q) \<noteq> c_pit (w_conn w p)) \<longrightarrow>
        map_of (ch_recoverableSubs (w_chan w' ch)) (c_pit (w_conn w p)) = Some rs) \<and>
     ch_data (w_chan w' ch) = ch_data (w_chan w ch) \<and>
     ch_fanOutQueue (w_chan w' ch) = ch_fanOutQueue (w_chan w ch) \<and>
     (\<forall>c. c \<noteq> ch \<longrightarrow> w_chan w' c = w_chan w c)"

lemma recover_entry_after_round:
  assumes "q \<noteq> p" and "conns_kept w w1" and "w_chan w1 = (w_chan w)(ch := round_of w ch p (w_chan w ch))"
  shows "recover_entry w1 ch q = recover_entry w ch q"
proof -
  have "c_recoverHandle (w_conn w1 q) = c_recoverHandle (w_conn w q)" using assms(2) by (simp add: conns_kept_def)
  moreover have "map_of (ch_subscribedConnections (w_chan w1 ch)) (Conn q) =
      map_of (ch_subscribedConnections (w_chan w ch)) (Conn q)"
    using assms(1,3) by (simp add: round_of_def)
  moreover have "(GetOwner w1 ch = Conn q) = (GetOwner w ch = Conn q)"
    "ch_startTime (w_chan w1 ch) = ch_startTime (w_chan w ch)"
    using assms(1,3) by (auto simp: round_of_def GetOwner_def)
  ultimately show ?thesis by (simp add: recover_entry_def split: option.split)
qed

lemma cleaned_step:
  assumes c: "conns_kept w w1" "w_chan w1 = (w_chan w)(ch := round_of w ch p (w_chan w ch))"
    and p: "IsClosing (w_conn w p)" "Conn p \<notin> K" and r: "cleaned w1 ch K w'"
  shows "cleaned w ch (insert (Conn p) K) w'"
proof -
  have cl: "IsClosing (w_conn w1 q) = IsClosing (w_conn w q)" for q by (rule conns_kept_closing [OF c(1)])
  have pit: "c_pit (w_conn w1 q) = c_pit (w_conn w q)" for q using c(1) by (simp add: conns_kept_def)
  have subs: "map_of (ch_subscribedConnections (w_chan w1 ch)) (Conn q) =
      (if q = p then None else map_of (ch_subscribedConnections (w_chan w ch)) (Conn q))" for q
    by (simp add: c(2) round_of_def)
  have own: "GetOwner w1 ch = (if GetOwner w ch = Conn p then NilIface else GetOwner w ch)"
    by (simp add: c(2) round_of_def GetOwner_def)
  have rec: "map_of (ch_recoverableSubs (w_chan w1 ch)) k =
      (if k = c_pit (w_conn w p) \<and> recover_entry w ch p \<noteq> None then recover_entry w ch p
       else map_of (ch_recoverableSubs (w_chan w ch)) k)" for k
    by (simp add: c(2) round_of_def split: option.splits)
  have entry: "recover_entry w1 ch q = recover_entry w ch q" if "q \<noteq> p" for q
    by (rule recover_entry_after_round [OF that c])
  have other: "ch_data (w_chan w1 ch) = ch_data (w_chan w ch)"
    "ch_fanOutQueue (w_chan w1 ch) = ch_fanOutQueue (w_chan w ch)" "\<And>c. c \<noteq> ch \<Longrightarrow> w_chan w1 c = w_chan w c"
    by (simp_all add: c(2) round_of_def)
  note R = r [unfolded cleaned_def cl pit subs own other(1,2)]
  have K: "recover_entry w ch q = Some rs \<Longrightarrow> Conn q \<in> insert (Conn p) K \<Longrightarrow> IsClosing (w_conn w q) \<Longrightarrow>
      (\<forall>q'. q' \<noteq> q \<longrightarrow> Conn q' \<in> insert (Conn p) K \<longrightarrow> c_pit (w_conn w q') \<noteq> c_pit (w_conn w q)) \<Longrightarrow>
      map_of (ch_recoverableSubs (w_chan w' ch)) (c_pit (w_conn w q)) = Some rs" for q rs
  proof (cases "q = p")
    case True
    assume a: "recover_entry w ch q = Some rs"
      "\<forall>q'. q' \<noteq> q \<longrightarrow> Conn q' \<in> insert (Conn p) K \<longrightarrow> c_pit (w_conn w q') \<noteq> c_pit (w_conn w q)"
    then have "\<forall>q'. Conn q' \<in> K \<longrightarrow> c_pit (w_conn w q') \<noteq> c_pit (w_conn w p)" using True p(2) by auto
    with R have "map_of (ch_recoverableSubs (w_chan w' ch)) (c_pit (w_conn w p)) =
        map_of (ch_recoverableSubs (w_chan w1 ch)) (c_pit (w_conn w p))" by blast
    with rec a(1) True show ?thesis by simp
  next
    case False
    assume a: "recover_entry w ch q = Some rs" "Conn q \<in> insert (Conn p) K" "IsClosing (w_conn w q)"
      "\<forall>q'. q' \<noteq> q \<longrightarrow> Conn q' \<in> insert (Conn p) K \<longrightarrow> c_pit (w_conn w q') \<noteq> c_pit (w_conn w q)"
    with False R entry [OF False] show ?thesis by auto
  qed
  have S: "map_of (ch_subscribedConnections (w_chan w' ch)) (Conn q) =
        (if Conn q \<in> insert (Conn p) K \<and> IsClosing (w_conn w q) then None
         else map_of (ch_subscribedConnections (w_chan w ch)) (Conn q))" for q
    using R p by (cases "q = p") auto
  have O: "GetOwner w' ch = (if \<exists>q. GetOwner w ch = Conn q \<and> Conn q \<in> insert (Conn p) K \<and> IsClosing (w_conn w q)
       then NilIface else GetOwner w ch)"
    using R p by (cases "GetOwner w ch = Conn p") auto
  have F: "(\<forall>q. Conn q \<in> insert (Conn p) K \<longrightarrow> c_pit (w_conn w q) \<noteq> k) \<Longrightarrow>
        map_of (ch_recoverableSubs (w_chan w' ch)) k = map_of (ch_recoverableSubs (w_chan w ch)) k" for k
    using R rec [of k] by auto
  show ?thesis unfolding cleaned_def using S O F K R other(3) by simp
qed

lemma tick_conns_cleans:
  assumes "fan_ok w (w_chan w ch)" and "GetOwner w ch \<noteq> NilConn" and "keeps_channel w ch"
    and "distinct keys" and "\<forall>r \<in> set keys. \<exists>p. r = Conn p"
  shows "\<exists>w'. tick_conns E ch keys w = Some w' \<and> conns_kept w w' \<and> fan_ok w' (w_chan w' ch) \<and>
    cleaned w ch (set keys) w'"
  using assms
proof (induction keys arbitrary: w)
  case Nil
  then show ?case by (simp add: cleaned_def)
next
  case (Cons r keys)
  then obtain p where r: "r = Conn p" by auto
  show ?case
  proof (cases "IsClosing (w_conn w p)")
    case False
    have "\<exists>w'. tick_conns E ch keys w = Some w' \<and> conns_kept w w' \<and> fan_ok w' (w_chan w' ch) \<and>
        cleaned w ch (set keys) w'"
      using Cons.IH [of w] Cons.prems by auto
    then obtain w' where w': "tick_conns E ch keys w = Some w'" "conns_kept w w'" "fan_ok w' (w_chan w' ch)"
      "cleaned w ch (set keys) w'" by blast
    have "cleaned w ch (set (r # keys)) w'"
      using w'(4) False r by (auto simp: cleaned_def)
    then show ?thesis using w' r tick_conn_one_live [OF False] by auto
  next
    case True
    obtain w1 where w1: "tick_conn_one E ch (Conn p) w = Some (w1, False)" "conns_kept w w1"
      "w_chan w1 = (w_chan w)(ch := round_of w ch p (w_chan w ch))" "fan_ok w1 (w_chan w1 ch)"
      using tick_conn_one_closing [OF Cons.prems(1) True Cons.prems(2)] Cons.prems(3) by blast
    have "GetOwner w1 ch \<noteq> NilConn" "keeps_channel w1 ch"
      using Cons.prems(2,3) w1(2,3) by (auto simp: GetOwner_def round_of_def keeps_channel_def conns_kept_def)
    from Cons.IH [OF w1(4) this] Cons.prems obtain w' where w': "tick_conns E ch keys w1 = Some w'"
      "conns_kept w1 w'" "fan_ok w' (w_chan w' ch)" "cleaned w1 ch (set keys) w'" by auto
    have "cleaned w ch (insert (Conn p) (set keys)) w'"
      by (rule cleaned_step [OF w1(2,3) True _ w'(4)]) (use Cons.prems(4) r in auto)
    then show ?thesis using w1(1) w' r conns_kept_trans [OF w1(2) w'(2)] by auto
  qed
qed

text \<open>
  C21. When the settings keep a channel without its owner, \<open>tickConnections\<close> returns and removes the
  subscriptions of closing connections and only those, resets an owner that was one of them, keeps the
  subscription invariant, the fan-out queue, the data and all other channels, and files the subscription
  of a recoverable connection under its PIT, with its handle, its options, its absolute time and whether
  it was the owner (unless another subscriber has the same PIT).
\<close>

theorem tickConnections_correct:
  assumes "fan_ok w (w_chan w ch)" and "GetOwner w ch \<noteq> NilConn" and "keeps_channel w ch"
  shows "\<exists>w'. tickConnections E ch w = Some w' \<and> fan_ok w' (w_chan w' ch) \<and>
    (\<forall>p. map_of (ch_subscribedConnections (w_chan w' ch)) (Conn p) =
       (if IsClosing (w_conn w p) then None else map_of (ch_subscribedConnections (w_chan w ch)) (Conn p))) \<and>
    GetOwner w' ch = (if \<exists>p. GetOwner w ch = Conn p \<and> IsClosing (w_conn w p) \<and>
        map_of (ch_subscribedConnections (w_chan w ch)) (Conn p) \<noteq> None then NilIface else GetOwner w ch) \<and>
    (\<forall>p cs h. map_of (ch_subscribedConnections (w_chan w ch)) (Conn p) = Some cs \<longrightarrow>
       IsClosing (w_conn w p) \<longrightarrow> c_recoverHandle (w_conn w p) = Some h \<longrightarrow>
       (\<forall>q. q \<noteq> p \<longrightarrow> map_of (ch_subscribedConnections (w_chan w ch)) (Conn q) \<noteq> None \<longrightarrow>
          c_pit (w_conn w q) \<noteq> c_pit (w_conn w p)) \<longrightarrow>
       map_of (ch_recoverableSubs (w_chan w' ch)) (c_pit (w_conn w p)) =
         Some \<lparr>rs_connHandle = h, rs_isOwner = (GetOwner w ch = Conn p),
               rs_oldSubTime = ch_startTime (w_chan w ch) + cs_subTime cs, rs_oldSubOptions = cs_options cs\<rparr>) \<and>
    ch_data (w_chan w' ch) = ch_data (w_chan w ch) \<and>
    ch_fanOutQueue (w_chan w' ch) = ch_fanOutQueue (w_chan w ch) \<and>
    (\<forall>c. c \<noteq> ch \<longrightarrow> w_chan w' c = w_chan w c)"
proof -
  let ?keys = "alist_keys (ch_subscribedConnections (w_chan w ch))"
  have k: "distinct ?keys" using fan_okD(1) [OF assms(1)] by (simp add: alist_ok_def alist_keys_def)
  have c: "\<forall>r \<in> set ?keys. \<exists>p. r = Conn p" using fan_okD(2) [OF assms(1)] by (auto simp: set_alist_keys)
  have mem: "Conn p \<in> set ?keys \<longleftrightarrow> map_of (ch_subscribedConnections (w_chan w ch)) (Conn p) \<noteq> None" for p
    by (auto simp: set_alist_keys)
  obtain w' where w': "tickConnections E ch w = Some w'" "fan_ok w' (w_chan w' ch)" "cleaned w ch (set ?keys) w'"
    unfolding tickConnections_def using tick_conns_cleans [OF assms k c] by blast
  note d = w'(3) [unfolded cleaned_def mem]
  have s: "map_of (ch_subscribedConnections (w_chan w' ch)) (Conn p) =
       (if IsClosing (w_conn w p) then None else map_of (ch_subscribedConnections (w_chan w ch)) (Conn p))" for p
    using d by simp
  have o: "GetOwner w' ch = (if \<exists>p. GetOwner w ch = Conn p \<and> IsClosing (w_conn w p) \<and>
        map_of (ch_subscribedConnections (w_chan w ch)) (Conn p) \<noteq> None then NilIface else GetOwner w ch)"
    using d by auto
  have r: "recover_entry w ch p = Some \<lparr>rs_connHandle = h, rs_isOwner = (GetOwner w ch = Conn p),
               rs_oldSubTime = ch_startTime (w_chan w ch) + cs_subTime cs, rs_oldSubOptions = cs_options cs\<rparr>"
    if "map_of (ch_subscribedConnections (w_chan w ch)) (Conn p) = Some cs" "c_recoverHandle (w_conn w p) = Some h"
    for p cs h using that by (simp add: recover_entry_def)
  show ?thesis using w'(1,2) s o r d by (intro exI [of _ w']) simp
qed

text \<open>The message that asks the global channel for the removal.\<close>

definition removal_message :: "World \<Rightarrow> ChanPtr \<Rightarrow> ChanPtr \<Rightarrow> channelMessage" where
  "removal_message w ch g = \<lparr>cm_ctx = \<lparr>x_MsgType = 0, x_Msg = RemoveChannelMessage (ch_id (w_chan w ch)),
     x_Broadcast = 0, x_StubId = 0, x_ChannelId = GlobalChannelId, x_Connection = NilConn,
     x_Channel = Some g, x_arrivalTime = GetTime w g\<rparr>, cm_handler = H_RemoveChannel\<rparr>"

definition global_accepts :: "World \<Rightarrow> ChanPtr \<Rightarrow> bool" where
  "global_accepts w g \<longleftrightarrow> w_globalChannel w = Some g \<and> \<not> IsRemoving w g \<and> \<not> ch_inMsgQueueClosed (w_chan w g)"

definition owner_removed :: "World \<Rightarrow> ChanPtr \<Rightarrow> ChanPtr \<Rightarrow> World \<Rightarrow> bool" where
  "owner_removed w ch g w' \<longleftrightarrow> IsRemoving w' ch \<and> GetOwner w' ch = NilIface \<and>
     w_chan w' g = (if g = ch then w_chan w' g
       else (w_chan w g)\<lparr>ch_inMsgQueue := ch_inMsgQueue (w_chan w g) @ [removal_message w ch g]\<rparr>) \<and>
     (\<forall>c. c \<noteq> ch \<longrightarrow> c \<noteq> g \<longrightarrow> w_chan w' c = w_chan w c)"

lemma tick_conn_one_owner:
  assumes "GetOwner w ch = Conn p" and "IsClosing (w_conn w p)" and "c_recoverHandle (w_conn w p) = None"
    and "\<not> keeps_channel w ch" and "global_accepts w g" and "0 \<le> ch_removing (w_chan w ch)"
  shows "\<exists>w'. tick_conn_one E ch (Conn p) w = Some (w', True) \<and> owner_removed w ch g w'"
  using assms
  by (auto simp: tick_conn_one_def prepare_recovery_def Let_def owner_gone_def keeps_channel_def GetOwner_def
      SetOwner_def removeChannelAfterOwnerRemoved_def PutMessage_def put_queue_def IsRemoving_def
      global_accepts_def owner_removed_def removal_message_def GetTime_def)

lemma tick_conns_until_owner:
  assumes "fan_ok w (w_chan w ch)" and "GetOwner w ch = Conn p" and "IsClosing (w_conn w p)"
    and "c_recoverHandle (w_conn w p) = None" and "\<not> keeps_channel w ch" and "global_accepts w g"
    and "0 \<le> ch_removing (w_chan w ch)" and "Conn p \<in> set keys" and "\<forall>r \<in> set keys. \<exists>q. r = Conn q"
  shows "\<exists>w'. tick_conns E ch keys w = Some w' \<and> owner_removed w ch g w'"
  using assms
proof (induction keys arbitrary: w)
  case (Cons r keys)
  then obtain q where r: "r = Conn q" by auto
  show ?case
  proof (cases "q = p")
    case True
    with tick_conn_one_owner [OF Cons.prems(2-7), of E] r show ?thesis by auto
  next
    case False
    have "\<exists>w1. tick_conn_one E ch (Conn q) w = Some (w1, False) \<and> conns_kept w w1 \<and> fan_ok w1 (w_chan w1 ch) \<and>
        (w1 = w \<or> w_chan w1 = (w_chan w)(ch := round_of w ch q (w_chan w ch)))"
      using tick_conn_one_closing [OF Cons.prems(1), of q E] tick_conn_one_live [of w q E ch] Cons.prems(1,2) False
      by (cases "IsClosing (w_conn w q)") auto
    then obtain w1 where w1: "tick_conn_one E ch (Conn q) w = Some (w1, False)" "conns_kept w w1"
      "fan_ok w1 (w_chan w1 ch)" "w1 = w \<or> w_chan w1 = (w_chan w)(ch := round_of w ch q (w_chan w ch))" by blast
    have p: "GetOwner w1 ch = Conn p" "ch_removing (w_chan w1 ch) = ch_removing (w_chan w ch)"
      "ch_id (w_chan w1 ch) = ch_id (w_chan w ch)" "ch_channelType (w_chan w1 ch) = ch_channelType (w_chan w ch)"
      "ch_inMsgQueueClosed (w_chan w1 g) = ch_inMsgQueueClosed (w_chan w g)"
      "ch_startTime (w_chan w1 g) = ch_startTime (w_chan w g)"
      "ch_removing (w_chan w1 g) = ch_removing (w_chan w g)" "\<And>c. c \<noteq> ch \<Longrightarrow> w_chan w1 c = w_chan w c"
      using Cons.prems(2) False w1(4) by (auto simp: GetOwner_def round_of_def split: if_splits)
    have "keeps_channel w1 ch = keeps_channel w ch" "global_accepts w1 g"
      "IsClosing (w_conn w1 p)" "c_recoverHandle (w_conn w1 p) = None"
      using p w1(2) Cons.prems(3,4,6) conns_kept_closing [OF w1(2)]
      by (simp_all add: keeps_channel_def global_accepts_def conns_kept_def IsRemoving_def)
    with Cons.IH [of w1] w1(3) p Cons.prems(5,7,8,9) False r
    obtain w' where w': "tick_conns E ch keys w1 = Some w'" "owner_removed w1 ch g w'" by auto
    have "removal_message w1 ch g = removal_message w ch g"
      using p w1(2) by (simp add: removal_message_def GetTime_def conns_kept_def)
    with w'(2) p(8) have "owner_removed w ch g w'" by (auto simp: owner_removed_def)
    then show ?thesis using w1(1) w'(1) r by auto
  qed
qed simp

text \<open>
  When the settings remove a channel with its owner and the owner has closed and is not
  recoverable, \<open>tickConnections\<close> resets the owner and marks the channel as being removed.  A request to
  remove it, with no sender, is appended to the queue of the global channel; the global channel itself
  gets no request, yet it is marked too (and its goroutine stops), despite the comment that the global
  channel must not be removed.
\<close>

theorem tickConnections_owner_lost:
  assumes "fan_ok w (w_chan w ch)" and "GetOwner w ch = Conn p" and "IsClosing (w_conn w p)"
    and "map_of (ch_subscribedConnections (w_chan w ch)) (Conn p) \<noteq> None"
    and "c_recoverHandle (w_conn w p) = None" and "\<not> keeps_channel w ch" and "global_accepts w g"
    and "0 \<le> ch_removing (w_chan w ch)"
  shows "\<exists>w'. tickConnections E ch w = Some w' \<and> IsRemoving w' ch \<and> GetOwner w' ch = NilIface \<and>
    (g \<noteq> ch \<longrightarrow> ch_inMsgQueue (w_chan w' g) = ch_inMsgQueue (w_chan w g) @ [removal_message w ch g] \<and>
       \<not> IsRemoving w' g) \<and>
    (\<forall>c. c \<noteq> ch \<longrightarrow> c \<noteq> g \<longrightarrow> w_chan w' c = w_chan w c)"
proof -
  have m: "Conn p \<in> set (alist_keys (ch_subscribedConnections (w_chan w ch)))"
    using assms(4) by (auto simp: set_alist_keys)
  have c: "\<forall>r \<in> set (alist_keys (ch_subscribedConnections (w_chan w ch))). \<exists>q. r = Conn q"
    using fan_okD(2) [OF assms(1)] by (auto simp: set_alist_keys)
  obtain w' where "tickConnections E ch w = Some w'" "owner_removed w ch g w'"
    unfolding tickConnections_def using tick_conns_until_owner [OF assms(1,2,3,5,6,7,8) m c] by blast
  then show ?thesis using assms(7) by (auto simp: owner_removed_def global_accepts_def IsRemoving_def)
qed

text \<open>The witnesses: a server that owns channel 1 (and the global channel) has closed, a client is live.\<close>

definition lost_world :: "HandlePtr option \<Rightarrow> bool \<Rightarrow> World" where
  "lost_world handle remove = chan_world\<lparr>
     w_conn := (\<lambda>p. if p = 0 then (demo_conn 1 1)\<lparr>c_state := 2, c_pit := ''srv'', c_recoverHandle := handle\<rparr>
                    else (demo_conn 2 2)\<lparr>c_pit := ''cli''\<rparr>),
     w_nconn := 2, w_allConnections := [(2, 1)],
     w_chan := (\<lambda>p. (w_chan chan_world p)\<lparr>ch_ownerConnection := Conn 0,
       ch_subscribedConnections := [(Conn 0, demo_sub), (Conn 1, demo_sub\<lparr>cs_fanOutElement := 1\<rparr>)],
       ch_nextElement := 2,
       ch_fanOutQueue := [\<lparr>foc_elem = 1, foc_conn = Conn 1, foc_hadFirstFanOut = False,
         foc_lastFanOutTime = 0, foc_lastMessageIndex = 0\<rparr>]\<rparr>),
     w_settings := default_settings\<lparr>gs_ChannelSettings := [ChannelType_GLOBAL \<mapsto> zero_channel_settings
       \<lparr>cst_RemoveChannelAfterOwnerRemoved := remove\<rparr>]\<rparr>\<rparr>"

lemma lost_world_facts:
  "fan_ok (lost_world h b) (w_chan (lost_world h b) ch)" "GetOwner (lost_world h b) ch = Conn 0"
  "IsClosing (w_conn (lost_world h b) 0)" "c_recoverHandle (w_conn (lost_world h b) 0) = h"
  "\<not> IsClosing (w_conn (lost_world h b) 1)"
  "map_of (ch_subscribedConnections (w_chan (lost_world h b) ch)) (Conn 0) = Some demo_sub"
  "map_of (ch_subscribedConnections (w_chan (lost_world h b) ch)) (Conn 1) \<noteq> None"
  "keeps_channel (lost_world h b) ch = (\<not> b)" "global_accepts (lost_world h b) 0"
  "0 \<le> ch_removing (w_chan (lost_world h b) ch)"
  by (simp_all add: lost_world_def chan_world_def demo_world_def GetOwner_def IsClosing_def demo_conn_def
      keeps_channel_def global_accepts_def IsRemoving_def GetChannelSettings_def)
    (auto simp: fan_ok_def alist_ok_def demo_sub_def opts_full_def IsClosing_def demo_conn_def)

theorem tickConnections_correct_witness:
  "\<exists>w'. tickConnections demo_externs 1 (lost_world (Some 0) False) = Some w' \<and>
    map_of (ch_subscribedConnections (w_chan w' 1)) (Conn 0) = None \<and>
    map_of (ch_subscribedConnections (w_chan w' 1)) (Conn 1) \<noteq> None \<and> GetOwner w' 1 = NilIface"
proof -
  note f = lost_world_facts [of "Some 0" False]
  have "GetOwner (lost_world (Some 0) False) 1 \<noteq> NilConn" using f(2) by simp
  moreover have "keeps_channel (lost_world (Some 0) False) 1" using f(8) by simp
  ultimately show ?thesis
    using tickConnections_correct [OF f(1) [of 1], of demo_externs] f by fastforce
qed

theorem tickConnections_owner_lost_witness:
  "\<exists>w'. tickConnections demo_externs 0 (lost_world None True) = Some w' \<and> IsRemoving w' 0"
proof -
  note f = lost_world_facts [of None True]
  have "map_of (ch_subscribedConnections (w_chan (lost_world None True) 0)) (Conn 0) \<noteq> None" using f(6) by simp
  moreover have "\<not> keeps_channel (lost_world None True) 0" using f(8) by simp
  ultimately show ?thesis
    using tickConnections_owner_lost [OF f(1) [of 0] f(2) f(3) _ f(4) _ f(9) f(10), of demo_externs] by auto
qed

subsection \<open>A recovered subscription\<close>

lemma conn_Send_queue_cong:
  "c_sendQueue a = c_sendQueue b \<Longrightarrow> c_state a = c_state b \<Longrightarrow>
   c_sendQueue (conn_Send E ctx a) = c_sendQueue (conn_Send E ctx b)"
  by (auto simp: conn_Send_def queuedMessagePackSender_Send_def IsClosing_def Let_def)

lemma add_interest_queue [simp]:
  "c_sendQueue (w_conn (add_interest p ch w) q) = c_sendQueue (w_conn w q)"
  "c_id (w_conn (add_interest p ch w) q) = c_id (w_conn w q)"
  "w_settings (add_interest p ch w) = w_settings w" "GetOwner (add_interest p ch w) c = GetOwner w c"
  "w_now (add_interest p ch w) = w_now w" "w_tasks (add_interest p ch w) = w_tasks w"
  by (auto simp: add_interest_def GetOwner_def)

text \<open>The first steps of a recovery, on a connection that is live and not subscribed.\<close>

definition recovered_owner :: "World \<Rightarrow> ChanPtr \<Rightarrow> ConnPtr \<Rightarrow> recoverableSubscription \<Rightarrow> ConnRef" where
  "recovered_owner w ch p rs =
     (if rs_isOwner rs \<and> HasOwner w ch = Some False then Conn p else GetOwner w ch)"

lemma HasOwner_total: "GetOwner w ch \<noteq> NilConn \<Longrightarrow> \<exists>b. HasOwner w ch = Some b"
  by (cases "GetOwner w ch") (auto simp: HasOwner_def ref_closing_def)

lemma restore_owner_result:
  assumes "GetOwner w ch \<noteq> NilConn"
  shows "\<exists>w1. restore_owner ch p rs w = Some w1 \<and> w_conn w1 = w_conn w \<and> w_settings w1 = w_settings w \<and>
    w_now w1 = w_now w \<and>
    w_chan w1 = (w_chan w)(ch := (w_chan w ch)\<lparr>ch_ownerConnection := recovered_owner w ch p rs\<rparr>)"
  using HasOwner_total [OF assms]
  by (auto simp: restore_owner_def recovered_owner_def SetOwner_def GetOwner_def)

lemma fan_ok_fields [simp]:
  "fan_ok w (c\<lparr>ch_ownerConnection := x\<rparr>) = fan_ok w c"
  by (simp add: fan_ok_def)

lemma recover_subscribes:
  assumes "merge_law E" and "fan_ok w (w_chan w ch)" and "\<not> IsClosing (w_conn w p)"
    and "map_of (ch_subscribedConnections (w_chan w ch)) (Conn p) = None" and "opts_full old"
  obtains cs skip delay interval where
    "SubscribeToChannel E p ch (Some (old\<lparr>so_SkipFirstFanOut := Some True\<rparr>)) w =
       Some (add_interest p ch (upd_chan ch (enter_subscription p cs skip delay interval) w), Some cs, True)"
    "fan_ok w (enter_subscription p cs skip delay interval (w_chan w ch))"
    "so_DataAccess (cs_options cs) = so_DataAccess old" "so_FanOutIntervalMs (cs_options cs) = so_FanOutIntervalMs old"
    "so_SkipFirstFanOut (cs_options cs) = Some True"
proof -
  let ?opts = "old\<lparr>so_SkipFirstFanOut := Some True\<rparr>"
  obtain skip delay interval cs where
    cs: "cs = \<lparr>cs_options = merge_options E (defaultSubOptions w (ch_channelType (w_chan w ch))) (Some ?opts),
       cs_subTime = GetTime w ch, cs_fanOutElement = ch_nextElement (w_chan w ch)\<rparr>" "opts_full (cs_options cs)"
    and sub: "SubscribeToChannel E p ch (Some ?opts) w =
       Some (add_interest p ch (upd_chan ch (enter_subscription p cs skip delay interval) w), Some cs, True)"
    by (rule SubscribeToChannel_new [OF assms(1,3,4)])
  have "fan_ok w (enter_subscription p cs skip delay interval (w_chan w ch))"
    by (rule enter_subscription_fan_ok [OF assms(2,4,3) cs(2)]) (simp add: cs(1))
  moreover have "so_DataAccess (cs_options cs) = so_DataAccess old"
    "so_FanOutIntervalMs (cs_options cs) = so_FanOutIntervalMs old" "so_SkipFirstFanOut (cs_options cs) = Some True"
    using assms(1,5) by (auto simp: cs(1) merge_options_def merge_law_def opts_full_def)
  ultimately show ?thesis using that sub by blast
qed

lemma recovery_message_result:
  assumes "ch_data (w_chan w ch) = Some d" and "d_msg d = Some m" and "d_extension d = None"
    and "ex_anyNew E m = Some any" and "GetOwner w ch \<noteq> NilConn"
  shows "\<exists>ownerId. recovery_message E w ch rs opts = Some (Some (ChannelDataRecoveryMessage (ch_id (w_chan w ch))
    (ch_channelType (w_chan w ch)) (ch_metadata (w_chan w ch)) ownerId (rs_oldSubTime rs) opts any None))"
proof -
  from HasOwner_total [OF assms(5)] obtain b where "HasOwner w ch = Some b" ..
  then show ?thesis using assms by (simp add: recovery_message_def GetDataMessage_def)
qed


definition recover_sub :: recoverableSubscription where
  "recover_sub = \<lparr>rs_connHandle = 0, rs_isOwner = True, rs_oldSubTime = 5, rs_oldSubOptions = cs_options demo_sub\<rparr>"

definition recover_world :: World where
  "recover_world = upd_chan 0 (\<lambda>c. c\<lparr>ch_recoverableSubs := [(''srv'', recover_sub)],
     ch_data := Some (empty_data (Some \<lparr>dm_type = ''tps.Data'', dm_fields = []\<rparr>) None)\<rparr>)
     (upd_handle 0 (\<lambda>h. h\<lparr>rh_newConn := Some 0\<rparr>) sub_world)"

lemma recover_world_facts:
  "fan_ok recover_world (w_chan recover_world 0)" "GetOwner recover_world 0 = NilIface"
  "ch_recoverableSubs (w_chan recover_world 0) = [(''srv'', recover_sub)]" "opts_full (rs_oldSubOptions recover_sub)"
  "\<not> IsTimeOut recover_world (rs_connHandle recover_sub)"
  "rh_newConn (w_handle recover_world (rs_connHandle recover_sub)) = Some 0" "\<not> IsClosing (w_conn recover_world 0)"
  "map_of (ch_subscribedConnections (w_chan recover_world 0)) (Conn 0) = None"
  "ch_data (w_chan recover_world 0) = Some (empty_data (Some \<lparr>dm_type = ''tps.Data'', dm_fields = []\<rparr>) None)"
  by (simp_all add: recover_world_def recover_sub_def sub_world_def demo_world_def demo_conn_def IsClosing_def
      fan_ok_def GetOwner_def IsTimeOut_def default_settings_def opts_full_def demo_sub_def)


end
