(* ===== verification/Security.thy ===== *)
theory Security
  imports Channels
begin

text \<open>
  Who gets in (\<open>auth.go\<close>, \<open>ddos.go\<close> and the accept loop of \<open>connection.go\<close>): the authentication
  providers behind their common interface, the anti-DDoS listeners with their counters and blacklists,
  the check of connections that do not authenticate in time, and the refusal of blacklisted addresses.
\<close>

subsection \<open>Authentication providers\<close>

text \<open>The result \<open>None\<close> is an error of the provider; a custom provider is the application's.\<close>

definition DoAuth :: "Externs \<Rightarrow> AuthProvider \<Rightarrow> uint32 \<Rightarrow> string \<Rightarrow> string \<Rightarrow> AuthResult option" where
  "DoAuth E provider connId pit lt = (case provider of
     LoggingAuthProvider \<Rightarrow> Some AuthResult_SUCCESSFUL
   | AlwaysFailAuthProvider \<Rightarrow> Some AuthResult_INVALID_PIT
   | FixedPasswordAuthProvider password \<Rightarrow>
       Some (if lt = password then AuthResult_SUCCESSFUL else AuthResult_INVALID_LT)
   | CustomAuthProvider n \<Rightarrow> ex_customAuth E n connId pit lt)"

subsection \<open>Listeners\<close>

definition bump :: "string \<Rightarrow> World \<Rightarrow> World \<times> int" where
  "bump k w = (let n = (case w_failedAuthCounters w k of None \<Rightarrow> 0 | Some n \<Rightarrow> n) + 1 in
     (w\<lparr>w_failedAuthCounters := (w_failedAuthCounters w)(k \<mapsto> n)\<rparr>, n))"

text \<open>The listener of \<open>Event_AuthComplete\<close> that \<open>InitAntiDDoS\<close> installs.\<close>

definition antiddos_auth :: "ConnPtr \<Rightarrow> AuthResult \<Rightarrow> string \<Rightarrow> World \<Rightarrow> World" where
  "antiddos_auth p result pit w =
     (if c_connectionType (w_conn w p) = ConnectionType_SERVER then w
      else if result = AuthResult_INVALID_LT then
        (case bump pit w of (w1, n) \<Rightarrow>
           if gs_MaxFailedAuthAttempts (w_settings w1) > 0 \<and> n \<ge> gs_MaxFailedAuthAttempts (w_settings w1)
           then conn_Close False p (w1\<lparr>w_pitBlacklist := (w_pitBlacklist w1)(pit \<mapsto> w_now w1)\<rparr>)
           else w1)
      else if result = AuthResult_INVALID_PIT then
        (let ip = GetIP (c_remoteAddr (w_conn w p)) in
         case bump ip w of (w1, n) \<Rightarrow>
           if gs_MaxFailedAuthAttempts (w_settings w1) > 0 \<and> n \<ge> gs_MaxFailedAuthAttempts (w_settings w1)
           then conn_Close False p (w1\<lparr>w_ipBlacklist := (w_ipBlacklist w1)(ip \<mapsto> w_now w1)\<rparr>)
           else w1)
      else w)"

text \<open>The listener of \<open>Event_FsmDisallowed\<close>.\<close>

definition antiddos_fsm :: "ConnPtr \<Rightarrow> World \<Rightarrow> World" where
  "antiddos_fsm p w =
     (if c_connectionType (w_conn w p) = ConnectionType_SERVER then w
      else
        let w1 = upd_conn p (\<lambda>c. c\<lparr>c_fsmDisallowedCounter := c_fsmDisallowedCounter c + 1\<rparr>) w in
        if gs_MaxFsmDisallowed (w_settings w1) > 0 \<and>
           c_fsmDisallowedCounter (w_conn w1 p) \<ge> gs_MaxFsmDisallowed (w_settings w1)
        then conn_Close False p
               (w1\<lparr>w_pitBlacklist := (w_pitBlacklist w1)(c_pit (w_conn w1 p) \<mapsto> w_now w1)\<rparr>)
        else w1)"

definition InitAntiDDoS :: "World \<Rightarrow> World" where
  "InitAntiDDoS w = w\<lparr>w_Event_AuthComplete := event_Listen (w_Event_AuthComplete w) L_AntiDDoS,
                      w_Event_FsmDisallowed := event_Listen (w_Event_FsmDisallowed w) L_AntiDDoS\<rparr>"

text \<open>The hook of a well-known entity channel: a client that has authenticated is subscribed, and told.\<close>

definition wellknown_options :: ChannelSubscriptionOptions where
  "wellknown_options = \<lparr>so_DataAccess = None, so_DataFieldMasks = [], so_FanOutIntervalMs = None,
     so_FanOutDelayMs = Some 1000, so_SkipSelfUpdateFanOut = None, so_SkipFirstFanOut = None\<rparr>"

definition wellknown_hook :: "Externs \<Rightarrow> ChanPtr \<Rightarrow> ConnPtr \<Rightarrow> AuthResult \<Rightarrow> World \<Rightarrow> World option" where
  "wellknown_hook E ch p result w =
     (if c_connectionType (w_conn w p) = ConnectionType_SERVER then Some w
      else if result = AuthResult_SUCCESSFUL then do {
        (w1, cs, shouldSend) \<leftarrow> SubscribeToChannel E p ch (Some wellknown_options) w;
        if shouldSend then do { s \<leftarrow> cs; Some (sendSubscribed E p empty_ctx ch p 0 (cs_options s) w1) }
        else Some w1
      }
      else Some w)"

definition run_auth_listener ::
  "Externs \<Rightarrow> ConnPtr \<Rightarrow> AuthResult \<Rightarrow> string \<Rightarrow> Listener \<Rightarrow> World \<Rightarrow> World option" where
  "run_auth_listener E p result pit l w = (case l of
     L_AntiDDoS \<Rightarrow> Some (antiddos_auth p result pit w)
   | L_WellKnownEntity ch \<Rightarrow> wellknown_hook E ch p result w
   | L_User n \<Rightarrow> Some (log_event (EvUserListener n) w))"

definition broadcast_AuthComplete ::
  "Externs \<Rightarrow> ConnPtr \<Rightarrow> AuthResult \<Rightarrow> string \<Rightarrow> World \<Rightarrow> World option" where
  "broadcast_AuthComplete E p result pit w = do {
     (called, e) \<leftarrow> event_Broadcast (w_Event_AuthComplete w);
     for_each (run_auth_listener E p result pit) called (w\<lparr>w_Event_AuthComplete := e\<rparr>)
   }"

definition run_fsm_listener :: "ConnPtr \<Rightarrow> Listener \<Rightarrow> World \<Rightarrow> World option" where
  "run_fsm_listener p l w = (case l of
     L_AntiDDoS \<Rightarrow> Some (antiddos_fsm p w)
   | L_WellKnownEntity ch \<Rightarrow> Some w
   | L_User n \<Rightarrow> Some (log_event (EvUserListener n) w))"

definition broadcast_FsmDisallowed :: "ConnPtr \<Rightarrow> World \<Rightarrow> World option" where
  "broadcast_FsmDisallowed p w = do {
     (called, e) \<leftarrow> event_Broadcast (w_Event_FsmDisallowed w);
     for_each (run_fsm_listener p) called (w\<lparr>w_Event_FsmDisallowed := e\<rparr>)
   }"

subsection \<open>Time-outs and refused addresses\<close>

definition check_unauth_one :: "uint32 \<times> ConnPtr \<Rightarrow> World \<Rightarrow> World" where
  "check_unauth_one kv w = (let p = snd kv; c = w_conn w p in
     if IsClosing c then w
     else if c_state c = ConnectionState_UNAUTHENTICATED \<and>
        (w_now w - c_connTime c) div 1000000 \<ge> gs_ConnectionAuthTimeoutMs (w_settings w)
     then conn_Close False p (w\<lparr>w_ipBlacklist := (w_ipBlacklist w)(GetIP (c_remoteAddr c) \<mapsto> w_now w)\<rparr>)
     else w)"

text \<open>One round of \<open>checkUnauthConns\<close>.\<close>

definition checkUnauthConns :: "World \<Rightarrow> World" where
  "checkUnauthConns w = fold check_unauth_one (w_unauthenticatedConnections w) w"

text \<open>One turn of the accept loop of \<open>StartListening\<close>: a blacklisted address is refused.\<close>

definition accept_connection ::
  "NetAddr \<Rightarrow> ConnectionType \<Rightarrow> (nat \<Rightarrow> int) \<Rightarrow> World \<Rightarrow> (World \<times> ConnPtr option) option" where
  "accept_connection addr t clock w =
     (if w_ipBlacklist w (GetIP addr) \<noteq> None then Some (w, None)
      else do { (w', p) \<leftarrow> AddConnection addr t clock w; Some (w', Some p) })"

subsection \<open>The contract of a provider\<close>

text \<open>
  What the gateway relies on of a provider that does not fail: it answers, and success means that the
  credentials are admitted.  The lemma is what the authentication handler needs of it.
\<close>

locale auth_check =
  fixes auth :: "uint32 \<Rightarrow> string \<Rightarrow> string \<Rightarrow> AuthResult option"
    and admits :: "string \<Rightarrow> string \<Rightarrow> bool"
  assumes answers: "auth i pit lt \<noteq> None"
    and successful: "auth i pit lt = Some AuthResult_SUCCESSFUL \<longleftrightarrow> admits pit lt"
begin

lemma verdict: "\<exists>r. auth i pit lt = Some r \<and> (r = AuthResult_SUCCESSFUL \<longleftrightarrow> admits pit lt)"
  using answers [of i pit lt] successful [of i pit lt] by auto

end

interpretation logging_auth: auth_check "DoAuth E LoggingAuthProvider" "\<lambda>pit lt. True" for E
  by unfold_locales (simp_all add: DoAuth_def)

interpretation failing_auth: auth_check "DoAuth E AlwaysFailAuthProvider" "\<lambda>pit lt. False" for E
  by unfold_locales (simp_all add: DoAuth_def)

interpretation password_auth: auth_check "DoAuth E (FixedPasswordAuthProvider password)" "\<lambda>pit lt. lt = password"
  for E password
  by unfold_locales (simp_all add: DoAuth_def)

subsection \<open>Repeated failures\<close>

definition auth_count :: "World \<Rightarrow> string \<Rightarrow> int" where
  "auth_count w k = (case w_failedAuthCounters w k of None \<Rightarrow> 0 | Some n \<Rightarrow> n)"

lemma Close_keeps_closing: "IsClosing (w_conn w q) \<Longrightarrow> IsClosing (w_conn (conn_Close err p w) q)"
  by (cases "q = p") (simp_all add: Close_closes)

lemma bump_frame [simp]:
  "w_conn (fst (bump k w)) = w_conn w" "w_settings (fst (bump k w)) = w_settings w"
  "w_pitBlacklist (fst (bump k w)) = w_pitBlacklist w" "w_now (fst (bump k w)) = w_now w"
  "snd (bump k w) = auth_count w k + 1"
  "w_failedAuthCounters (fst (bump k w)) = (w_failedAuthCounters w)(k \<mapsto> auth_count w k + 1)"
  by (simp_all add: bump_def Let_def auth_count_def)

lemma antiddos_auth_LT:
  fixes pit :: string
  assumes "c_connectionType (w_conn w p) \<noteq> ConnectionType_SERVER" and "0 < gs_MaxFailedAuthAttempts (w_settings w)"
  defines "w' \<equiv> antiddos_auth p AuthResult_INVALID_LT pit w"
  shows "auth_count w' pit = auth_count w pit + 1"
    and "w_pitBlacklist w' = (if auth_count w pit + 1 \<ge> gs_MaxFailedAuthAttempts (w_settings w)
       then (w_pitBlacklist w)(pit \<mapsto> w_now w) else w_pitBlacklist w)"
    and "auth_count w pit + 1 \<ge> gs_MaxFailedAuthAttempts (w_settings w) \<Longrightarrow> IsClosing (w_conn w' p)"
    and "IsClosing (w_conn w q) \<Longrightarrow> IsClosing (w_conn w' q)"
    and "c_connectionType (w_conn w' q) = c_connectionType (w_conn w q)"
    and "w_settings w' = w_settings w"
proof -
  have e: "w' = (let w1 = fst (bump pit w) in
      if auth_count w pit + 1 \<ge> gs_MaxFailedAuthAttempts (w_settings w)
      then conn_Close False p (w1\<lparr>w_pitBlacklist := (w_pitBlacklist w)(pit \<mapsto> w_now w)\<rparr>) else w1)"
    using assms(1,2) by (simp add: w'_def antiddos_auth_def split_def Let_def)
  show "auth_count w' pit = auth_count w pit + 1" by (simp add: e Let_def auth_count_def)
  show "w_pitBlacklist w' = (if auth_count w pit + 1 \<ge> gs_MaxFailedAuthAttempts (w_settings w)
       then (w_pitBlacklist w)(pit \<mapsto> w_now w) else w_pitBlacklist w)" by (simp add: e Let_def)
  show "IsClosing (w_conn w' p)" if "auth_count w pit + 1 \<ge> gs_MaxFailedAuthAttempts (w_settings w)"
    using that by (simp add: e Let_def Close_closes)
  show "IsClosing (w_conn w' q)" if "IsClosing (w_conn w q)"
    using that by (simp add: e Let_def Close_keeps_closing)
  show "c_connectionType (w_conn w' q) = c_connectionType (w_conn w q)"
    by (cases "q = p") (simp_all add: e Let_def)
  show "w_settings w' = w_settings w" by (simp add: e Let_def)
qed

text \<open>
  C37. Failed log-ins count per PIT, whatever connection they come from: after \<open>n\<close> client attempts with
  an invalid token the PIT's counter is \<open>n\<close>, the PIT is blacklisted exactly when \<open>n\<close> has reached
  \<open>MaxFailedAuthAttempts\<close>, and every connection from that attempt on has been closed.
\<close>

theorem failed_logins_blacklist:
  assumes "\<forall>p \<in> set ps. c_connectionType (w_conn w p) = ConnectionType_CLIENT"
    and "0 < gs_MaxFailedAuthAttempts (w_settings w)"
    and "w_failedAuthCounters w pit = None" and "w_pitBlacklist w pit = None"
  shows "let w' = fold (\<lambda>p. antiddos_auth p AuthResult_INVALID_LT pit) ps w in
    auth_count w' pit = int (length ps) \<and>
    (w_pitBlacklist w' pit \<noteq> None \<longleftrightarrow> gs_MaxFailedAuthAttempts (w_settings w) \<le> int (length ps)) \<and>
    (\<forall>i < length ps. gs_MaxFailedAuthAttempts (w_settings w) \<le> int i + 1 \<longrightarrow> IsClosing (w_conn w' (ps ! i)))"
proof -
  let ?run = "\<lambda>ps. fold (\<lambda>p. antiddos_auth p AuthResult_INVALID_LT pit) ps w"
  have "auth_count (?run ps) pit = int (length ps) \<and>
    (w_pitBlacklist (?run ps) pit \<noteq> None \<longleftrightarrow> gs_MaxFailedAuthAttempts (w_settings w) \<le> int (length ps)) \<and>
    (\<forall>i < length ps. gs_MaxFailedAuthAttempts (w_settings w) \<le> int i + 1 \<longrightarrow> IsClosing (w_conn (?run ps) (ps ! i))) \<and>
    w_settings (?run ps) = w_settings w \<and>
    (\<forall>q. c_connectionType (w_conn (?run ps) q) = c_connectionType (w_conn w q))"
    using assms(1)
  proof (induction ps rule: rev_induct)
    case Nil
    then show ?case using assms(2-4) by (simp add: auth_count_def)
  next
    case (snoc p ps)
    then have IH: "auth_count (?run ps) pit = int (length ps)"
      "w_pitBlacklist (?run ps) pit \<noteq> None \<longleftrightarrow> gs_MaxFailedAuthAttempts (w_settings w) \<le> int (length ps)"
      "\<And>i. i < length ps \<Longrightarrow> gs_MaxFailedAuthAttempts (w_settings w) \<le> int i + 1 \<Longrightarrow> IsClosing (w_conn (?run ps) (ps ! i))"
      "w_settings (?run ps) = w_settings w" "\<And>q. c_connectionType (w_conn (?run ps) q) = c_connectionType (w_conn w q)"
      by auto
    have c: "c_connectionType (w_conn (?run ps) p) \<noteq> ConnectionType_SERVER" "0 < gs_MaxFailedAuthAttempts (w_settings (?run ps))"
      using IH(4,5) snoc.prems assms(2) by simp_all
    note s = antiddos_auth_LT [OF c, where pit = pit, unfolded IH(1,4)]
    have "IsClosing (w_conn (?run (ps @ [p])) ((ps @ [p]) ! i))"
      if "i < length (ps @ [p])" "gs_MaxFailedAuthAttempts (w_settings w) \<le> int i + 1" for i
    proof (cases "i < length ps")
      case True
      then show ?thesis using s(4) [OF IH(3) [OF True that(2)]] by (simp add: nth_append)
    next
      case False
      then have "i = length ps" using that(1) by simp
      then show ?thesis using s(3) that(2) by simp
    qed
    then show ?case using s IH by auto
  qed
  then show ?thesis by (simp add: Let_def)
qed

theorem failed_logins_blacklist_witness:
  "let w' = fold (\<lambda>p. antiddos_auth p AuthResult_INVALID_LT ''bob'') [0, 1, 0, 1, 0]
     (demo_world\<lparr>w_conn := (\<lambda>p. demo_conn (of_nat p + 1) 2)\<rparr>) in
   auth_count w' ''bob'' = 5 \<and> w_pitBlacklist w' ''bob'' \<noteq> None \<and> IsClosing (w_conn w' 0)"
proof -
  let ?w = "demo_world\<lparr>w_conn := (\<lambda>p. demo_conn (of_nat p + 1) 2)\<rparr>"
  have m: "gs_MaxFailedAuthAttempts (w_settings ?w) = 5" by (simp add: demo_world_def default_settings_def)
  have "let w' = fold (\<lambda>p. antiddos_auth p AuthResult_INVALID_LT ''bob'') [0, 1, 0, 1, 0] ?w in
    auth_count w' ''bob'' = int (length [0, 1, 0, 1, 0 :: nat]) \<and>
    (w_pitBlacklist w' ''bob'' \<noteq> None \<longleftrightarrow> gs_MaxFailedAuthAttempts (w_settings ?w) \<le> int (length [0, 1, 0, 1, 0 :: nat])) \<and>
    (\<forall>i < length [0, 1, 0, 1, 0 :: nat]. gs_MaxFailedAuthAttempts (w_settings ?w) \<le> int i + 1 \<longrightarrow>
       IsClosing (w_conn w' ([0, 1, 0, 1, 0] ! i)))"
    by (rule failed_logins_blacklist) (simp_all add: demo_world_def demo_conn_def default_settings_def)
  then show ?thesis unfolding m Let_def by (auto elim: allE [of _ 4])
qed

subsection \<open>Connections that do not authenticate\<close>

definition expired :: "World \<Rightarrow> ConnPtr \<Rightarrow> bool" where
  "expired w p \<longleftrightarrow> c_state (w_conn w p) = ConnectionState_UNAUTHENTICATED \<and>
     (w_now w - c_connTime (w_conn w p)) div 1000000 \<ge> gs_ConnectionAuthTimeoutMs (w_settings w)"

lemma check_unauth_one_alt:
  "check_unauth_one (i, p) w = (if expired w p
     then conn_Close False p (w\<lparr>w_ipBlacklist := (w_ipBlacklist w)(GetIP (c_remoteAddr (w_conn w p)) \<mapsto> w_now w)\<rparr>)
     else w)"
  by (auto simp: check_unauth_one_def expired_def IsClosing_def Let_def)

lemma closing_not_expired: "IsClosing (w_conn w p) \<Longrightarrow> \<not> expired w p"
  by (simp add: expired_def IsClosing_def)

text \<open>
  One round of the check closes exactly the registered unauthenticated connections that have been
  connected for \<open>ConnectionAuthTimeoutMs\<close> or longer, and blacklists exactly their addresses besides
  those already blacklisted; every other connection is left as it is.
\<close>

theorem checkUnauthConns_correct:
  "let w' = checkUnauthConns w; late = (\<lambda>p. p \<in> snd ` set (w_unauthenticatedConnections w) \<and> expired w p) in
   (\<forall>p. late p \<longrightarrow> IsClosing (w_conn w' p)) \<and> (\<forall>p. \<not> late p \<longrightarrow> w_conn w' p = w_conn w p) \<and>
   (\<forall>ip. w_ipBlacklist w' ip \<noteq> None \<longleftrightarrow>
      w_ipBlacklist w ip \<noteq> None \<or> (\<exists>p. late p \<and> GetIP (c_remoteAddr (w_conn w p)) = ip))"
proof -
  have "(\<forall>p. p \<in> snd ` set kvs \<and> expired w p \<longrightarrow> IsClosing (w_conn (fold check_unauth_one kvs w) p)) \<and>
    (\<forall>p. \<not> (p \<in> snd ` set kvs \<and> expired w p) \<longrightarrow> w_conn (fold check_unauth_one kvs w) p = w_conn w p) \<and>
    (\<forall>ip. w_ipBlacklist (fold check_unauth_one kvs w) ip \<noteq> None \<longleftrightarrow>
      w_ipBlacklist w ip \<noteq> None \<or> (\<exists>p. p \<in> snd ` set kvs \<and> expired w p \<and> GetIP (c_remoteAddr (w_conn w p)) = ip))" for kvs
  proof (induction kvs arbitrary: w)
    case (Cons kv kvs)
    obtain i p where kv: "kv = (i, p)" by (cases kv)
    show ?case
    proof (cases "expired w p")
      case False
      then show ?thesis using Cons.IH [of w] by (auto simp: kv check_unauth_one_alt)
    next
      case True
      let ?w1 = "check_unauth_one (i, p) w"
      have p1: "IsClosing (w_conn ?w1 p)" using True by (simp add: check_unauth_one_alt Close_closes)
      have q1: "w_conn ?w1 q = w_conn w q" if "q \<noteq> p" for q using that True by (simp add: check_unauth_one_alt)
      have e1: "expired ?w1 q = (q \<noteq> p \<and> expired w q)" for q
        using closing_not_expired [OF p1] q1 True by (cases "q = p") (simp_all add: expired_def check_unauth_one_alt)
      have b1: "w_ipBlacklist ?w1 ip \<noteq> None \<longleftrightarrow> w_ipBlacklist w ip \<noteq> None \<or> ip = GetIP (c_remoteAddr (w_conn w p))" for ip
        using True by (auto simp: check_unauth_one_alt)
      have IH: "p' \<in> snd ` set kvs \<and> p' \<noteq> p \<and> expired w p' \<Longrightarrow> IsClosing (w_conn (fold check_unauth_one kvs ?w1) p')"
        "\<not> (p' \<in> snd ` set kvs \<and> p' \<noteq> p \<and> expired w p') \<Longrightarrow> w_conn (fold check_unauth_one kvs ?w1) p' = w_conn ?w1 p'"
        "w_ipBlacklist (fold check_unauth_one kvs ?w1) ip \<noteq> None \<longleftrightarrow>
          w_ipBlacklist ?w1 ip \<noteq> None \<or> (\<exists>q. q \<in> snd ` set kvs \<and> q \<noteq> p \<and> expired w q \<and> GetIP (c_remoteAddr (w_conn ?w1 q)) = ip)"
        for p' ip using Cons.IH [of ?w1] unfolding e1 by blast+
      have 1: "IsClosing (w_conn (fold check_unauth_one kvs ?w1) q)" if "q \<in> insert p (snd ` set kvs)" "expired w q" for q
        using that IH(1,2) [of q] p1 by (cases "q = p") auto
      have 2: "w_conn (fold check_unauth_one kvs ?w1) q = w_conn w q" if "\<not> (q \<in> insert p (snd ` set kvs) \<and> expired w q)" for q
        using that IH(2) [of q] q1 [of q] True by (cases "q = p") auto
      have 3: "w_ipBlacklist (fold check_unauth_one kvs ?w1) ip \<noteq> None \<longleftrightarrow> w_ipBlacklist w ip \<noteq> None \<or>
          (\<exists>q. q \<in> insert p (snd ` set kvs) \<and> expired w q \<and> GetIP (c_remoteAddr (w_conn w q)) = ip)" for ip
        unfolding IH(3) b1 using True q1 by (metis insert_iff)
      show ?thesis using 1 2 3 by (simp add: kv)
    qed
  qed simp
  from this [of "w_unauthenticatedConnections w"] show ?thesis
    unfolding checkUnauthConns_def Let_def conj_assoc .
qed

theorem checkUnauthConns_correct_witness:
  "let w = demo_world\<lparr>w_now := 6000000000, w_unauthenticatedConnections := [(0, 0), (1, 1)],
       w_conn := (\<lambda>p. (demo_conn (of_nat p) 2)\<lparr>c_connTime := int p * 5000000000\<rparr>)\<rparr> in
   IsClosing (w_conn (checkUnauthConns w) 0) \<and> w_conn (checkUnauthConns w) 1 = w_conn w 1"
proof -
  let ?w = "demo_world\<lparr>w_now := 6000000000, w_unauthenticatedConnections := [(0, 0), (1, 1)],
       w_conn := (\<lambda>p. (demo_conn (of_nat p) 2)\<lparr>c_connTime := int p * 5000000000\<rparr>)\<rparr>"
  have e: "expired ?w 0" "\<not> expired ?w 1"
    by (simp_all add: expired_def demo_world_def demo_conn_def default_settings_def)
  have m: "0 \<in> snd ` set (w_unauthenticatedConnections ?w)" by simp
  from checkUnauthConns_correct [of ?w] e m show ?thesis unfolding Let_def by blast
qed

text \<open>A gateway whose accept loop has refused the blacklisted addresses has no new connection from one.\<close>

lemma accept_connection_banned:
  "accept_connection addr t clock w = Some (w', Some p) \<Longrightarrow> w_ipBlacklist w (GetIP addr) = None"
  by (auto simp: accept_connection_def split: if_splits)

end
