(* ===== verification/Messages.thy ===== *)
theory Messages
  imports Security
begin

text \<open>
  The message handlers of \<open>message.go\<close>.  A handler runs in the goroutine of the channel that the
  message went to; here it is one step from world to world, \<open>None\<close> when the code panics.
\<close>

subsection \<open>The context\<close>

text \<open>The logger of the sender: reading it of a nil sender is a panic.\<close>

definition logs :: "MessageContext \<Rightarrow> World \<Rightarrow> World option" where
  "logs ctx w = do { _ \<leftarrow> conn_deref (x_Connection ctx); Some w }"

definition HasConnection :: "World \<Rightarrow> MessageContext \<Rightarrow> bool" where
  "HasConnection w ctx = (case conn_deref (x_Connection ctx) of
     None \<Rightarrow> False | Some p \<Rightarrow> \<not> IsClosing (w_conn w p))"

subsection \<open>User-space messages\<close>

definition handleClientToServerUserMessage :: "Externs \<Rightarrow> MessageContext \<Rightarrow> World \<Rightarrow> World option" where
  "handleClientToServerUserMessage E ctx w = (case x_Msg ctx of
     ServerForwardMessage clientConnId payload \<Rightarrow> do {
       ch \<leftarrow> x_Channel ctx;
       live \<leftarrow> HasOwner w ch;
       if live then do {
         owner \<leftarrow> conn_deref (GetOwner w ch);
         if ShouldRecover w owner then logs ctx w
         else logs ctx (world_Send E owner ctx w)
       }
       else if x_Broadcast ctx > 0 then
         (if ch_enableClientBroadcast (w_chan w ch)
          then do { w' \<leftarrow> Broadcast E ch ctx w; logs ctx w' }
          else logs ctx w)
       else if ch_recoverableSubs (w_chan w ch) = [] then logs ctx w
       else Some w
     }
   | _ \<Rightarrow> logs ctx w)"

text \<open>The single receiver: the owner (whose type assertion panics when there is none) or a connection.\<close>

definition single_target :: "World \<Rightarrow> ChanPtr \<Rightarrow> uint32 \<Rightarrow> ConnPtr option option" where
  "single_target w ch clientConnId =
     (if clientConnId = 0 then
        (case GetOwner w ch of NilIface \<Rightarrow> None | NilConn \<Rightarrow> Some None | Conn p \<Rightarrow> Some (Some p))
      else Some (GetConnection w clientConnId))"

definition adjacent_conns :: "World \<Rightarrow> uint32 list \<Rightarrow> ConnRef list" where
  "adjacent_conns w ids = remdups (concat (map (\<lambda>i. case GetChannel w i of
     None \<Rightarrow> [] | Some c \<Rightarrow> GetAllConnections w c) ids))"

definition adjacent_one ::
  "Externs \<Rightarrow> MessageContext \<Rightarrow> uint32 \<Rightarrow> ConnRef \<Rightarrow> World \<Rightarrow> World option" where
  "adjacent_one E ctx clientConnId conn w =
     (if bcheck Broadcast_ALL_BUT_SENDER (x_Broadcast ctx) \<and> conn = x_Connection ctx then Some w
      else do {
        p \<leftarrow> conn_deref conn;
        if bcheck Broadcast_ALL_BUT_CLIENT (x_Broadcast ctx) \<and>
           c_connectionType (w_conn w p) = ConnectionType_CLIENT then Some w
        else if bcheck Broadcast_ALL_BUT_SERVER (x_Broadcast ctx) \<and>
           c_connectionType (w_conn w p) = ConnectionType_SERVER then Some w
        else if c_id (w_conn w p) = clientConnId then Some w
        else Some (world_Send E p ctx w)
      })"

definition broadcast_adjacent ::
  "Externs \<Rightarrow> ChanPtr \<Rightarrow> MessageContext \<Rightarrow> uint32 \<Rightarrow> World \<Rightarrow> World option" where
  "broadcast_adjacent E ch ctx clientConnId w =
     (if ch_channelType (w_chan w ch) \<noteq> ChannelType_SPATIAL then Some w
      else case ex_spatial E of
        None \<Rightarrow> Some w
      | Some sp \<Rightarrow> do {
          adjacent \<leftarrow> sp_GetAdjacentChannels sp w (ch_id (w_chan w ch));
          case adjacent of
            None \<Rightarrow> Some w
          | Some ids \<Rightarrow>
              for_each (adjacent_one E ctx clientConnId)
                (adjacent_conns w (if bcheck Broadcast_ALL_BUT_OWNER (x_Broadcast ctx) then ids
                                   else ids @ [ch_id (w_chan w ch)])) w
        })"

definition HandleServerToClientUserMessage :: "Externs \<Rightarrow> MessageContext \<Rightarrow> World \<Rightarrow> World option" where
  "HandleServerToClientUserMessage E ctx w = (case x_Msg ctx of
     ServerForwardMessage clientConnId payload \<Rightarrow> do {
       _ \<leftarrow> logs ctx w;
       ch \<leftarrow> x_Channel ctx;
       if x_Broadcast ctx = Broadcast_NO then do {
         (w', sent) \<leftarrow> SendToOwner E ch ctx w;
         Some w'
       }
       else if x_Broadcast ctx = Broadcast_SINGLE_CONNECTION then do {
         target \<leftarrow> single_target w ch clientConnId;
         (case target of
            Some p \<Rightarrow> Some (if IsClosing (w_conn w p) then w else world_Send E p ctx w)
          | None \<Rightarrow> Some w)
       }
       else if x_Broadcast ctx \<ge> Broadcast_ALL \<and> x_Broadcast ctx < Broadcast_ADJACENT_CHANNELS then
         Broadcast E ch ctx w
       else if bcheck Broadcast_ADJACENT_CHANNELS (x_Broadcast ctx) then
         broadcast_adjacent E ch ctx clientConnId w
       else Some w
     }
   | _ \<Rightarrow> logs ctx w)"

subsection \<open>Authentication\<close>

definition send_auth_result :: "Externs \<Rightarrow> MessageContext \<Rightarrow> ConnPtr \<Rightarrow> World \<Rightarrow> World option" where
  "send_auth_result E ctx p w = do {
     let w1 = world_Send E p ctx w;
     g \<leftarrow> w_globalChannel w1;
     hasOwner \<leftarrow> HasOwner w1 g;
     if hasOwner then do { (w2, _) \<leftarrow> SendToOwner E g (ctx\<lparr>x_StubId := 0\<rparr>) w1; Some w2 }
     else Some w1
   }"

definition onAuthComplete ::
  "Externs \<Rightarrow> MessageContext \<Rightarrow> AuthResult \<Rightarrow> string \<Rightarrow> World \<Rightarrow> World option" where
  "onAuthComplete E ctx authResult pit w = do {
     p \<leftarrow> conn_deref (x_Connection ctx);
     if IsClosing (w_conn w p) then Some w
     else do {
       let w1 = (if authResult = AuthResult_SUCCESSFUL then OnAuthenticated p pit w else w);
       w2 \<leftarrow> send_auth_result E (ctx\<lparr>x_Msg := AuthResultMessage authResult (c_id (w_conn w1 p))
                (gs_CompressionType (w_settings w1)) (ShouldRecover w1 p)\<rparr>) p w1;
       broadcast_AuthComplete E p authResult pit w2
     }
   }"

text \<open>With a provider the check runs in a goroutine of its own, started here.\<close>

definition handleAuth :: "Externs \<Rightarrow> MessageContext \<Rightarrow> World \<Rightarrow> World option" where
  "handleAuth E ctx w = do {
     p \<leftarrow> conn_deref (x_Connection ctx);
     if x_Channel ctx \<noteq> w_globalChannel w then Some (conn_Close False p w)
     else case x_Msg ctx of
       AuthMessage pit lt \<Rightarrow>
         (if w_pitBlacklist w pit \<noteq> None then Some (conn_Close False p w)
          else if w_authProvider w = None \<and> \<not> gs_Development (w_settings w) then None
          else if c_connectionType (w_conn w p) = ConnectionType_SERVER \<and> gs_ServerBypassAuth (w_settings w) then
            onAuthComplete E ctx AuthResult_SUCCESSFUL pit w
          else if w_authProvider w \<noteq> None then
            Some (w\<lparr>w_tasks := w_tasks w @ [T_DoAuth ctx pit lt]\<rparr>)
          else onAuthComplete E ctx AuthResult_SUCCESSFUL pit w)
     | _ \<Rightarrow> Some (conn_Close False p w)
   }"

text \<open>The goroutine that \<open>handleAuth\<close> started.\<close>

definition do_auth_task :: "Externs \<Rightarrow> MessageContext \<Rightarrow> string \<Rightarrow> string \<Rightarrow> World \<Rightarrow> World option" where
  "do_auth_task E ctx pit lt w = do {
     provider \<leftarrow> w_authProvider w;
     p \<leftarrow> conn_deref (x_Connection ctx);
     (case DoAuth E provider (c_id (w_conn w p)) pit lt of
        None \<Rightarrow> Some (conn_Close False p w)
      | Some authResult \<Rightarrow> onAuthComplete E ctx authResult pit w)
   }"

subsection \<open>Channels\<close>

text \<open>Subscribing the creator of a channel, and telling it.\<close>

definition subscribe_creator ::
  "Externs \<Rightarrow> MessageContext \<Rightarrow> ConnPtr \<Rightarrow> ChannelSubscriptionOptions option \<Rightarrow> ChanPtr \<Rightarrow> World \<Rightarrow> World option" where
  "subscribe_creator E ctx p subOptions newChannel w = do {
     (w1, cs, _) \<leftarrow> SubscribeToChannel E p newChannel subOptions w;
     Some (case cs of None \<Rightarrow> w1
       | Some s \<Rightarrow> sendSubscribed E p ctx newChannel p 0 (cs_options s) w1)
   }"

text \<open>The answer to the creator, and to a live owner of the global channel that is not the creator; the
result has the context as the handler goes on with it.\<close>

definition answer_creator ::
  "Externs \<Rightarrow> MessageContext \<Rightarrow> ConnPtr \<Rightarrow> World \<Rightarrow> (World \<times> MessageContext) option" where
  "answer_creator E ctx p w = do {
     let w1 = world_Send E p ctx w;
     g \<leftarrow> w_globalChannel w1;
     hasOwner \<leftarrow> (if GetOwner w1 g \<noteq> x_Connection ctx then HasOwner w1 g else Some False);
     if hasOwner then do {
       (w2, _) \<leftarrow> SendToOwner E g (ctx\<lparr>x_StubId := 0\<rparr>) w1;
       Some (w2, ctx\<lparr>x_StubId := 0\<rparr>)
     }
     else Some (w1, ctx)
   }"

definition handleCreateSpatialChannel ::
  "Externs \<Rightarrow> MessageContext \<Rightarrow> string \<Rightarrow> ChannelSubscriptionOptions option \<Rightarrow> World \<Rightarrow> World option" where
  "handleCreateSpatialChannel E ctx metadata subOptions w = do {
     p \<leftarrow> conn_deref (x_Connection ctx);
     if c_connectionType (w_conn w p) \<noteq> ConnectionType_SERVER then Some w
     else case ex_spatial E of
       None \<Rightarrow> Some w
     | Some sp \<Rightarrow> do {
         (w1, channels) \<leftarrow> sp_CreateChannels sp ctx w;
         (case channels of
            None \<Rightarrow> Some w1
          | Some chs \<Rightarrow> do {
              let ctx1 = ctx\<lparr>x_MsgType := MessageType_CREATE_SPATIAL_CHANNEL,
                x_Msg := CreateSpatialChannelsResultMessage (map (\<lambda>c. ch_id (w_chan w1 c)) chs) metadata
                  (c_id (w_conn w1 p))\<rparr>;
              (w3, ctx2) \<leftarrow> answer_creator E ctx1 p w1;
              w4 \<leftarrow> for_each (subscribe_creator E ctx2 p subOptions) chs w3;
              found \<leftarrow> sp_GetRegions sp w4;
              (case found of
                 None \<Rightarrow> Some w4
               | Some regions \<Rightarrow> Some (world_Send E p (ctx2\<lparr>x_MsgType := MessageType_SPATIAL_REGIONS_UPDATE,
                   x_Msg := SpatialRegionsUpdateMessage regions\<rparr>) w4))
            })
       }
   }"

text \<open>The second half of \<open>handleCreateChannel\<close>: metadata, data, answers and the creator's subscription.\<close>

definition finish_create ::
  "Externs \<Rightarrow> MessageContext \<Rightarrow> ConnPtr \<Rightarrow> ChanPtr \<Rightarrow> string \<Rightarrow> ChannelSubscriptionOptions option \<Rightarrow>
   AnyMsg option \<Rightarrow> ChannelDataMergeOptions option \<Rightarrow> World \<Rightarrow> World option" where
  "finish_create E ctx p newChannel metadata subOptions data mergeOptions w = do {
     let w1 = upd_chan newChannel (\<lambda>c. c\<lparr>ch_metadata := metadata\<rparr>) w;
     (case (case data of None \<Rightarrow> Some None | Some any \<Rightarrow> map_option Some (ex_unmarshalAny E any)) of
        None \<Rightarrow> Some w1
      | Some dataMsg \<Rightarrow> do {
          let w2 = InitData E newChannel dataMsg mergeOptions w1;
          let ctx1 = ctx\<lparr>x_Msg := CreateChannelResultMessage (ch_channelType (w_chan w2 newChannel))
                (ch_metadata (w_chan w2 newChannel)) (c_id (w_conn w2 p)) (ch_id (w_chan w2 newChannel))\<rparr>;
          (w4, ctx2) \<leftarrow> answer_creator E ctx1 p w2;
          subscribe_creator E ctx2 p subOptions newChannel w4
        })
   }"

definition handleCreateChannel :: "Externs \<Rightarrow> MessageContext \<Rightarrow> World \<Rightarrow> World option" where
  "handleCreateChannel E ctx w =
     (if x_Channel ctx \<noteq> w_globalChannel w then logs ctx w
      else case x_Msg ctx of
        CreateChannelMessage t metadata subOptions data mergeOptions \<Rightarrow>
          (if t = ChannelType_UNKNOWN then logs ctx w
           else if t = ChannelType_GLOBAL then do {
             g \<leftarrow> w_globalChannel w;
             hasOwner \<leftarrow> HasOwner w g;
             if hasOwner then logs ctx w
             else do {
               p \<leftarrow> conn_deref (x_Connection ctx);
               finish_create E ctx p g metadata subOptions data mergeOptions
                 (log_event (EvGlobalChannelPossessed g) (SetOwner g (x_Connection ctx) w))
             }
           }
           else if t = ChannelType_SPATIAL then handleCreateSpatialChannel E ctx metadata subOptions w
           else do {
             (w1, r) \<leftarrow> CreateChannel E t (x_Connection ctx) w;
             (case r of
                Inl err \<Rightarrow> logs ctx w1
              | Inr newChannel \<Rightarrow> do {
                  p \<leftarrow> conn_deref (x_Connection ctx);
                  finish_create E ctx p newChannel metadata subOptions data mergeOptions w1
                })
           })
      | _ \<Rightarrow> logs ctx w)"

definition send_removed :: "Externs \<Rightarrow> MessageContext \<Rightarrow> ConnRef \<Rightarrow> World \<Rightarrow> World option" where
  "send_removed E ctx sc w =
     (if sc = NilIface then Some w
      else do { p \<leftarrow> conn_deref sc; Some (world_Send E p (ctx\<lparr>x_StubId := 0\<rparr>) w) })"

definition handleRemoveChannel :: "Externs \<Rightarrow> MessageContext \<Rightarrow> World \<Rightarrow> World option" where
  "handleRemoveChannel E ctx w = (case x_Msg ctx of
     RemoveChannelMessage channelId \<Rightarrow> (case GetChannel w channelId of
       None \<Rightarrow> logs ctx w
     | Some channelToRemove \<Rightarrow> do {
         (hasAccess, err) \<leftarrow> CheckACL w channelToRemove (x_Connection ctx) Access_Remove;
         if HasConnection w ctx \<and> \<not> hasAccess then do {
           _ \<leftarrow> HasOwner w channelToRemove;
           logs ctx w
         }
         else do {
           w1 \<leftarrow> for_each (send_removed E ctx) (alist_keys (ch_subscribedConnections (w_chan w channelToRemove))) w;
           RemoveChannel channelToRemove w1
         }
       })
   | _ \<Rightarrow> logs ctx w)"

text \<open>\<open>strings.Contains\<close>.\<close>

definition contains :: "string \<Rightarrow> string \<Rightarrow> bool" where
  "contains s keyword \<longleftrightarrow> list_ex (\<lambda>i. take (length keyword) (drop i s) = keyword) [0..<length s + 1]"

definition list_matches :: "ChannelType \<Rightarrow> string list \<Rightarrow> Channel \<Rightarrow> bool" where
  "list_matches typeFilter metadataFilters c \<longleftrightarrow>
     \<not> (typeFilter \<noteq> ChannelType_UNKNOWN \<and> typeFilter \<noteq> ch_channelType c) \<and>
     (metadataFilters = [] \<or> list_ex (contains (ch_metadata c)) metadataFilters)"

definition handleListChannel :: "Externs \<Rightarrow> MessageContext \<Rightarrow> World \<Rightarrow> World option" where
  "handleListChannel E ctx w =
     (if x_Channel ctx \<noteq> w_globalChannel w then logs ctx w
      else case x_Msg ctx of
        ListChannelMessage typeFilter metadataFilters \<Rightarrow> do {
          p \<leftarrow> conn_deref (x_Connection ctx);
          let result = map (\<lambda>c. \<lparr>ci_ChannelId = ch_id c, ci_ChannelType = ch_channelType c, ci_Metadata = ch_metadata c\<rparr>)
            (filter (list_matches typeFilter metadataFilters) (map (\<lambda>(_, c). w_chan w c) (w_allChannels w)));
          Some (world_Send E p (ctx\<lparr>x_Msg := ListChannelResultMessage result\<rparr>) w)
        }
      | _ \<Rightarrow> logs ctx w)"

subsection \<open>Subscriptions\<close>

text \<open>The notices after a subscription: to the sender, to the subscribed, and to a live owner that did
not send the message.\<close>

definition notify_subscribed ::
  "Externs \<Rightarrow> MessageContext \<Rightarrow> ChanPtr \<Rightarrow> ConnPtr \<Rightarrow> ConnPtr \<Rightarrow> ChannelSubscriptionOptions \<Rightarrow> World \<Rightarrow> World option" where
  "notify_subscribed E ctx ch p connToSub opts w = do {
     let w1 = sendSubscribed E p ctx ch connToSub (x_StubId ctx) opts w;
     let w2 = (if connToSub \<noteq> p then sendSubscribed E connToSub ctx ch connToSub 0 opts w1 else w1);
     hasOwner \<leftarrow> (if GetOwner w2 ch \<noteq> Conn p then HasOwner w2 ch else Some False);
     if hasOwner then do {
       owner \<leftarrow> conn_deref (GetOwner w2 ch);
       Some (sendSubscribed E owner ctx ch connToSub 0 opts w2)
     }
     else Some w2
   }"

definition handleSubToChannel :: "Externs \<Rightarrow> MessageContext \<Rightarrow> World \<Rightarrow> World option" where
  "handleSubToChannel E ctx w = (case x_Msg ctx of
     SubscribedToChannelMessage connId subOptions \<Rightarrow> do {
       p \<leftarrow> conn_deref (x_Connection ctx);
       (case (if c_connectionType (w_conn w p) = ConnectionType_CLIENT then Some p else GetConnection w connId) of
          None \<Rightarrow> Some w
        | Some connToSub \<Rightarrow> do {
            ch \<leftarrow> x_Channel ctx;
            (hasAccess, err) \<leftarrow> CheckACL w ch (x_Connection ctx) Access_Sub;
            if c_id (w_conn w connToSub) \<noteq> c_id (w_conn w p) \<and> \<not> hasAccess then Some w
            else do {
              (w1, cs, shouldSend) \<leftarrow> SubscribeToChannel E connToSub ch subOptions w;
              if \<not> shouldSend then Some w1
              else do { s \<leftarrow> cs; notify_subscribed E ctx ch p connToSub (cs_options s) w1 }
            }
          })
     }
   | _ \<Rightarrow> logs ctx w)"

definition notify_unsubscribed ::
  "Externs \<Rightarrow> MessageContext \<Rightarrow> ChanPtr \<Rightarrow> ConnPtr \<Rightarrow> ConnPtr \<Rightarrow> World \<Rightarrow> World option" where
  "notify_unsubscribed E ctx ch p connToUnsub w = do {
     let w1 = sendUnsubscribed E p ctx ch (Some connToUnsub) (x_StubId ctx) w;
     let w2 = (if connToUnsub \<noteq> p then sendUnsubscribed E connToUnsub ctx ch (Some connToUnsub) 0 w1 else w1);
     hasOwner \<leftarrow> HasOwner w2 ch;
     if hasOwner then do {
       owner \<leftarrow> conn_deref (GetOwner w2 ch);
       Some (if owner \<noteq> p \<and> owner \<noteq> connToUnsub
             then sendUnsubscribed E owner ctx ch (Some connToUnsub) 0 w2
             else if owner = connToUnsub then SetOwner ch NilIface w2
             else w2)
     }
     else Some w2
   }"

definition handleUnsubFromChannel :: "Externs \<Rightarrow> MessageContext \<Rightarrow> World \<Rightarrow> World option" where
  "handleUnsubFromChannel E ctx w = (case x_Msg ctx of
     UnsubscribedFromChannelMessage connId \<Rightarrow> (case GetConnection w connId of
       None \<Rightarrow> logs ctx w
     | Some connToUnsub \<Rightarrow> do {
         ch \<leftarrow> x_Channel ctx;
         (hasAccess, err) \<leftarrow> CheckACL w ch (x_Connection ctx) Access_Unsub;
         p \<leftarrow> conn_deref (x_Connection ctx);
         if c_id (w_conn w connToUnsub) \<noteq> c_id (w_conn w p) \<and> \<not> hasAccess then Some w
         else case UnsubscribeFromChannel connToUnsub ch w of
           (w1, None) \<Rightarrow> Some w1
         | (w1, Some opts) \<Rightarrow> notify_unsubscribed E ctx ch p connToUnsub w1
       })
   | _ \<Rightarrow> logs ctx w)"

subsection \<open>Channel data and disconnection\<close>

text \<open>Who an update counts as sent by: the owner, a subscriber with write access, or, for any other
server, the live owner in its place; \<open>Some None\<close> is a refusal.\<close>

definition update_sender :: "World \<Rightarrow> MessageContext \<Rightarrow> ChanPtr \<Rightarrow> ConnRef option option" where
  "update_sender w ctx ch =
     (if GetOwner w ch = x_Connection ctx then Some (Some (x_Connection ctx))
      else do {
        writable \<leftarrow> (case map_of (ch_subscribedConnections (w_chan w ch)) (x_Connection ctx) of
          None \<Rightarrow> Some False
        | Some cs \<Rightarrow> map_option (\<lambda>a. a = DataAccess_WRITE_ACCESS) (so_DataAccess (cs_options cs)));
        if writable then Some (Some (x_Connection ctx))
        else do {
          p \<leftarrow> conn_deref (x_Connection ctx);
          hasOwner \<leftarrow> (if c_connectionType (w_conn w p) = ConnectionType_SERVER then HasOwner w ch else Some False);
          Some (if hasOwner then Some (GetOwner w ch) else None)
        }
      })"

text \<open>A call of the channel's notifier, the spatial controller.\<close>

definition notify :: "Externs \<Rightarrow> ChanPtr \<Rightarrow> NotifyCall \<Rightarrow> World \<Rightarrow> World option" where
  "notify E ch call w = do {
     sp \<leftarrow> ex_spatial E;
     sp_Notify sp call (log_event (EvNotify ch call) w)
   }"

definition apply_update ::
  "Externs \<Rightarrow> MessageContext \<Rightarrow> ChanPtr \<Rightarrow> ConnPtr \<Rightarrow> DataMsg \<Rightarrow> uint32 \<Rightarrow> ChannelData \<Rightarrow> World \<Rightarrow> World option" where
  "apply_update E ctx ch p updateMsg contextConnId d w =
     (let notifier = ch_spatialNotifier (w_chan w ch);
          sender = c_id (w_conn w p);
          w1 = (if notifier then upd_chan ch (\<lambda>c. c\<lparr>ch_latestDataUpdateConnId :=
                  (if c_connectionType (w_conn w p) = ConnectionType_CLIENT then sender else contextConnId)\<rparr>) w
                else w) in
      case merge_update E updateMsg notifier d of
        (d1, ref, calls) \<Rightarrow> do {
          w2 \<leftarrow> for_each (notify E ch) calls (upd_chan ch (\<lambda>c. c\<lparr>ch_data := Some d1\<rparr>) w1);
          Some (upd_chan ch (\<lambda>c. c\<lparr>ch_data := map_option (buffer_update ref (x_arrivalTime ctx) sender) (ch_data c)\<rparr>) w2)
        })"

text \<open>An update without data fails to unmarshal, and the error message dereferences it.\<close>

definition handleChannelDataUpdate :: "Externs \<Rightarrow> MessageContext \<Rightarrow> World \<Rightarrow> World option" where
  "handleChannelDataUpdate E ctx w = do {
     ch \<leftarrow> x_Channel ctx;
     sender \<leftarrow> update_sender w ctx ch;
     (case sender of
        None \<Rightarrow> Some w
      | Some r \<Rightarrow> do {
          p \<leftarrow> conn_deref r;
          (case ch_data (w_chan w ch) of
             None \<Rightarrow> Some w
           | Some d \<Rightarrow> (case x_Msg ctx of
               ChannelDataUpdateMessage data contextConnId \<Rightarrow> do {
                 any \<leftarrow> data;
                 (case ex_unmarshalAny E any of
                    None \<Rightarrow> Some w
                  | Some updateMsg \<Rightarrow> apply_update E ctx ch p updateMsg contextConnId d w)
               }
             | _ \<Rightarrow> Some w))
        })
   }"

definition handleDisconnect :: "Externs \<Rightarrow> MessageContext \<Rightarrow> World \<Rightarrow> World option" where
  "handleDisconnect E ctx w =
     (if x_Channel ctx \<noteq> w_globalChannel w then logs ctx w
      else case x_Msg ctx of
        DisconnectMessage connId \<Rightarrow> (case GetConnection w connId of
          None \<Rightarrow> logs ctx w
        | Some connToDisconnect \<Rightarrow> do { _ \<leftarrow> logs ctx w; Some (conn_Close False connToDisconnect w) })
      | _ \<Rightarrow> logs ctx w)"

subsection \<open>Who may update channel data\<close>

definition may_write :: "World \<Rightarrow> ChanPtr \<Rightarrow> ConnPtr \<Rightarrow> bool" where
  "may_write w ch p \<longleftrightarrow> GetOwner w ch = Conn p \<or>
     (\<exists>cs. map_of (ch_subscribedConnections (w_chan w ch)) (Conn p) = Some cs \<and>
        so_DataAccess (cs_options cs) = Some DataAccess_WRITE_ACCESS)"

lemma update_sender_cases:
  assumes "fan_ok w (w_chan w ch)" and "x_Connection ctx = Conn p" and "GetOwner w ch \<noteq> NilConn"
  shows "update_sender w ctx ch = Some (if may_write w ch p then Some (Conn p)
    else if c_connectionType (w_conn w p) = ConnectionType_SERVER \<and> HasOwner w ch = Some True
    then Some (GetOwner w ch) else None)"
proof (cases "GetOwner w ch = Conn p")
  case True
  then show ?thesis using assms(2) by (simp add: update_sender_def may_write_def)
next
  case False
  obtain b where b: "HasOwner w ch = Some b" using HasOwner_total [OF assms(3)] by blast
  show ?thesis
  proof (cases "map_of (ch_subscribedConnections (w_chan w ch)) (Conn p)")
    case None
    then show ?thesis using False assms(2) b by (simp add: update_sender_def may_write_def)
  next
    case (Some cs)
    with fan_okD(2) [OF assms(1)] obtain a where "so_DataAccess (cs_options cs) = Some a"
      by (fastforce simp: opts_full_def)
    then show ?thesis using Some False assms(2) b by (simp add: update_sender_def may_write_def)
  qed
qed

text \<open>
  C15. A data update is applied to the channel when its sender owns the channel or subscribes to it with
  write access, and counts as the sender's.  Any other server connection may update too as long as the
  channel has a live owner, and then it counts as the owner's.  Everybody else is refused: nothing
  changes, and nothing panics.
\<close>

theorem handleChannelDataUpdate_access:
  assumes "fan_ok w (w_chan w ch)" and "x_Connection ctx = Conn p" and "x_Channel ctx = Some ch"
    and "GetOwner w ch \<noteq> NilConn" and "ch_data (w_chan w ch) = Some d"
    and "x_Msg ctx = ChannelDataUpdateMessage (Some any) contextConnId" and "ex_unmarshalAny E any = Some m"
  shows "handleChannelDataUpdate E ctx w =
    (if may_write w ch p then apply_update E ctx ch p m contextConnId d w
     else if c_connectionType (w_conn w p) = ConnectionType_SERVER \<and> HasOwner w ch = Some True
     then apply_update E ctx ch (the (conn_deref (GetOwner w ch))) m contextConnId d w
     else Some w)"
  using update_sender_cases [OF assms(1,2,4)] assms(2-7)
  by (cases "GetOwner w ch") (auto simp: handleChannelDataUpdate_def HasOwner_def)

text \<open>An update that moves no entity is one \<open>OnUpdate\<close> of the channel's data.\<close>

lemma apply_update_OnUpdate:
  assumes "OnUpdate E m (x_arrivalTime ctx) (c_id (w_conn w p)) (ch_spatialNotifier (w_chan w ch)) d = (d', [])"
  shows "\<exists>w'. apply_update E ctx ch p m c d w = Some w' \<and> ch_data (w_chan w' ch) = Some d'"
  using assms by (auto simp: apply_update_def OnUpdate_def Let_def split: prod.splits)

definition update_ctx :: "ConnPtr \<Rightarrow> AnyMsg option \<Rightarrow> MessageContext" where
  "update_ctx p data = empty_ctx\<lparr>x_MsgType := MessageType_CHANNEL_DATA_UPDATE, x_Connection := Conn p,
     x_Channel := Some 0, x_Msg := ChannelDataUpdateMessage data 0\<rparr>"

definition update_world :: World where
  "update_world = upd_chan 0 (\<lambda>c. c\<lparr>ch_data := Some (empty_data None None)\<rparr>) resub_world"

lemma update_world_facts:
  "fan_ok update_world (w_chan update_world 0)" "GetOwner update_world 0 = NilIface"
  "ch_data (w_chan update_world 0) = Some (empty_data None None)"
  "\<not> may_write update_world 0 0" "c_connectionType (w_conn update_world 0) = 2"
  using resub_world_facts(2)
  by (auto simp: update_world_def resub_world_def sub_world_def demo_world_def GetOwner_def may_write_def
      demo_sub_def demo_conn_def fan_ok_def)

theorem handleChannelDataUpdate_access_witness:
  "handleChannelDataUpdate demo_externs (update_ctx 0 (Some \<lparr>any_TypeUrl = ''t'', any_Value = []\<rparr>)) update_world =
     Some update_world"
proof -
  have "GetOwner update_world 0 \<noteq> NilConn" using update_world_facts(2) by simp
  then show ?thesis
    using handleChannelDataUpdate_access [OF update_world_facts(1) _ _ _ update_world_facts(3),
        of "update_ctx 0 (Some \<lparr>any_TypeUrl = ''t'', any_Value = []\<rparr>)" 0 "\<lparr>any_TypeUrl = ''t'', any_Value = []\<rparr>" 0
          demo_externs "\<lparr>dm_type = ''t'', dm_fields = []\<rparr>"] update_world_facts(4,5)
    by (simp add: update_ctx_def demo_externs_def)
qed

text \<open>
  An update message without data from a connection that may write is a panic: unmarshalling the
  missing data fails, and the report of the failure reads its type.
\<close>

theorem handleChannelDataUpdate_without_data_panics:
  assumes "fan_ok w (w_chan w ch)" and "x_Connection ctx = Conn p" and "x_Channel ctx = Some ch"
    and "GetOwner w ch \<noteq> NilConn" and "ch_data (w_chan w ch) = Some d"
    and "x_Msg ctx = ChannelDataUpdateMessage None contextConnId" and "may_write w ch p"
  shows "handleChannelDataUpdate E ctx w = None"
  using update_sender_cases [OF assms(1,2,4)] assms(2-7) by (simp add: handleChannelDataUpdate_def)

theorem handleChannelDataUpdate_without_data_panics_witness:
  "handleChannelDataUpdate demo_externs (update_ctx 0 None) (SetOwner 0 (Conn 0) update_world) = None"
proof -
  let ?w = "SetOwner 0 (Conn 0) update_world"
  have "fan_ok ?w (w_chan ?w 0)" "GetOwner ?w 0 = Conn 0" "ch_data (w_chan ?w 0) = Some (empty_data None None)"
    using update_world_facts(1,3) by (simp_all add: SetOwner_def GetOwner_def fan_ok_def)
  then show ?thesis
    using handleChannelDataUpdate_without_data_panics [of ?w 0 "update_ctx 0 None" 0 "empty_data None None" 0 demo_externs]
    by (simp add: update_ctx_def may_write_def)
qed

subsection \<open>Creating channels\<close>

lemma SendToOwner_total:
  assumes "GetOwner w g \<noteq> NilConn"
  shows "\<exists>w' b. SendToOwner E g ctx w = Some (w', b) \<and> w_chan w' = w_chan w \<and> conns_kept w w' \<and>
    w_allChannels w' = w_allChannels w"
  using assms by (cases "GetOwner w g") (auto simp: SendToOwner_def)

lemma world_Send_keeps [simp]: "w_now (world_Send E p ctx w) = w_now w" "GetOwner (world_Send E q ctx w) c = GetOwner w c"
  "GetTime (world_Send E q ctx w) c = GetTime w c"
  by (simp_all add: world_Send_def GetOwner_def GetTime_def)

text \<open>What a creation leaves behind: the creator is subscribed with its options on top of the defaults, and
nothing but the new channel and the creator's interest has changed.\<close>

definition created :: "Externs \<Rightarrow> World \<Rightarrow> ChanPtr \<Rightarrow> ConnPtr \<Rightarrow> ChannelSubscriptionOptions option \<Rightarrow>
    string \<Rightarrow> bool \<Rightarrow> World \<Rightarrow> bool" where
  "created E w c p subOptions metadata hasData w' \<longleftrightarrow>
     conns_kept w w' \<and> w_allChannels w' = w_allChannels w \<and> (\<forall>c'. c' \<noteq> c \<longrightarrow> w_chan w' c' = w_chan w c') \<and>
     map_option cs_options (map_of (ch_subscribedConnections (w_chan w' c)) (Conn p)) =
       Some (merge_options E (defaultSubOptions w (ch_channelType (w_chan w c))) subOptions) \<and>
     ch_id (w_chan w' c) = ch_id (w_chan w c) \<and> ch_metadata (w_chan w' c) = metadata \<and>
     (ch_data (w_chan w' c) \<noteq> None) = hasData \<and>
     ch_channelType (w_chan w' c) = ch_channelType (w_chan w c) \<and> GetOwner w' c = GetOwner w c \<and>
     (fan_ok w (w_chan w c) \<longrightarrow> fan_ok w' (w_chan w' c))"

lemma subscribe_creator_result:
  assumes "merge_law E" and "\<not> IsClosing (w_conn w p)"
    and "map_of (ch_subscribedConnections (w_chan w c)) (Conn p) = None"
  shows "\<exists>w'. subscribe_creator E ctx p subOptions c w = Some w' \<and>
    created E w c p subOptions (ch_metadata (w_chan w c)) (ch_data (w_chan w c) \<noteq> None) w'"
proof -
  obtain skip delay interval cs where
    cs: "cs = \<lparr>cs_options = merge_options E (defaultSubOptions w (ch_channelType (w_chan w c))) subOptions,
       cs_subTime = GetTime w c, cs_fanOutElement = ch_nextElement (w_chan w c)\<rparr>" "opts_full (cs_options cs)"
    and sub: "SubscribeToChannel E p c subOptions w =
       Some (add_interest p c (upd_chan c (enter_subscription p cs skip delay interval) w), Some cs, True)"
    by (rule SubscribeToChannel_new [OF assms(1-3)])
  let ?w1 = "add_interest p c (upd_chan c (enter_subscription p cs skip delay interval) w)"
  let ?w2 = "sendSubscribed E p ctx c p 0 (cs_options cs) ?w1"
  have run: "subscribe_creator E ctx p subOptions c w = Some ?w2" using sub by (simp add: subscribe_creator_def)
  have ch: "w_chan ?w2 = (w_chan w)(c := enter_subscription p cs skip delay interval (w_chan w c))"
    by (simp add: sendSubscribed_def)
  have "conns_kept w ?w1"
    by (auto simp: conns_kept_def add_interest_def)
  then have k: "conns_kept w ?w2" unfolding sendSubscribed_def using conns_kept_send(1) by (rule conns_kept_trans)
  have f: "fan_ok ?w2 (w_chan ?w2 c)" if "fan_ok w (w_chan w c)"
  proof -
    have "fan_ok w (enter_subscription p cs skip delay interval (w_chan w c))"
      by (rule enter_subscription_fan_ok [OF that assms(3,2) cs(2)]) (simp add: cs(1))
    then show ?thesis using ch conns_kept_closing [OF k] fan_ok_cong [of ?w2 w] by simp
  qed
  have a: "w_allChannels ?w2 = w_allChannels w" by (simp add: sendSubscribed_def add_interest_def)
  have e: "map_of (ch_subscribedConnections (w_chan ?w2 c)) (Conn p) = Some cs"
    "ch_id (w_chan ?w2 c) = ch_id (w_chan w c)" "ch_metadata (w_chan ?w2 c) = ch_metadata (w_chan w c)"
    "(ch_data (w_chan ?w2 c) \<noteq> None) = (ch_data (w_chan w c) \<noteq> None)"
    "ch_channelType (w_chan ?w2 c) = ch_channelType (w_chan w c)" "GetOwner ?w2 c = GetOwner w c"
    unfolding GetOwner_def ch by (simp_all add: enter_subscription_def)
  have o: "\<forall>c'. c' \<noteq> c \<longrightarrow> w_chan ?w2 c' = w_chan w c'" unfolding ch by simp
  have q: "map_option cs_options (map_of (ch_subscribedConnections (w_chan ?w2 c)) (Conn p)) =
      Some (merge_options E (defaultSubOptions w (ch_channelType (w_chan w c))) subOptions)"
    unfolding e(1) using cs(1) by simp
  have "created E w c p subOptions (ch_metadata (w_chan w c)) (ch_data (w_chan w c) \<noteq> None) ?w2"
    unfolding created_def by (intro conjI) (fact k a o q e | rule impI, erule f)+
  with run show ?thesis by blast
qed

lemma answer_creator_result:
  assumes "w_globalChannel w = Some g" and "GetOwner w g \<noteq> NilConn"
  shows "\<exists>w' ctx'. answer_creator E ctx p w = Some (w', ctx') \<and> conns_kept w w' \<and> w_chan w' = w_chan w \<and>
    w_allChannels w' = w_allChannels w"
proof -
  let ?w1 = "world_Send E p ctx w"
  have o1: "GetOwner ?w1 g \<noteq> NilConn" using assms(2) by simp
  obtain b where b: "HasOwner ?w1 g = Some b" using HasOwner_total [OF o1] by blast
  obtain w2 c where w2: "SendToOwner E g (ctx\<lparr>x_StubId := 0\<rparr>) ?w1 = Some (w2, c)" "w_chan w2 = w_chan ?w1"
    "conns_kept ?w1 w2" "w_allChannels w2 = w_allChannels ?w1"
    using SendToOwner_total [OF o1, of E "ctx\<lparr>x_StubId := 0\<rparr>"] by blast
  have "answer_creator E ctx p w = Some (if GetOwner ?w1 g \<noteq> x_Connection ctx \<and> b
      then (w2, ctx\<lparr>x_StubId := 0\<rparr>) else (?w1, ctx))"
    using assms(1) b w2(1) by (auto simp: answer_creator_def Let_def)
  then show ?thesis
    using w2 conns_kept_trans [OF conns_kept_send(1) w2(3)] by (auto split: if_splits)
qed

text \<open>What the second half of \<open>handleCreateChannel\<close> does with data that unmarshals.\<close>

lemma finish_create_result:
  assumes "merge_law E" and "\<not> IsClosing (w_conn w p)" and "w_globalChannel w = Some g"
    and "GetOwner w g \<noteq> NilConn" and "map_of (ch_subscribedConnections (w_chan w c)) (Conn p) = None"
    and "data = None \<or> (\<exists>any m. data = Some any \<and> ex_unmarshalAny E any = Some m)"
  shows "\<exists>w'. finish_create E ctx p c metadata subOptions data mergeOptions w = Some w' \<and>
    created E w c p subOptions metadata True w'"
proof -
  define w1 where "w1 = upd_chan c (\<lambda>c. c\<lparr>ch_metadata := metadata\<rparr>) w"
  obtain dm where dm: "(case data of None \<Rightarrow> Some None | Some any \<Rightarrow> map_option Some (ex_unmarshalAny E any)) = Some dm"
    using assms(6) by auto
  define w2 where "w2 = InitData E c dm mergeOptions w1"
  have c2: "w_chan w2 = (w_chan w)(c := (w_chan w c)\<lparr>ch_metadata := metadata,
      ch_data := Some (init_data E w1 (ch_channelType (w_chan w c)) dm mergeOptions)\<rparr>)"
    by (simp add: InitData_def w1_def w2_def)
  have "conns_kept w w1" unfolding w1_def by simp
  also have "conns_kept w1 w2" unfolding w2_def InitData_def by simp
  finally have k2: "conns_kept w w2" .
  have a2: "w_allChannels w2 = w_allChannels w" by (simp add: InitData_def w1_def w2_def)
  have g2: "w_globalChannel w2 = Some g" "GetOwner w2 g \<noteq> NilConn"
    using k2 assms(3,4) by (auto simp: conns_kept_def GetOwner_def c2)
  define ctx1 where "ctx1 = ctx\<lparr>x_Msg := CreateChannelResultMessage (ch_channelType (w_chan w2 c))
                (ch_metadata (w_chan w2 c)) (c_id (w_conn w2 p)) (ch_id (w_chan w2 c))\<rparr>"
  obtain w4 ctx2 where w4: "answer_creator E ctx1 p w2 = Some (w4, ctx2)" "conns_kept w2 w4"
    "w_chan w4 = w_chan w2" "w_allChannels w4 = w_allChannels w2"
    using answer_creator_result [OF g2] by blast
  have k4: "conns_kept w w4" using k2 w4(2) by (rule conns_kept_trans)
  have live4: "\<not> IsClosing (w_conn w4 p)" using assms(2) conns_kept_closing [OF k4] by simp
  have sub4: "map_of (ch_subscribedConnections (w_chan w4 c)) (Conn p) = None" using assms(5) by (simp add: w4(3) c2)
  have run: "finish_create E ctx p c metadata subOptions data mergeOptions w =
      subscribe_creator E ctx2 p subOptions c w4"
    using dm w4(1) by (simp add: finish_create_def Let_def flip: w1_def w2_def ctx1_def)
  obtain w' where s: "subscribe_creator E ctx2 p subOptions c w4 = Some w'"
    "created E w4 c p subOptions (ch_metadata (w_chan w4 c)) (ch_data (w_chan w4 c) \<noteq> None) w'"
    using subscribe_creator_result [OF assms(1) live4 sub4] by blast
  have d: "defaultSubOptions w4 t = defaultSubOptions w t" for t
    using k4 by (simp add: defaultSubOptions_def conns_kept_def)
  have f4: "fan_ok w4 (w_chan w4 c) = fan_ok w (w_chan w c)"
    using conns_kept_closing [OF k4] fan_ok_cong [of w4 w] by (simp add: w4(3) c2 fan_ok_def)
  have c4: "ch_id (w_chan w4 c) = ch_id (w_chan w c)" "ch_metadata (w_chan w4 c) = metadata"
    "ch_data (w_chan w4 c) \<noteq> None" "ch_channelType (w_chan w4 c) = ch_channelType (w_chan w c)"
    "GetOwner w4 c = GetOwner w c" "c' \<noteq> c \<Longrightarrow> w_chan w4 c' = w_chan w c'" for c'
    by (simp_all add: w4(3) c2 GetOwner_def)
  have o4: "(\<forall>c'. c' \<noteq> c \<longrightarrow> w_chan w' c' = w_chan w4 c') = (\<forall>c'. c' \<noteq> c \<longrightarrow> w_chan w' c' = w_chan w c')"
    using c4(6) by auto
  have "created E w c p subOptions metadata True w'"
    using s(2) c4(3) conns_kept_trans [OF k4]
    unfolding created_def w4(4) a2 d f4 c4(1,2,4,5) o4 by simp
  with s(1) show ?thesis unfolding run by blast
qed

text \<open>A channel fresh from \<open>CreateChannel\<close>, in particular its (empty) subscriptions.\<close>

lemma CreateChannel_fresh:
  assumes "registry_ok w" and "CreateChannel E t owner w = Some (w', Inr c)"
  shows "ch_subscribedConnections (w_chan w' c) = []" "fan_ok w' (w_chan w' c)" "conns_kept w w'"
    "GetOwner w' c = owner" "ch_channelType (w_chan w' c) = t" "c = w_nchan w"
    "q \<noteq> c \<Longrightarrow> w_chan w' q = w_chan w q"
proof -
  obtain i w1 where r: "createChannelWithId E i t owner w1 = Some (w', c)"
    and w1: "w1 = w\<lparr>w_nextSpatialChannelId := i\<rparr> \<or> w1 = w\<lparr>w_nextChannelId := i\<rparr>"
    by (rule CreateChannel_result [OF assms(2,1)])
  obtain k where k: "w' = log_event (EvChannelCreated c) (register_channel k w1)" "c = w_nchan w1"
    "ch_channelType k = t" "ch_ownerConnection k = owner" "ch_subscribedConnections k = []" "ch_fanOutQueue k = []"
    by (rule createChannelWithId_result [OF r]) simp
  show "ch_subscribedConnections (w_chan w' c) = []" "fan_ok w' (w_chan w' c)" "conns_kept w w'"
    "GetOwner w' c = owner" "ch_channelType (w_chan w' c) = t" "c = w_nchan w"
    "q \<noteq> c \<Longrightarrow> w_chan w' q = w_chan w q"
    using k w1 by (auto simp: register_channel_def Let_def fan_ok_def conns_kept_def GetOwner_def)
qed

definition data_unmarshals :: "Externs \<Rightarrow> AnyMsg option \<Rightarrow> bool" where
  "data_unmarshals E data \<longleftrightarrow> data = None \<or> (\<exists>any m. data = Some any \<and> ex_unmarshalAny E any = Some m)"

text \<open>
  C19. A live connection that asks the global channel for a channel of another type than GLOBAL or
  SPATIAL becomes its owner and its first subscriber, with its options on top of the defaults; the channel
  has the metadata and data, is registered under an identifier that was free, and no other channel changes.
\<close>

theorem handleCreateChannel_creates:
  assumes "merge_law E" and "registry_ok w" and "w_globalChannel w = Some g" and "GetChannel w (ch_id (w_chan w g)) = Some g"
    and "GetOwner w g \<noteq> NilConn"
    and "x_Channel ctx = Some g" and "x_Connection ctx = Conn p" and "\<not> IsClosing (w_conn w p)"
    and "x_Msg ctx = CreateChannelMessage t metadata subOptions data mergeOptions"
    and "t \<notin> {ChannelType_UNKNOWN, ChannelType_GLOBAL, ChannelType_SPATIAL}" and "data_unmarshals E data"
    and "CreateChannel E t (Conn p) w = Some (w1, Inr c)"
  shows "\<exists>w'. handleCreateChannel E ctx w = Some w' \<and> GetOwner w' c = Conn p \<and>
    map_option cs_options (map_of (ch_subscribedConnections (w_chan w' c)) (Conn p)) =
      Some (merge_options E (defaultSubOptions w t) subOptions) \<and>
    ch_metadata (w_chan w' c) = metadata \<and> ch_data (w_chan w' c) \<noteq> None \<and> fan_ok w' (w_chan w' c) \<and>
    GetChannel w (ch_id (w_chan w' c)) = None \<and> GetChannel w' (ch_id (w_chan w' c)) = Some c \<and>
    (\<forall>q. q \<noteq> c \<longrightarrow> w_chan w' q = w_chan w q)"
proof -
  note f = CreateChannel_fresh [OF assms(2,12)]
  obtain i w0 where r: "createChannelWithId E i t (Conn p) w0 = Some (w1, c)"
    and i: "map_of (w_allChannels w) i = None"
    and w0: "w0 = w\<lparr>w_nextSpatialChannelId := i\<rparr> \<or> w0 = w\<lparr>w_nextChannelId := i\<rparr>"
    by (rule CreateChannel_result [OF assms(12,2)])
  have id: "ch_id (w_chan w1 c) = i" by (rule createChannelWithId_id [OF r])
  have reg: "GetChannel w1 i = Some c"
    by (rule createChannelWithId_result [OF r]) (simp add: register_channel_def Let_def GetChannel_def)
  have "g < w_nchan w"
    using registry_okD(3) [OF assms(2)] assms(4) by (simp add: GetChannel_def)
  with f(6) have gc: "g \<noteq> c" by simp
  have w1: "\<not> IsClosing (w_conn w1 p)" "w_globalChannel w1 = Some g" "GetOwner w1 g \<noteq> NilConn"
    "map_of (ch_subscribedConnections (w_chan w1 c)) (Conn p) = None"
    using conns_kept_closing [OF f(3)] f(1,3,7) gc assms(3,5,8) by (simp_all add: conns_kept_def GetOwner_def)
  obtain w' where w': "finish_create E ctx p c metadata subOptions data mergeOptions w1 = Some w'"
    "created E w1 c p subOptions metadata True w'"
    using finish_create_result [OF assms(1) w1] assms(11) unfolding data_unmarshals_def by blast
  have run: "handleCreateChannel E ctx w = Some w'"
    using assms(3,6,7,9,10,12) w'(1) by (simp add: handleCreateChannel_def)
  have d: "defaultSubOptions w1 t = defaultSubOptions w t"
    using f(3) by (simp add: defaultSubOptions_def conns_kept_def)
  show ?thesis
    using run w'(2) f d id reg i unfolding created_def by (auto simp: GetChannel_def)
qed

text \<open>
  The global channel can be claimed by a live connection as long as it has no live owner: then that
  connection owns it and subscribes to it.  While it has a live owner the same request changes nothing.
\<close>

theorem handleCreateChannel_GLOBAL:
  assumes "merge_law E" and "w_globalChannel w = Some g" and "GetOwner w g \<noteq> NilConn"
    and "x_Channel ctx = Some g" and "x_Connection ctx = Conn p" and "\<not> IsClosing (w_conn w p)"
    and "x_Msg ctx = CreateChannelMessage ChannelType_GLOBAL metadata subOptions data mergeOptions"
    and "data_unmarshals E data"
    and "map_of (ch_subscribedConnections (w_chan w g)) (Conn p) = None" and "fan_ok w (w_chan w g)"
  shows "\<exists>w'. handleCreateChannel E ctx w = Some w' \<and>
    (if HasOwner w g = Some True then w' = w
     else GetOwner w' g = Conn p \<and> map_of (ch_subscribedConnections (w_chan w' g)) (Conn p) \<noteq> None \<and>
       fan_ok w' (w_chan w' g) \<and> (\<forall>c. c \<noteq> g \<longrightarrow> w_chan w' c = w_chan w c))"
proof -
  obtain b where b: "HasOwner w g = Some b" using HasOwner_total [OF assms(3)] by blast
  show ?thesis
  proof (cases b)
    case True
    then show ?thesis using b assms(2,4,5,7) by (simp add: handleCreateChannel_def logs_def)
  next
    case False
    let ?w1 = "log_event (EvGlobalChannelPossessed g) (SetOwner g (Conn p) w)"
    have w1: "\<not> IsClosing (w_conn ?w1 p)" "w_globalChannel ?w1 = Some g" "GetOwner ?w1 g \<noteq> NilConn"
      "map_of (ch_subscribedConnections (w_chan ?w1 g)) (Conn p) = None"
      using assms(2,6,9) by (simp_all add: SetOwner_def GetOwner_def)
    obtain w' where w': "finish_create E ctx p g metadata subOptions data mergeOptions ?w1 = Some w'"
      "created E ?w1 g p subOptions metadata True w'"
      using finish_create_result [OF assms(1) w1] assms(8) unfolding data_unmarshals_def by blast
    have "fan_ok ?w1 (w_chan ?w1 g)"
      using assms(10) by (simp add: SetOwner_def fan_ok_cong [of ?w1 w] fan_ok_def)
    then show ?thesis
      using w' b False assms(2,4,5,7) unfolding created_def
      by (auto simp: handleCreateChannel_def SetOwner_def GetOwner_def)
  qed
qed

definition claim_ctx :: "Msg \<Rightarrow> MessageContext" where
  "claim_ctx m = empty_ctx\<lparr>x_MsgType := MessageType_CREATE_CHANNEL, x_Channel := Some 0,
     x_Connection := Conn 0, x_Msg := m\<rparr>"

lemma chan_world_facts:
  "w_globalChannel chan_world = Some 0" "GetOwner chan_world g = NilIface" "\<not> IsClosing (w_conn chan_world p)"
  "fan_ok chan_world (w_chan chan_world c)" "ch_subscribedConnections (w_chan chan_world c) = []"
  "GetChannel chan_world (ch_id (w_chan chan_world 0)) = Some 0"
  by (simp_all add: chan_world_def demo_world_def GetOwner_def IsClosing_def demo_conn_def fan_ok_def GetChannel_def)

theorem handleCreateChannel_creates_witness:
  "\<exists>w' c. handleCreateChannel demo_externs (claim_ctx (CreateChannelMessage 3 ''room'' None None None)) chan_world = Some w' \<and>
    GetOwner w' c = Conn 0 \<and> ch_metadata (w_chan w' c) = ''room''"
proof -
  let ?ctx = "claim_ctx (CreateChannelMessage 3 ''room'' None None None)"
  have "\<exists>w1 c. CreateChannel demo_externs 3 (Conn 0) chan_world = Some (w1, Inr c)"
    by (simp add: CreateChannel_def chan_world_def demo_world_def default_settings_def GetNextIdTyped_def
        next_id_loop.simps createChannelWithId_def GetChannel_def Let_def ref_closing_def)
  then obtain w1 c where c: "CreateChannel demo_externs 3 (Conn 0) chan_world = Some (w1, Inr c)" by blast
  have "GetOwner chan_world 0 \<noteq> NilConn" by (simp add: chan_world_facts)
  from handleCreateChannel_creates [OF merge_law_demo chan_world_ok chan_world_facts(1,6) this, of ?ctx 0 3 "''room''" None None None w1 c] c
  show ?thesis by (auto simp: claim_ctx_def chan_world_facts data_unmarshals_def)
qed

theorem handleCreateChannel_GLOBAL_witness:
  "\<exists>w'. handleCreateChannel demo_externs (claim_ctx (CreateChannelMessage 1 [] None None None)) chan_world = Some w' \<and>
    GetOwner w' 0 = Conn 0"
proof -
  let ?ctx = "claim_ctx (CreateChannelMessage 1 [] None None None)"
  have "GetOwner chan_world 0 \<noteq> NilConn" "HasOwner chan_world 0 = Some False"
    by (simp_all add: chan_world_facts HasOwner_def)
  with handleCreateChannel_GLOBAL [OF merge_law_demo chan_world_facts(1), of ?ctx 0 "[]" None None None]
  show ?thesis by (fastforce simp: claim_ctx_def chan_world_facts data_unmarshals_def)
qed

subsection \<open>Removing channels\<close>

lemma send_removed_loop:
  "\<forall>r \<in> set rs. \<exists>p. r = Conn p \<Longrightarrow>
   \<exists>w1. for_each (send_removed E ctx) rs w = Some w1 \<and> same_registry w w1 \<and> w_chan w1 = w_chan w"
proof (induction rs arbitrary: w)
  case (Cons r rs)
  then obtain p where r: "r = Conn p" by auto
  have "same_registry w (world_Send E p (ctx\<lparr>x_StubId := 0\<rparr>) w)"
    by (simp add: same_registry_def world_Send_def)
  note k = same_registry_trans [OF this]
  obtain w1 where "for_each (send_removed E ctx) rs (world_Send E p (ctx\<lparr>x_StubId := 0\<rparr>) w) = Some w1"
    "same_registry (world_Send E p (ctx\<lparr>x_StubId := 0\<rparr>) w) w1"
    "w_chan w1 = w_chan (world_Send E p (ctx\<lparr>x_StubId := 0\<rparr>) w)"
    using Cons.IH [of "world_Send E p (ctx\<lparr>x_StubId := 0\<rparr>) w"] Cons.prems by auto
  moreover have "send_removed E ctx (Conn p) w = Some (world_Send E p (ctx\<lparr>x_StubId := 0\<rparr>) w)"
    by (simp add: send_removed_def)
  ultimately show ?case using r k by simp
qed simp


text \<open>
  The gateway's own request to remove a channel panics when the channel is gone by the time it is
  handled, for example after a first such request: the complaint about the identifier is logged on the
  sender, which is nil.
\<close>

theorem removal_requested_twice_panics:
  assumes "registry_ok w" and "GetChannel w (ch_id (w_chan w c)) = Some c"
    and "handleRemoveChannel E (cm_ctx (removal_message w c g)) w = Some w'" and "fan_ok w (w_chan w c)"
  shows "handleRemoveChannel E (cm_ctx (removal_message w c g)) w' = None"
proof -
  let ?ctx = "cm_ctx (removal_message w c g)"
  have ctx: "x_Msg ?ctx = RemoveChannelMessage (ch_id (w_chan w c))" "x_Connection ?ctx = NilConn"
    by (simp_all add: removal_message_def)
  have k: "\<forall>r \<in> set (alist_keys (ch_subscribedConnections (w_chan w c))). \<exists>p. r = Conn p"
    using fan_okD(2) [OF assms(4)] by (auto simp: set_alist_keys)
  obtain w1 where w1: "for_each (send_removed E ?ctx) (alist_keys (ch_subscribedConnections (w_chan w c))) w = Some w1"
    "same_registry w w1" "w_chan w1 = w_chan w"
    using send_removed_loop [OF k] by blast
  have "RemoveChannel c w1 = Some w'"
    using assms(2,3) w1(1) by (auto simp: handleRemoveChannel_def ctx HasConnection_def bind_Some_iff)
  then obtain w2 where w2: "same_registry w1 w2" "unregister_channel c w2 = Some w'"
    by (rule RemoveChannel_result)
  have s: "same_registry w w2" using w1(2) w2(1) by (rule same_registry_trans)
  have "GetChannel w' (ch_id (w_chan w c)) = None"
    using unregister_channel_result(1) [OF w2(2)] s by (simp add: GetChannel_def same_registry_def)
  then show ?thesis by (simp add: handleRemoveChannel_def ctx logs_def)
qed


theorem removal_requested_twice_panics_witness:
  "\<exists>w'. handleRemoveChannel demo_externs (cm_ctx (removal_message chan_world 1 0)) chan_world = Some w' \<and>
    handleRemoveChannel demo_externs (cm_ctx (removal_message chan_world 1 0)) w' = None"
proof -
  have g: "GetChannel chan_world (ch_id (w_chan chan_world 1)) = Some 1"
    by (simp add: chan_world_def demo_world_def GetChannel_def)
  have "\<exists>w'. handleRemoveChannel demo_externs (cm_ctx (removal_message chan_world 1 0)) chan_world = Some w'"
    by (simp add: handleRemoveChannel_def removal_message_def chan_world_def demo_world_def GetChannel_def
        CheckACL_def acl_level_def default_settings_def HasConnection_def RemoveChannel_def
        unregister_channel_def Let_def alist_keys_def)
  then obtain w' where "handleRemoveChannel demo_externs (cm_ctx (removal_message chan_world 1 0)) chan_world = Some w'" by blast
  with removal_requested_twice_panics [OF chan_world_ok g this chan_world_facts(4)] show ?thesis by blast
qed

subsection \<open>Subscription requests\<close>

lemma HasOwner_cong: "conns_kept w w' \<Longrightarrow> GetOwner w' ch = GetOwner w ch \<Longrightarrow> HasOwner w' ch = HasOwner w ch"
  by (cases "GetOwner w ch") (auto simp: HasOwner_def ref_closing_def conns_kept_closing)

lemma sendSubscribed_keeps [simp]:
  "conns_kept w (sendSubscribed E c ctx ch s stub o' w)" "w_chan (sendSubscribed E c ctx ch s stub o' w) = w_chan w"
  "conns_kept w (sendUnsubscribed E c ctx ch u stub w)" "w_chan (sendUnsubscribed E c ctx ch u stub w) = w_chan w"
  by (simp_all add: sendSubscribed_def sendUnsubscribed_def Let_def)

lemma notify_subscribed_result:
  assumes "GetOwner w ch \<noteq> NilConn"
  shows "\<exists>w'. notify_subscribed E ctx ch p q opts w = Some w' \<and> conns_kept w w' \<and> w_chan w' = w_chan w"
proof -
  define w1 where "w1 = sendSubscribed E p ctx ch q (x_StubId ctx) opts w"
  define w2 where "w2 = (if q \<noteq> p then sendSubscribed E q ctx ch q 0 opts w1 else w1)"
  have "conns_kept w w1" "conns_kept w1 w2" and c: "w_chan w2 = w_chan w" by (simp_all add: w1_def w2_def)
  then have k: "conns_kept w w2" using conns_kept_trans by blast
  have o: "GetOwner w2 ch \<noteq> NilConn" using assms c by (simp add: GetOwner_def)
  obtain b where b: "HasOwner w2 ch = Some b" using HasOwner_total [OF o] by blast
  have n: "notify_subscribed E ctx ch p q opts w = do {
      hasOwner \<leftarrow> (if GetOwner w2 ch \<noteq> Conn p then HasOwner w2 ch else Some False);
      if hasOwner then do {
        owner \<leftarrow> conn_deref (GetOwner w2 ch);
        Some (sendSubscribed E owner ctx ch q 0 opts w2)
      } else Some w2 }"
    unfolding notify_subscribed_def Let_def w1_def w2_def by (rule refl)
  show ?thesis
  proof (cases "GetOwner w2 ch \<noteq> Conn p \<and> b")
    case True
    then obtain ow where "GetOwner w2 ch = Conn ow"
      using o b by (cases "GetOwner w2 ch") (auto simp: HasOwner_def)
    then show ?thesis using True b c conns_kept_trans [OF k] by (simp add: n)
  next
    case False
    then show ?thesis using b c k by (auto simp: n)
  qed
qed

text \<open>
  C16. A client that asks to subscribe subscribes itself, whatever connection its message names; a
  server subscribes the named connection, if it is its own or the access table lets it, and changes
  nothing otherwise.  The new subscription has the requested options on top of the channel's defaults,
  and every other subscription, every other channel and the subscription invariant are kept.
\<close>

theorem handleSubToChannel_correct:
  assumes "merge_law E" and "fan_ok w (w_chan w ch)" and "GetOwner w ch \<noteq> NilConn"
    and "x_Connection ctx = Conn p" and "x_Channel ctx = Some ch"
    and "x_Msg ctx = SubscribedToChannelMessage connId subOptions"
    and "(if c_connectionType (w_conn w p) = ConnectionType_CLIENT then Some p else GetConnection w connId) = Some q"
    and "CheckACL w ch (Conn p) Access_Sub = Some (hasAccess, err)"
    and "\<not> IsClosing (w_conn w q)" and "map_of (ch_subscribedConnections (w_chan w ch)) (Conn q) = None"
  shows "\<exists>w'. handleSubToChannel E ctx w = Some w' \<and>
    (if c_id (w_conn w q) \<noteq> c_id (w_conn w p) \<and> \<not> hasAccess then w' = w
     else map_option cs_options (map_of (ch_subscribedConnections (w_chan w' ch)) (Conn q)) =
         Some (merge_options E (defaultSubOptions w (ch_channelType (w_chan w ch))) subOptions) \<and>
       (\<forall>r. r \<noteq> Conn q \<longrightarrow> map_of (ch_subscribedConnections (w_chan w' ch)) r =
          map_of (ch_subscribedConnections (w_chan w ch)) r) \<and>
       fan_ok w' (w_chan w' ch) \<and> (\<forall>c. c \<noteq> ch \<longrightarrow> w_chan w' c = w_chan w c))"
proof (cases "c_id (w_conn w q) \<noteq> c_id (w_conn w p) \<and> \<not> hasAccess")
  case True
  then show ?thesis using assms(4-8) by (simp add: handleSubToChannel_def)
next
  case False
  obtain skip delay interval cs where
    cs: "cs = \<lparr>cs_options = merge_options E (defaultSubOptions w (ch_channelType (w_chan w ch))) subOptions,
       cs_subTime = GetTime w ch, cs_fanOutElement = ch_nextElement (w_chan w ch)\<rparr>" "opts_full (cs_options cs)"
    and sub: "SubscribeToChannel E q ch subOptions w =
       Some (add_interest q ch (upd_chan ch (enter_subscription q cs skip delay interval) w), Some cs, True)"
    by (rule SubscribeToChannel_new [OF assms(1,9,10)])
  define w1 where "w1 = add_interest q ch (upd_chan ch (enter_subscription q cs skip delay interval) w)"
  have c1: "w_chan w1 = (w_chan w)(ch := enter_subscription q cs skip delay interval (w_chan w ch))"
    by (simp add: w1_def)
  have k1: "conns_kept w w1" by (auto simp: w1_def conns_kept_def add_interest_def)
  have o1: "GetOwner w1 ch \<noteq> NilConn" using assms(3) by (simp add: GetOwner_def c1 enter_subscription_def)
  obtain w' where w': "notify_subscribed E ctx ch p q (cs_options cs) w1 = Some w'" "conns_kept w1 w'" "w_chan w' = w_chan w1"
    using notify_subscribed_result [OF o1] by blast
  have run: "handleSubToChannel E ctx w = Some w'"
    using False assms(4-8) sub w'(1) by (auto simp: handleSubToChannel_def w1_def)
  have "fan_ok w (enter_subscription q cs skip delay interval (w_chan w ch))"
    by (rule enter_subscription_fan_ok [OF assms(2,10,9) cs(2)]) (simp add: cs(1))
  then have "fan_ok w' (w_chan w' ch)"
    using conns_kept_closing [OF conns_kept_trans [OF k1 w'(2)]] fan_ok_cong [of w' w] by (simp add: w'(3) c1)
  then show ?thesis using run False by (auto simp: w'(3) c1 enter_subscription_def cs(1))
qed

lemma UnsubscribeFromChannel_result:
  assumes "map_of (ch_subscribedConnections (w_chan w ch)) (Conn q) = Some cs"
  shows "\<exists>w1. UnsubscribeFromChannel q ch w = (w1, Some (cs_options cs)) \<and> conns_kept w w1 \<and>
    w_chan w1 = (w_chan w)(ch := leave_subscription q cs (w_chan w ch))"
  using assms by (auto simp: UnsubscribeFromChannel_def conns_kept_def drop_interest_def)

lemma notify_unsubscribed_result:
  assumes "GetOwner w ch \<noteq> NilConn" and "\<not> IsClosing (w_conn w q)"
  shows "\<exists>w'. notify_unsubscribed E ctx ch p q w = Some w' \<and> conns_kept w w' \<and>
    w_chan w' = (if GetOwner w ch = Conn q then (w_chan w)(ch := (w_chan w ch)\<lparr>ch_ownerConnection := NilIface\<rparr>)
                 else w_chan w)"
proof -
  define w1 where "w1 = sendUnsubscribed E p ctx ch (Some q) (x_StubId ctx) w"
  define w2 where "w2 = (if q \<noteq> p then sendUnsubscribed E q ctx ch (Some q) 0 w1 else w1)"
  have "conns_kept w w1" "conns_kept w1 w2" and c: "w_chan w2 = w_chan w" by (simp_all add: w1_def w2_def)
  then have k: "conns_kept w w2" using conns_kept_trans by blast
  have o: "GetOwner w2 ch = GetOwner w ch" using c by (simp add: GetOwner_def)
  have h: "HasOwner w2 ch = HasOwner w ch" by (rule HasOwner_cong [OF k o])
  have "notify_unsubscribed E ctx ch p q w = do {
     hasOwner \<leftarrow> HasOwner w2 ch;
     if hasOwner then do {
       owner \<leftarrow> conn_deref (GetOwner w2 ch);
       Some (if owner \<noteq> p \<and> owner \<noteq> q then sendUnsubscribed E owner ctx ch (Some q) 0 w2
             else if owner = q then SetOwner ch NilIface w2 else w2)
     } else Some w2 }"
    unfolding notify_unsubscribed_def Let_def w1_def w2_def by (rule refl)
  note n = this [unfolded o h]
  show ?thesis
  proof (cases "GetOwner w ch")
    case NilIface
    then show ?thesis using k c by (simp add: n HasOwner_def)
  next
    case NilConn
    then show ?thesis using assms(1) by simp
  next
    case (Conn ow)
    then show ?thesis
      using k c assms(2) conns_kept_trans [OF k]
      by (auto simp: n HasOwner_def ref_closing_def SetOwner_def)
  qed
qed

text \<open>
  C17. An admitted request to unsubscribe a live subscriber takes exactly its subscription and fan-out
  element away; a refused one (another connection's, without access) changes nothing.  An owner that
  unsubscribes, or is unsubscribed, stops being the owner.
\<close>

theorem handleUnsubFromChannel_correct:
  assumes "fan_ok w (w_chan w ch)" and "GetOwner w ch \<noteq> NilConn"
    and "x_Connection ctx = Conn p" and "x_Channel ctx = Some ch"
    and "x_Msg ctx = UnsubscribedFromChannelMessage connId" and "GetConnection w connId = Some q"
    and "CheckACL w ch (Conn p) Access_Unsub = Some (hasAccess, err)"
    and "\<not> IsClosing (w_conn w q)" and "map_of (ch_subscribedConnections (w_chan w ch)) (Conn q) = Some cs"
  shows "\<exists>w'. handleUnsubFromChannel E ctx w = Some w' \<and>
    (if c_id (w_conn w q) \<noteq> c_id (w_conn w p) \<and> \<not> hasAccess then w' = w
     else map_of (ch_subscribedConnections (w_chan w' ch)) =
         (map_of (ch_subscribedConnections (w_chan w ch)))(Conn q := None) \<and>
       ch_fanOutQueue (w_chan w' ch) = filter (\<lambda>f. foc_elem f \<noteq> cs_fanOutElement cs) (ch_fanOutQueue (w_chan w ch)) \<and>
       GetOwner w' ch = (if GetOwner w ch = Conn q then NilIface else GetOwner w ch) \<and>
       fan_ok w' (w_chan w' ch) \<and> (\<forall>c. c \<noteq> ch \<longrightarrow> w_chan w' c = w_chan w c))"
proof (cases "c_id (w_conn w q) \<noteq> c_id (w_conn w p) \<and> \<not> hasAccess")
  case True
  then show ?thesis using assms(3-7) by (simp add: handleUnsubFromChannel_def)
next
  case False
  obtain w1 where w1: "UnsubscribeFromChannel q ch w = (w1, Some (cs_options cs))" "conns_kept w w1"
    "w_chan w1 = (w_chan w)(ch := leave_subscription q cs (w_chan w ch))"
    using UnsubscribeFromChannel_result [OF assms(9)] by blast
  have o1: "GetOwner w1 ch = GetOwner w ch" by (simp add: GetOwner_def w1(3) leave_subscription_def)
  have l1: "\<not> IsClosing (w_conn w1 q)" using assms(8) conns_kept_closing [OF w1(2)] by simp
  have o1': "GetOwner w1 ch \<noteq> NilConn" using assms(2) o1 by simp
  obtain w' where w': "notify_unsubscribed E ctx ch p q w1 = Some w'" "conns_kept w1 w'"
    "w_chan w' = (if GetOwner w1 ch = Conn q then (w_chan w1)(ch := (w_chan w1 ch)\<lparr>ch_ownerConnection := NilIface\<rparr>)
                 else w_chan w1)"
    using notify_unsubscribed_result [OF o1' l1] by blast
  have run: "handleUnsubFromChannel E ctx w = Some w'"
    using False assms(3-7) w1(1) w'(1) by (auto simp: handleUnsubFromChannel_def)
  have "fan_ok w (leave_subscription q cs (w_chan w ch))"
    by (rule leave_subscription_fan_ok [OF assms(1,9,8)])
  then have "fan_ok w' (w_chan w' ch)"
    using conns_kept_closing [OF conns_kept_trans [OF w1(2) w'(2)]] fan_ok_cong [of w' w] by (simp add: w'(3) w1(3))
  then show ?thesis using run False o1 by (auto simp: w'(3) w1(3) leave_subscription_def GetOwner_def)
qed

text \<open>A client (identifier 7) that subscribes itself to a spatial channel, and leaves it again.\<close>

theorem handleSubToChannel_correct_witness:
  "\<exists>w'. handleSubToChannel demo_externs (claim_ctx (SubscribedToChannelMessage 0 None)) sub_world = Some w' \<and>
    map_of (ch_subscribedConnections (w_chan w' 0)) (Conn 0) \<noteq> None \<and> fan_ok w' (w_chan w' 0)"
proof -
  have acl: "CheckACL sub_world 0 (Conn 0) Access_Sub = Some (False, Some ErrNoneAccess)"
    by (simp add: CheckACL_def acl_level_def sub_world_def demo_world_def default_settings_def zero_channel_settings_def)
  have o: "GetOwner sub_world 0 \<noteq> NilConn" by (simp add: GetOwner_def sub_world_def demo_world_def)
  have t: "c_connectionType (w_conn sub_world 0) = ConnectionType_CLIENT" by (simp add: sub_world_def demo_conn_def)
  from handleSubToChannel_correct [OF merge_law_demo sub_world_facts(2) o _ _ _ _ acl sub_world_facts(1,3),
      of "claim_ctx (SubscribedToChannelMessage 0 None)" 0 None]
  show ?thesis by (fastforce simp: claim_ctx_def t)
qed

theorem handleUnsubFromChannel_correct_witness:
  "\<exists>w'. handleUnsubFromChannel demo_externs (claim_ctx (UnsubscribedFromChannelMessage 7)) resub_world = Some w' \<and>
    map_of (ch_subscribedConnections (w_chan w' 0)) (Conn 0) = None \<and> fan_ok w' (w_chan w' 0)"
proof -
  have acl: "CheckACL resub_world 0 (Conn 0) Access_Unsub = Some (False, Some ErrNoneAccess)"
    by (simp add: CheckACL_def acl_level_def resub_world_def sub_world_def demo_world_def default_settings_def
        zero_channel_settings_def)
  have f: "fan_ok resub_world (w_chan resub_world 0)" "\<not> IsClosing (w_conn resub_world 0)"
    "map_of (ch_subscribedConnections (w_chan resub_world 0)) (Conn 0) = Some demo_sub"
    using resub_world_facts by auto
  have o: "GetOwner resub_world 0 \<noteq> NilConn" by (simp add: GetOwner_def resub_world_def sub_world_def demo_world_def)
  have g: "GetConnection resub_world 7 = Some 0"
    using f(2) by (simp add: GetConnection_def resub_world_def sub_world_def)
  from handleUnsubFromChannel_correct [OF f(1) o _ _ _ g acl f(2,3),
      of "claim_ctx (UnsubscribedFromChannelMessage 7)" demo_externs]
  show ?thesis by (fastforce simp: claim_ctx_def)
qed

end
