(* ===== verification/Spatial.thy ===== *)
theory Spatial
  imports Messages
begin

text \<open>
  The spatial controller of the gateway (\<open>StaticGrid2DSpatialController\<close> in \<open>spatial.go\<close>): a static
  grid of \<open>GridCols\<close> by \<open>GridRows\<close> cells on the XZ plane, one spatial channel per cell, shared out to
  \<open>ServerCols\<close> by \<open>ServerRows\<close> servers in rectangular blocks.  This theory has the configuration, the
  map from positions to channels, the regions, the neighbours, the creation of a server's channels with
  the subscriptions across the borders of the blocks, and the controller's tick; the queries and the
  handover have theories of their own.

  The configuration is fixed once loaded.  The connections of the servers, the only state of the
  controller, are \<open>w_serverConnections\<close>; \<open>gridSize\<close> caches a value that is computed here each time.
\<close>

record StaticGrid2DSpatialController =
  GridWidth :: float64
  GridHeight :: float64
  GridCols :: uint32
  GridRows :: uint32
  WorldOffsetX :: float64
  WorldOffsetZ :: float64
  ServerCols :: uint32
  ServerRows :: uint32
  ServerInterestBorderSize :: uint32

subsection \<open>Configuration\<close>

text \<open>The configuration as it comes out of the JSON decoder (\<open>None\<close> where that fails).\<close>

definition config_error :: "StaticGrid2DSpatialController \<Rightarrow> string option" where
  "config_error ctl =
     (if fle (GridWidth ctl) (Fin 0) \<or> fle (GridHeight ctl) (Fin 0)
      then Some ''GridWidth and GridHeight should be positive''
      else if GridCols ctl \<le> 0 \<or> GridRows ctl \<le> 0
      then Some ''GridCols and GridRows should be positive''
      else if ServerCols ctl \<le> 0 \<or> ServerRows ctl \<le> 0
      then Some ''ServerCols and ServerRows should be positive''
      else if ServerInterestBorderSize ctl \<le> 0
      then Some ''ServerInterestBorderSize should be positive''
      else None)"

text \<open>\<open>LoadConfig\<close> leaves the decoded configuration in the controller even when it returns an error, and
\<open>InitSpatialController\<close> does not look at the error.\<close>

definition LoadConfig ::
  "StaticGrid2DSpatialController option \<Rightarrow> StaticGrid2DSpatialController \<Rightarrow>
   StaticGrid2DSpatialController \<times> string option" where
  "LoadConfig config ctl = (case config of
     None \<Rightarrow> (ctl, Some ''json'')
   | Some decoded \<Rightarrow> (decoded, config_error decoded))"

definition zero_controller :: StaticGrid2DSpatialController where
  "zero_controller = \<lparr>GridWidth = Fin 0, GridHeight = Fin 0, GridCols = 0, GridRows = 0,
     WorldOffsetX = Fin 0, WorldOffsetZ = Fin 0, ServerCols = 0, ServerRows = 0, ServerInterestBorderSize = 0\<rparr>"

definition InitSpatialController ::
  "StaticGrid2DSpatialController option \<Rightarrow> StaticGrid2DSpatialController" where
  "InitSpatialController config = fst (LoadConfig config zero_controller)"

definition WorldWidth :: "StaticGrid2DSpatialController \<Rightarrow> float64" where
  "WorldWidth ctl = fmul (GridWidth ctl) (of_uint32 (GridCols ctl))"

definition WorldHeight :: "StaticGrid2DSpatialController \<Rightarrow> float64" where
  "WorldHeight ctl = fmul (GridHeight ctl) (of_uint32 (GridRows ctl))"

definition GridSize :: "StaticGrid2DSpatialController \<Rightarrow> float64" where
  "GridSize ctl =
     (if flt (Fin 0) (GridWidth ctl) \<and> flt (Fin 0) (GridHeight ctl)
      then fsqrt (fadd (fmul (GridWidth ctl) (GridWidth ctl)) (fmul (GridHeight ctl) (GridHeight ctl)))
      else Fin 0)"

subsection \<open>Positions to channels\<close>

definition grid_index :: "Externs \<Rightarrow> float64 \<Rightarrow> float64 \<Rightarrow> float64 \<Rightarrow> int" where
  "grid_index E v origin cell = go_int (ex_floatToInt E) (ffloor (fdiv (fsub v origin) cell))"

text \<open>The channel identifier, and whether there is no error.\<close>

definition GetChannelIdWithOffset ::
  "Externs \<Rightarrow> StaticGrid2DSpatialController \<Rightarrow> GlobalSettingsType \<Rightarrow> SpatialInfo \<Rightarrow> float64 \<Rightarrow> float64 \<Rightarrow> uint32 \<times> bool" where
  "GetChannelIdWithOffset E ctl s info offsetX offsetZ =
     (let gridX = grid_index E (si_X info) offsetX (GridWidth ctl) in
      if gridX < 0 \<or> gridX \<ge> uint (GridCols ctl) then (0, False)
      else
        let gridY = grid_index E (si_Z info) offsetZ (GridHeight ctl) in
        if gridY < 0 \<or> gridY \<ge> uint (GridRows ctl) then (0, False)
        else (of_int gridX + of_int gridY * GridCols ctl + gs_SpatialChannelIdStart s, True))"

definition grid_GetChannelId ::
  "Externs \<Rightarrow> StaticGrid2DSpatialController \<Rightarrow> GlobalSettingsType \<Rightarrow> SpatialInfo \<Rightarrow> uint32 \<times> bool" where
  "grid_GetChannelId E ctl s info = GetChannelIdWithOffset E ctl s info (WorldOffsetX ctl) (WorldOffsetZ ctl)"

definition GetChannelIdNoOffset ::
  "Externs \<Rightarrow> StaticGrid2DSpatialController \<Rightarrow> GlobalSettingsType \<Rightarrow> SpatialInfo \<Rightarrow> uint32 \<times> bool" where
  "GetChannelIdNoOffset E ctl s info = GetChannelIdWithOffset E ctl s info (Fin 0) (Fin 0)"

subsection \<open>Regions and neighbours\<close>

text \<open>How many columns (or rows) of the grid a server has; \<open>None\<close> is a division by zero.\<close>

definition server_share :: "uint32 \<Rightarrow> uint32 \<Rightarrow> uint32 option" where
  "server_share cells servers =
     (if servers = 0 then None
      else Some (cells div servers + (if cells mod servers > 0 then 1 else 0)))"

definition grid_MinY :: float64 where
  "grid_MinY = fdiv (round64 (-340282347000000000000000000000000000000)) (Fin 2)"

definition grid_MaxY :: float64 where
  "grid_MaxY = fdiv (round64 340282347000000000000000000000000000000) (Fin 2)"

definition region_at ::
  "StaticGrid2DSpatialController \<Rightarrow> GlobalSettingsType \<Rightarrow> uint32 \<Rightarrow> uint32 \<Rightarrow> uint32 \<Rightarrow> uint32 \<Rightarrow> SpatialRegion" where
  "region_at ctl s serverGridCols serverGridRows x y = \<lparr>
     sr_Min = \<lparr>si_X = fadd (WorldOffsetX ctl) (fmul (GridWidth ctl) (of_uint32 x)), si_Y = grid_MinY,
               si_Z = fadd (WorldOffsetZ ctl) (fmul (GridHeight ctl) (of_uint32 y))\<rparr>,
     sr_Max = \<lparr>si_X = fadd (WorldOffsetX ctl) (fmul (GridWidth ctl) (of_uint32 (x + 1))), si_Y = grid_MaxY,
               si_Z = fadd (WorldOffsetZ ctl) (fmul (GridHeight ctl) (of_uint32 (y + 1)))\<rparr>,
     sr_ChannelId = gs_SpatialChannelIdStart s + (x + y * GridCols ctl),
     sr_ServerIndex = x div serverGridCols + y div serverGridRows * ServerCols ctl\<rparr>"

text \<open>The cells in the order of the loops, \<open>(x, y)\<close> with \<open>y\<close> outside.\<close>

definition cells :: "nat \<Rightarrow> nat \<Rightarrow> (uint32 \<times> uint32) list" where
  "cells cols rows = concat (map (\<lambda>y. map (\<lambda>x. (of_nat x, of_nat y)) [0..<cols]) [0..<rows])"

text \<open>\<open>vs[index] = value\<close> for every cell, until a value is an error (the inner \<open>None\<close>); an index out of
range is a panic.\<close>

fun fill_cells ::
  "(uint32 \<times> uint32 \<Rightarrow> uint32) \<Rightarrow> (uint32 \<times> uint32 \<Rightarrow> 'v option) \<Rightarrow> (uint32 \<times> uint32) list \<Rightarrow> 'v list \<Rightarrow>
   'v list option option" where
  "fill_cells index v [] vs = Some (Some vs)"
| "fill_cells index v (c # cs) vs = (case v c of
     None \<Rightarrow> Some None
   | Some a \<Rightarrow> if unat (index c) < length vs then fill_cells index v cs (vs[unat (index c) := a]) else None)"

text \<open>The regions; the elements of the fresh slice are nil pointers in the code, none of which is left.\<close>

definition no_region :: SpatialRegion where
  "no_region = \<lparr>sr_Min = \<lparr>si_X = Fin 0, si_Y = Fin 0, si_Z = Fin 0\<rparr>,
     sr_Max = \<lparr>si_X = Fin 0, si_Y = Fin 0, si_Z = Fin 0\<rparr>, sr_ChannelId = 0, sr_ServerIndex = 0\<rparr>"

definition grid_GetRegions ::
  "StaticGrid2DSpatialController \<Rightarrow> GlobalSettingsType \<Rightarrow> SpatialRegion list option option" where
  "grid_GetRegions ctl s = do {
     serverGridCols \<leftarrow> server_share (GridCols ctl) (ServerCols ctl);
     serverGridRows \<leftarrow> server_share (GridRows ctl) (ServerRows ctl);
     fill_cells (\<lambda>(x, y). x + y * GridCols ctl)
       (\<lambda>(x, y). Some (region_at ctl s serverGridCols serverGridRows x y))
       (cells (unat (GridCols ctl)) (unat (GridRows ctl)))
       (replicate (unat (GridCols ctl * GridRows ctl)) no_region)
   }"

text \<open>The neighbours of a cell, row by row.  The coordinates are 32-bit signed integers: the loop from
\<open>g - 1\<close> to \<open>g + 1\<close> has no round when a bound overflows.\<close>

definition around :: "int \<Rightarrow> int list" where
  "around g = (if g = 2 ^ 31 - 1 \<or> g = - (2 ^ 31) then [] else [g - 1, g, g + 1])"

definition adjacent_cell :: "StaticGrid2DSpatialController \<Rightarrow> int \<Rightarrow> int \<Rightarrow> int \<times> int \<Rightarrow> bool" where
  "adjacent_cell ctl gridX gridY xy = (case xy of (x, y) \<Rightarrow>
     0 \<le> y \<and> y \<le> sint (GridRows ctl - 1) \<and> 0 \<le> x \<and> x \<le> sint (GridCols ctl - 1) \<and>
     (x, y) \<noteq> (gridX, gridY))"

definition grid_GetAdjacentChannels ::
  "StaticGrid2DSpatialController \<Rightarrow> GlobalSettingsType \<Rightarrow> uint32 \<Rightarrow> uint32 list option" where
  "grid_GetAdjacentChannels ctl s spatialChannelId =
     (if GridCols ctl = 0 then None
      else
        let index = spatialChannelId - gs_SpatialChannelIdStart s;
            gridX = sint (index mod GridCols ctl); gridY = sint (index div GridCols ctl) in
        Some (map (\<lambda>(x, y). of_int x + of_int y * GridCols ctl + gs_SpatialChannelIdStart s)
          (filter (adjacent_cell ctl gridX gridY)
            (concat (map (\<lambda>y. map (\<lambda>x. (x, y)) (around gridX)) (around gridY))))))"

subsection \<open>The servers' connections\<close>

definition opt_list :: "'a list option \<Rightarrow> 'a list" where
  "opt_list vs = (case vs of None \<Rightarrow> [] | Some l \<Rightarrow> l)"

definition initServerConnections :: "StaticGrid2DSpatialController \<Rightarrow> World \<Rightarrow> World" where
  "initServerConnections ctl w = (case w_serverConnections w of
     None \<Rightarrow> w\<lparr>w_serverConnections := Some (replicate (unat (ServerCols ctl * ServerRows ctl)) NilIface)\<rparr>
   | Some conns \<Rightarrow> w)"

text \<open>A slot is free when it is nil or its connection is closing.\<close>

definition free_slot :: "World \<Rightarrow> ConnRef \<Rightarrow> bool option" where
  "free_slot w r = (if r = NilIface then Some True else ref_closing w r)"

fun first_free :: "World \<Rightarrow> ConnRef list \<Rightarrow> nat option" where
  "first_free w [] = Some 0"
| "first_free w (r # rs) = do {
     free \<leftarrow> free_slot w r;
     if free then Some 0 else map_option Suc (first_free w rs)
   }"

definition nextServerIndex :: "World \<Rightarrow> uint32 option" where
  "nextServerIndex w = map_option of_nat (first_free w (opt_list (w_serverConnections w)))"

fun reset_slots :: "World \<Rightarrow> ConnRef list \<Rightarrow> ConnRef list option" where
  "reset_slots w [] = Some []"
| "reset_slots w (r # rs) = do {
     closing \<leftarrow> (if r = NilIface then Some False else ref_closing w r);
     rs' \<leftarrow> reset_slots w rs;
     Some ((if closing then NilIface else r) # rs')
   }"

definition grid_Tick :: "StaticGrid2DSpatialController \<Rightarrow> World \<Rightarrow> World option" where
  "grid_Tick ctl w = (let w1 = initServerConnections ctl w in
     map_option (\<lambda>conns. w1\<lparr>w_serverConnections := Some conns\<rparr>)
       (reset_slots w1 (opt_list (w_serverConnections w1))))"

subsection \<open>Creating the channels of a server\<close>

text \<open>The position whose cell is column \<open>x\<close>, row \<open>y\<close>, without the offset of the world.\<close>

definition cell_position :: "StaticGrid2DSpatialController \<Rightarrow> uint32 \<Rightarrow> uint32 \<Rightarrow> SpatialInfo" where
  "cell_position ctl x y = \<lparr>si_X = fmul (of_uint32 x) (GridWidth ctl), si_Y = Fin 0,
     si_Z = fmul (of_uint32 y) (GridHeight ctl)\<rparr>"

definition cell_channel ::
  "Externs \<Rightarrow> StaticGrid2DSpatialController \<Rightarrow> GlobalSettingsType \<Rightarrow> uint32 \<Rightarrow> uint32 \<Rightarrow> uint32 option" where
  "cell_channel E ctl s x y = (case GetChannelIdNoOffset E ctl s (cell_position ctl x y) of
     (channelId, ok) \<Rightarrow> if ok then Some channelId else None)"

definition block_ids ::
  "Externs \<Rightarrow> StaticGrid2DSpatialController \<Rightarrow> GlobalSettingsType \<Rightarrow> uint32 \<Rightarrow> uint32 \<Rightarrow> uint32 \<Rightarrow> uint32 list option option" where
  "block_ids E ctl s serverIndex gc gr =
     (let serverX = serverIndex mod ServerCols ctl; serverY = serverIndex div ServerCols ctl in
      fill_cells (\<lambda>(x, y). x + y * gc)
        (\<lambda>(x, y). cell_channel E ctl s (serverX * gc + x) (serverY * gr + y))
        (cells (unat gc) (unat gr)) (replicate (unat (gc * gr)) 0))"

text \<open>The loop that creates the channels: it stops at data that does not unmarshal, and leaves the
channels created so far.\<close>

fun create_block ::
  "Externs \<Rightarrow> MessageContext \<Rightarrow> AnyMsg option \<Rightarrow> ChannelDataMergeOptions option \<Rightarrow> uint32 list \<Rightarrow> World \<Rightarrow>
   (World \<times> ChanPtr list option) option" where
  "create_block E ctx data mergeOptions [] w = Some (w, Some [])"
| "create_block E ctx data mergeOptions (i # is) w = do {
     (w1, c) \<leftarrow> createChannelWithId E i ChannelType_SPATIAL (x_Connection ctx) w;
     (case (case data of None \<Rightarrow> Some None | Some any \<Rightarrow> map_option Some (ex_unmarshalAny E any)) of
        None \<Rightarrow> Some (w1, None)
      | Some dataMsg \<Rightarrow> do {
          (w2, cs) \<leftarrow> create_block E ctx data mergeOptions is (InitData E c dataMsg mergeOptions w1);
          Some (w2, map_option (\<lambda>cs. c # cs) cs)
        })
   }"

text \<open>Loops over cells that stop at an error (the flag is false then).\<close>

fun for_cells :: "('a \<Rightarrow> World \<Rightarrow> (World \<times> bool) option) \<Rightarrow> 'a list \<Rightarrow> World \<Rightarrow> (World \<times> bool) option" where
  "for_cells f [] w = Some (w, True)"
| "for_cells f (c # cs) w = do {
     (w1, ok) \<leftarrow> f c w;
     if ok then for_cells f cs w1 else Some (w1, False)
   }"

definition sub_border_cell ::
  "Externs \<Rightarrow> StaticGrid2DSpatialController \<Rightarrow> ConnRef \<Rightarrow> ChannelSubscriptionOptions option \<Rightarrow>
   uint32 \<times> uint32 \<Rightarrow> World \<Rightarrow> (World \<times> bool) option" where
  "sub_border_cell E ctl serverConn subOptions cell w =
     (case cell_channel E ctl (w_settings w) (fst cell) (snd cell) of
        None \<Rightarrow> Some (w, False)
      | Some channelId \<Rightarrow> (case GetChannel w channelId of
          None \<Rightarrow> Some (w, False)
        | Some channelToSub \<Rightarrow> do {
            p \<leftarrow> conn_deref serverConn;
            (w1, cs, shouldSend) \<leftarrow> SubscribeToChannel E p channelToSub subOptions w;
            if shouldSend then do {
              s \<leftarrow> cs;
              Some (sendSubscribed E p empty_ctx channelToSub p 0 (cs_options s) w1, True)
            }
            else Some (w1, True)
          }))"

text \<open>The cells across the four borders of a server's block, in the order of the loops.\<close>

definition border_cells ::
  "StaticGrid2DSpatialController \<Rightarrow> uint32 \<Rightarrow> uint32 \<Rightarrow> uint32 \<Rightarrow> uint32 \<Rightarrow> (uint32 \<times> uint32) list" where
  "border_cells ctl serverX serverY gc gr =
     (let border = unat (ServerInterestBorderSize ctl); rows = map of_nat [0..<unat gr]; cols = map of_nat [0..<unat gc] in
      (if serverX > 0
       then concat (map (\<lambda>y. map (\<lambda>x. (serverX * gc - of_nat x, serverY * gr + y)) [1..<Suc border]) rows) else []) @
      (if serverX < ServerCols ctl - 1
       then concat (map (\<lambda>y. map (\<lambda>x. ((serverX + 1) * gc + of_nat x, serverY * gr + y)) [0..<border]) rows) else []) @
      (if serverY > 0
       then concat (map (\<lambda>y. map (\<lambda>x. (serverX * gc + x, serverY * gr - of_nat y)) cols) [1..<Suc border]) else []) @
      (if serverY < ServerRows ctl - 1
       then concat (map (\<lambda>y. map (\<lambda>x. (serverX * gc + x, (serverY + 1) * gr + of_nat y)) cols) [0..<border]) else []))"

definition subToAdjacentChannels ::
  "Externs \<Rightarrow> StaticGrid2DSpatialController \<Rightarrow> uint32 \<Rightarrow> uint32 \<Rightarrow> ChannelSubscriptionOptions option \<Rightarrow>
   uint32 \<Rightarrow> World \<Rightarrow> (World \<times> bool) option" where
  "subToAdjacentChannels E ctl gc gr subOptions serverIndex w =
     (if ServerInterestBorderSize ctl = 0 then Some (w, True)
      else if unat serverIndex \<ge> length (opt_list (w_serverConnections w)) then None
      else
        let serverConn = opt_list (w_serverConnections w) ! unat serverIndex;
            serverX = serverIndex mod ServerCols ctl; serverY = serverIndex div ServerCols ctl in
        case cell_channel E ctl (w_settings w) (serverX * gc) (serverY * gr) of
          None \<Rightarrow> Some (w, False)
        | Some serverChannelId \<Rightarrow>
            (if GetChannel w serverChannelId = None then Some (w, False)
             else for_cells (sub_border_cell E ctl serverConn subOptions)
                    (border_cells ctl serverX serverY gc gr) w))"

definition MessageType_SPATIAL_CHANNELS_READY :: MessageType where
  [simp]: "MessageType_SPATIAL_CHANNELS_READY = 18"

definition send_ready :: "Externs \<Rightarrow> Msg \<Rightarrow> ConnRef \<Rightarrow> World \<Rightarrow> World option" where
  "send_ready E m r w = do {
     p \<leftarrow> conn_deref r;
     Some (world_Send E p (empty_ctx\<lparr>x_MsgType := MessageType_SPATIAL_CHANNELS_READY, x_Msg := m\<rparr>) w)
   }"

text \<open>When the last server has its channels, every server subscribes across its borders and all are
told; the flag is false when a subscription failed.\<close>

definition all_servers_ready ::
  "Externs \<Rightarrow> StaticGrid2DSpatialController \<Rightarrow> uint32 \<Rightarrow> uint32 \<Rightarrow> ChannelSubscriptionOptions option \<Rightarrow>
   uint32 \<Rightarrow> World \<Rightarrow> (World \<times> bool) option" where
  "all_servers_ready E ctl gc gr subOptions serverIndex w = do {
     (w1, ok) \<leftarrow> for_cells (subToAdjacentChannels E ctl gc gr subOptions) (map of_nat [0..<unat serverIndex]) w;
     if \<not> ok then Some (w1, False)
     else do {
       let m = SpatialChannelsReadyMessage serverIndex (ServerCols ctl * ServerRows ctl);
       w2 \<leftarrow> for_each (send_ready E m) (opt_list (w_serverConnections w1)) w1;
       g \<leftarrow> w_globalChannel w2;
       w3 \<leftarrow> (if GetOwner w2 g = NilIface then Some w2 else send_ready E m (GetOwner w2 g) w2);
       Some (w3, True)
     }
   }"

definition grid_CreateChannels ::
  "Externs \<Rightarrow> StaticGrid2DSpatialController \<Rightarrow> MessageContext \<Rightarrow> World \<Rightarrow> (World \<times> ChanPtr list option) option" where
  "grid_CreateChannels E ctl ctx w = do {
     let w0 = initServerConnections ctl w;
     serverIndex \<leftarrow> nextServerIndex w0;
     if serverIndex \<ge> ServerCols ctl * ServerRows ctl then Some (w0, None)
     else case x_Msg ctx of
       CreateChannelMessage t metadata subOptions data mergeOptions \<Rightarrow> do {
         gc \<leftarrow> server_share (GridCols ctl) (ServerCols ctl);
         gr \<leftarrow> server_share (GridRows ctl) (ServerRows ctl);
         ids \<leftarrow> block_ids E ctl (w_settings w0) serverIndex gc gr;
         (case ids of
            None \<Rightarrow> Some (w0, None)
          | Some channelIds \<Rightarrow> do {
              (w1, created) \<leftarrow> create_block E ctx data mergeOptions channelIds w0;
              (case created of
                 None \<Rightarrow> Some (w1, None)
               | Some channels \<Rightarrow> do {
                   conns \<leftarrow> w_serverConnections w1;
                   let w2 = w1\<lparr>w_serverConnections := Some (conns[unat serverIndex := x_Connection ctx])\<rparr>;
                   next \<leftarrow> nextServerIndex w2;
                   if next = ServerCols ctl * ServerRows ctl then do {
                     (w3, ok) \<leftarrow> all_servers_ready E ctl gc gr subOptions next w2;
                     Some (w3, if ok then Some channels else None)
                   }
                   else Some (w2, Some channels)
                 })
            })
       }
     | _ \<Rightarrow> Some (w0, None)
   }"

subsection \<open>Identifiers of cells\<close>

text \<open>A loaded grid whose identifiers fit into 32 bits.\<close>

definition grid_ok :: "StaticGrid2DSpatialController \<Rightarrow> GlobalSettingsType \<Rightarrow> bool" where
  "grid_ok ctl s \<longleftrightarrow> 0 < GridCols ctl \<and> 0 < GridRows ctl \<and> 0 < ServerCols ctl \<and> 0 < ServerRows ctl \<and>
     0 < gs_SpatialChannelIdStart s \<and>
     unat (gs_SpatialChannelIdStart s) + unat (GridCols ctl) * unat (GridRows ctl) \<le> 2 ^ 32"

text \<open>Cells of a whole number of units, in a world whose extent is exact in floating point.\<close>

definition whole_cells :: "StaticGrid2DSpatialController \<Rightarrow> bool" where
  "whole_cells ctl \<longleftrightarrow> (\<exists>wd ht. GridWidth ctl = Fin (of_int wd) \<and> GridHeight ctl = Fin (of_int ht) \<and>
     0 < wd \<and> 0 < ht \<and> uint (GridCols ctl) * wd < 2 ^ 53 \<and> uint (GridRows ctl) * ht < 2 ^ 53)"

text \<open>The identifier of the cell in column \<open>x\<close>, row \<open>y\<close>.\<close>

definition cell_id :: "StaticGrid2DSpatialController \<Rightarrow> GlobalSettingsType \<Rightarrow> nat \<Rightarrow> nat \<Rightarrow> uint32" where
  "cell_id ctl s x y = gs_SpatialChannelIdStart s + of_nat (x + y * unat (GridCols ctl))"

lemma int_less_uint [simp]: "int n < uint (w :: 'a :: len word) \<longleftrightarrow> n < unat w"
  by (simp flip: of_nat_less_iff [where 'a = int])

lemma uint_le_int [simp]: "uint (w :: 'a :: len word) \<le> int n \<longleftrightarrow> unat w \<le> n"
  by (simp flip: of_nat_le_iff [where 'a = int])

lemma int_le_uint [simp]: "int n \<le> uint (w :: 'a :: len word) \<longleftrightarrow> n \<le> unat w"
  by (simp flip: of_nat_le_iff [where 'a = int])

lemma nat_less_unat: "0 \<le> i \<Longrightarrow> nat i < unat (w :: 'a :: len word) \<longleftrightarrow> i < uint w"
  using int_less_uint [of "nat i" w] by simp

lemma cell_index_less:
  assumes "x < (c :: nat)" and "y < r"
  shows "x + y * c < c * r"
proof -
  have "x + y * c < (y + 1) * c" using assms(1) by simp
  also have "\<dots> \<le> r * c" using assms(2) by (intro mult_le_mono1) simp
  finally show ?thesis by (simp add: mult.commute)
qed

lemma cell_id_unat:
  assumes "grid_ok ctl s" and "x < unat (GridCols ctl)" and "y < unat (GridRows ctl)"
  shows "unat (cell_id ctl s x y) = unat (gs_SpatialChannelIdStart s) + (x + y * unat (GridCols ctl))"
proof -
  have "unat (gs_SpatialChannelIdStart s) + (x + y * unat (GridCols ctl)) < 2 ^ 32"
    using cell_index_less [OF assms(2,3)] assms(1) by (simp add: grid_ok_def)
  then have "unat (of_nat (unat (gs_SpatialChannelIdStart s) + (x + y * unat (GridCols ctl))) :: uint32) =
      unat (gs_SpatialChannelIdStart s) + (x + y * unat (GridCols ctl))"
    by (simp only: unsigned_of_nat of_nat_id) (simp add: take_bit_nat_eq_self)
  then show ?thesis by (simp add: cell_id_def)
qed

lemma cell_id_inject:
  assumes "grid_ok ctl s" and "x < unat (GridCols ctl)" "y < unat (GridRows ctl)"
    and "x' < unat (GridCols ctl)" "y' < unat (GridRows ctl)"
  shows "cell_id ctl s x y = cell_id ctl s x' y' \<longleftrightarrow> x = x' \<and> y = y'"
proof
  assume "cell_id ctl s x y = cell_id ctl s x' y'"
  then have "x + y * unat (GridCols ctl) = x' + y' * unat (GridCols ctl)"
    using cell_id_unat [OF assms(1-3)] cell_id_unat [OF assms(1,4,5)] by simp
  then show "x = x' \<and> y = y'"
    using assms(2,4) by (metis add.commute add_right_cancel bits_mod_div_trivial div_mult_self3 mod_mult_self3 mod_less div_less add_0_right bot_nat_0.not_eq_extremum less_nat_zero_code)
qed simp

lemma grid_id_cell_id:
  "of_int (int x) + of_int (int y) * GridCols ctl + gs_SpatialChannelIdStart s = cell_id ctl s x y"
  by (simp add: cell_id_def algebra_simps)

text \<open>What \<open>GetChannelIdWithOffset\<close> returns is the identifier of a cell of the grid.\<close>

lemma GetChannelIdWithOffset_cell:
  assumes "GetChannelIdWithOffset E ctl s info ox oz = (i, True)"
  obtains x y where "x < unat (GridCols ctl)" and "y < unat (GridRows ctl)" and "i = cell_id ctl s x y"
    and "grid_index E (si_X info) ox (GridWidth ctl) = int x" and "grid_index E (si_Z info) oz (GridHeight ctl) = int y"
proof -
  let ?x = "grid_index E (si_X info) ox (GridWidth ctl)" and ?y = "grid_index E (si_Z info) oz (GridHeight ctl)"
  have r: "0 \<le> ?x" "?x < uint (GridCols ctl)" "0 \<le> ?y" "?y < uint (GridRows ctl)"
    and i: "i = of_int ?x + of_int ?y * GridCols ctl + gs_SpatialChannelIdStart s"
    using assms by (auto simp: GetChannelIdWithOffset_def Let_def split: if_splits)
  show ?thesis
    by (rule that [of "nat ?x" "nat ?y"]) (use r i grid_id_cell_id [of "nat ?x" "nat ?y"] in \<open>auto simp: nat_less_unat\<close>)
qed

lemma GetChannelIdWithOffset_ok:
  assumes "grid_index E (si_X info) ox (GridWidth ctl) = int x" and "grid_index E (si_Z info) oz (GridHeight ctl) = int y"
    and "x < unat (GridCols ctl)" and "y < unat (GridRows ctl)"
  shows "GetChannelIdWithOffset E ctl s info ox oz = (cell_id ctl s x y, True)"
  using assms grid_id_cell_id [of x y ctl s] by (simp add: GetChannelIdWithOffset_def Let_def)

subsection \<open>Whole cells\<close>

lemma go_int_of_int [simp]: "\<bar>n\<bar> < 2 ^ 53 \<Longrightarrow> go_int other (Fin (of_int n)) = n"
  by (auto simp: go_int_def trunc_def)

lemma whole_index:
  assumes "0 < c" and "0 \<le> n" and "n * c < 2 ^ 53"
  shows "grid_index E (fmul (Fin (of_int n)) (Fin (of_int c))) (Fin 0) (Fin (of_int c)) = n"
proof -
  have n: "\<bar>n\<bar> < 2 ^ 53"
  proof -
    have "n * 1 \<le> n * c" using assms(1,2) by (intro mult_left_mono) simp_all
    then show ?thesis using assms(2,3) by simp
  qed
  have nc: "\<bar>n * c\<bar> < 2 ^ 53" using assms by simp
  have "fmul (Fin (of_int n)) (Fin (of_int c)) = Fin (of_int (n * c))"
    using round64_of_int [OF nc] by simp
  moreover have "fsub (Fin (of_int (n * c))) (Fin 0) = Fin (of_int (n * c))"
    using round64_of_int [OF nc] by (simp add: fsub_def)
  moreover have "fdiv (Fin (of_int (n * c))) (Fin (of_int c)) = Fin (of_int n)"
    using round64_of_int [OF n] assms(1) by simp
  ultimately show ?thesis using n by (simp add: grid_index_def)
qed

lemma cell_channel_whole:
  assumes "whole_cells ctl" and "x < GridCols ctl" and "y < GridRows ctl"
  shows "cell_channel E ctl s x y = Some (cell_id ctl s (unat x) (unat y))"
proof -
  obtain wd ht where c: "GridWidth ctl = Fin (of_int wd)" "GridHeight ctl = Fin (of_int ht)" "0 < wd" "0 < ht"
    "uint (GridCols ctl) * wd < 2 ^ 53" "uint (GridRows ctl) * ht < 2 ^ 53"
    using assms(1) by (auto simp: whole_cells_def)
  have xy: "unat x < unat (GridCols ctl)" "unat y < unat (GridRows ctl)" using assms(2,3) by (simp_all add: word_less_nat_alt)
  have "uint x * wd \<le> uint (GridCols ctl) * wd" "uint y * ht \<le> uint (GridRows ctl) * ht"
    using assms(2,3) c(3,4) by (auto intro!: mult_right_mono simp: word_less_def)
  then have "uint x * wd < 2 ^ 53" "uint y * ht < 2 ^ 53" using c(5,6) by linarith+
  from whole_index [OF c(3) _ this(1), of E] whole_index [OF c(4) _ this(2), of E]
  have "grid_index E (fmul (of_uint32 x) (GridWidth ctl)) (Fin 0) (GridWidth ctl) = int (unat x)"
    "grid_index E (fmul (of_uint32 y) (GridHeight ctl)) (Fin 0) (GridHeight ctl) = int (unat y)"
    by (simp_all add: of_uint32_def c(1,2))
  from GetChannelIdWithOffset_ok [of E "cell_position ctl x y" "Fin 0" ctl, OF _ _ xy] this
  show ?thesis by (simp add: cell_channel_def GetChannelIdNoOffset_def cell_position_def)
qed

subsection \<open>Filling a slice cell by cell\<close>

lemma cells_alt:
  assumes "0 < cols"
  shows "cells cols rows = map (\<lambda>i. (of_nat (i mod cols), of_nat (i div cols))) [0..<cols * rows]"
proof (induction rows)
  case (Suc rows)
  have "[0..<cols * Suc rows] = [0..<cols * rows] @ map (\<lambda>x. x + rows * cols) [0..<cols]"
    using upt_add_eq_append [of 0 "cols * rows" cols] by (simp add: map_add_upt mult.commute [of rows] add.commute [of cols])
  moreover have "map ((\<lambda>i. (of_nat (i mod cols), of_nat (i div cols))) \<circ> (\<lambda>x. x + rows * cols)) [0..<cols] =
      map (\<lambda>x. (of_nat x, of_nat rows)) [0..<cols]"
    using assms by simp
  moreover have "cells cols (Suc rows) = cells cols rows @ map (\<lambda>x. (of_nat x, of_nat rows)) [0..<cols]"
    by (simp add: cells_def)
  ultimately show ?case using Suc by simp
qed (simp add: cells_def)

lemma fill_cells_error: "\<exists>c \<in> set cs. v c = None \<Longrightarrow> \<forall>c \<in> set cs. unat (index c) < length vs \<Longrightarrow>
    fill_cells index v cs vs = Some None"
  by (induction cs arbitrary: vs) (fastforce split: option.splits)+

lemma fill_cells_all: "\<forall>c \<in> set cs. v c \<noteq> None \<Longrightarrow> \<forall>c \<in> set cs. unat (index c) < length vs \<Longrightarrow>
    fill_cells index v cs vs = Some (Some (fold (\<lambda>c vs. vs[unat (index c) := the (v c)]) cs vs))"
  by (induction cs arbitrary: vs) (auto split: option.splits)

lemma fold_update_upt:
  "length vs = n \<Longrightarrow> k \<le> n \<Longrightarrow> fold (\<lambda>i vs. vs[i := f i]) [0..<k] vs = map f [0..<k] @ drop k vs"
proof (induction k)
  case (Suc k)
  then have "drop k vs = vs ! k # drop (Suc k) vs" by (simp add: Cons_nth_drop_Suc)
  then show ?case using Suc by (simp add: list_update_append)
qed simp

lemma cell_offset:
  assumes "0 < (c :: uint32)" and "i < unat c * r" and "unat c * r < 2 ^ 32"
  shows "unat (of_nat (i mod unat c) + of_nat (i div unat c) * c) = i"
proof -
  have "(of_nat (unat c) :: uint32) = c" by simp
  then have "of_nat (i mod unat c) + of_nat (i div unat c) * c = (of_nat (i mod unat c + i div unat c * unat c) :: uint32)"
    by (simp only: of_nat_add of_nat_mult)
  also have "\<dots> = of_nat i" by (simp only: mod_div_mult_eq)
  finally show ?thesis using assms by (simp only: unsigned_of_nat of_nat_id) (simp add: take_bit_nat_eq_self)
qed

text \<open>The slice that the loops fill: cell by cell in the order of the index, unless a cell is an error.\<close>

lemma fill_grid:
  assumes "0 < c" and "unat c * unat r < 2 ^ 32"
  shows "fill_cells (\<lambda>(x, y). x + y * c) v (cells (unat c) (unat r)) (replicate (unat (c * r)) a) =
    Some (if \<exists>i < unat c * unat r. v (of_nat (i mod unat c), of_nat (i div unat c)) = None then None
          else Some (map (\<lambda>i. the (v (of_nat (i mod unat c), of_nat (i div unat c)))) [0..<unat c * unat r]))"
proof -
  let ?n = "unat c * unat r" and ?cell = "\<lambda>i. (of_nat (i mod unat c), of_nat (i div unat c)) :: uint32 \<times> uint32"
  have c: "0 < unat c" using assms(1) by (simp add: word_less_nat_alt)
  have len: "unat (c * r) = ?n" using assms(2) by (simp add: unat_word_ariths)
  have index: "unat ((\<lambda>(x, y). x + y * c) (?cell i)) = i" if "i < ?n" for i
    using cell_offset [OF assms(1) that assms(2)] by simp
  have bound: "\<forall>k \<in> set (map ?cell [0..<?n]). unat ((\<lambda>(x, y). x + y * c) k) < length (replicate ?n a)"
    using index by (auto simp del: split_conv case_prod_conv)
  show ?thesis
  proof (cases "\<exists>i < ?n. v (?cell i) = None")
    case True
    then have "\<exists>k \<in> set (map ?cell [0..<?n]). v k = None" by auto
    from fill_cells_error [OF this bound] show ?thesis using True unfolding cells_alt [OF c] len by simp
  next
    case False
    then have "\<forall>k \<in> set (map ?cell [0..<?n]). v k \<noteq> None" by auto
    note fill_cells_all [OF this bound]
    moreover have "fold (\<lambda>k vs. vs[unat ((\<lambda>(x, y). x + y * c) k) := the (v k)]) (map ?cell [0..<?n]) (replicate ?n a) =
        fold (\<lambda>i vs. vs[i := the (v (?cell i))]) [0..<?n] (replicate ?n a)"
      unfolding fold_map by (intro fold_cong) (use index in \<open>auto simp: fun_eq_iff simp del: split_conv case_prod_conv\<close>)
    ultimately show ?thesis using False unfolding cells_alt [OF c] len by (simp add: fold_update_upt [of _ ?n])
  qed
qed

subsection \<open>Regions\<close>

lemma server_share_pos:
  assumes "0 < servers"
  obtains n where "server_share m servers = Some n" and "0 < m \<Longrightarrow> 0 < n"
    and "unat n = (unat m + unat servers - 1) div unat servers" and "unat m \<le> unat n * unat servers" and "unat n \<le> unat m"
proof -
  let ?c = "unat m" and ?s = "unat servers"
  have s: "0 < ?s" using assms by (simp add: word_less_nat_alt)
  define n where "n = m div servers + (if m mod servers > 0 then 1 else 0)"
  have up: "(?c + ?s - 1) div ?s = ?c div ?s + (if ?c mod ?s > 0 then 1 else 0)"
  proof -
    have eq: "?c + ?s - 1 = (?c mod ?s + (?s - 1)) + ?c div ?s * ?s" using s mod_div_mult_eq [of ?c ?s] by linarith
    have "(?c + ?s - 1) div ?s = ?c div ?s + (?c mod ?s + (?s - 1)) div ?s"
      unfolding eq by (rule div_mult_self1) (use s in simp)
    moreover have "(?c mod ?s + (?s - 1)) div ?s = (if ?c mod ?s > 0 then 1 else 0)"
    proof (cases "?c mod ?s = 0")
      case False
      then have eq: "(?c mod ?s + (?s - 1)) = (?c mod ?s - 1) + ?s" using s by linarith
      have "(?c mod ?s + (?s - 1)) div ?s = (?c mod ?s - 1) div ?s + 1"
        unfolding eq by (rule div_add_self2) (use s in simp)
      moreover have "?c mod ?s - 1 < ?s" using mod_less_divisor [OF s, of ?c] by linarith
      ultimately show ?thesis using False by simp
    qed (use s in simp)
    ultimately show ?thesis by simp
  qed
  have le: "(?c + ?s - 1) div ?s \<le> ?c"
  proof (cases "?c = 0")
    case False
    then have "?c + ?s - 1 \<le> ?c * ?s" using s by (cases ?c; cases ?s) simp_all
    then have "(?c + ?s - 1) div ?s \<le> ?c * ?s div ?s" by (rule div_le_mono)
    then show ?thesis using s by simp
  qed (use s in simp)
  have mod: "m mod servers > 0 \<longleftrightarrow> ?c mod ?s > 0" by (simp add: word_less_nat_alt unat_mod_distrib)
  have nat: "unat n = (?c + ?s - 1) div ?s"
  proof -
    have "unat n = (?c div ?s + (if ?c mod ?s > 0 then 1 else 0)) mod 2 ^ 32"
      unfolding n_def mod by (simp add: unat_word_ariths unat_div_distrib mod_Suc_eq)
    also have "\<dots> = ?c div ?s + (if ?c mod ?s > 0 then 1 else 0)"
      using le up unsigned_less [where ?'a = nat, of m] by (intro mod_less) simp
    finally show ?thesis using up by simp
  qed
  show ?thesis
  proof (rule that [of n])
    show "server_share m servers = Some n" using assms by (simp add: server_share_def n_def word_gt_0)
    show "unat n = (?c + ?s - 1) div ?s" by (rule nat)
    show "unat n \<le> ?c" using le by (simp only: nat)
    show "?c \<le> unat n * ?s"
      using s mod_div_mult_eq [of "?c + ?s - 1" ?s] mod_less_divisor [OF s, of "?c + ?s - 1"] unfolding nat by linarith
    show "0 < n" if "0 < m"
    proof -
      have "?s \<le> ?c + ?s - 1" using that by (simp add: word_less_nat_alt)
      then have "1 \<le> (?c + ?s - 1) div ?s" using s by (metis div_le_mono div_self not_gr0)
      then show ?thesis using nat by (simp add: word_less_nat_alt)
    qed
  qed
qed

lemma grid_GetRegions_result:
  assumes "grid_ok ctl s"
  obtains gc gr rs where "server_share (GridCols ctl) (ServerCols ctl) = Some gc"
    and "server_share (GridRows ctl) (ServerRows ctl) = Some gr"
    and "grid_GetRegions ctl s = Some (Some rs)" and "length rs = unat (GridCols ctl) * unat (GridRows ctl)"
    and "\<And>x y. x < unat (GridCols ctl) \<Longrightarrow> y < unat (GridRows ctl) \<Longrightarrow>
      rs ! (x + y * unat (GridCols ctl)) = region_at ctl s gc gr (of_nat x) (of_nat y)"
    and "\<And>x. x < unat (GridCols ctl) \<Longrightarrow> of_nat x div gc < ServerCols ctl"
    and "\<And>y. y < unat (GridRows ctl) \<Longrightarrow> of_nat y div gr < ServerRows ctl"
proof -
  let ?c = "unat (GridCols ctl)" and ?r = "unat (GridRows ctl)"
  have g: "0 < GridCols ctl" "0 < GridRows ctl" "0 < ServerCols ctl" "0 < ServerRows ctl" "?c * ?r < 2 ^ 32"
    using assms by (auto simp: grid_ok_def word_less_nat_alt)
  obtain gc where gc: "server_share (GridCols ctl) (ServerCols ctl) = Some gc" "?c \<le> unat gc * unat (ServerCols ctl)"
    using server_share_pos [OF g(3)] by metis
  obtain gr where gr: "server_share (GridRows ctl) (ServerRows ctl) = Some gr" "?r \<le> unat gr * unat (ServerRows ctl)"
    using server_share_pos [OF g(4)] by metis
  define rs where "rs = map (\<lambda>i. region_at ctl s gc gr (of_nat (i mod ?c)) (of_nat (i div ?c))) [0..<?c * ?r]"
  have share: "of_nat k div w < S" if "k < unat m" "unat m \<le> unat w * unat S" for k and w S m :: uint32
  proof -
    have "unat (of_nat k :: uint32) = k"
      using that(1) unsigned_less [where ?'a = nat, of m] by (simp add: unsigned_of_nat take_bit_nat_eq_self)
    then show ?thesis using that by (simp add: word_less_nat_alt unat_div_distrib less_mult_imp_div_less mult.commute)
  qed
  show ?thesis
  proof (rule that [OF gc(1) gr(1)])
    show "grid_GetRegions ctl s = Some (Some rs)"
      using fill_grid [OF g(1,5), of "\<lambda>(x, y). Some (region_at ctl s gc gr x y)"]
      by (simp add: grid_GetRegions_def gc(1) gr(1) rs_def)
    show "length rs = ?c * ?r" by (simp add: rs_def)
    show "rs ! (x + y * ?c) = region_at ctl s gc gr (of_nat x) (of_nat y)" if "x < ?c" "y < ?r" for x y
      using that cell_index_less [OF that] by (simp add: rs_def)
    show "of_nat x div gc < ServerCols ctl" if "x < ?c" for x using share [OF that gc(2)] .
    show "of_nat y div gr < ServerRows ctl" if "y < ?r" for y using share [OF that gr(2)] .
  qed
qed

text \<open>
  \<open>GetRegions\<close> describes every cell of a loaded grid once: the region of the cell in column \<open>x\<close>, row
  \<open>y\<close> stands at index \<open>x + y * GridCols\<close>, carries that cell's channel identifier (no two are the same),
  belongs to a server column and row that exist, and ends where the regions to the right and above begin.
\<close>

theorem GetRegions_correct:
  assumes "grid_ok ctl s"
  shows "\<exists>rs. grid_GetRegions ctl s = Some (Some rs) \<and>
    length rs = unat (GridCols ctl) * unat (GridRows ctl) \<and> distinct (map sr_ChannelId rs) \<and>
    (\<forall>x < unat (GridCols ctl). \<forall>y < unat (GridRows ctl).
       sr_ChannelId (rs ! (x + y * unat (GridCols ctl))) = cell_id ctl s x y \<and>
       (\<exists>sx sy. sx < ServerCols ctl \<and> sy < ServerRows ctl \<and>
          sr_ServerIndex (rs ! (x + y * unat (GridCols ctl))) = sx + sy * ServerCols ctl) \<and>
       (x + 1 < unat (GridCols ctl) \<longrightarrow> si_X (sr_Max (rs ! (x + y * unat (GridCols ctl)))) =
          si_X (sr_Min (rs ! (x + 1 + y * unat (GridCols ctl))))) \<and>
       (y + 1 < unat (GridRows ctl) \<longrightarrow> si_Z (sr_Max (rs ! (x + y * unat (GridCols ctl)))) =
          si_Z (sr_Min (rs ! (x + (y + 1) * unat (GridCols ctl))))))"
proof -
  let ?c = "unat (GridCols ctl)" and ?r = "unat (GridRows ctl)"
  obtain gc gr rs where run: "grid_GetRegions ctl s = Some (Some rs)" and len: "length rs = ?c * ?r"
    and at: "\<And>x y. x < ?c \<Longrightarrow> y < ?r \<Longrightarrow> rs ! (x + y * ?c) = region_at ctl s gc gr (of_nat x) (of_nat y)"
    and share: "\<And>x. x < ?c \<Longrightarrow> of_nat x div gc < ServerCols ctl" "\<And>y. y < ?r \<Longrightarrow> of_nat y div gr < ServerRows ctl"
    using grid_GetRegions_result [OF assms] by metis
  have ids: "sr_ChannelId (rs ! (x + y * ?c)) = cell_id ctl s x y" if "x < ?c" "y < ?r" for x y
    by (simp add: at [OF that] region_at_def cell_id_def)
  have "distinct (map sr_ChannelId rs)"
  proof (rule distinct_conv_nth [THEN iffD2], intro allI impI)
    fix i j assume ij: "i < length (map sr_ChannelId rs)" "j < length (map sr_ChannelId rs)" "i \<noteq> j"
    then have ij': "i < ?c * ?r" "j < ?c * ?r" by (simp_all add: len)
    have cell: "k mod ?c < ?c" "k div ?c < ?r" if "k < ?c * ?r" for k
      using that assms by (auto simp: grid_ok_def word_less_nat_alt less_mult_imp_div_less mult.commute)
    have "i mod ?c \<noteq> j mod ?c \<or> i div ?c \<noteq> j div ?c" using ij(3) by (metis mod_div_mult_eq)
    then have "cell_id ctl s (i mod ?c) (i div ?c) \<noteq> cell_id ctl s (j mod ?c) (j div ?c)"
      using cell_id_inject [OF assms cell [OF ij'(1)] cell [OF ij'(2)]] by simp
    then show "map sr_ChannelId rs ! i \<noteq> map sr_ChannelId rs ! j"
      using ij ids [OF cell [OF ij'(1)]] ids [OF cell [OF ij'(2)]] by simp
  qed
  moreover have "\<exists>sx sy. sx < ServerCols ctl \<and> sy < ServerRows ctl \<and>
      sr_ServerIndex (rs ! (x + y * ?c)) = sx + sy * ServerCols ctl" if "x < ?c" "y < ?r" for x y
    by (intro exI [of _ "of_nat x div gc"] exI [of _ "of_nat y div gr"]) (simp add: at [OF that] region_at_def share that)
  moreover have "si_X (sr_Max (rs ! (x + y * ?c))) = si_X (sr_Min (rs ! (x + 1 + y * ?c)))"
    if "x < ?c" "y < ?r" "x + 1 < ?c" for x y
    by (simp only: at [OF that(1,2)] at [OF that(3,2)]) (simp add: region_at_def add.commute)
  moreover have "si_Z (sr_Max (rs ! (x + y * ?c))) = si_Z (sr_Min (rs ! (x + (y + 1) * ?c)))"
    if "x < ?c" "y < ?r" "y + 1 < ?r" for x y
    by (simp only: at [OF that(1,2)] at [OF that(1,3)]) (simp add: region_at_def add.commute)
  ultimately show ?thesis using run len ids by blast
qed

subsection \<open>Positions and regions\<close>

text \<open>A coordinate that is a multiple of \<open>1 / 2\<^sup>q\<close>, at a distance from the offset that leaves a bit of
room in the 53 of a float (for a millimetre's resolution, \<open>q = 10\<close>, that is two billion kilometres).\<close>

definition fine_coordinate :: "nat \<Rightarrow> int \<Rightarrow> int \<Rightarrow> rat \<Rightarrow> bool" where
  "fine_coordinate q origin cell v \<longleftrightarrow> q \<le> 1000 \<and>
     (\<exists>n. v = of_int n / 2 ^ q \<and> 2 * \<bar>n - origin * 2 ^ q\<bar> + 4 * (cell * 2 ^ q) < 2 ^ 52)"

definition in_cell :: "int \<Rightarrow> int \<Rightarrow> int \<Rightarrow> rat \<Rightarrow> bool" where
  "in_cell origin cell k v \<longleftrightarrow> of_int (origin + k * cell) \<le> v \<and> v < of_int (origin + (k + 1) * cell)"

lemma grid_index_fine:
  assumes "0 < cell" and "fine_coordinate q origin cell v"
  shows "grid_index E (Fin v) (Fin (of_int origin)) (Fin (of_int cell)) = k \<longleftrightarrow> in_cell origin cell k v"
proof -
  obtain n where n: "v = of_int n / 2 ^ q" "2 * \<bar>n - origin * 2 ^ q\<bar> + 4 * (cell * 2 ^ q) < 2 ^ 52" "q \<le> 1000"
    using assms(2) by (auto simp: fine_coordinate_def)
  let ?n = "n - origin * 2 ^ q" and ?d = "cell * 2 ^ q"
  have d: "0 < ?d" using assms(1) by simp
  have v: "v - of_int origin = of_int ?n / 2 ^ q" by (simp add: n(1) diff_divide_distrib)
  have small: "\<bar>?n\<bar> < 2 ^ 53" using n(2) d by simp
  have "(of_int \<bar>?n\<bar> :: rat) * 1 \<le> of_int \<bar>?n\<bar> * 2 ^ q" by (intro mult_left_mono) simp_all
  then have "(of_int \<bar>?n\<bar> :: rat) / 2 ^ q \<le> of_int \<bar>?n\<bar>" by (simp only: pos_divide_le_eq zero_less_power zero_less_numeral) simp
  also have "\<dots> < of_int (2 ^ 53)" using small unfolding of_int_less_iff .
  also have "\<dots> < f64_limit" by (simp add: f64_limit_def)
  finally have exact: "f64_exact (of_int ?n / 2 ^ q)"
    using f64_grid_dyadic [OF small, of q] n(3) by (simp add: f64_exact_def)
  have quotient: "of_int ?n / 2 ^ q / of_int cell = (of_int ?n / of_int ?d :: rat)" by (simp add: field_simps)
  have "fsub (Fin v) (Fin (of_int origin)) = Fin (of_int ?n / 2 ^ q)"
    using round64_exact [OF exact] by (simp add: fsub_def v)
  moreover have "fdiv (Fin (of_int ?n / 2 ^ q)) (Fin (of_int cell)) = fdiv (Fin (of_int ?n)) (Fin (of_int ?d))"
    using assms(1) by (simp only: fdiv.simps quotient) (simp add: zero_less_mult_iff)
  moreover note floor_rnd_quotient [OF d n(2)]
  ultimately have "grid_index E (Fin v) (Fin (of_int origin)) (Fin (of_int cell)) = ?n div ?d"
    by (simp add: grid_index_def)
  moreover have "?n div ?d = \<lfloor>(v - of_int origin) / of_int cell\<rfloor>"
    unfolding v quotient by (rule floor_divide_of_int_eq [symmetric])
  moreover have "\<lfloor>(v - of_int origin) / of_int cell\<rfloor> = k \<longleftrightarrow> in_cell origin cell k v"
    using assms(1) by (simp add: floor_eq_iff in_cell_def pos_le_divide_eq pos_divide_less_eq algebra_simps)
  ultimately show ?thesis by simp
qed

lemma GetChannelId_iff:
  assumes "GridWidth ctl = Fin (of_int wd)" "GridHeight ctl = Fin (of_int ht)" "0 < wd" "0 < ht"
    and "WorldOffsetX ctl = Fin (of_int ox)" "WorldOffsetZ ctl = Fin (of_int oz)"
    and "si_X info = Fin vx" "fine_coordinate q ox wd vx" and "si_Z info = Fin vz" "fine_coordinate q oz ht vz"
  shows "grid_GetChannelId E ctl s info = (i, True) \<longleftrightarrow>
    (\<exists>x < unat (GridCols ctl). \<exists>y < unat (GridRows ctl).
       i = cell_id ctl s x y \<and> in_cell ox wd (int x) vx \<and> in_cell oz ht (int y) vz)"
proof
  assume "grid_GetChannelId E ctl s info = (i, True)"
  then show "\<exists>x < unat (GridCols ctl). \<exists>y < unat (GridRows ctl).
       i = cell_id ctl s x y \<and> in_cell ox wd (int x) vx \<and> in_cell oz ht (int y) vz"
    unfolding grid_GetChannelId_def
    by (rule GetChannelIdWithOffset_cell) (auto simp: assms grid_index_fine [OF assms(3,8)] grid_index_fine [OF assms(4,10)])
next
  assume "\<exists>x < unat (GridCols ctl). \<exists>y < unat (GridRows ctl).
       i = cell_id ctl s x y \<and> in_cell ox wd (int x) vx \<and> in_cell oz ht (int y) vz"
  then show "grid_GetChannelId E ctl s info = (i, True)"
    unfolding grid_GetChannelId_def
    by (auto intro!: GetChannelIdWithOffset_ok simp: assms grid_index_fine [OF assms(3,8)] grid_index_fine [OF assms(4,10)])
qed


subsection \<open>Neighbours\<close>

lemma unat_of_nat32: "n < 2 ^ 32 \<Longrightarrow> unat (of_nat n :: uint32) = n"
  by (simp add: unsigned_of_nat take_bit_nat_eq_self)

lemma sint_small: "unat (w :: uint32) < 2 ^ 31 \<Longrightarrow> sint w = int (unat w)"
  using signed_take_bit_int_eq_self [of 31 "uint w"] order_trans [of "- (2 ^ 31)" 0 "uint w"] by (simp add: sint_uint flip: of_nat_less_iff [where 'a = int])

lemma cell_coordinates:
  assumes "grid_ok ctl s" and "x < unat (GridCols ctl)" and "y < unat (GridRows ctl)"
  shows "unat ((cell_id ctl s x y - gs_SpatialChannelIdStart s) mod GridCols ctl) = x"
    and "unat ((cell_id ctl s x y - gs_SpatialChannelIdStart s) div GridCols ctl) = y"
proof -
  have "x + y * unat (GridCols ctl) < 2 ^ 32"
    using cell_index_less [OF assms(2,3)] assms(1) by (simp add: grid_ok_def)
  then have n: "unat (cell_id ctl s x y - gs_SpatialChannelIdStart s) = x + y * unat (GridCols ctl)"
    unfolding cell_id_def by (simp only: add_diff_cancel_left' unat_of_nat32)
  show "unat ((cell_id ctl s x y - gs_SpatialChannelIdStart s) mod GridCols ctl) = x"
    using assms(2) by (simp add: unat_mod_distrib n)
  show "unat ((cell_id ctl s x y - gs_SpatialChannelIdStart s) div GridCols ctl) = y"
    using assms(2) by (simp add: unat_div_distrib n)
qed

definition neighbours :: "nat \<Rightarrow> nat \<Rightarrow> nat \<times> nat \<Rightarrow> bool" where
  "neighbours x y c \<longleftrightarrow> c \<noteq> (x, y) \<and> \<bar>int (fst c) - int x\<bar> \<le> 1 \<and> \<bar>int (snd c) - int y\<bar> \<le> 1"

lemma adjacent_cell_iff:
  assumes "0 < GridCols ctl" "GridCols ctl < 2 ^ 31" "0 < GridRows ctl" "GridRows ctl < 2 ^ 31"
  shows "adjacent_cell ctl (int x) (int y) (i, j) \<longleftrightarrow>
    0 \<le> i \<and> nat i < unat (GridCols ctl) \<and> 0 \<le> j \<and> nat j < unat (GridRows ctl) \<and> (nat i, nat j) \<noteq> (x, y)"
proof -
  have "sint (n - 1) = int (unat n) - 1" if "0 < n" "n < 2 ^ 31" for n :: uint32
  proof -
    have n: "unat (n - 1) = unat n - 1" "0 < unat n" using that(1) by (simp_all add: word_gt_0 unat_minus_one unat_gt_0)
    then show ?thesis using that(2) by (subst sint_small) (simp_all add: word_less_nat_alt)
  qed
  from this [OF assms(1,2)] this [OF assms(3,4)] show ?thesis by (auto simp: adjacent_cell_def nat_less_unat)
qed

text \<open>
  \<open>GetAdjacentChannels\<close> of the cell in column \<open>x\<close>, row \<open>y\<close> lists the channels of the cells around it
  that lie in the grid, each once, and not its own.
\<close>

lemma GetAdjacentChannels_result:
  assumes ok: "grid_ok ctl s" and "GridCols ctl < 2 ^ 31" "GridRows ctl < 2 ^ 31"
    and x: "x < unat (GridCols ctl)" and y: "y < unat (GridRows ctl)"
  shows "\<exists>ids. grid_GetAdjacentChannels ctl s (cell_id ctl s x y) = Some ids \<and> distinct ids \<and>
    set ids = {cell_id ctl s i j | i j. i < unat (GridCols ctl) \<and> j < unat (GridRows ctl) \<and> neighbours x y (i, j)}"
proof -
  have g: "0 < GridCols ctl" "0 < GridRows ctl" using ok by (simp_all add: grid_ok_def)
  have small: "x < 2 ^ 31 - 1" "y < 2 ^ 31 - 1" using x y assms(2,3) by (simp_all add: word_less_nat_alt)
  let ?index = "cell_id ctl s x y - gs_SpatialChannelIdStart s"
  have sint: "sint (?index mod GridCols ctl) = int x" "sint (?index div GridCols ctl) = int y"
    using sint_small [of "?index mod GridCols ctl"] sint_small [of "?index div GridCols ctl"] small
      cell_coordinates [OF ok x y] by simp_all
  have near: "k \<in> set (around (int g)) \<longleftrightarrow> \<bar>k - int g\<bar> \<le> 1" if "g < 2 ^ 31 - 1" for g k
    using that by (simp add: around_def) linarith
  define cs where "cs = filter (adjacent_cell ctl (int x) (int y))
      (concat (map (\<lambda>y. map (\<lambda>x. (x, y)) (around (int x))) (around (int y))))"
  define f where "f = (\<lambda>(x, y). of_int x + of_int y * GridCols ctl + gs_SpatialChannelIdStart s)"
  have f: "f (i, j) = cell_id ctl s (nat i) (nat j)" if "0 \<le> i" "0 \<le> j" for i j
    using grid_id_cell_id [of "nat i" "nat j" ctl s] that by (simp add: f_def)
  have mem: "(i, j) \<in> set cs \<longleftrightarrow> 0 \<le> i \<and> nat i < unat (GridCols ctl) \<and> 0 \<le> j \<and> nat j < unat (GridRows ctl) \<and>
      neighbours x y (nat i, nat j)" for i j
  proof -
    have "(i, j) \<in> set cs \<longleftrightarrow> \<bar>i - int x\<bar> \<le> 1 \<and> \<bar>j - int y\<bar> \<le> 1 \<and> adjacent_cell ctl (int x) (int y) (i, j)"
      using near [of x i] near [of y j] small by (auto simp: cs_def)
    then show ?thesis
      unfolding adjacent_cell_iff [OF g(1) assms(2) g(2) assms(3)] by (auto simp: neighbours_def)
  qed
  have "grid_GetAdjacentChannels ctl s (cell_id ctl s x y) = Some (map f cs)"
    using g(1) by (simp add: grid_GetAdjacentChannels_def Let_def sint f_def cs_def)
  moreover have "distinct (map f cs)"
  proof -
    have "distinct cs" using small by (simp add: cs_def around_def)
    moreover have "inj_on f (set cs)"
    proof (rule inj_onI, clarify)
      fix i j k l assume a: "(i, j) \<in> set cs" "(k, l) \<in> set cs" "f (i, j) = f (k, l)"
      then have "cell_id ctl s (nat i) (nat j) = cell_id ctl s (nat k) (nat l)" by (simp add: mem f)
      then show "i = k \<and> j = l" using a(1,2) cell_id_inject [OF ok, of "nat i" "nat j" "nat k" "nat l"] by (auto simp: mem)
    qed
    ultimately show ?thesis by (simp add: distinct_map)
  qed
  moreover have "set (map f cs) = {cell_id ctl s i j | i j. i < unat (GridCols ctl) \<and> j < unat (GridRows ctl) \<and> neighbours x y (i, j)}"
    (is "_ = ?R")
  proof (intro equalityI subsetI)
    fix a assume "a \<in> set (map f cs)"
    then obtain i j where "(i, j) \<in> set cs" "a = f (i, j)" by auto
    then have "a = cell_id ctl s (nat i) (nat j) \<and> nat i < unat (GridCols ctl) \<and> nat j < unat (GridRows ctl) \<and>
        neighbours x y (nat i, nat j)"
      by (simp add: mem f)
    then show "a \<in> ?R" by blast
  next
    fix a assume "a \<in> ?R"
    then obtain i j where "(int i, int j) \<in> set cs" "a = f (int i, int j)" by (auto simp: mem f)
    then show "a \<in> set (map f cs)" by simp
  qed
  ultimately show ?thesis by blast
qed

subsection \<open>Examples\<close>

text \<open>A grid of two cells side by side, each with its server; and one of three cells for two servers.\<close>

definition demo_grid :: StaticGrid2DSpatialController where
  "demo_grid = \<lparr>GridWidth = Fin 10, GridHeight = Fin 10, GridCols = 2, GridRows = 1,
     WorldOffsetX = Fin (- 10), WorldOffsetZ = Fin 0, ServerCols = 2, ServerRows = 1, ServerInterestBorderSize = 1\<rparr>"

lemma demo_grid_facts [simp]:
  "GridWidth demo_grid = Fin 10" "GridHeight demo_grid = Fin 10" "GridCols demo_grid = 2" "GridRows demo_grid = 1"
  "WorldOffsetX demo_grid = Fin (- 10)" "WorldOffsetZ demo_grid = Fin 0" "ServerCols demo_grid = 2" "ServerRows demo_grid = 1"
  by (simp_all add: demo_grid_def)

lemma demo_settings [simp]: "gs_SpatialChannelIdStart default_settings = 0x10000"
  by (simp add: default_settings_def)

lemma demo_grid_ok: "grid_ok demo_grid default_settings" "grid_ok (demo_grid\<lparr>GridCols := 3\<rparr>) default_settings"
  by (simp_all add: grid_ok_def)

lemma demo_whole: "whole_cells (demo_grid\<lparr>GridCols := 3\<rparr>)" "whole_cells demo_grid"
  unfolding whole_cells_def by (intro exI [of _ 10]; simp)+

theorem GetRegions_correct_witness:
  "\<exists>rs. grid_GetRegions demo_grid default_settings = Some (Some rs) \<and> length rs = 2 \<and> distinct (map sr_ChannelId rs)"
  using GetRegions_correct [OF demo_grid_ok(1)] by auto


end
