(* ===== verification/SpatialServers.thy ===== *)
theory SpatialServers
  imports Spatial
begin

text \<open>
  The servers of the spatial grid: the block of cells each of them creates channels for, compared with
  the regions that \<open>GetRegions\<close> assigns to it, the creation itself, the slots of the servers' connections,
  and two configurations for which the creation does not do what the regions promise (servers that do
  not divide the grid evenly, cells of a fractional size).
\<close>

subsection \<open>The blocks of the servers\<close>

lemma f64_grid_scaled: "\<bar>m\<bar> < 2 ^ 53 \<Longrightarrow> f64_grid (of_int m * 2 ^ k)"
  unfolding f64_grid_def by (intro exI [of _ m] exI [of _ "int k"]) simp

lemma round64_between:
  assumes "f64_grid a" and "f64_grid b" and "0 \<le> a" and "b < f64_limit" and "a \<le> r" and "r \<le> b"
  obtains y where "round64 r = Fin y" and "a \<le> y" and "y \<le> b"
proof
  have "a \<le> rnd r" "rnd r \<le> b" using assms rnd_ge rnd_le by auto
  then show "round64 r = Fin (rnd r)" "a \<le> rnd r" "rnd r \<le> b" using assms(3,4) by (auto simp: round64_def)
qed

text \<open>A column beyond the grid is never taken for one in the grid, although its position may be rounded.\<close>

lemma whole_index_outside:
  assumes "0 < c" and "0 < n" and "int n * c < 2 ^ 53" and "n \<le> unat (x :: uint32)"
  shows "int n \<le> grid_index E (fmul (of_uint32 x) (Fin (of_int c))) (Fin 0) (Fin (of_int c))"
proof -
  let ?lo = "of_int (int n * c) :: rat" and ?hi = "of_int c * 2 ^ 32 :: rat"
  have "1 * c \<le> int n * c" using assms(1,2) by (intro mult_right_mono) simp_all
  then have c: "\<bar>c\<bar> < 2 ^ 53" using assms(1,3) by linarith
  have x: "unat x < 2 ^ 32" using unsigned_less [where ?'a = nat, of x] by simp
  have lo: "f64_grid ?lo" "0 \<le> ?lo"
    using f64_exact_of_int [of "int n * c"] assms(1-3) by (simp_all add: f64_exact_def)
  have "?hi < of_int (2 ^ 53) * 2 ^ 32" using c by (intro mult_strict_right_mono) (simp_all only: of_int_less_iff abs_less_iff zero_less_power zero_less_numeral)
  also have "\<dots> < f64_limit" by (simp add: f64_limit_def)
  finally have hi: "f64_grid ?hi" "?hi < f64_limit" using f64_grid_scaled [OF c, of 32] by simp_all
  have "int n * c \<le> int (unat x) * c" "int (unat x) * c \<le> c * 2 ^ 32"
    using assms(1,4) unsigned_less [where ?'a = int, of x] by (simp_all add: mult.commute [of c])
  then have "?lo \<le> of_int (int (unat x) * c)" "(of_int (int (unat x) * c) :: rat) \<le> of_int (c * 2 ^ 32)"
    unfolding of_int_le_iff .
  then have r: "?lo \<le> of_nat (unat x) * of_int c" "of_nat (unat x) * of_int c \<le> ?hi" by simp_all
  obtain y where y: "round64 (of_nat (unat x) * of_int c) = Fin y" "?lo \<le> y" "y \<le> ?hi"
    using round64_between [OF lo(1) hi(1) lo(2) hi(2) r] .
  obtain z where z: "round64 y = Fin z" "?lo \<le> z" "z \<le> ?hi"
    using round64_between [OF lo(1) hi(1) lo(2) hi(2) y(2,3)] .
  have n: "\<bar>int n\<bar> < 2 ^ 53" using assms(4) x by simp
  have q: "of_int (int n) \<le> z / of_int c" "z / of_int c \<le> of_int (2 ^ 32)"
    using z(2,3) assms(1) by (simp_all add: pos_le_divide_eq pos_divide_le_eq mult.commute)
  have grid: "f64_grid (of_int (int n))" "f64_grid (of_int (2 ^ 32))"
    using f64_exact_of_int [OF n] f64_exact_of_int [of "2 ^ 32"] by (simp_all add: f64_exact_def)
  obtain v where v: "round64 (z / of_int c) = Fin v" "of_int (int n) \<le> v" "v \<le> of_int (2 ^ 32)"
    using round64_between [OF grid _ _ q] by (auto simp: f64_limit_def)
  have "grid_index E (fmul (of_uint32 x) (Fin (of_int c))) (Fin 0) (Fin (of_int c)) = go_int (ex_floatToInt E) (Fin (of_int \<lfloor>v\<rfloor>))"
    using y(1) z(1) v(1) assms(1) by (simp add: grid_index_def of_uint32_def fsub_def)
  moreover have v: "int n \<le> \<lfloor>v\<rfloor>" "\<lfloor>v\<rfloor> \<le> 2 ^ 32" using v(2,3) by (simp_all add: le_floor_iff floor_le_iff)
  moreover have "\<bar>\<lfloor>v\<rfloor>\<bar> < 2 ^ 53" using v by (simp add: abs_if)
  ultimately show ?thesis by simp
qed

lemma cell_channel_outside:
  assumes "whole_cells ctl" and "0 < GridCols ctl" "0 < GridRows ctl"
    and "GridCols ctl \<le> x \<or> GridRows ctl \<le> y"
  shows "cell_channel E ctl s x y = None"
proof -
  obtain wd ht where c: "GridWidth ctl = Fin (of_int wd)" "GridHeight ctl = Fin (of_int ht)" "0 < wd" "0 < ht"
    "uint (GridCols ctl) * wd < 2 ^ 53" "uint (GridRows ctl) * ht < 2 ^ 53"
    using assms(1) by (auto simp: whole_cells_def)
  have "int (unat (GridCols ctl)) \<le> grid_index E (fmul (of_uint32 x) (GridWidth ctl)) (Fin 0) (GridWidth ctl)"
    if "GridCols ctl \<le> x"
    unfolding c(1) using that assms(2) c(3,5) by (intro whole_index_outside) (simp_all add: word_less_nat_alt word_le_nat_alt)
  moreover have "int (unat (GridRows ctl)) \<le> grid_index E (fmul (of_uint32 y) (GridHeight ctl)) (Fin 0) (GridHeight ctl)"
    if "GridRows ctl \<le> y"
    unfolding c(2) using that assms(3) c(4,6) by (intro whole_index_outside) (simp_all add: word_less_nat_alt word_le_nat_alt)
  ultimately show ?thesis using assms(4)
    by (auto simp: cell_channel_def GetChannelIdNoOffset_def GetChannelIdWithOffset_def cell_position_def Let_def)
qed

lemma server_share_even:
  assumes "server_share m servers = Some n" and "unat servers dvd unat m"
  shows "unat n * unat servers = unat m"
proof -
  have s: "0 < servers" using assms(1) by (simp add: server_share_def word_gt_0 split: if_splits)
  have n: "unat n = (unat m + unat servers - 1) div unat servers"
    using server_share_pos [OF s, of m] assms(1) by (metis option.inject)
  obtain k where k: "unat m = unat servers * k" using assms(2) by (auto elim: dvdE)
  have "0 < unat servers" using s by (simp add: word_less_nat_alt)
  then have "(unat servers * k + unat servers - 1) div unat servers = k" by (intro div_nat_eqI) simp_all
  then show ?thesis using n k by (simp add: mult.commute)
qed

lemma server_share_uneven:
  assumes "server_share m servers = Some n" and "\<not> unat servers dvd unat m"
  shows "unat m < unat n * unat servers"
proof -
  have s: "0 < servers" using assms(1) by (simp add: server_share_def word_gt_0 split: if_splits)
  have "unat m \<le> unat n * unat servers"
    using server_share_pos [OF s, of m] assms(1) by (metis option.inject)
  moreover have "unat m \<noteq> unat n * unat servers" using assms(2) by (metis dvd_triv_right)
  ultimately show ?thesis by simp
qed

text \<open>The columns (rows) of the server in column (row) \<open>k\<close>.\<close>

lemma share_position:
  assumes "unat sx * unat n + x < 2 ^ 32"
  shows "unat (sx * n + of_nat x :: uint32) = unat sx * unat n + x"
proof -
  have "unat (sx * n + of_nat x) = (unat sx * unat n + x) mod 2 ^ 32"
    by (simp add: unat_word_ariths unsigned_of_nat take_bit_eq_mod mod_simps)
  then show ?thesis using assms by simp
qed

lemma block_ids_result:
  fixes E :: Externs
  assumes "grid_ok ctl s" and "server_share (GridCols ctl) (ServerCols ctl) = Some gc"
    and "server_share (GridRows ctl) (ServerRows ctl) = Some gr"
  defines "cell \<equiv> \<lambda>k i. cell_channel E ctl s (k mod ServerCols ctl * gc + of_nat (i mod unat gc))
      (k div ServerCols ctl * gr + of_nat (i div unat gc))"
  shows "block_ids E ctl s k gc gr = Some (if \<exists>i < unat gc * unat gr. cell k i = None then None
    else Some (map (\<lambda>i. the (cell k i)) [0..<unat gc * unat gr]))"
proof -
  have g: "0 < GridCols ctl" "0 < ServerCols ctl" "0 < ServerRows ctl"
    and cr: "unat (GridCols ctl) * unat (GridRows ctl) < 2 ^ 32"
    using assms(1) by (auto simp: grid_ok_def word_less_nat_alt)
  have gc: "0 < gc" "unat gc \<le> unat (GridCols ctl)"
    using server_share_pos [OF g(2), of "GridCols ctl"] assms(2) g(1) by (metis option.inject)+
  have "unat gr \<le> unat (GridRows ctl)"
    using server_share_pos [OF g(3), of "GridRows ctl"] assms(3) by (metis option.inject)
  with gc(2) have "unat gc * unat gr \<le> unat (GridCols ctl) * unat (GridRows ctl)" by (rule mult_le_mono)
  then have "unat gc * unat gr < 2 ^ 32" using cr by simp
  from fill_grid [OF gc(1) this, of "\<lambda>(x, y). cell_channel E ctl s (k mod ServerCols ctl * gc + x) (k div ServerCols ctl * gr + y)" 0]
  show ?thesis by (simp only: block_ids_def cell_def Let_def case_prod_conv)
qed

lemma div_less_iff_block:
  assumes "0 < (g :: nat)"
  shows "x div g = k \<longleftrightarrow> k * g \<le> x \<and> x < k * g + g"
proof
  assume k: "x div g = k"
  have "x = x mod g + k * g" using mod_div_mult_eq [of x g] unfolding k by (rule sym)
  moreover have "x mod g < g" using assms by simp
  ultimately show "k * g \<le> x \<and> x < k * g + g" by linarith
next
  assume "k * g \<le> x \<and> x < k * g + g"
  then show "x div g = k" by (intro div_nat_eqI) (simp_all add: mult.commute)
qed

lemma server_coordinates:
  assumes "k < ServerCols ctl * ServerRows ctl" and "0 < ServerCols ctl"
    and "unat (ServerCols ctl) * unat (ServerRows ctl) < 2 ^ 32"
  shows "unat (k mod ServerCols ctl) = unat k mod unat (ServerCols ctl)"
    and "unat (k div ServerCols ctl) = unat k div unat (ServerCols ctl)"
    and "unat k mod unat (ServerCols ctl) < unat (ServerCols ctl)"
    and "unat k div unat (ServerCols ctl) < unat (ServerRows ctl)"
proof -
  have "unat (ServerCols ctl * ServerRows ctl) = unat (ServerCols ctl) * unat (ServerRows ctl)"
    using assms(3) by (simp add: unat_word_ariths)
  then have "unat k < unat (ServerCols ctl) * unat (ServerRows ctl)" using assms(1) by (simp add: word_less_nat_alt)
  then show "unat k div unat (ServerCols ctl) < unat (ServerRows ctl)" by (simp add: less_mult_imp_div_less mult.commute)
  show "unat k mod unat (ServerCols ctl) < unat (ServerCols ctl)" using assms(2) by (simp add: word_less_nat_alt)
qed (simp_all add: unat_mod_distrib unat_div_distrib)

text \<open>The cells of a server's block when the servers divide the grid evenly.\<close>

lemma even_block:
  assumes "k < ServerCols ctl * ServerRows ctl" and "0 < ServerCols ctl"
    and "unat (ServerCols ctl) * unat (ServerRows ctl) < 2 ^ 32"
    and "unat gc * unat (ServerCols ctl) = unat (GridCols ctl)" and "unat gr * unat (ServerRows ctl) = unat (GridRows ctl)"
  defines "X \<equiv> unat k mod unat (ServerCols ctl)" and "Y \<equiv> unat k div unat (ServerCols ctl)"
  shows "x < unat gc \<Longrightarrow> X * unat gc + x < unat (GridCols ctl)"
    and "y < unat gr \<Longrightarrow> Y * unat gr + y < unat (GridRows ctl)"
    and "x < unat gc \<Longrightarrow> unat (k mod ServerCols ctl * gc + of_nat x) = X * unat gc + x"
    and "y < unat gr \<Longrightarrow> unat (k div ServerCols ctl * gr + of_nat y) = Y * unat gr + y"
proof -
  note k = server_coordinates [OF assms(1-3)]
  have inside: "a * g + x < c" if "x < g" "a < s" "g * s = c" for a x g s c :: nat
  proof -
    have "a * g + x < (a + 1) * g" using that(1) by simp
    also have "\<dots> \<le> s * g" using that(2) by (intro mult_le_mono1) simp
    finally show ?thesis using that(3) by (simp add: mult.commute)
  qed
  show x: "X * unat gc + x < unat (GridCols ctl)" if "x < unat gc" for x
    using inside [OF that _ assms(4)] k(3) by (simp add: X_def)
  show y: "Y * unat gr + y < unat (GridRows ctl)" if "y < unat gr" for y
    using inside [OF that _ assms(5)] k(4) by (simp add: Y_def)
  show "unat (k mod ServerCols ctl * gc + of_nat x) = X * unat gc + x" if "x < unat gc" for x
    using share_position [of "k mod ServerCols ctl" gc x] x [OF that] unsigned_less [where ?'a = nat, of "GridCols ctl"]
    by (simp add: k(1) X_def)
  show "unat (k div ServerCols ctl * gr + of_nat y) = Y * unat gr + y" if "y < unat gr" for y
    using share_position [of "k div ServerCols ctl" gr y] y [OF that] unsigned_less [where ?'a = nat, of "GridRows ctl"]
    by (simp add: k(2) Y_def)
qed

definition even_shares :: "StaticGrid2DSpatialController \<Rightarrow> bool" where
  "even_shares ctl \<longleftrightarrow> unat (ServerCols ctl) dvd unat (GridCols ctl) \<and> unat (ServerRows ctl) dvd unat (GridRows ctl)"

lemma even_shares_fit:
  assumes "grid_ok ctl s" and "even_shares ctl"
  shows "unat (ServerCols ctl) * unat (ServerRows ctl) < 2 ^ 32"
proof -
  have "unat (ServerCols ctl) \<le> unat (GridCols ctl)" "unat (ServerRows ctl) \<le> unat (GridRows ctl)"
    using assms by (auto simp: even_shares_def grid_ok_def word_less_nat_alt intro!: dvd_imp_le)
  then have "unat (ServerCols ctl) * unat (ServerRows ctl) \<le> unat (GridCols ctl) * unat (GridRows ctl)" by (rule mult_le_mono)
  moreover have "unat (GridCols ctl) * unat (GridRows ctl) < 2 ^ 32"
    using assms(1) by (auto simp: grid_ok_def word_less_nat_alt)
  ultimately show ?thesis by simp
qed

lemma block_ids_even:
  assumes ok: "grid_ok ctl s" and whole: "whole_cells ctl" and even: "even_shares ctl"
    and k: "k < ServerCols ctl * ServerRows ctl"
    and gc: "server_share (GridCols ctl) (ServerCols ctl) = Some gc"
    and gr: "server_share (GridRows ctl) (ServerRows ctl) = Some gr"
  defines "X \<equiv> unat k mod unat (ServerCols ctl)" and "Y \<equiv> unat k div unat (ServerCols ctl)"
  shows "block_ids E ctl s k gc gr =
    Some (Some (map (\<lambda>i. cell_id ctl s (X * unat gc + i mod unat gc) (Y * unat gr + i div unat gc)) [0..<unat gc * unat gr]))"
proof -
  have g: "0 < ServerCols ctl" "0 < GridCols ctl" using ok by (simp_all add: grid_ok_def)
  have even: "unat gc * unat (ServerCols ctl) = unat (GridCols ctl)" "unat gr * unat (ServerRows ctl) = unat (GridRows ctl)"
    using server_share_even [OF gc] server_share_even [OF gr] even by (simp_all add: even_shares_def)
  note b = even_block [OF k g(1) even_shares_fit [OF ok assms(3)] even, folded X_def Y_def]
  have cell: "cell_channel E ctl s (k mod ServerCols ctl * gc + of_nat (i mod unat gc)) (k div ServerCols ctl * gr + of_nat (i div unat gc)) =
      Some (cell_id ctl s (X * unat gc + i mod unat gc) (Y * unat gr + i div unat gc))" if "i < unat gc * unat gr" for i
  proof -
    have "0 < unat gc" using that by (cases "unat gc") simp_all
    then have "i mod unat gc < unat gc" "i div unat gc < unat gr"
      using that by (simp_all add: less_mult_imp_div_less mult.commute)
    with b show ?thesis by (subst cell_channel_whole [OF whole]) (simp_all add: word_less_nat_alt)
  qed
  show ?thesis
    using cell by (subst block_ids_result [OF ok gc gr]) auto
qed

lemma region_server:
  assumes "x < unat (GridCols ctl)" and "y < unat (GridRows ctl)" and "0 < gc" and "0 < gr"
    and "unat gc * unat (ServerCols ctl) = unat (GridCols ctl)" and "unat gr * unat (ServerRows ctl) = unat (GridRows ctl)"
    and "k < ServerCols ctl * ServerRows ctl" and "unat (ServerCols ctl) * unat (ServerRows ctl) < 2 ^ 32"
  shows "sr_ServerIndex (region_at ctl s gc gr (of_nat x) (of_nat y)) = k \<longleftrightarrow>
    x div unat gc = unat k mod unat (ServerCols ctl) \<and> y div unat gr = unat k div unat (ServerCols ctl)"
proof -
  let ?S = "unat (ServerCols ctl)" and ?sx = "x div unat gc" and ?sy = "y div unat gr"
  have s: "?sx < ?S" "?sy < unat (ServerRows ctl)"
    using assms(1,2,5,6) by (simp_all add: less_mult_imp_div_less mult.commute)
  have xy: "unat (of_nat x :: uint32) = x" "unat (of_nat y :: uint32) = y"
    using assms(1,2) unsigned_less [where ?'a = nat, of "GridCols ctl"] unsigned_less [where ?'a = nat, of "GridRows ctl"]
    by (simp_all add: unat_of_nat32)
  have sum: "?sx + ?sy * ?S < 2 ^ 32" using cell_index_less [OF s] assms(8) by simp
  have "unat (of_nat x div gc + of_nat y div gr * ServerCols ctl) = (?sx + ?sy * ?S) mod 2 ^ 32"
    by (simp add: unat_word_ariths unat_div_distrib xy mod_simps)
  then have n: "unat (sr_ServerIndex (region_at ctl s gc gr (of_nat x) (of_nat y))) = ?sx + ?sy * ?S"
    using sum by (simp add: region_at_def)
  have "sr_ServerIndex (region_at ctl s gc gr (of_nat x) (of_nat y)) = k \<longleftrightarrow> ?sx + ?sy * ?S = unat k"
    by (simp flip: n add: word_unat_eq_iff)
  also have "\<dots> \<longleftrightarrow> ?sx = unat k mod ?S \<and> ?sy = unat k div ?S"
  proof
    assume "?sx + ?sy * ?S = unat k"
    then show "?sx = unat k mod ?S \<and> ?sy = unat k div ?S" using s(1) by (auto simp flip: \<open>?sx + ?sy * ?S = unat k\<close>)
  qed (simp only: mod_div_mult_eq)
  finally show ?thesis .
qed

definition block_cell :: "nat \<Rightarrow> nat \<Rightarrow> nat \<Rightarrow> nat \<Rightarrow> nat \<Rightarrow> nat \<times> nat" where
  "block_cell gc gr X Y i = (X * gc + i mod gc, Y * gr + i div gc)"

lemma block_cell_iff:
  assumes "0 < gc" and "0 < gr"
  shows "(\<exists>i < gc * gr. block_cell gc gr X Y i = (x, y)) \<longleftrightarrow> x div gc = X \<and> y div gr = Y"
proof
  assume "\<exists>i < gc * gr. block_cell gc gr X Y i = (x, y)"
  then obtain i where i: "i < gc * gr" "x = X * gc + i mod gc" "y = Y * gr + i div gc" by (auto simp: block_cell_def)
  have "i div gc < gr" using i(1) by (simp add: less_mult_imp_div_less mult.commute)
  then show "x div gc = X \<and> y div gr = Y" using assms by (simp add: i(2,3))
next
  assume xy: "x div gc = X \<and> y div gr = Y"
  define i where "i = x mod gc + (y mod gr) * gc"
  have "i mod gc = x mod gc" "i div gc = y mod gr" using assms by (simp_all add: i_def)
  then have "block_cell gc gr X Y i = (x, y)" using xy by (auto simp: block_cell_def)
  moreover have "i < gc * gr" unfolding i_def using assms by (intro cell_index_less) simp_all
  ultimately show "\<exists>i < gc * gr. block_cell gc gr X Y i = (x, y)" by blast
qed

lemma block_cell_inject: "block_cell gc gr X Y i = block_cell gc gr X Y j \<Longrightarrow> i = j"
  by (simp add: block_cell_def) (metis mod_div_mult_eq)

lemma regions_image:
  assumes "length rs = c * r"
    and "\<And>x y. x < c \<Longrightarrow> y < r \<Longrightarrow> rs ! (x + y * c) = f x y"
  shows "g ` {v \<in> set rs. P v} = {g (f x y) | x y. x < c \<and> y < r \<and> P (f x y)}" (is "?L = ?R")
proof (intro equalityI subsetI)
  fix a assume "a \<in> ?L"
  then obtain n where n: "n < c * r" "P (rs ! n)" "a = g (rs ! n)" by (auto simp: in_set_conv_nth assms(1))
  have "0 < c" using n(1) by (cases c) simp_all
  then have xy: "n mod c < c" "n div c < r" using n(1) by (simp_all add: less_mult_imp_div_less mult.commute)
  have "rs ! n = f (n mod c) (n div c)" using assms(2) [OF xy] by simp
  then show "a \<in> ?R" using n xy by auto
next
  fix a assume "a \<in> ?R"
  then obtain x y where xy: "x < c" "y < r" "P (f x y)" "a = g (f x y)" by blast
  have "x + y * c < length rs" using cell_index_less [OF xy(1,2)] assms(1) by simp
  then have "f x y \<in> set rs" using assms(2) [OF xy(1,2)] by (metis nth_mem)
  then show "a \<in> ?L" using xy by blast
qed

text \<open>The channels created for a server are those whose regions name it.\<close>

lemma block_ids_regions:
  assumes ok: "grid_ok ctl s" and whole: "whole_cells ctl" and even: "even_shares ctl"
    and k: "k < ServerCols ctl * ServerRows ctl"
  obtains gc gr rs ids where "server_share (GridCols ctl) (ServerCols ctl) = Some gc"
    and "server_share (GridRows ctl) (ServerRows ctl) = Some gr"
    and "grid_GetRegions ctl s = Some (Some rs)" and "block_ids E ctl s k gc gr = Some (Some ids)"
    and "distinct ids" and "set ids = sr_ChannelId ` {r \<in> set rs. sr_ServerIndex r = k}"
proof -
  let ?c = "unat (GridCols ctl)" and ?r = "unat (GridRows ctl)"
  let ?X = "unat k mod unat (ServerCols ctl)" and ?Y = "unat k div unat (ServerCols ctl)"
  obtain gc gr rs where gc: "server_share (GridCols ctl) (ServerCols ctl) = Some gc"
    and gr: "server_share (GridRows ctl) (ServerRows ctl) = Some gr"
    and rs: "grid_GetRegions ctl s = Some (Some rs)" "length rs = ?c * ?r"
    and at: "\<And>x y. x < ?c \<Longrightarrow> y < ?r \<Longrightarrow> rs ! (x + y * ?c) = region_at ctl s gc gr (of_nat x) (of_nat y)"
    using grid_GetRegions_result [OF ok] by metis
  have g: "0 < ServerCols ctl" "0 < ServerRows ctl" "0 < GridCols ctl" "0 < GridRows ctl" using ok by (simp_all add: grid_ok_def)
  have pos: "0 < gc" "0 < gr"
    using server_share_pos [OF g(1), of "GridCols ctl"] server_share_pos [OF g(2), of "GridRows ctl"] gc gr g(3,4) by (metis option.inject)+
  have shares: "unat gc * unat (ServerCols ctl) = ?c" "unat gr * unat (ServerRows ctl) = ?r"
    using server_share_even [OF gc] server_share_even [OF gr] even by (simp_all add: even_shares_def)
  note fit = even_shares_fit [OF ok even]
  note block = even_block [OF k g(1) fit shares] and server = region_server [OF _ _ pos shares k fit]
  let ?cell = "block_cell (unat gc) (unat gr) ?X ?Y" and ?id = "\<lambda>(x, y). cell_id ctl s x y"
  define ids where "ids = map (?id \<circ> ?cell) [0..<unat gc * unat gr]"
  have iff: "(\<exists>i < unat gc * unat gr. ?cell i = (x, y)) \<longleftrightarrow> x div unat gc = ?X \<and> y div unat gr = ?Y" for x y
    using pos by (intro block_cell_iff) (simp_all add: word_less_nat_alt)
  have inside: "fst (?cell i) < ?c" "snd (?cell i) < ?r" if "i < unat gc * unat gr" for i
    using block(1,2) that pos(1) by (simp_all add: block_cell_def word_less_nat_alt less_mult_imp_div_less mult.commute)
  have "distinct ids"
    unfolding ids_def distinct_map
  proof (intro conjI inj_onI)
    fix i j assume "i \<in> set [0..<unat gc * unat gr]" "j \<in> set [0..<unat gc * unat gr]" "(?id \<circ> ?cell) i = (?id \<circ> ?cell) j"
    then have "?cell i = ?cell j" using inside [of i] inside [of j] cell_id_inject [OF ok] by (auto split: prod.splits)
    then show "i = j" by (rule block_cell_inject)
  qed simp
  moreover have "set ids = {cell_id ctl s x y | x y. x < ?c \<and> y < ?r \<and> x div unat gc = ?X \<and> y div unat gr = ?Y}"
    unfolding iff [symmetric] ids_def by (force simp: image_iff dest: inside split: prod.splits)
  moreover have "sr_ChannelId ` {r \<in> set rs. sr_ServerIndex r = k} =
      {cell_id ctl s x y | x y. x < ?c \<and> y < ?r \<and> x div unat gc = ?X \<and> y div unat gr = ?Y}"
    unfolding regions_image [OF rs(2) at, simplified] using server by (auto simp: region_at_def cell_id_def)
  ultimately show ?thesis
    using that [OF gc gr rs(1), of ids] block_ids_even [OF ok whole even k gc gr] by (simp add: ids_def block_cell_def comp_def)
qed

subsection \<open>Creating channels\<close>

text \<open>A channel of the grid as a server creates it.\<close>

definition spatial_channel :: "World \<Rightarrow> ConnRef \<Rightarrow> uint32 \<Rightarrow> ChanPtr \<Rightarrow> bool" where
  "spatial_channel w r i c \<longleftrightarrow> GetChannel w i = Some c \<and> ch_id (w_chan w c) = i \<and>
     ch_channelType (w_chan w c) = ChannelType_SPATIAL \<and> GetOwner w c = r \<and> ch_data (w_chan w c) \<noteq> None \<and>
     ch_subscribedConnections (w_chan w c) = []"

text \<open>What stays when channels are added.\<close>

definition channels_added :: "World \<Rightarrow> uint32 set \<Rightarrow> World \<Rightarrow> bool" where
  "channels_added w is w' \<longleftrightarrow> conns_kept w w' \<and> w_conn w' = w_conn w \<and> w_serverConnections w' = w_serverConnections w \<and>
     w_nchan w \<le> w_nchan w' \<and> (\<forall>c < w_nchan w. w_chan w' c = w_chan w c) \<and>
     (\<forall>i. i \<notin> is \<longrightarrow> GetChannel w' i = GetChannel w i)"

lemma channels_added_trans:
  "channels_added w is w1 \<Longrightarrow> channels_added w1 js w2 \<Longrightarrow> channels_added w (is \<union> js) w2"
  unfolding channels_added_def using conns_kept_trans by auto

lemma create_spatial_channel:
  obtains w1 c where "createChannelWithId E i ChannelType_SPATIAL (Conn p) w = Some (w1, c)"
    and "spatial_channel (InitData E c dm opts w1) (Conn p) i c" and "channels_added w {i} (InitData E c dm opts w1)"
    and "c < w_nchan (InitData E c dm opts w1)" and "w_nchan w \<le> c"
proof -
  obtain w1 c where r: "createChannelWithId E i ChannelType_SPATIAL (Conn p) w = Some (w1, c)"
    by (auto simp: createChannelWithId_def ref_closing_def Let_def)
  obtain ch where c: "w1 = log_event (EvChannelCreated c) (register_channel ch w)" "c = w_nchan w" "ch_id ch = i"
    "ch_channelType ch = ChannelType_SPATIAL" "ch_ownerConnection ch = Conn p" "ch_subscribedConnections ch = []"
    by (rule createChannelWithId_result [OF r])
  show thesis
  proof (rule that [OF r])
    show "spatial_channel (InitData E c dm opts w1) (Conn p) i c"
      using c by (simp add: spatial_channel_def InitData_def register_channel_def Let_def GetChannel_def GetOwner_def)
    show "channels_added w {i} (InitData E c dm opts w1)"
      using c by (auto simp: channels_added_def conns_kept_def InitData_def register_channel_def Let_def GetChannel_def)
    show "c < w_nchan (InitData E c dm opts w1)"
      using c by (simp add: InitData_def register_channel_def Let_def)
  qed (simp add: c(2))
qed

lemma spatial_channel_kept:
  assumes "channels_added w is w'" and "spatial_channel w r i c" and "c < w_nchan w" and "i \<notin> is"
  shows "spatial_channel w' r i c"
  using assms by (simp add: channels_added_def spatial_channel_def GetOwner_def)

lemma create_block_result:
  assumes "x_Connection ctx = Conn p" and "data_unmarshals E data" and "distinct is"
  shows "\<exists>w' cs. create_block E ctx data opts is w = Some (w', Some cs) \<and> channels_added w (set is) w' \<and>
    list_all2 (spatial_channel w' (Conn p)) is cs \<and> (\<forall>c \<in> set cs. w_nchan w \<le> c)"
  using assms(3)
proof (induction "is" arbitrary: w)
  case Nil
  then show ?case by (simp add: channels_added_def)
next
  case (Cons i "is")
  obtain dm where dm: "(case data of None \<Rightarrow> Some None | Some any \<Rightarrow> map_option Some (ex_unmarshalAny E any)) = Some dm"
    using assms(2) by (auto simp: data_unmarshals_def)
  obtain w1 c where c: "createChannelWithId E i ChannelType_SPATIAL (Conn p) w = Some (w1, c)"
    "spatial_channel (InitData E c dm opts w1) (Conn p) i c" "channels_added w {i} (InitData E c dm opts w1)"
    "c < w_nchan (InitData E c dm opts w1)" "w_nchan w \<le> c"
    using create_spatial_channel [of E i p w dm opts] .
  obtain w' cs where w': "create_block E ctx data opts is (InitData E c dm opts w1) = Some (w', Some cs)"
    "channels_added (InitData E c dm opts w1) (set is) w'" "list_all2 (spatial_channel w' (Conn p)) is cs"
    "\<forall>d \<in> set cs. w_nchan (InitData E c dm opts w1) \<le> d"
    using Cons.IH [of "InitData E c dm opts w1"] Cons.prems by auto
  have "spatial_channel w' (Conn p) i c" using spatial_channel_kept [OF w'(2) c(2,4)] Cons.prems by simp
  moreover have "channels_added w (set (i # is)) w'" using channels_added_trans [OF c(3) w'(2)] by simp
  moreover have "create_block E ctx data opts (i # is) w = Some (w', Some (c # cs))"
    using dm c(1) w'(1) assms(1) by simp
  moreover have "w_nchan w \<le> w_nchan (InitData E c dm opts w1)" using c(3) by (simp add: channels_added_def)
  ultimately show ?case using w'(3,4) c(5) by fastforce
qed

lemma spatial_channels_ids:
  assumes "list_all2 (spatial_channel w r) is cs"
  shows "map (\<lambda>c. ch_id (w_chan w c)) cs = is \<and> (\<forall>c \<in> set cs. spatial_channel w r (ch_id (w_chan w c)) c)"
  using assms by induction (auto simp: spatial_channel_def)

lemma create_block_unreadable:
  assumes "x_Connection ctx = Conn p" and "ex_unmarshalAny E any = None"
  shows "\<exists>w' c. create_block E ctx (Some any) opts (i # is) w = Some (w', None) \<and>
    createChannelWithId E i ChannelType_SPATIAL (Conn p) w = Some (w', c)"
  using assms by (auto simp: createChannelWithId_def ref_closing_def Let_def)

subsection \<open>The slots of the servers\<close>

lemma first_free_result:
  assumes "NilConn \<notin> set rs"
  shows "\<exists>n. first_free w rs = Some n \<and> n \<le> length rs \<and> (\<forall>j < n. free_slot w (rs ! j) = Some False) \<and>
    (n < length rs \<longrightarrow> free_slot w (rs ! n) = Some True)"
  using assms
proof (induction rs)
  case (Cons r rs)
  obtain b where b: "free_slot w r = Some b" using Cons.prems by (cases r) (auto simp: free_slot_def ref_closing_def)
  obtain n where n: "first_free w rs = Some n" "n \<le> length rs" "\<forall>j < n. free_slot w (rs ! j) = Some False"
    "n < length rs \<longrightarrow> free_slot w (rs ! n) = Some True"
    using Cons by auto
  show ?case
  proof (cases b)
    case True
    then show ?thesis using b by (intro exI [of _ 0]) simp
  next
    case False
    then show ?thesis using b n by (intro exI [of _ "Suc n"]) (auto simp: less_Suc_eq_0_disj)
  qed
qed simp

definition slots_ok :: "StaticGrid2DSpatialController \<Rightarrow> World \<Rightarrow> bool" where
  "slots_ok ctl w \<longleftrightarrow> (case w_serverConnections w of None \<Rightarrow> True
     | Some conns \<Rightarrow> length conns = unat (ServerCols ctl * ServerRows ctl) \<and> NilConn \<notin> set conns)"

lemma initServerConnections_slots:
  assumes "slots_ok ctl w"
  obtains conns where "initServerConnections ctl w = w\<lparr>w_serverConnections := Some conns\<rparr>"
    and "length conns = unat (ServerCols ctl * ServerRows ctl)" and "NilConn \<notin> set conns"
    and "conns = (case w_serverConnections w of None \<Rightarrow> replicate (unat (ServerCols ctl * ServerRows ctl)) NilIface | Some cs \<Rightarrow> cs)"
proof (cases "w_serverConnections w")
  case None
  then show ?thesis by (intro that) (auto simp: initServerConnections_def)
next
  case (Some conns)
  then have "w\<lparr>w_serverConnections := Some conns\<rparr> = w" by simp
  then show ?thesis using Some assms by (intro that [of conns]) (auto simp: initServerConnections_def slots_ok_def)
qed

lemma nextServerIndex_free:
  assumes "w_serverConnections w = Some conns" and "NilConn \<notin> set conns" and "length conns = unat n"
    and "j < n" and "conns ! unat j = NilIface"
  obtains i where "nextServerIndex w = Some i" and "i \<le> j"
proof -
  obtain m where m: "first_free w conns = Some m" "\<forall>j < m. free_slot w (conns ! j) = Some False"
    using first_free_result [OF assms(2)] by blast
  have j: "free_slot w (conns ! unat j) = Some True" by (simp add: free_slot_def assms(5))
  have le: "m \<le> unat j"
  proof (rule ccontr)
    assume "\<not> m \<le> unat j"
    then have "free_slot w (conns ! unat j) = Some False" using m(2) by simp
    then show False using j by simp
  qed
  have "unat j < 2 ^ 32" using unsigned_less [where ?'a = nat, of j] by simp
  then have "unat (of_nat m :: uint32) = m" using le by (intro unat_of_nat32) simp
  then show thesis
    using le m(1) assms(1) by (intro that [of "of_nat m"]) (simp_all add: nextServerIndex_def opt_list_def word_le_nat_alt)
qed


lemma block_ids_uneven:
  assumes ok: "grid_ok ctl s" and whole: "whole_cells ctl" and uneven: "\<not> unat (ServerCols ctl) dvd unat (GridCols ctl)"
    and fit: "unat (GridCols ctl) + unat (ServerCols ctl) \<le> 2 ^ 32"
    and last: "k mod ServerCols ctl = ServerCols ctl - 1"
    and gc: "server_share (GridCols ctl) (ServerCols ctl) = Some gc"
    and gr: "server_share (GridRows ctl) (ServerRows ctl) = Some gr"
  shows "block_ids E ctl s k gc gr = Some None"
proof -
  let ?S = "unat (ServerCols ctl)"
  have g: "0 < ServerCols ctl" "0 < ServerRows ctl" "0 < GridCols ctl" "0 < GridRows ctl" using ok by (simp_all add: grid_ok_def)
  have gc': "0 < unat gc" "unat gc = (unat (GridCols ctl) + ?S - 1) div ?S" and gr': "0 < unat gr"
    using server_share_pos [OF g(1), of "GridCols ctl"] server_share_pos [OF g(2), of "GridRows ctl"] gc gr g(3,4)
    by (metis option.inject word_less_nat_alt unat_0)+
  have "unat gc * ?S \<le> unat (GridCols ctl) + ?S - 1" unfolding gc'(2) by (simp add: mult.commute)
  also have "\<dots> < 2 ^ 32" using fit g(1) by (simp add: word_less_nat_alt)
  finally have small: "unat gc * ?S < 2 ^ 32" .
  have S: "unat (ServerCols ctl - 1) = ?S - 1" "0 < ?S"
    using g(1) by (simp_all add: word_gt_0 unat_minus_one unat_gt_0)
  have x: "unat (ServerCols ctl - 1) * unat gc + (unat gc - 1) = unat gc * ?S - 1"
    using S gc'(1) by (cases ?S) (simp_all add: mult.commute)
  have "unat (k mod ServerCols ctl * gc + of_nat (unat gc - 1)) = unat gc * ?S - 1"
    unfolding last using share_position [of "ServerCols ctl - 1" gc "unat gc - 1"] small unfolding x by simp
  moreover have "unat (GridCols ctl) < unat gc * ?S" using server_share_uneven [OF gc uneven] .
  ultimately have "GridCols ctl \<le> k mod ServerCols ctl * gc + of_nat (unat gc - 1)"
    by (simp add: word_le_nat_alt)
  then have none: "cell_channel E ctl s (k mod ServerCols ctl * gc + of_nat ((unat gc - 1) mod unat gc)) y = None" for y
    using gc'(1) by (intro cell_channel_outside [OF whole g(3,4)]) simp
  have "unat gc * 1 \<le> unat gc * unat gr" using gr' by (intro mult_le_mono2) simp
  then have "unat gc - 1 < unat gc * unat gr" using gc'(1) by linarith
  with none show ?thesis by (subst block_ids_result [OF ok gc gr]) auto
qed

text \<open>
  When the server columns do not divide the columns of the grid, the servers in the last server column can
  never create their channels: the rounded-up block reaches beyond the grid, and \<open>CreateChannels\<close> fails without
  creating any channel, although \<open>LoadConfig\<close> accepts the configuration.
\<close>

theorem uneven_servers_refused:
  assumes "grid_ok ctl (w_settings w)" "whole_cells ctl" "config_error ctl = None"
    and "\<not> unat (ServerCols ctl) dvd unat (GridCols ctl)" "unat (GridCols ctl) + unat (ServerCols ctl) \<le> 2 ^ 32"
    and "nextServerIndex (initServerConnections ctl w) = Some k" "k mod ServerCols ctl = ServerCols ctl - 1"
  shows "grid_CreateChannels E ctl ctx w = Some (initServerConnections ctl w, None)"
proof -
  have s: "0 < ServerCols ctl" "0 < ServerRows ctl" using assms(1) by (simp_all add: grid_ok_def)
  obtain gc where gc: "server_share (GridCols ctl) (ServerCols ctl) = Some gc" using server_share_pos [OF s(1)] by metis
  obtain gr where gr: "server_share (GridRows ctl) (ServerRows ctl) = Some gr" using server_share_pos [OF s(2)] by metis
  have "w_settings (initServerConnections ctl w) = w_settings w"
    by (simp add: initServerConnections_def split: option.split)
  then show ?thesis
    using block_ids_uneven [OF assms(1,2,4,5,7) gc gr] assms(6) gc gr
    by (auto simp: grid_CreateChannels_def Let_def split: Msg.split)
qed

subsection \<open>The controller's tick\<close>

definition live_slot :: "World \<Rightarrow> ConnRef \<Rightarrow> ConnRef" where
  "live_slot w r = (if free_slot w r = Some True then NilIface else r)"

lemma reset_slots_result: "NilConn \<notin> set rs \<Longrightarrow> reset_slots w rs = Some (map (live_slot w) rs)"
proof (induction rs)
  case (Cons r rs)
  then show ?case by (cases r) (auto simp: live_slot_def free_slot_def ref_closing_def)
qed simp

lemma first_free_live: "NilConn \<notin> set rs \<Longrightarrow> first_free w (map (live_slot w) rs) = first_free w rs"
proof (induction rs)
  case (Cons r rs)
  then show ?case by (cases r) (auto simp: live_slot_def free_slot_def ref_closing_def)
qed simp

lemma first_free_cong:
  assumes "\<And>p. w_conn w' p = w_conn w p"
  shows "first_free w' rs = first_free w rs"
proof (induction rs)
  case (Cons r rs)
  then show ?case using assms by (cases r) (simp_all add: free_slot_def ref_closing_def)
qed simp

text \<open>
  The controller's tick gives up the slots of closed connections and no other, so that the next server to
  create channels takes the first slot that no live connection holds.
\<close>

theorem Tick_frees_slots:
  assumes "slots_ok ctl w" and "w_serverConnections w = Some conns"
  shows "\<exists>w' k. grid_Tick ctl w = Some w' \<and> w_serverConnections w' = Some (map (live_slot w) conns) \<and> slots_ok ctl w' \<and>
    nextServerIndex w' = Some (of_nat k) \<and> nextServerIndex w = Some (of_nat k) \<and> k \<le> length conns \<and>
    (\<forall>j < k. map (live_slot w) conns ! j \<noteq> NilIface) \<and> (k < length conns \<longrightarrow> map (live_slot w) conns ! k = NilIface)"
proof -
  have conns: "NilConn \<notin> set conns" "length conns = unat (ServerCols ctl * ServerRows ctl)"
    using assms by (simp_all add: slots_ok_def)
  obtain k where k: "first_free w conns = Some k" "k \<le> length conns" "\<forall>j < k. free_slot w (conns ! j) = Some False"
    "k < length conns \<longrightarrow> free_slot w (conns ! k) = Some True"
    using first_free_result [OF conns(1)] by blast
  let ?w = "w\<lparr>w_serverConnections := Some (map (live_slot w) conns)\<rparr>"
  have "grid_Tick ctl w = Some ?w"
    using reset_slots_result [OF conns(1)] assms(2)
    by (simp add: grid_Tick_def initServerConnections_def opt_list_def Let_def)
  moreover have "slots_ok ctl ?w"
    using conns by (auto simp: slots_ok_def live_slot_def)
  moreover have "nextServerIndex ?w = Some (of_nat k)" "nextServerIndex w = Some (of_nat k)"
    using first_free_live [OF conns(1), of w] first_free_cong [of ?w w] k(1) assms(2)
    by (simp_all add: nextServerIndex_def opt_list_def)
  moreover have "map (live_slot w) conns ! j \<noteq> NilIface" if "j < k" for j
    using k(2,3) that by (auto simp: live_slot_def free_slot_def)
  moreover have "map (live_slot w) conns ! k = NilIface" if "k < length conns"
    using k(4) that by (simp add: live_slot_def)
  ultimately show ?thesis using k(2) by auto
qed

subsection \<open>Fractional cells\<close>

lemma exponent_eq:
  assumes "2 powi e \<le> r" and "r < 2 powi (e + 1)"
  shows "exponent r = e"
proof -
  have r: "0 < r" using assms(1) zero_less_power_int [of "2::rat" e] by linarith
  then have b: "2 powi exponent r \<le> r" "r < 2 powi (exponent r + 1)" using exponent_bounds [of r] by auto
  have "(2::rat) powi e < 2 powi (exponent r + 1)" "(2::rat) powi exponent r < 2 powi (e + 1)" using assms b by linarith+
  then show ?thesis using powi2_less [of e "exponent r + 1"] powi2_less [of "exponent r" "e + 1"] by linarith
qed

lemma rnd_eq:
  assumes "2 ^ n \<le> r" and "r < 2 ^ (n + 1)" and "n \<le> 52"
  shows "rnd r = of_int (round_even (r * 2 ^ (52 - n))) / 2 ^ (52 - n)"
proof -
  have "(2::rat) powi (int n + 1) = 2 ^ (n + 1)" using power_int_of_nat [of "2::rat" "n + 1"] by (simp only: of_nat_add of_nat_1)
  then have "exponent r = int n" using assms(1,2) by (intro exponent_eq) simp_all
  then have "ulp r = 2 powi (- int (52 - n))" using assms(3) by (simp add: ulp_def of_nat_diff)
  then have "ulp r = 1 / 2 ^ (52 - n)" by (simp add: power_int_minus divide_inverse)
  then show ?thesis by (simp add: rnd_def)
qed

lemma floor_fraction: "\<lfloor>numeral a / numeral b :: rat\<rfloor> = numeral a div numeral b"
  using floor_divide_of_int_eq [of "numeral a" "numeral b", where 'a = rat] by simp

definition width_25_4 :: rat where
  "width_25_4 = 3574732204225331 / 2 ^ 47"

lemma rnd_triple: "rnd (3 * width_25_4) = 5362098306337996 / 2 ^ 46"
  by (subst rnd_eq [of 6]) (simp_all add: width_25_4_def round_even_def Let_def floor_fraction)

lemma rnd_third: "rnd (5362098306337996 / 2 ^ 46 / width_25_4) = 3 - 1 / 2 ^ 51"
  by (subst rnd_eq [of 1]) (simp_all add: width_25_4_def round_even_def Let_def floor_fraction)


lemma index_of_column_3:
  "grid_index E (fmul (of_uint32 3) (Fin width_25_4)) (Fin 0) (Fin width_25_4) = 2"
proof -
  let ?v = "5362098306337996 / 2 ^ 46 :: rat"
  have "f64_grid (of_int 5362098306337996 / 2 ^ 46)" by (intro f64_grid_dyadic) simp_all
  then have v: "rnd ?v = ?v" by (intro rnd_exact) simp
  have "fmul (of_uint32 3) (Fin width_25_4) = Fin ?v"
    using rnd_triple by (simp add: of_uint32_def round64_def f64_limit_def)
  moreover have "fsub (Fin ?v) (Fin 0) = Fin ?v" using v by (simp add: fsub_def round64_def f64_limit_def)
  moreover have "fdiv (Fin ?v) (Fin width_25_4) = Fin (3 - 1 / 2 ^ 51)"
    using rnd_third by (simp add: width_25_4_def round64_def f64_limit_def)
  ultimately show ?thesis by (simp add: grid_index_def go_int_def trunc_def floor_fraction)
qed

lemma index_of_column_2:
  "grid_index E (fmul (of_uint32 2) (Fin width_25_4)) (Fin 0) (Fin width_25_4) = 2"
proof -
  let ?v = "3574732204225331 / 2 ^ 46 :: rat"
  have "f64_grid (of_int 3574732204225331 / 2 ^ 46)" by (intro f64_grid_dyadic) simp_all
  then have v: "rnd ?v = ?v" by (intro rnd_exact) simp
  have "fmul (of_uint32 2) (Fin width_25_4) = Fin ?v"
    using v by (simp add: of_uint32_def width_25_4_def round64_def f64_limit_def)
  moreover have "fsub (Fin ?v) (Fin 0) = Fin ?v" using v by (simp add: fsub_def round64_def f64_limit_def)
  moreover have "fdiv (Fin ?v) (Fin width_25_4) = Fin 2"
    using round64_of_int [of 2] by (simp add: width_25_4_def)
  ultimately show ?thesis by (simp add: grid_index_def go_int_def trunc_def)
qed

text \<open>
  With cells 25.4 units wide, the position that \<open>CreateChannels\<close> computes for a cell of column 3 rounds
  down into column 2: both columns get the channels of column 2, so a channel is created twice, and the
  channels of column 3 never.
\<close>

theorem fractional_cells_collide:
  assumes "GridWidth ctl = Fin width_25_4" and "3 < GridCols ctl"
    and "GridHeight ctl = Fin (of_int ht)" "0 < ht" "uint (GridRows ctl) * ht < 2 ^ 53" and "y < GridRows ctl"
  shows "cell_channel E ctl s 3 y = Some (cell_id ctl s 2 (unat y)) \<and>
    cell_channel E ctl s 2 y = Some (cell_id ctl s 2 (unat y))"
proof -
  have "uint y * ht \<le> uint (GridRows ctl) * ht"
    using assms(4,6) by (auto intro!: mult_right_mono simp: word_less_def)
  then have "uint y * ht < 2 ^ 53" using assms(5) by linarith
  from whole_index [OF assms(4) _ this, of E]
  have row: "grid_index E (fmul (of_uint32 y) (GridHeight ctl)) (Fin 0) (GridHeight ctl) = int (unat y)"
    by (simp add: of_uint32_def assms(3))
  have "2 < unat (GridCols ctl)" "unat y < unat (GridRows ctl)" using assms(2,6) by (simp_all add: word_less_nat_alt)
  then have "GetChannelIdNoOffset E ctl s (cell_position ctl x y) = (cell_id ctl s 2 (unat y), True)" if "x = 2 \<or> x = 3" for x
    unfolding GetChannelIdNoOffset_def cell_position_def
    using that row index_of_column_2 [of E] index_of_column_3 [of E]
    by (intro GetChannelIdWithOffset_ok) (auto simp: assms(1))
  then show ?thesis by (simp add: cell_channel_def)
qed

subsection \<open>Examples\<close>

lemma replicate_two: "replicate 2 a = [a, a]"
  by (simp add: numeral_2_eq_2)

definition create_ctx :: MessageContext where
  "create_ctx = empty_ctx\<lparr>x_Connection := Conn 0, x_Msg := CreateChannelMessage ChannelType_SPATIAL [] None None None\<rparr>"


theorem uneven_servers_refused_witness:
  "grid_CreateChannels demo_externs (demo_grid\<lparr>GridCols := 3\<rparr>) create_ctx
     (demo_world\<lparr>w_serverConnections := Some [Conn 0, NilIface]\<rparr>) =
   Some (demo_world\<lparr>w_serverConnections := Some [Conn 0, NilIface]\<rparr>, None)"
proof -
  let ?w = "demo_world\<lparr>w_serverConnections := Some [Conn 0, NilIface]\<rparr>" and ?g = "demo_grid\<lparr>GridCols := 3\<rparr>"
  have w: "w_settings ?w = default_settings" "initServerConnections ?g ?w = ?w"
    by (simp_all add: demo_world_def initServerConnections_def)
  have "nextServerIndex ?w = Some 1"
    by (simp add: nextServerIndex_def opt_list_def free_slot_def ref_closing_def demo_world_def demo_conn_def IsClosing_def)
  moreover have "config_error ?g = None" by (simp add: config_error_def demo_grid_def)
  ultimately show ?thesis
    using uneven_servers_refused [of ?g ?w 1 demo_externs create_ctx] demo_grid_ok(2) demo_whole(1) by (simp add: w)
qed

theorem Tick_frees_slots_witness:
  "\<exists>w'. grid_Tick demo_grid (demo_world\<lparr>w_serverConnections := Some [Conn 0, NilIface]\<rparr>) = Some w' \<and> slots_ok demo_grid w'"
  using Tick_frees_slots [of demo_grid "demo_world\<lparr>w_serverConnections := Some [Conn 0, NilIface]\<rparr>" "[Conn 0, NilIface]"]
  by (auto simp: slots_ok_def)

theorem fractional_cells_collide_witness:
  "cell_channel demo_externs (demo_grid\<lparr>GridWidth := Fin width_25_4, GridCols := 4\<rparr>) default_settings 3 0 =
   cell_channel demo_externs (demo_grid\<lparr>GridWidth := Fin width_25_4, GridCols := 4\<rparr>) default_settings 2 0"
  using fractional_cells_collide [of "demo_grid\<lparr>GridWidth := Fin width_25_4, GridCols := 4\<rparr>" 10 0] by simp

end
