(* ===== verification/SpatialQuery.thy ===== *)
theory SpatialQuery
  imports SpatialServers
begin

text \<open>
  The queries of the spatial controller (\<open>QueryChannelIds\<close> in \<open>spatial.go\<close>, with the vectors of
  \<open>common.go\<close>): the channels within the spots, the box, the sphere or the cone of an interest, each with
  the distance of one of the positions sampled in it.

  The sampling loops count with floats.  The values of such a counter do not depend on the body of the
  loop, so they are a list of their own, \<open>float_range\<close>; it is a partial function, and a query that never
  returns (or dereferences a nil vector) is \<open>None\<close>.
\<close>

subsection \<open>Vectors\<close>

definition Dist2D :: "SpatialInfo \<Rightarrow> SpatialInfo \<Rightarrow> float64" where
  "Dist2D info1 info2 =
     (let dx = fsub (si_X info1) (si_X info2); dz = fsub (si_Z info1) (si_Z info2) in
      fsqrt (fadd (fmul dx dx) (fmul dz dz)))"

definition Dot2D :: "SpatialInfo \<Rightarrow> SpatialInfo \<Rightarrow> float64" where
  "Dot2D info1 info2 = fadd (fmul (si_X info1) (si_X info2)) (fmul (si_Z info1) (si_Z info2))"

definition Magnitude2D :: "SpatialInfo \<Rightarrow> float64" where
  "Magnitude2D info = fsqrt (fadd (fmul (si_X info) (si_X info)) (fmul (si_Z info) (si_Z info)))"

definition Normalize2D :: "SpatialInfo \<Rightarrow> SpatialInfo" where
  "Normalize2D info = (let mag = Magnitude2D info in
     info\<lparr>si_X := fdiv (si_X info) mag, si_Z := fdiv (si_Z info) mag\<rparr>)"

definition flat :: "SpatialInfo \<Rightarrow> SpatialInfo" where
  "flat info = info\<lparr>si_Y := Fin 0\<rparr>"

subsection \<open>Sampling\<close>

text \<open>The values of \<open>v\<close> in \<open>for v := first; v <= hi; v += step\<close>.\<close>

partial_function (option) float_range :: "float64 \<Rightarrow> float64 \<Rightarrow> float64 \<Rightarrow> float64 list option" where
  "float_range v hi step =
     (if fle v hi then Option.bind (float_range (fadd v step) hi step) (\<lambda>vs. Some (v # vs)) else Some [])"

text \<open>The positions of the two nested loops, \<open>z\<close> outside.\<close>

definition sample_points ::
  "float64 \<times> float64 \<times> float64 \<Rightarrow> float64 \<times> float64 \<times> float64 \<Rightarrow> SpatialInfo list option" where
  "sample_points rangeX rangeZ = do {
     zs \<leftarrow> (case rangeZ of (v, hi, step) \<Rightarrow> float_range v hi step);
     if zs = [] then Some []
     else do {
       xs \<leftarrow> (case rangeX of (v, hi, step) \<Rightarrow> float_range v hi step);
       Some (concat (map (\<lambda>z. map (\<lambda>x. \<lparr>si_X = x, si_Y = Fin 0, si_Z = z\<rparr>) xs) zs))
     }
   }"

definition grid_distance ::
  "Externs \<Rightarrow> StaticGrid2DSpatialController \<Rightarrow> SpatialInfo \<Rightarrow> SpatialInfo \<Rightarrow> nat" where
  "grid_distance E ctl center spot = go_uint (ex_floatToUint E) (fceil (fdiv (Dist2D center spot) (GridSize ctl)))"

text \<open>The result is a map, here with its keys in the order of their insertion.\<close>

type_synonym QueryResult = "(uint32 \<times> nat) list"

definition add_sample ::
  "Externs \<Rightarrow> StaticGrid2DSpatialController \<Rightarrow> GlobalSettingsType \<Rightarrow> (SpatialInfo \<Rightarrow> bool) \<Rightarrow> SpatialInfo \<Rightarrow>
   SpatialInfo \<Rightarrow> QueryResult \<Rightarrow> QueryResult" where
  "add_sample E ctl s inside center spot result =
     (if \<not> inside spot then result
      else case grid_GetChannelId E ctl s spot of
        (chId, ok) \<Rightarrow> if ok then AList.update chId (grid_distance E ctl center spot) result else result)"

text \<open>The end of each of the three areas: the channel of the centre, at distance 0; the query fails when
the centre is outside the world.\<close>

definition sample_area ::
  "Externs \<Rightarrow> StaticGrid2DSpatialController \<Rightarrow> GlobalSettingsType \<Rightarrow> (SpatialInfo \<Rightarrow> bool) \<Rightarrow> SpatialInfo \<Rightarrow>
   float64 \<times> float64 \<times> float64 \<Rightarrow> float64 \<times> float64 \<times> float64 \<Rightarrow> QueryResult \<Rightarrow> QueryResult option option" where
  "sample_area E ctl s inside center rangeX rangeZ result = do {
     spots \<leftarrow> sample_points rangeX rangeZ;
     let result' = fold (add_sample E ctl s inside center) spots result;
     (case grid_GetChannelId E ctl s center of
        (centerChId, ok) \<Rightarrow> if ok then Some (Some (AList.update centerChId 0 result')) else Some None)
   }"

definition half :: float64 where
  "half = Fin (1 / 2)"

subsection \<open>The four areas\<close>

definition query_spots ::
  "Externs \<Rightarrow> StaticGrid2DSpatialController \<Rightarrow> GlobalSettingsType \<Rightarrow> SpotsAOI \<Rightarrow> QueryResult \<Rightarrow> QueryResult" where
  "query_spots E ctl s aoi result =
     fold (\<lambda>(i, spot) result. case grid_GetChannelId E ctl s spot of
         (chId, ok) \<Rightarrow>
           if \<not> ok then result
           else AList.update chId (if i < length (spots_Dists aoi) then unat (spots_Dists aoi ! i) else 0) result)
       (enumerate 0 (spots_Spots aoi)) result"

definition query_box ::
  "Externs \<Rightarrow> StaticGrid2DSpatialController \<Rightarrow> GlobalSettingsType \<Rightarrow> BoxAOI \<Rightarrow> QueryResult \<Rightarrow> QueryResult option option" where
  "query_box E ctl s aoi result = do {
     center \<leftarrow> map_option flat (box_Center aoi);
     extent \<leftarrow> box_Extent aoi;
     let stepZ = fmul (fmin (si_Z extent) (GridHeight ctl)) half;
     let stepX = fmul (fmin (si_X extent) (GridWidth ctl)) half;
     if fle stepZ (Fin 0) \<or> fle stepX (Fin 0) then Some None
     else sample_area E ctl s (\<lambda>_. True) center
            (fsub (si_X center) (si_X extent), fadd (si_X center) (si_X extent), stepX)
            (fsub (si_Z center) (si_Z extent), fadd (si_Z center) (si_Z extent), stepZ) result
   }"

definition in_radius :: "SpatialInfo \<Rightarrow> float64 \<Rightarrow> SpatialInfo \<Rightarrow> bool" where
  "in_radius center r spot =
     (let dx = fsub (si_X spot) (si_X center); dz = fsub (si_Z spot) (si_Z center) in
      \<not> flt (fmul r r) (fadd (fmul dx dx) (fmul dz dz)))"

definition query_sphere ::
  "Externs \<Rightarrow> StaticGrid2DSpatialController \<Rightarrow> GlobalSettingsType \<Rightarrow> SphereAOI \<Rightarrow> QueryResult \<Rightarrow> QueryResult option option" where
  "query_sphere E ctl s aoi result = do {
     let r = sphere_Radius aoi;
     center \<leftarrow> map_option flat (sphere_Center aoi);
     let stepZ = fmul (fmin r (GridHeight ctl)) half;
     let stepX = fmul (fmin r (GridWidth ctl)) half;
     if fle stepZ (Fin 0) \<or> fle stepX (Fin 0) then Some None
     else sample_area E ctl s (in_radius center r) center
            (fsub (si_X center) r, fadd (si_X center) r, stepX)
            (fsub (si_Z center) r, fadd (si_Z center) r, stepZ) result
   }"

definition in_cone :: "Externs \<Rightarrow> ConeAOI \<Rightarrow> SpatialInfo \<Rightarrow> SpatialInfo \<Rightarrow> SpatialInfo \<Rightarrow> bool" where
  "in_cone E aoi center coneDir spot =
     (in_radius center (cone_Radius aoi) spot \<and>
      (let dir = Normalize2D \<lparr>si_X = fsub (si_X spot) (si_X center), si_Y = Fin 0, si_Z = fsub (si_Z spot) (si_Z center)\<rparr> in
       \<not> flt (Dot2D dir coneDir) (fsub (ex_cos E (cone_Angle aoi)) (Fin 0))))"

definition query_cone ::
  "Externs \<Rightarrow> StaticGrid2DSpatialController \<Rightarrow> GlobalSettingsType \<Rightarrow> ConeAOI \<Rightarrow> QueryResult \<Rightarrow> QueryResult option option" where
  "query_cone E ctl s aoi result = do {
     let r = cone_Radius aoi;
     center \<leftarrow> map_option flat (cone_Center aoi);
     coneDir \<leftarrow> map_option (\<lambda>d. Normalize2D (flat d)) (cone_Direction aoi);
     let stepZ = fmul (fmin r (GridHeight ctl)) half;
     let stepX = fmul (fmin r (GridWidth ctl)) half;
     if fle stepZ (Fin 0) \<or> fle stepX (Fin 0) then Some None
     else sample_area E ctl s (in_cone E aoi center coneDir) center
            (fmax (WorldOffsetX ctl) (fsub (si_X center) r),
             fmin (fadd (WorldOffsetX ctl) (WorldWidth ctl)) (fadd (si_X center) r), stepX)
            (fmax (WorldOffsetZ ctl) (fsub (si_Z center) r),
             fmin (fadd (WorldOffsetZ ctl) (WorldHeight ctl)) (fadd (si_Z center) r), stepZ) result
   }"

text \<open>One area after the other; the inner \<open>None\<close> is an error.\<close>

definition then_area :: "('a \<Rightarrow> QueryResult \<Rightarrow> QueryResult option option) \<Rightarrow> 'a option \<Rightarrow> QueryResult option option \<Rightarrow> QueryResult option option" where
  "then_area f aoi r = (case (aoi, r) of (Some a, Some (Some result)) \<Rightarrow> f a result | _ \<Rightarrow> r)"

definition grid_QueryChannelIds ::
  "Externs \<Rightarrow> StaticGrid2DSpatialController \<Rightarrow> GlobalSettingsType \<Rightarrow> SpatialInterestQuery option \<Rightarrow> QueryResult option option" where
  "grid_QueryChannelIds E ctl s query = (case query of
     None \<Rightarrow> Some None
   | Some q \<Rightarrow>
       then_area (query_cone E ctl s) (q_ConeAOI q)
         (then_area (query_sphere E ctl s) (q_SphereAOI q)
           (then_area (query_box E ctl s) (q_BoxAOI q)
             (then_area (\<lambda>aoi r. Some (Some (query_spots E ctl s aoi r))) (q_SpotsAOI q) (Some (Some []))))))"

subsection \<open>Loops that do not end\<close>

lemma float_range_stuck:
  assumes "float_range v hi step = Some vs" and "fadd v step = v"
  shows "\<not> fle v hi"
proof -
  have "fadd v step = v \<longrightarrow> \<not> fle v hi"
  proof (rule float_range.raw_induct [of "\<lambda>v hi step vs. fadd v step = v \<longrightarrow> \<not> fle v hi"])
    fix f v hi step vs
    assume ih: "\<And>v hi step vs. f v hi step = Some vs \<Longrightarrow> fadd v step = v \<longrightarrow> \<not> fle v hi"
      and run: "(if fle v hi then Option.bind (f (fadd v step) hi step) (\<lambda>vs. Some (v # vs)) else Some []) = Some vs"
    show "fadd v step = v \<longrightarrow> \<not> fle v hi"
    proof (intro impI notI)
      assume stuck: "fadd v step = v" and le: "fle v hi"
      then obtain us where "f v hi step = Some us" using run by (auto simp: bind_eq_Some_conv)
      from ih [OF this] stuck le show False by blast
    qed
  qed (rule assms(1))
  then show ?thesis using assms(2) by blast
qed

lemma float_range_forever: "fadd v step = v \<Longrightarrow> fle v hi \<Longrightarrow> float_range v hi step = None"
  using float_range_stuck [of v hi step] by (cases "float_range v hi step") auto

lemma sample_points_forever:
  "fadd v step = v \<Longrightarrow> fle v hi \<Longrightarrow> sample_points xs (v, hi, step) = None"
  by (simp add: sample_points_def float_range_forever)

text \<open>
  A query for a sphere of infinite radius, in a grid of finite positive cells, never returns: the
  sampling counts from minus infinity, and adding the step to it changes nothing.
\<close>

theorem infinite_sphere_never_returns:
  assumes "sphere_Radius aoi = Inf False" "sphere_Center aoi = Some c" "si_X c = Fin x" "si_Z c = Fin z"
    and "GridWidth ctl = Fin wd" "GridHeight ctl = Fin ht" "f64_exact (wd / 2)" "f64_exact (ht / 2)" "0 < wd" "0 < ht"
    and "q_SpotsAOI q = None" "q_BoxAOI q = None" "q_SphereAOI q = Some aoi"
  shows "grid_QueryChannelIds E ctl s (Some q) = None"
proof -
  have "query_sphere E ctl s aoi [] = None"
    using assms(1-10)
    by (simp add: query_sphere_def fmin_def half_def flat_def sample_area_def sample_points_forever fsub_def)
  then show ?thesis
    using assms(11-13) by (simp add: grid_QueryChannelIds_def then_area_def split: option.split)
qed

subsection \<open>Loops that count exactly\<close>

text \<open>Numbers in units of \<open>1 / 2\<^sup>q\<close>.\<close>

definition fx :: "nat \<Rightarrow> int \<Rightarrow> float64" where
  "fx q n = Fin (of_int n / 2 ^ q)"

lemma fx_exact:
  assumes "\<bar>n\<bar> < 2 ^ 53" and "q \<le> 1000"
  shows "f64_exact (of_int n / 2 ^ q)"
proof -
  have "(of_int \<bar>n\<bar> :: rat) * 1 \<le> of_int \<bar>n\<bar> * 2 ^ q" by (intro mult_left_mono) simp_all
  then have "(of_int \<bar>n\<bar> :: rat) / 2 ^ q \<le> of_int \<bar>n\<bar>" by (simp only: pos_divide_le_eq zero_less_power zero_less_numeral)
  also have "\<dots> < of_int (2 ^ 53)" using assms(1) unfolding of_int_less_iff .
  also have "\<dots> < f64_limit" by (simp add: f64_limit_def)
  finally show ?thesis using f64_grid_dyadic [OF assms(1), of q] assms(2) by (simp add: f64_exact_def)
qed

lemma fx_add: "\<bar>m + n\<bar> < 2 ^ 53 \<Longrightarrow> q \<le> 1000 \<Longrightarrow> fadd (fx q m) (fx q n) = fx q (m + n)"
  using fx_exact [of "m + n" q] by (simp add: fx_def add_divide_distrib [symmetric])

lemma fx_sub: "\<bar>m - n\<bar> < 2 ^ 53 \<Longrightarrow> q \<le> 1000 \<Longrightarrow> fsub (fx q m) (fx q n) = fx q (m - n)"
  using fx_exact [of "m - n" q] by (simp add: fx_def fsub_def add_divide_distrib [symmetric] diff_divide_distrib [symmetric])

lemma fx_le [simp]: "fle (fx q m) (fx q n) \<longleftrightarrow> m \<le> n"
  by (simp add: fx_def divide_le_cancel)

lemma fx_lt [simp]: "flt (fx q m) (fx q n) \<longleftrightarrow> m < n"
  by (simp add: fx_def divide_less_cancel)

lemma fx_min: "fmin (fx q m) (fx q n) = fx q (min m n)"
  using fx_lt [of q m n] by (auto simp: fmin_def fx_def min_def)

lemma fx_half: "\<bar>m\<bar> < 2 ^ 53 \<Longrightarrow> q \<le> 1000 \<Longrightarrow> fmul (fx q (2 * m)) half = fx q m"
  using fx_exact [of m q] by (simp add: fx_def half_def)

lemma fx_of_int: "Fin (of_int n) = fx q (n * 2 ^ q)"
  by (simp add: fx_def)

lemma float_range_exact:
  assumes "0 < d" and "hi + d < 2 ^ 52" and "- (2 ^ 52) < lo" and "q \<le> 1000"
  shows "\<exists>vs. float_range (fx q lo) (fx q hi) (fx q d) = Some vs \<and>
    set vs = fx q ` {k. lo \<le> k \<and> k \<le> hi \<and> d dvd (k - lo)}"
  using assms(3)
proof (induction "nat (hi - lo + d)" arbitrary: lo rule: less_induct)
  case less
  show ?case
  proof (cases "lo \<le> hi")
    case False
    then show ?thesis by (subst float_range.simps) auto
  next
    case True
    let ?next = "lo + d"
    have "fadd (fx q lo) (fx q d) = fx q ?next" using less.prems True assms(1,2,4) by (intro fx_add) simp_all
    then have step: "float_range (fx q lo) (fx q hi) (fx q d) =
        Option.bind (float_range (fx q ?next) (fx q hi) (fx q d)) (\<lambda>vs. Some (fx q lo # vs))"
      using True by (subst float_range.simps) simp
    obtain vs where vs: "float_range (fx q ?next) (fx q hi) (fx q d) = Some vs"
      "set vs = fx q ` {k. ?next \<le> k \<and> k \<le> hi \<and> d dvd (k - ?next)}"
      using less.hyps [of ?next] less.prems True assms(1) by auto
    have "lo + d \<le> k" if "lo \<le> k" "d dvd (k - lo)" "k \<noteq> lo" for k
      using zdvd_imp_le [OF that(2)] that(1,3) by linarith
    moreover have "d dvd (k - lo) \<longleftrightarrow> d dvd (k - ?next)" for k :: int
      using dvd_add_left_iff [of d d "k - ?next"] by simp
    ultimately have "{k. lo \<le> k \<and> k \<le> hi \<and> d dvd (k - lo)} = insert lo {k. ?next \<le> k \<and> k \<le> hi \<and> d dvd (k - ?next)}"
      using True assms(1) by auto
    then show ?thesis using step vs by simp
  qed
qed

subsection \<open>What a sampled area finds\<close>

lemma sample_points_exact:
  assumes "0 < dx" "hx + dx < 2 ^ 52" "- (2 ^ 52) < lx" and "0 < dz" "hz + dz < 2 ^ 52" "- (2 ^ 52) < lz" and "q \<le> 1000"
  shows "\<exists>spots. sample_points (fx q lx, fx q hx, fx q dx) (fx q lz, fx q hz, fx q dz) = Some spots \<and>
    set spots = {\<lparr>si_X = fx q i, si_Y = Fin 0, si_Z = fx q j\<rparr> | i j.
      lx \<le> i \<and> i \<le> hx \<and> dx dvd (i - lx) \<and> lz \<le> j \<and> j \<le> hz \<and> dz dvd (j - lz)}"
proof -
  obtain xs where xs: "float_range (fx q lx) (fx q hx) (fx q dx) = Some xs"
    "set xs = fx q ` {k. lx \<le> k \<and> k \<le> hx \<and> dx dvd (k - lx)}"
    using float_range_exact [OF assms(1-3,7)] by blast
  obtain zs where zs: "float_range (fx q lz) (fx q hz) (fx q dz) = Some zs"
    "set zs = fx q ` {k. lz \<le> k \<and> k \<le> hz \<and> dz dvd (k - lz)}"
    using float_range_exact [OF assms(4-7)] by blast
  let ?spots = "concat (map (\<lambda>z. map (\<lambda>x. \<lparr>si_X = x, si_Y = Fin 0, si_Z = z\<rparr>) xs) zs)"
  have "sample_points (fx q lx, fx q hx, fx q dx) (fx q lz, fx q hz, fx q dz) = Some ?spots"
    by (simp add: sample_points_def xs(1) zs(1))
  moreover have "set ?spots = {\<lparr>si_X = fx q i, si_Y = Fin 0, si_Z = fx q j\<rparr> | i j.
      lx \<le> i \<and> i \<le> hx \<and> dx dvd (i - lx) \<and> lz \<le> j \<and> j \<le> hz \<and> dz dvd (j - lz)}"
    unfolding set_concat set_map image_image xs(2) zs(2) by blast
  ultimately show ?thesis by blast
qed

lemma dom_add_samples:
  "dom (map_of (fold (add_sample E ctl s inside center) spots result)) =
   dom (map_of result) \<union> {i. \<exists>p \<in> set spots. inside p \<and> grid_GetChannelId E ctl s p = (i, True)}"
proof (induction spots arbitrary: result)
  case (Cons p spots)
  have "dom (map_of (add_sample E ctl s inside center p result)) =
      dom (map_of result) \<union> {i. inside p \<and> grid_GetChannelId E ctl s p = (i, True)}"
    by (auto simp: add_sample_def update_conv' split: prod.split)
  then show ?case using Cons by auto
qed simp

text \<open>An area that is sampled with whole steps finds the centre's channel at distance 0, and exactly
the channels at its sampled positions.\<close>

lemma sample_area_result:
  assumes "grid_GetChannelId E ctl s center = (c, True)" and "sample_points rx rz = Some spots"
  shows "\<exists>res. sample_area E ctl s inside center rx rz [] = Some (Some res) \<and> map_of res c = Some 0 \<and>
    dom (map_of res) = insert c {i. \<exists>p \<in> set spots. inside p \<and> grid_GetChannelId E ctl s p = (i, True)}"
  using assms dom_add_samples [of E ctl s inside center spots "[]"] by (simp add: sample_area_def update_conv')

text \<open>A grid of samples that includes both ends meets every cell the interval meets.\<close>

lemma samples_meet:
  assumes "0 < d" and "d dvd (hi - lo)" and "d \<le> w" and "lo \<le> p" "p \<le> hi" and "a \<le> p" "p < a + (w :: int)"
  shows "\<exists>k. lo \<le> k \<and> k \<le> hi \<and> d dvd (k - lo) \<and> a \<le> k \<and> k < a + w"
proof (cases "a \<le> lo")
  case True
  then show ?thesis using assms by (intro exI [of _ lo]) simp
next
  case False
  let ?k = "lo + (a - lo + d - 1) div d * d"
  have m: "(a - lo + d - 1) div d * d = (a - lo + d - 1) - (a - lo + d - 1) mod d"
    by (simp add: minus_mod_eq_div_mult)
  have "0 \<le> (a - lo + d - 1) mod d" "(a - lo + d - 1) mod d < d" using assms(1) by simp_all
  then have k: "a \<le> ?k" "?k < a + d" unfolding m by linarith+
  have "?k \<le> hi"
  proof (rule ccontr)
    assume above: "\<not> ?k \<le> hi"
    have "d dvd (?k - hi)"
    proof -
      have "?k - hi = (a - lo + d - 1) div d * d - (hi - lo)" by simp
      then show ?thesis using assms(2) by (simp only: dvd_diff dvd_triv_right)
    qed
    then have "d \<le> ?k - hi" using above by (intro zdvd_imp_le) simp_all
    then show False using k(2) assms(5,6) by linarith
  qed
  then show ?thesis using k assms(3) False by (intro exI [of _ ?k]) auto
qed

lemma in_cell_fx: "in_cell origin cell k (of_int i / 2 ^ q) \<longleftrightarrow>
    (origin + k * cell) * 2 ^ q \<le> i \<and> i < (origin + k * cell) * 2 ^ q + cell * 2 ^ q"
proof -
  have "in_cell origin cell k (of_int i / 2 ^ q) \<longleftrightarrow>
      of_int ((origin + k * cell) * 2 ^ q) \<le> (of_int i :: rat) \<and> (of_int i :: rat) < of_int ((origin + (k + 1) * cell) * 2 ^ q)"
    by (simp add: in_cell_def pos_le_divide_eq pos_divide_less_eq)
  also have "\<dots> \<longleftrightarrow> (origin + k * cell) * 2 ^ q \<le> i \<and> i < (origin + (k + 1) * cell) * 2 ^ q"
    unfolding of_int_le_iff of_int_less_iff ..
  finally show ?thesis by (simp add: algebra_simps)
qed

subsection \<open>Boxes\<close>

text \<open>One axis of a box in units of \<open>1 / 2\<^sup>q\<close>: the centre is \<open>c\<close>, the extent \<open>2 * h\<close>, the cells have a whole
size and offset.  The step is half the smaller one of the extent and the cell.\<close>

definition axis_step :: "nat \<Rightarrow> int \<Rightarrow> int \<Rightarrow> int" where
  "axis_step q cell h = min h (cell * 2 ^ (q - 1))"

definition axis_ok :: "nat \<Rightarrow> int \<Rightarrow> int \<Rightarrow> int \<Rightarrow> int \<Rightarrow> bool" where
  "axis_ok q origin cell c h \<longleftrightarrow> 1 \<le> q \<and> q \<le> 1000 \<and> 0 < cell \<and> 0 < h \<and>
     2 * (\<bar>c\<bar> + 2 * h + \<bar>origin\<bar> * 2 ^ q) + 4 * (cell * 2 ^ q) < 2 ^ 50"

lemma axis_facts:
  assumes "axis_ok q origin cell c h"
  shows "fmul (fmin (fx q (2 * h)) (Fin (of_int cell))) half = fx q (axis_step q cell h)"
    and "0 < axis_step q cell h" and "c + 2 * h + axis_step q cell h < 2 ^ 52" and "- (2 ^ 52) < c - 2 * h"
    and "fsub (fx q c) (fx q (2 * h)) = fx q (c - 2 * h)" and "fadd (fx q c) (fx q (2 * h)) = fx q (c + 2 * h)"
    and "c - 2 * h \<le> k \<Longrightarrow> k \<le> c + 2 * h \<Longrightarrow> fine_coordinate q origin cell (of_int k / 2 ^ q)"
    and "2 * axis_step q cell h \<le> cell * 2 ^ q"
proof -
  have a: "1 \<le> q" "q \<le> 1000" "0 < cell" "0 < h" "2 * (\<bar>c\<bar> + 2 * h + \<bar>origin\<bar> * 2 ^ q) + 4 * (cell * 2 ^ q) < 2 ^ 50"
    using assms by (simp_all add: axis_ok_def)
  let ?u = "cell * 2 ^ (q - 1)" and ?o = "\<bar>origin\<bar> * 2 ^ q"
  have u: "cell * 2 ^ q = 2 * ?u" "0 < ?u" "0 \<le> ?o" using a(1,3) by (cases q; simp)+
  have d: "axis_step q cell h = min h ?u" by (simp add: axis_step_def)
  have bound: "2 * \<bar>c\<bar> + 4 * h + 2 * ?o + 8 * ?u < 1125899906842624" using a(5) unfolding u(1) by simp
  have small: "h < 281474976710656" "\<bar>c\<bar> < 562949953421312" "?u < 140737488355328"
    using bound u(2,3) a(4) by linarith+
  have "fmin (fx q (2 * h)) (Fin (of_int cell)) = fx q (2 * min h ?u)"
    unfolding fx_of_int [of cell q] u(1) fx_min by (simp add: min_mult_distrib_left)
  moreover have "\<bar>min h ?u\<bar> < 2 ^ 53" using small(1) a(4) u(2) by simp
  ultimately show "fmul (fmin (fx q (2 * h)) (Fin (of_int cell))) half = fx q (axis_step q cell h)"
    using fx_half [of "min h ?u" q] a(2) by (simp add: d)
  show "0 < axis_step q cell h" using a(4) u(2) by (simp add: d)
  show "2 * axis_step q cell h \<le> cell * 2 ^ q" unfolding u(1) d by simp
  show "c + 2 * h + axis_step q cell h < 2 ^ 52" using small min.cobounded1 [of h ?u] by (simp add: d)
  show "- (2 ^ 52) < c - 2 * h" using small by simp
  show "fsub (fx q c) (fx q (2 * h)) = fx q (c - 2 * h)" "fadd (fx q c) (fx q (2 * h)) = fx q (c + 2 * h)"
    using small a(4) by (intro fx_sub fx_add a(2); simp)+
  show "fine_coordinate q origin cell (of_int k / 2 ^ q)" if "c - 2 * h \<le> k" "k \<le> c + 2 * h"
  proof -
    have "\<bar>origin * 2 ^ q\<bar> = ?o" by (simp add: abs_mult)
    then have "\<bar>k - origin * 2 ^ q\<bar> \<le> \<bar>c\<bar> + 2 * h + ?o" using that by linarith
    then have "2 * \<bar>k - origin * 2 ^ q\<bar> + 4 * (cell * 2 ^ q) < 2 ^ 52" using bound a(4) u(2) unfolding u(1) by simp
    then show ?thesis using a(2) unfolding fine_coordinate_def by blast
  qed
qed

text \<open>A cell along one axis meets the box exactly when one of the samples lies in it.\<close>

lemma axis_samples:
  assumes "axis_ok q origin cell c h" and "axis_step q cell h dvd 4 * h"
  shows "(\<exists>k. c - 2 * h \<le> k \<and> k \<le> c + 2 * h \<and> axis_step q cell h dvd (k - (c - 2 * h)) \<and> in_cell origin cell n (of_int k / 2 ^ q)) \<longleftrightarrow>
    (\<exists>k. \<bar>k - c\<bar> \<le> 2 * h \<and> in_cell origin cell n (of_int k / 2 ^ q))"
proof -
  note a = axis_facts [OF assms(1)]
  let ?d = "axis_step q cell h" and ?a = "(origin + n * cell) * 2 ^ q" and ?w = "cell * 2 ^ q"
  have "?d dvd (c + 2 * h - (c - 2 * h))" "?d \<le> ?w" using assms(2) a(2,8) by simp_all
  note meet = samples_meet [OF a(2) this, where a = ?a]
  have "\<exists>k. c - 2 * h \<le> k \<and> k \<le> c + 2 * h \<and> ?d dvd (k - (c - 2 * h)) \<and> ?a \<le> k \<and> k < ?a + ?w"
    if "\<bar>p - c\<bar> \<le> 2 * h" "?a \<le> p" "p < ?a + ?w" for p
    using that by (intro meet [of p]) linarith+
  moreover have "\<bar>k - c\<bar> \<le> 2 * h" if "c - 2 * h \<le> k" "k \<le> c + 2 * h" for k
    using that by (simp add: abs_le_iff)
  ultimately show ?thesis unfolding in_cell_fx by blast
qed

text \<open>A cell of the grid with a point in the box (in both cases with coordinates in units of \<open>1 / 2\<^sup>q\<close>).\<close>

definition meets_box :: "nat \<Rightarrow> int \<Rightarrow> int \<Rightarrow> int \<Rightarrow> int \<Rightarrow> nat \<Rightarrow> bool" where
  "meets_box q origin cell c h n \<longleftrightarrow> (\<exists>k. \<bar>k - c\<bar> \<le> 2 * h \<and> in_cell origin cell (int n) (of_int k / 2 ^ q))"

text \<open>The sampled positions of a box, and the channels they find.\<close>

definition box_spots :: "nat \<Rightarrow> int \<Rightarrow> int \<Rightarrow> int \<Rightarrow> int \<Rightarrow> int \<Rightarrow> int \<Rightarrow> SpatialInfo set" where
  "box_spots q cx hx dx cz hz dz = {\<lparr>si_X = fx q i, si_Y = Fin 0, si_Z = fx q j\<rparr> | i j.
     cx - 2 * hx \<le> i \<and> i \<le> cx + 2 * hx \<and> dx dvd (i - (cx - 2 * hx)) \<and>
     cz - 2 * hz \<le> j \<and> j \<le> cz + 2 * hz \<and> dz dvd (j - (cz - 2 * hz))}"

lemma box_position:
  assumes grid: "GridWidth ctl = Fin (of_int wd)" "GridHeight ctl = Fin (of_int ht)"
      "WorldOffsetX ctl = Fin (of_int ox)" "WorldOffsetZ ctl = Fin (of_int oz)"
    and axes: "axis_ok q ox wd cx hx" "axis_ok q oz ht cz hz"
    and ij: "cx - 2 * hx \<le> i" "i \<le> cx + 2 * hx" "cz - 2 * hz \<le> j" "j \<le> cz + 2 * hz"
  shows "grid_GetChannelId E ctl s \<lparr>si_X = fx q i, si_Y = Fin 0, si_Z = fx q j\<rparr> = (c, True) \<longleftrightarrow>
      (\<exists>x < unat (GridCols ctl). \<exists>y < unat (GridRows ctl). c = cell_id ctl s x y \<and>
        in_cell ox wd (int x) (of_int i / 2 ^ q) \<and> in_cell oz ht (int y) (of_int j / 2 ^ q))"
proof -
  have "0 < wd" "0 < ht" using axes by (simp_all add: axis_ok_def)
  then show ?thesis
    unfolding fx_def
    using GetChannelId_iff [OF grid(1,2) _ _ grid(3,4) _ axis_facts(7) [OF axes(1) ij(1,2)] _ axis_facts(7) [OF axes(2) ij(3,4)]]
    by simp
qed

lemma box_spots_channels:
  assumes grid: "GridWidth ctl = Fin (of_int wd)" "GridHeight ctl = Fin (of_int ht)"
      "WorldOffsetX ctl = Fin (of_int ox)" "WorldOffsetZ ctl = Fin (of_int oz)"
    and axes: "axis_ok q ox wd cx hx" "axis_ok q oz ht cz hz"
    and steps: "axis_step q wd hx dvd 4 * hx" "axis_step q ht hz dvd 4 * hz"
  shows "(\<exists>p \<in> box_spots q cx hx (axis_step q wd hx) cz hz (axis_step q ht hz). grid_GetChannelId E ctl s p = (c, True)) \<longleftrightarrow>
    (\<exists>x y. c = cell_id ctl s x y \<and> x < unat (GridCols ctl) \<and> y < unat (GridRows ctl) \<and>
      meets_box q ox wd cx hx x \<and> meets_box q oz ht cz hz y)"
proof -
  define Sx where "Sx i \<longleftrightarrow> cx - 2 * hx \<le> i \<and> i \<le> cx + 2 * hx \<and> axis_step q wd hx dvd (i - (cx - 2 * hx))" for i
  define Sz where "Sz j \<longleftrightarrow> cz - 2 * hz \<le> j \<and> j \<le> cz + 2 * hz \<and> axis_step q ht hz dvd (j - (cz - 2 * hz))" for j
  let ?at = "\<lambda>i j. grid_GetChannelId E ctl s \<lparr>si_X = fx q i, si_Y = Fin 0, si_Z = fx q j\<rparr> = (c, True)"
  let ?X = "\<lambda>x i. in_cell ox wd (int x) (of_int i / 2 ^ q)" and ?Z = "\<lambda>y j. in_cell oz ht (int y) (of_int j / 2 ^ q)"
  have in_at: "Sx i \<and> Sz j \<and> ?at i j \<longleftrightarrow> Sx i \<and> Sz j \<and>
      (\<exists>x < unat (GridCols ctl). \<exists>y < unat (GridRows ctl). c = cell_id ctl s x y \<and> ?X x i \<and> ?Z y j)" for i j
    using box_position [OF grid axes, of i j] by (simp only: Sx_def Sz_def) blast
  have axis: "(\<exists>i. Sx i \<and> ?X x i) \<longleftrightarrow> meets_box q ox wd cx hx x" "(\<exists>j. Sz j \<and> ?Z y j) \<longleftrightarrow> meets_box q oz ht cz hz y" for x y
    using axis_samples [OF axes(1) steps(1), of "int x"] axis_samples [OF axes(2) steps(2), of "int y"]
    by (simp_all only: Sx_def Sz_def meets_box_def conj_assoc)
  have "(\<exists>p \<in> box_spots q cx hx (axis_step q wd hx) cz hz (axis_step q ht hz). grid_GetChannelId E ctl s p = (c, True)) \<longleftrightarrow>
      (\<exists>i j. Sx i \<and> Sz j \<and> ?at i j)"
    unfolding box_spots_def Sx_def Sz_def by blast
  also have "\<dots> \<longleftrightarrow> (\<exists>x < unat (GridCols ctl). \<exists>y < unat (GridRows ctl). c = cell_id ctl s x y \<and>
      (\<exists>i. Sx i \<and> ?X x i) \<and> (\<exists>j. Sz j \<and> ?Z y j))"
    unfolding in_at by blast
  also have "\<dots> \<longleftrightarrow> (\<exists>x y. c = cell_id ctl s x y \<and> x < unat (GridCols ctl) \<and> y < unat (GridRows ctl) \<and>
      meets_box q ox wd cx hx x \<and> meets_box q oz ht cz hz y)"
    unfolding axis by blast
  finally show ?thesis .
qed

lemma query_box_found:
  assumes grid: "GridWidth ctl = Fin (of_int wd)" "GridHeight ctl = Fin (of_int ht)"
    and box: "box_Center aoi = Some center" "si_X center = fx q cx" "si_Z center = fx q cz"
      "box_Extent aoi = Some extent" "si_X extent = fx q (2 * hx)" "si_Z extent = fx q (2 * hz)"
    and axes: "axis_ok q ox wd cx hx" "axis_ok q oz ht cz hz"
    and center: "grid_GetChannelId E ctl s (flat center) = (c, True)"
    and query: "q_SpotsAOI query = None" "q_BoxAOI query = Some aoi" "q_SphereAOI query = None" "q_ConeAOI query = None"
  shows "\<exists>res. grid_QueryChannelIds E ctl s (Some query) = Some (Some res) \<and> map_of res c = Some 0 \<and>
    dom (map_of res) = insert c {i. \<exists>p \<in> box_spots q cx hx (axis_step q wd hx) cz hz (axis_step q ht hz).
      grid_GetChannelId E ctl s p = (i, True)}"
proof -
  note X = axis_facts [OF axes(1)] and Z = axis_facts [OF axes(2)]
  let ?dx = "axis_step q wd hx" and ?dz = "axis_step q ht hz"
  have q: "q \<le> 1000" using axes by (simp add: axis_ok_def)
  obtain spots where spots:
    "sample_points (fx q (cx - 2 * hx), fx q (cx + 2 * hx), fx q ?dx) (fx q (cz - 2 * hz), fx q (cz + 2 * hz), fx q ?dz) = Some spots"
    "set spots = box_spots q cx hx ?dx cz hz ?dz"
    unfolding box_spots_def using sample_points_exact [OF X(2-4) Z(2-4) q] by blast
  then show ?thesis
    using sample_area_result [OF center spots(1), of "\<lambda>_. True"] X(1,2,5,6) Z(1,2,5,6)
    by (simp add: grid_QueryChannelIds_def then_area_def query query_box_def box grid flat_def fx_of_int [of 0 q, simplified])
qed


subsection \<open>Spots\<close>

text \<open>The last element of a list with a property.\<close>

definition last_match :: "('a \<Rightarrow> bool) \<Rightarrow> 'a list \<Rightarrow> nat \<Rightarrow> bool" where
  "last_match P xs n \<longleftrightarrow> n < length xs \<and> P (xs ! n) \<and> (\<forall>m < length xs. n < m \<longrightarrow> \<not> P (xs ! m))"

lemma last_match_snoc:
  "last_match P (xs @ [x]) n \<longleftrightarrow> (if P x then n = length xs else last_match P xs n)"
proof (cases "n = length xs")
  case True
  then show ?thesis by (auto simp: last_match_def)
next
  case False
  show ?thesis
  proof (cases "n < length xs")
    case True
    have "(\<forall>m < length (xs @ [x]). n < m \<longrightarrow> \<not> P ((xs @ [x]) ! m)) \<longleftrightarrow> (\<forall>m < length xs. n < m \<longrightarrow> \<not> P (xs ! m)) \<and> \<not> P x"
      using True by (auto simp: nth_append less_Suc_eq)
    then show ?thesis using True False by (simp add: last_match_def nth_append)
  qed (use False in \<open>simp add: last_match_def\<close>)
qed

text \<open>
  A query for spots finds the channels of the spots that lie in the world and no other, each at the
  distance given for its last spot, or at 0 if that has none.
\<close>

theorem query_spots_correct:
  assumes "q_SpotsAOI query = Some aoi" "q_BoxAOI query = None" "q_SphereAOI query = None" "q_ConeAOI query = None"
  shows "\<exists>res. grid_QueryChannelIds E ctl s (Some query) = Some (Some res) \<and>
    (\<forall>i d. map_of res i = Some d \<longleftrightarrow>
      (\<exists>n. last_match (\<lambda>spot. grid_GetChannelId E ctl s spot = (i, True)) (spots_Spots aoi) n \<and>
        d = (if n < length (spots_Dists aoi) then unat (spots_Dists aoi ! n) else 0)))"
proof -
  define dist where "dist n = (if n < length (spots_Dists aoi) then unat (spots_Dists aoi ! n) else 0)" for n
  define get where "get = grid_GetChannelId E ctl s"
  define add where "add = (\<lambda>(n, spot) result. case get spot of
      (chId, ok) \<Rightarrow> if \<not> ok then result else AList.update chId (dist n) result)"
  have found: "map_of (fold add (enumerate 0 spots) []) i = Some d \<longleftrightarrow>
      (\<exists>n. last_match (\<lambda>spot. get spot = (i, True)) spots n \<and> d = dist n)" for spots i d
  proof (induction spots arbitrary: d rule: rev_induct)
    case (snoc spot spots)
    obtain j ok where j: "get spot = (j, ok)" by (cases "get spot")
    have "map_of (fold add (enumerate 0 (spots @ [spot])) []) i =
        (if ok \<and> i = j then Some (dist (length spots)) else map_of (fold add (enumerate 0 spots) []) i)"
      by (simp add: enumerate_append_eq add_def j update_conv')
    then show ?case using snoc by (auto simp: last_match_snoc j)
  qed (simp add: last_match_def)
  have "grid_QueryChannelIds E ctl s (Some query) = Some (Some (fold add (enumerate 0 (spots_Spots aoi)) []))"
    using assms unfolding add_def get_def dist_def
    by (simp add: grid_QueryChannelIds_def then_area_def query_spots_def)
  then show ?thesis using found [of "spots_Spots aoi"] unfolding get_def dist_def by blast
qed

subsection \<open>Examples\<close>

definition no_query :: SpatialInterestQuery where
  "no_query = \<lparr>q_SpotsAOI = None, q_BoxAOI = None, q_SphereAOI = None, q_ConeAOI = None\<rparr>"

definition fx_info :: "int \<Rightarrow> int \<Rightarrow> SpatialInfo" where
  "fx_info x z = \<lparr>si_X = fx 1 x, si_Y = Fin 0, si_Z = fx 1 z\<rparr>"

definition box_query :: "SpatialInfo \<Rightarrow> SpatialInfo \<Rightarrow> SpatialInterestQuery" where
  "box_query center extent = no_query\<lparr>q_BoxAOI := Some \<lparr>box_Center = Some center, box_Extent = Some extent\<rparr>\<rparr>"

text \<open>Three cells of 10 units side by side, from 0 to 30.\<close>

definition strip :: StaticGrid2DSpatialController where
  "strip = demo_grid\<lparr>GridCols := 3, WorldOffsetX := Fin 0\<rparr>"

lemma strip_facts:
  "GridWidth strip = Fin (of_int 10)" "GridHeight strip = Fin (of_int 10)"
  "WorldOffsetX strip = Fin (of_int 0)" "WorldOffsetZ strip = Fin (of_int 0)"
  by (simp_all add: strip_def)

lemma strip_size: "GridCols strip = 3" "GridRows strip = 1"
  by (simp_all add: strip_def)

lemma strip_position:
  assumes "axis_ok 1 0 10 cx hx" "axis_ok 1 0 10 cz hz"
    and "cx - 2 * hx \<le> i" "i \<le> cx + 2 * hx" "cz - 2 * hz \<le> j" "j \<le> cz + 2 * hz"
    and "x < 3" "20 * int x \<le> i" "i < 20 * int x + 20" "0 \<le> j" "j < 20"
  shows "grid_GetChannelId E strip s (fx_info i j) = (cell_id strip s x 0, True)"
proof -
  have "in_cell 0 10 (int x) (of_int i / 2 ^ 1)" "in_cell 0 10 (int 0) (of_int j / 2 ^ 1)"
    unfolding in_cell_fx using assms(7-) by simp_all
  moreover have "x < unat (GridCols strip)" "0 < unat (GridRows strip)" using assms(7) by (simp_all add: strip_size)
  ultimately show ?thesis unfolding fx_info_def box_position [OF strip_facts assms(1-6)] by blast
qed

theorem infinite_sphere_never_returns_witness:
  "grid_QueryChannelIds demo_externs demo_grid default_settings
     (Some (no_query\<lparr>q_SphereAOI := Some \<lparr>sphere_Center = Some (fx_info 0 0), sphere_Radius = Inf False\<rparr>\<rparr>)) = None"
proof -
  have "f64_exact (10 / 2)" using f64_exact_of_int [of 5] by simp
  then show ?thesis
    by (intro infinite_sphere_never_returns [where c = "fx_info 0 0" and wd = 10 and ht = 10 and x = 0 and z = 0])
      (simp_all add: no_query_def fx_info_def fx_def)
qed


theorem query_spots_correct_witness:
  "\<exists>res. grid_QueryChannelIds demo_externs strip default_settings
     (Some (no_query\<lparr>q_SpotsAOI := Some \<lparr>spots_Spots = [fx_info 10 10], spots_Dists = [7]\<rparr>\<rparr>)) = Some (Some res) \<and>
     map_of res (cell_id strip default_settings 0 0) = Some 7"
proof -
  have "axis_ok 1 0 10 10 4" by (simp add: axis_ok_def)
  from strip_position [OF this this, of 10 10 0]
  have "last_match (\<lambda>spot. grid_GetChannelId demo_externs strip default_settings spot = (cell_id strip default_settings 0 0, True)) [fx_info 10 10] 0"
    by (simp add: last_match_def)
  then show ?thesis
    using query_spots_correct [of "no_query\<lparr>q_SpotsAOI := Some \<lparr>spots_Spots = [fx_info 10 10], spots_Dists = [7]\<rparr>\<rparr>"
        "\<lparr>spots_Spots = [fx_info 10 10], spots_Dists = [7]\<rparr>" demo_externs strip default_settings]
    by (force simp: no_query_def)
qed

text \<open>
  A box can touch a cell that its query does not find: the last step before the far side may leave a
  cell out.  Around the point (9, 5) with an extent of 12 by 1, in cells of 10 units, the box reaches to 21,
  but the samples stop at 17, and the third cell is not found.
\<close>

theorem query_box_misses_far_cell:
  "\<exists>res. grid_QueryChannelIds E strip default_settings (Some (box_query (fx_info 18 10) (fx_info 24 2))) = Some (Some res) \<and>
    map_of res (cell_id strip default_settings 0 0) = Some 0 \<and>
    meets_box 1 0 10 18 12 2 \<and> meets_box 1 0 10 10 1 0 \<and>
    map_of res (cell_id strip default_settings 2 0) = None"
proof -
  have axes: "axis_ok 1 0 10 18 12" "axis_ok 1 0 10 10 1" by (simp_all add: axis_ok_def)
  let ?spots = "box_spots 1 18 12 (axis_step 1 10 12) 10 1 (axis_step 1 10 1)"
  have "grid_GetChannelId E strip default_settings (flat (fx_info 18 10)) = (cell_id strip default_settings 0 0, True)"
    using strip_position [OF axes, of 18 10 0] by (simp add: flat_def fx_info_def)
  from query_box_found [OF strip_facts(1,2) _ _ _ _ _ _ axes this, of "\<lparr>box_Center = Some (fx_info 18 10), box_Extent = Some (fx_info 24 2)\<rparr>" "fx_info 24 2" "box_query (fx_info 18 10) (fx_info 24 2)"]
  obtain res where res: "grid_QueryChannelIds E strip default_settings (Some (box_query (fx_info 18 10) (fx_info 24 2))) = Some (Some res)"
    "map_of res (cell_id strip default_settings 0 0) = Some 0"
    "dom (map_of res) = insert (cell_id strip default_settings 0 0) {i. \<exists>p \<in> ?spots. grid_GetChannelId E strip default_settings p = (i, True)}"
    by (auto simp: box_query_def no_query_def fx_info_def)
  have "cell_id strip default_settings 2 0 \<notin> dom (map_of res)"
  proof
    have ok: "grid_ok strip default_settings" by (simp add: grid_ok_def strip_def)
    assume "cell_id strip default_settings 2 0 \<in> dom (map_of res)"
    then obtain i j where ij: "18 - 2 * 12 \<le> i" "i \<le> 18 + 2 * 12" "axis_step 1 10 12 dvd (i - (18 - 2 * 12))"
        "10 - 2 * 1 \<le> j" "j \<le> 10 + 2 * 1"
      "grid_GetChannelId E strip default_settings \<lparr>si_X = fx 1 i, si_Y = Fin 0, si_Z = fx 1 j\<rparr> = (cell_id strip default_settings 2 0, True)"
      unfolding res(3) box_spots_def using cell_id_inject [OF ok, of 2 0 0 0] by (auto simp: strip_size)
    then obtain x y where xy: "x < 3" "y < 1" "cell_id strip default_settings 2 0 = cell_id strip default_settings x y" "in_cell 0 10 (int x) (of_int i / 2 ^ 1)"
      unfolding box_position [OF strip_facts axes ij(1,2,4,5)] by (auto simp: strip_size)
    have "x = 2" using cell_id_inject [OF ok, of 2 0 x y] xy(1-3) by (simp add: strip_size)
    then have "40 \<le> i" using xy(4) unfolding in_cell_fx by simp
    then show False using ij(2,3) by (simp add: axis_step_def) presburger
  qed
  moreover have "meets_box 1 0 10 18 12 2" "meets_box 1 0 10 10 1 0"
    unfolding meets_box_def in_cell_fx by (intro exI [of _ 41], simp, intro exI [of _ 10], simp)
  ultimately show ?thesis using res(1,2) by auto
qed

end
