(* ===== verification/Handover.thy ===== *)
theory Handover
  imports SpatialQuery
begin

text \<open>
  The handover of entities between spatial channels (\<open>Notify\<close> in \<open>spatial.go\<close>, \<open>Channel.GetHandoverEntities\<close>
  in \<open>entity.go\<close>): a merge of entity data that moves the entity from one cell to another calls the
  controller, which moves the entities of the handover group to the server of the other cell and tells the
  subscribers of both channels.

  The closures put into the queues of the two channels are the handlers \<open>H_RemoveEntities\<close> and
  \<open>H_AddEntities\<close>; they run in the channels' own ticks, and read the entities' data then (the data is
  shared by pointer: \<open>H_AddEntities\<close> carries the entities' channels).
\<close>

definition MessageType_CHANNEL_DATA_HANDOVER :: MessageType where
  [simp]: "MessageType_CHANNEL_DATA_HANDOVER = 12"

subsection \<open>The entities that move\<close>

text \<open>The entities with the channels that hold their data, \<open>None\<close> where there is none.\<close>

type_synonym Entities = "(uint32 \<times> ChanPtr option) list"

definition entity_source :: "World \<Rightarrow> uint32 \<Rightarrow> ChanPtr option" where
  "entity_source w entityId = (case GetChannel w entityId of
     None \<Rightarrow> None
   | Some c \<Rightarrow> if GetDataMessage w c = None then None else Some c)"

definition channel_GetHandoverEntities :: "World \<Rightarrow> ChanPtr \<Rightarrow> Entities" where
  "channel_GetHandoverEntities w ch = (case ch_entityController (w_chan w ch) of
     None \<Rightarrow> []
   | Some ec \<Rightarrow> map (\<lambda>entityId. (entityId, entity_source w entityId)) (GetHandoverEntities w ec))"

subsection \<open>Across servers\<close>

text \<open>The server of the source cell leaves the entity unless it is interested in the other cell, and the
server of that cell becomes the entity's owner.\<close>

definition leave_entity :: "Externs \<Rightarrow> ChanPtr \<Rightarrow> uint32 \<Rightarrow> ChanPtr \<Rightarrow> World \<Rightarrow> World option" where
  "leave_entity E src dstChannelId entityCh w = (case GetOwner w src of
     NilIface \<Rightarrow> Some w
   | r \<Rightarrow> do {
       closing \<leftarrow> ref_closing w r;
       p \<leftarrow> conn_deref r;
       if closing \<or> HasInterestIn w p dstChannelId then Some w
       else Some (sendUnsubscribed E p empty_ctx entityCh None 0 (fst (UnsubscribeFromChannel p entityCh w)))
     })"

definition change_server :: "Externs \<Rightarrow> ChanPtr \<Rightarrow> ChanPtr \<Rightarrow> uint32 \<Rightarrow> uint32 \<times> ChanPtr option \<Rightarrow> World \<Rightarrow> World option" where
  "change_server E src dst dstChannelId entity w = (case GetChannel w (fst entity) of
     None \<Rightarrow> Some w
   | Some entityCh \<Rightarrow> do {
       w1 \<leftarrow> leave_entity E src dstChannelId entityCh w;
       Some (SetOwner entityCh (GetOwner w1 dst) w1)
     })"

subsection \<open>The data of the spatial channels\<close>

definition upd_data_msg :: "ChanPtr \<Rightarrow> (DataMsg \<Rightarrow> DataMsg) \<Rightarrow> World \<Rightarrow> World" where
  "upd_data_msg ch f = upd_chan ch (\<lambda>c. c\<lparr>ch_data := map_option (\<lambda>d. d\<lparr>d_msg := map_option f (d_msg d)\<rparr>) (ch_data c)\<rparr>)"

definition is_entity_updater :: "Externs \<Rightarrow> World \<Rightarrow> ChanPtr \<Rightarrow> bool" where
  "is_entity_updater E w ch = (case GetDataMessage w ch of None \<Rightarrow> False | Some m \<Rightarrow> ex_isEntityUpdater E m)"

definition remove_entities :: "Externs \<Rightarrow> ChanPtr \<Rightarrow> uint32 list \<Rightarrow> World \<Rightarrow> World" where
  "remove_entities E ch entityIds w =
     (if is_entity_updater E w ch
      then fold (\<lambda>entityId. upd_data_msg ch (ex_removeEntity E entityId)) entityIds w else w)"

definition add_entity :: "Externs \<Rightarrow> ChanPtr \<Rightarrow> uint32 \<times> ChanPtr option \<Rightarrow> World \<Rightarrow> World" where
  "add_entity E ch entity w = (case snd entity of
     None \<Rightarrow> w
   | Some entityCh \<Rightarrow> (case GetDataMessage w entityCh of
       None \<Rightarrow> w
     | Some entityData \<Rightarrow> upd_data_msg ch (ex_addEntity E (fst entity) entityData) w))"

definition add_entities :: "Externs \<Rightarrow> ChanPtr \<Rightarrow> Entities \<Rightarrow> World \<Rightarrow> World" where
  "add_entities E ch entities w = (if is_entity_updater E w ch then fold (add_entity E ch) entities w else w)"

subsection \<open>The handover messages\<close>

text \<open>\<open>MergeTo\<close> of one entity's data into a spatial data message; nothing when there is no data or it
does not implement the interface.\<close>

definition merge_entity :: "Externs \<Rightarrow> World \<Rightarrow> bool \<Rightarrow> uint32 \<times> ChanPtr option \<Rightarrow> DataMsg \<Rightarrow> DataMsg" where
  "merge_entity E w fullData entity m = (case snd entity of
     None \<Rightarrow> m
   | Some c \<Rightarrow> (case GetDataMessage w c of
       None \<Rightarrow> m
     | Some entityData \<Rightarrow> (case ex_mergeTo E entityData m fullData of None \<Rightarrow> m | Some m' \<Rightarrow> m')))"

definition handover_ctx :: "World \<Rightarrow> ChanPtr \<Rightarrow> uint32 \<Rightarrow> uint32 \<Rightarrow> AnyMsg \<Rightarrow> MessageContext" where
  "handover_ctx w src srcChannelId dstChannelId any = empty_ctx\<lparr>
     x_MsgType := MessageType_CHANNEL_DATA_HANDOVER,
     x_Msg := ChannelDataHandoverMessage srcChannelId dstChannelId any (ch_latestDataUpdateConnId (w_chan w src)),
     x_ChannelId := dstChannelId\<rparr>"

definition send_to_ref :: "Externs \<Rightarrow> MessageContext \<Rightarrow> ConnRef \<Rightarrow> World \<Rightarrow> World option" where
  "send_to_ref E ctx r w = do { p \<leftarrow> conn_deref r; Some (world_Send E p ctx w) }"

definition send_source :: "Externs \<Rightarrow> MessageContext \<Rightarrow> ConnRef list \<Rightarrow> ConnRef \<Rightarrow> World \<Rightarrow> World option" where
  "send_source E ctx dstConns r w = (if r \<in> set dstConns then Some w else send_to_ref E ctx r w)"

definition handover_sub_options :: "World \<Rightarrow> ConnRef \<Rightarrow> ChanPtr \<Rightarrow> ChannelSubscriptionOptions" where
  "handover_sub_options w r entityCh = \<lparr>
     so_DataAccess = Some (if r = GetOwner w entityCh then DataAccess_WRITE_ACCESS else DataAccess_READ_ACCESS),
     so_DataFieldMasks = [], so_FanOutIntervalMs = None, so_FanOutDelayMs = None,
     so_SkipSelfUpdateFanOut = Some True, so_SkipFirstFanOut = Some True\<rparr>"

text \<open>One entity for one connection of the destination: it subscribes to the entity, and gets the whole
data when the subscription is new or its access has changed.\<close>

definition handover_entity ::
  "Externs \<Rightarrow> ConnRef \<Rightarrow> uint32 \<times> ChanPtr option \<Rightarrow> World \<times> DataMsg \<Rightarrow> (World \<times> DataMsg) option" where
  "handover_entity E r entity wm = (case wm of (w, m) \<Rightarrow> (case GetChannel w (fst entity) of
     None \<Rightarrow> Some (w, m)
   | Some entityCh \<Rightarrow>
       (if snd entity = None then Some (w, m)
        else do {
          p \<leftarrow> conn_deref r;
          (w1, cs, shouldSend) \<leftarrow> SubscribeToChannel E p entityCh (Some (handover_sub_options w r entityCh)) w;
          (case cs of
             None \<Rightarrow> Some (w1, m)
           | Some sub \<Rightarrow>
               let w2 = (if shouldSend then sendSubscribed E p empty_ctx entityCh p 0 (cs_options sub) w1 else w1) in
               Some (w2, merge_entity E w2 shouldSend entity m))
        })))"

fun handover_loop ::
  "Externs \<Rightarrow> ConnRef \<Rightarrow> Entities \<Rightarrow> World \<times> DataMsg \<Rightarrow> (World \<times> DataMsg) option" where
  "handover_loop E r [] wm = Some wm"
| "handover_loop E r (e # es) wm = do { wm' \<leftarrow> handover_entity E r e wm; handover_loop E r es wm' }"

definition handover_conn ::
  "Externs \<Rightarrow> ChanPtr \<Rightarrow> uint32 \<Rightarrow> uint32 \<Rightarrow> DataMsg \<Rightarrow> Entities \<Rightarrow> ConnRef \<Rightarrow> World \<Rightarrow> World option" where
  "handover_conn E src srcChannelId dstChannelId spatialDataMsg entities r w = do {
     (w1, m) \<leftarrow> handover_loop E r entities (w, ex_protoNew E spatialDataMsg);
     (case ex_anyNew E m of
        None \<Rightarrow> Some w1
      | Some any \<Rightarrow> send_to_ref E (handover_ctx w1 src srcChannelId dstChannelId any) r w1)
   }"

subsection \<open>Notify\<close>

text \<open>The fresh data message of the spatial type, initialised; \<open>None\<close> when the type is not registered.\<close>

definition new_spatial_data :: "Externs \<Rightarrow> World \<Rightarrow> DataMsg option" where
  "new_spatial_data E w = map_option (\<lambda>m. case ex_initData E m of None \<Rightarrow> m | Some (m', ok) \<Rightarrow> m')
     (ReflectChannelDataMessage E w ChannelType_SPATIAL)"

definition tell_connections ::
  "Externs \<Rightarrow> ChanPtr \<Rightarrow> ChanPtr \<Rightarrow> uint32 \<Rightarrow> uint32 \<Rightarrow> DataMsg \<Rightarrow> Entities \<Rightarrow> World \<Rightarrow> World option" where
  "tell_connections E src dst srcChannelId dstChannelId spatialDataMsg entities w =
     (let m = fold (merge_entity E w False) entities spatialDataMsg in
      case ex_anyNew E m of
        None \<Rightarrow> Some w
      | Some any \<Rightarrow> do {
          let dstConns = GetAllConnections w dst;
          w1 \<leftarrow> for_each (send_source E (handover_ctx w src srcChannelId dstChannelId any) dstConns) (GetAllConnections w src) w;
          for_each (handover_conn E src srcChannelId dstChannelId m entities) dstConns w1
        })"

definition hand_over ::
  "Externs \<Rightarrow> ChanPtr \<Rightarrow> ChanPtr \<Rightarrow> uint32 \<Rightarrow> uint32 \<Rightarrow> DataMsg \<Rightarrow> Entities \<Rightarrow> World \<Rightarrow> World option" where
  "hand_over E src dst srcChannelId dstChannelId spatialDataMsg entities w = do {
     same \<leftarrow> IsSameOwner w src dst;
     w1 \<leftarrow> (if same then Some w else for_each (change_server E src dst dstChannelId) entities w);
     w2 \<leftarrow> Execute src (H_RemoveEntities src (map fst entities)) w1;
     w3 \<leftarrow> Execute dst (H_AddEntities dst entities) w2;
     tell_connections E src dst srcChannelId dstChannelId spatialDataMsg entities w3
   }"

text \<open>The channels of the two positions, and then the entities; every missing piece ends the call.  The two
checks for an owner only log (and both look at the source channel); they can panic on a nil connection.\<close>

definition grid_Notify :: "Externs \<Rightarrow> StaticGrid2DSpatialController \<Rightarrow> NotifyCall \<Rightarrow> World \<Rightarrow> World option" where
  "grid_Notify E ctl call w =
     (let (srcChannelId, ok1) = grid_GetChannelId E ctl (w_settings w) (nc_oldInfo call);
          (dstChannelId, ok2) = grid_GetChannelId E ctl (w_settings w) (nc_newInfo call) in
      if \<not> ok1 \<or> \<not> ok2 \<or> dstChannelId = srcChannelId then Some w
      else case GetChannel w srcChannelId of
        None \<Rightarrow> Some w
      | Some src \<Rightarrow> do {
          _ \<leftarrow> HasOwner w src;
          (case GetChannel w dstChannelId of
             None \<Rightarrow> Some w
           | Some dst \<Rightarrow> (case new_spatial_data E w of
               None \<Rightarrow> Some w
             | Some spatialDataMsg \<Rightarrow> (case GetChannel w (nc_entityId call) of
                 None \<Rightarrow> Some w
               | Some entityChannel \<Rightarrow>
                   let entities = channel_GetHandoverEntities w entityChannel in
                   if entities = [] then Some w
                   else hand_over E src dst srcChannelId dstChannelId spatialDataMsg entities w)))
        })"

text \<open>The controller of a process that was started with this grid, and the process's environment.\<close>

definition grid_controller :: "Externs \<Rightarrow> StaticGrid2DSpatialController \<Rightarrow> SpatialCtl" where
  "grid_controller E ctl = \<lparr>
     sp_GetChannelId = (\<lambda>w. grid_GetChannelId E ctl (w_settings w)),
     sp_QueryChannelIds = (\<lambda>w. grid_QueryChannelIds E ctl (w_settings w)),
     sp_GetRegions = (\<lambda>w. grid_GetRegions ctl (w_settings w)),
     sp_GetAdjacentChannels = (\<lambda>w i. map_option Some (grid_GetAdjacentChannels ctl (w_settings w) i)),
     sp_CreateChannels = grid_CreateChannels E ctl,
     sp_Tick = grid_Tick ctl,
     sp_Notify = grid_Notify E ctl\<rparr>"

definition with_grid :: "StaticGrid2DSpatialController \<Rightarrow> Externs \<Rightarrow> Externs" where
  "with_grid ctl E = E\<lparr>ex_spatial := Some (grid_controller E ctl)\<rparr>"

subsection \<open>What the messages leave alone\<close>

text \<open>The parts of a channel that sends and subscriptions do not change.\<close>

definition chan_kept :: "Channel \<Rightarrow> Channel \<Rightarrow> bool" where
  "chan_kept c c' \<longleftrightarrow> ch_id c' = ch_id c \<and> ch_channelType c' = ch_channelType c \<and>
     ch_ownerConnection c' = ch_ownerConnection c \<and> ch_inMsgQueue c' = ch_inMsgQueue c \<and>
     ch_inMsgQueueClosed c' = ch_inMsgQueueClosed c \<and> ch_entityController c' = ch_entityController c \<and>
     map_option d_msg (ch_data c') = map_option d_msg (ch_data c)"

text \<open>A connection has the subscription to an entity that a handover gives it.\<close>

definition granted :: "World \<Rightarrow> ChanPtr \<Rightarrow> ConnPtr \<Rightarrow> bool" where
  "granted w c p \<longleftrightarrow> (\<exists>cs. map_of (ch_subscribedConnections (w_chan w c)) (Conn p) = Some cs \<and>
     so_DataAccess (cs_options cs) =
       Some (if Conn p = GetOwner w c then DataAccess_WRITE_ACCESS else DataAccess_READ_ACCESS))"

definition fans_ok :: "World \<Rightarrow> bool" where
  "fans_ok w \<longleftrightarrow> (\<forall>c. fan_ok w (w_chan w c))"

definition quiet :: "World \<Rightarrow> World \<Rightarrow> bool" where
  "quiet w w' \<longleftrightarrow> conns_kept w w' \<and> w_allChannels w' = w_allChannels w \<and> (\<forall>c. chan_kept (w_chan w c) (w_chan w' c)) \<and>
     (fans_ok w \<longrightarrow> fans_ok w') \<and> (\<forall>c p. granted w c p \<longrightarrow> granted w' c p)"

lemma chan_kept_refl [simp]: "chan_kept c c"
  by (simp add: chan_kept_def)

lemma quiet_refl [simp]: "quiet w w"
  by (simp add: quiet_def)

lemma quiet_trans [trans]: "quiet a b \<Longrightarrow> quiet b c \<Longrightarrow> quiet a c"
  unfolding quiet_def chan_kept_def using conns_kept_trans by (auto 0 3)

lemma fan_ok_kept: "conns_kept w w' \<Longrightarrow> fan_ok w' c = fan_ok w c"
  by (rule fan_ok_cong) (rule conns_kept_closing)

lemma quiet_same_channels:
  assumes "conns_kept w w'" and "w_allChannels w' = w_allChannels w" and "w_chan w' = w_chan w"
  shows "quiet w w'"
  using assms by (simp add: quiet_def fans_ok_def granted_def GetOwner_def fan_ok_kept [OF assms(1)])

lemma quiet_world_Send [simp]: "quiet w (world_Send E p ctx w)"
  by (rule quiet_same_channels) simp_all

lemma quiet_sends [simp]:
  "quiet w (sendSubscribed E c ctx ch s stub o' w)" "quiet w (sendUnsubscribed E c ctx ch u stub w)"
  by (simp_all add: sendSubscribed_def sendUnsubscribed_def Let_def)

lemma quiet_keeps:
  assumes "quiet w w'"
  shows "GetOwner w' c = GetOwner w c" and "GetChannel w' i = GetChannel w i" and "IsClosing (w_conn w' p) = IsClosing (w_conn w p)"
    and "GetDataMessage w' c = GetDataMessage w c" and "fans_ok w \<Longrightarrow> fans_ok w'" and "granted w c p \<Longrightarrow> granted w' c p"
    and "ch_inMsgQueue (w_chan w' c) = ch_inMsgQueue (w_chan w c)"
proof -
  have "map_option d_msg (ch_data (w_chan w' c)) = map_option d_msg (ch_data (w_chan w c))"
    using assms by (simp add: quiet_def chan_kept_def)
  then show "GetDataMessage w' c = GetDataMessage w c"
    by (auto simp: GetDataMessage_def split: option.splits)
qed (use assms conns_kept_closing [of w w' p] in \<open>auto simp: quiet_def chan_kept_def GetOwner_def GetChannel_def\<close>)

lemma quiet_for_each:
  assumes "\<And>x v. x \<in> set xs \<Longrightarrow> quiet w v \<Longrightarrow> \<exists>v'. f x v = Some v' \<and> quiet v v' \<and> P x v'"
    and "\<And>x v v'. P x v \<Longrightarrow> quiet v v' \<Longrightarrow> P x v'"
  shows "\<exists>w'. for_each f xs w = Some w' \<and> quiet w w' \<and> (\<forall>x \<in> set xs. P x w')"
proof -
  have "\<exists>w'. for_each f ys v = Some w' \<and> quiet v w' \<and> (\<forall>x \<in> set ys. P x w')" if "set ys \<subseteq> set xs" "quiet w v" for ys v
    using that
  proof (induction ys arbitrary: v)
    case (Cons y ys)
    obtain v1 where v1: "f y v = Some v1" "quiet v v1" "P y v1" using assms(1) [of y v] Cons.prems by auto
    moreover have "quiet w v1" using Cons.prems(2) v1(2) by (rule quiet_trans)
    ultimately obtain w' where w': "for_each f ys v1 = Some w'" "quiet v1 w'" "\<forall>x \<in> set ys. P x w'"
      using Cons by (meson set_subset_Cons subset_trans)
    then show ?case using v1 quiet_trans [OF v1(2) w'(2)] assms(2) [OF v1(3) w'(2)] by auto
  qed simp
  from this [of xs w] show ?thesis by simp
qed

subsection \<open>Subscribing to a moved entity\<close>

lemma quiet_subscription:
  assumes "conns_kept w w'" and "w_allChannels w' = w_allChannels w" and "\<And>c. c \<noteq> ch \<Longrightarrow> w_chan w' c = w_chan w c"
    and "chan_kept (w_chan w ch) (w_chan w' ch)" and "fan_ok w' (w_chan w' ch)" and "granted w' ch p"
    and "\<And>q. q \<noteq> p \<Longrightarrow> map_of (ch_subscribedConnections (w_chan w' ch)) (Conn q) =
      map_of (ch_subscribedConnections (w_chan w ch)) (Conn q)"
  shows "quiet w w'"
  unfolding quiet_def
proof (intro conjI allI impI)
  show "chan_kept (w_chan w c) (w_chan w' c)" for c using assms(3) [of c] assms(4) by (cases "c = ch") simp_all
  show "fans_ok w'" if "fans_ok w"
    unfolding fans_ok_def
  proof
    fix c
    show "fan_ok w' (w_chan w' c)"
      using that assms(3) [of c] assms(5) fan_ok_kept [OF assms(1)] by (cases "c = ch") (auto simp: fans_ok_def)
  qed
  show "granted w' c q" if "granted w c q" for c q
    using that assms(3) [of c] assms(4,6,7) by (cases "c = ch"; cases "q = p") (auto simp: granted_def GetOwner_def chan_kept_def)
qed (use assms(1,2) in simp_all)

lemma handover_subscription:
  assumes "merge_law E" and "fans_ok w"
  shows "\<exists>w' cs b. SubscribeToChannel E p ch (Some (handover_sub_options w (Conn p) ch)) w = Some (w', cs, b) \<and> quiet w w' \<and>
    (if IsClosing (w_conn w p) then cs = None else cs \<noteq> None \<and> granted w' ch p)"
proof (cases "IsClosing (w_conn w p)")
  case True
  then show ?thesis by (intro exI [of _ w] exI [of _ None] exI [of _ False]) (simp add: SubscribeToChannel_def)
next
  case live: False
  let ?o = "handover_sub_options w (Conn p) ch"
  have fan: "fan_ok w (w_chan w ch)" using assms(2) by (simp add: fans_ok_def)
  have access: "so_DataAccess (ex_mergeSubOptions E dst ?o) =
      Some (if Conn p = GetOwner w ch then DataAccess_WRITE_ACCESS else DataAccess_READ_ACCESS)" for dst
    using assms(1) by (simp add: merge_law_def handover_sub_options_def)
  show ?thesis
  proof (cases "map_of (ch_subscribedConnections (w_chan w ch)) (Conn p)")
    case (Some cs)
    let ?cs = "cs\<lparr>cs_options := ex_mergeSubOptions E (cs_options cs) ?o\<rparr>"
    let ?w = "upd_chan ch (\<lambda>c. c\<lparr>ch_subscribedConnections := AList.update (Conn p) ?cs (ch_subscribedConnections c)\<rparr>) w"
    have "granted ?w ch p" using access by (simp add: granted_def GetOwner_def)
    moreover have "quiet w ?w"
      using resubscribe_fan_ok(1) [OF assms(1) fan Some] calculation
      by (intro quiet_subscription [of w ?w ch p]) (simp_all add: chan_kept_def)
    ultimately show ?thesis using resubscribe_fan_ok(3) [OF assms(1) fan Some live, of ?o] live by simp
  next
    case None
    obtain skip delay interval cs where
      cs: "cs = \<lparr>cs_options = merge_options E (defaultSubOptions w (ch_channelType (w_chan w ch))) (Some ?o),
         cs_subTime = GetTime w ch, cs_fanOutElement = ch_nextElement (w_chan w ch)\<rparr>" "opts_full (cs_options cs)"
      and sub: "SubscribeToChannel E p ch (Some ?o) w =
         Some (add_interest p ch (upd_chan ch (enter_subscription p cs skip delay interval) w), Some cs, True)"
      by (rule SubscribeToChannel_new [OF assms(1) live None])
    let ?w = "add_interest p ch (upd_chan ch (enter_subscription p cs skip delay interval) w)"
    have "granted ?w ch p"
      using access by (simp add: granted_def GetOwner_def enter_subscription_def cs(1) merge_options_def)
    moreover have "fan_ok w (enter_subscription p cs skip delay interval (w_chan w ch))"
      by (rule enter_subscription_fan_ok [OF fan None live cs(2)]) (simp add: cs(1))
    then have "fan_ok ?w (w_chan ?w ch)" using fan_ok_cong [of ?w w] by simp
    moreover have "conns_kept w ?w" by (auto simp: conns_kept_def add_interest_def)
    moreover have "map_option d_msg (map_option (\<lambda>d. if d_maxFanOutIntervalMs d < interval
          then d\<lparr>d_maxFanOutIntervalMs := interval\<rparr> else d) d) = map_option d_msg d" for d
      by (cases d) simp_all
    ultimately have "quiet w ?w"
      by (intro quiet_subscription [of w ?w ch p]) (simp_all add: chan_kept_def enter_subscription_def)
    with \<open>granted ?w ch p\<close> show ?thesis using sub live by auto
  qed
qed

subsection \<open>The messages go out\<close>

text \<open>An entity that has a channel, and its data.\<close>

definition moved :: "World \<Rightarrow> uint32 \<times> ChanPtr option \<Rightarrow> ChanPtr \<Rightarrow> bool" where
  "moved w e c \<longleftrightarrow> GetChannel w (fst e) = Some c \<and> snd e \<noteq> None"

lemma handover_entity_result:
  assumes "merge_law E" and "fans_ok w"
  shows "\<exists>w' m'. handover_entity E (Conn p) e (w, m) = Some (w', m') \<and> quiet w w' \<and>
    (\<not> IsClosing (w_conn w p) \<longrightarrow> (\<forall>c. moved w e c \<longrightarrow> granted w' c p))"
proof (cases "GetChannel w (fst e)")
  case None
  then show ?thesis by (simp add: handover_entity_def moved_def)
next
  case (Some ch)
  show ?thesis
  proof (cases "snd e")
    case None
    then show ?thesis using Some by (simp add: handover_entity_def moved_def)
  next
    case source: (Some c)
    obtain w1 cs b where w1: "SubscribeToChannel E p ch (Some (handover_sub_options w (Conn p) ch)) w = Some (w1, cs, b)"
      "quiet w w1" "if IsClosing (w_conn w p) then cs = None else cs \<noteq> None \<and> granted w1 ch p"
      using handover_subscription [OF assms] by blast
    show ?thesis
    proof (cases cs)
      case None
      then show ?thesis using w1 Some source by (auto simp: handover_entity_def split: if_splits)
    next
      case sub: (Some s)
      let ?w2 = "if b then sendSubscribed E p empty_ctx ch p 0 (cs_options s) w1 else w1"
      have q: "quiet w1 ?w2" by simp
      have run: "handover_entity E (Conn p) e (w, m) = Some (?w2, merge_entity E ?w2 b e m)"
        using w1(1) sub Some source by (simp add: handover_entity_def Let_def)
      have "granted ?w2 ch p" using w1(3) sub quiet_keeps(6) [OF q] by (auto split: if_splits)
      then show ?thesis using run quiet_trans [OF w1(2) q] Some by (auto simp: moved_def)
    qed
  qed
qed

lemma handover_loop_result:
  assumes "merge_law E" and "fans_ok w"
  shows "\<exists>w' m'. handover_loop E (Conn p) es (w, m) = Some (w', m') \<and> quiet w w' \<and>
    (\<not> IsClosing (w_conn w p) \<longrightarrow> (\<forall>e \<in> set es. \<forall>c. moved w e c \<longrightarrow> granted w' c p))"
  using assms(2)
proof (induction es arbitrary: w m)
  case (Cons e es)
  obtain w1 m1 where w1: "handover_entity E (Conn p) e (w, m) = Some (w1, m1)" "quiet w w1"
    "\<not> IsClosing (w_conn w p) \<longrightarrow> (\<forall>c. moved w e c \<longrightarrow> granted w1 c p)"
    using handover_entity_result [OF assms(1) Cons.prems] by blast
  obtain w' m' where w': "handover_loop E (Conn p) es (w1, m1) = Some (w', m')" "quiet w1 w'"
    "\<not> IsClosing (w_conn w1 p) \<longrightarrow> (\<forall>e \<in> set es. \<forall>c. moved w1 e c \<longrightarrow> granted w' c p)"
    using Cons.IH [OF quiet_keeps(5) [OF w1(2) Cons.prems]] by blast
  have "moved w1 e c = moved w e c" for e c using quiet_keeps(2) [OF w1(2)] by (simp add: moved_def)
  then show ?case
    using w1 w' quiet_trans [OF w1(2) w'(2)] quiet_keeps(3) [OF w1(2)] quiet_keeps(6) [OF w'(2)] by auto
qed simp

lemma handover_conn_result:
  assumes "merge_law E" and "fans_ok w"
  shows "\<exists>w'. handover_conn E src i j m es (Conn p) w = Some w' \<and> quiet w w' \<and>
    (\<not> IsClosing (w_conn w p) \<longrightarrow> (\<forall>e \<in> set es. \<forall>c. moved w e c \<longrightarrow> granted w' c p))"
proof -
  obtain w1 m1 where w1: "handover_loop E (Conn p) es (w, ex_protoNew E m) = Some (w1, m1)" "quiet w w1"
    "\<not> IsClosing (w_conn w p) \<longrightarrow> (\<forall>e \<in> set es. \<forall>c. moved w e c \<longrightarrow> granted w1 c p)"
    using handover_loop_result [OF assms] by blast
  show ?thesis
  proof (cases "ex_anyNew E m1")
    case None
    then show ?thesis using w1 by (simp add: handover_conn_def)
  next
    case (Some any)
    let ?w = "world_Send E p (handover_ctx w1 src i j any) w1"
    have "quiet w ?w" using w1(2) quiet_world_Send by (rule quiet_trans)
    then show ?thesis using w1 Some quiet_keeps(6) [OF quiet_world_Send] by (auto simp: handover_conn_def send_to_ref_def)
  qed
qed

lemma send_source_result:
  "\<exists>w'. send_source E ctx conns (Conn p) w = Some w' \<and> quiet w w'"
  by (auto simp: send_source_def send_to_ref_def)

lemma GetAllConnections_refs:
  assumes "fans_ok w" and "r \<in> set (GetAllConnections w c)"
  obtains p where "r = Conn p"
proof -
  have f: "fan_ok w (w_chan w c)" using assms(1) by (simp add: fans_ok_def)
  obtain cs where "map_of (ch_subscribedConnections (w_chan w c)) r = Some cs"
    using assms(2) by (auto simp: GetAllConnections_def alist_keys_def dest: weak_map_of_SomeI)
  then show thesis using fan_okD(2) [OF f] that by blast
qed

text \<open>Telling the connections: it returns, changes nothing but subscriptions and send queues, and every
live subscriber of the destination subscribes to every entity.\<close>

lemma tell_connections_result:
  assumes "merge_law E" and "fans_ok w"
  shows "\<exists>w'. tell_connections E src dst i j m es w = Some w' \<and> quiet w w' \<and>
    (ex_anyNew E (fold (merge_entity E w False) es m) \<noteq> None \<longrightarrow>
      (\<forall>p. Conn p \<in> set (GetAllConnections w dst) \<and> \<not> IsClosing (w_conn w p) \<longrightarrow>
        (\<forall>e \<in> set es. \<forall>c. moved w e c \<longrightarrow> granted w' c p)))"
proof (cases "ex_anyNew E (fold (merge_entity E w False) es m)")
  case None
  then show ?thesis by (simp add: tell_connections_def Let_def)
next
  case (Some any)
  let ?m = "fold (merge_entity E w False) es m"
  let ?dst = "GetAllConnections w dst"
  have "\<exists>w'. for_each (send_source E (handover_ctx w src i j any) ?dst) (GetAllConnections w src) w = Some w' \<and>
      quiet w w' \<and> (\<forall>r \<in> set (GetAllConnections w src). True)"
  proof (rule quiet_for_each)
    fix r v assume "r \<in> set (GetAllConnections w src)"
    then obtain p where "r = Conn p" using GetAllConnections_refs [OF assms(2)] by blast
    then show "\<exists>v'. send_source E (handover_ctx w src i j any) ?dst r v = Some v' \<and> quiet v v' \<and> True"
      using send_source_result by simp
  qed simp
  then obtain w1 where w1: "for_each (send_source E (handover_ctx w src i j any) ?dst) (GetAllConnections w src) w = Some w1"
    "quiet w w1" by blast
  let ?P = "\<lambda>r v. \<forall>p. r = Conn p \<and> \<not> IsClosing (w_conn w p) \<longrightarrow> (\<forall>e \<in> set es. \<forall>c. moved w e c \<longrightarrow> granted v c p)"
  have "\<exists>w'. for_each (handover_conn E src i j ?m es) ?dst w1 = Some w' \<and> quiet w1 w' \<and> (\<forall>r \<in> set ?dst. ?P r w')"
  proof (rule quiet_for_each)
    fix r v assume r: "r \<in> set ?dst" and v: "quiet w1 v"
    obtain p where p: "r = Conn p" using GetAllConnections_refs [OF assms(2) r] by blast
    have q: "quiet w v" using w1(2) v by (rule quiet_trans)
    have "moved v e c = moved w e c" for e c using quiet_keeps(2) [OF q] by (simp add: moved_def)
    then show "\<exists>v'. handover_conn E src i j ?m es r v = Some v' \<and> quiet v v' \<and> ?P r v'"
      using handover_conn_result [OF assms(1) quiet_keeps(5) [OF q assms(2)], of src i j ?m es p] quiet_keeps(3) [OF q] p by auto
  next
    fix r v v' assume "?P r v" "quiet v v'"
    then show "?P r v'" using quiet_keeps(6) by blast
  qed
  then obtain w' where w': "for_each (handover_conn E src i j ?m es) ?dst w1 = Some w'" "quiet w1 w'" "\<forall>r \<in> set ?dst. ?P r w'"
    by blast
  have "tell_connections E src dst i j m es w = Some w'"
    using Some w1(1) w'(1) by (simp add: tell_connections_def Let_def)
  then show ?thesis using quiet_trans [OF w1(2) w'(2)] w'(3) by auto
qed

subsection \<open>The change of servers\<close>

text \<open>What the change of servers does: the channels in a set get an owner, some subscriptions
to the channels of another set end, and the rest stays.\<close>

definition reowned :: "ChanPtr set \<Rightarrow> ChanPtr set \<Rightarrow> ConnRef \<Rightarrow> World \<Rightarrow> World \<Rightarrow> bool" where
  "reowned cs us r w w' \<longleftrightarrow> conns_kept w w' \<and> w_allChannels w' = w_allChannels w \<and> fans_ok w' \<and>
     (\<forall>c. GetOwner w' c = (if c \<in> cs then r else GetOwner w c)) \<and>
     (\<forall>c. ch_inMsgQueue (w_chan w' c) = ch_inMsgQueue (w_chan w c) \<and>
        ch_inMsgQueueClosed (w_chan w' c) = ch_inMsgQueueClosed (w_chan w c)) \<and>
     (\<forall>c. c \<notin> us \<longrightarrow> ch_subscribedConnections (w_chan w' c) = ch_subscribedConnections (w_chan w c))"

lemma UnsubscribeFromChannel_kept:
  assumes "UnsubscribeFromChannel p ch w = (w1, r)"
  shows "conns_kept w w1" and "w_allChannels w1 = w_allChannels w" and "c \<noteq> ch \<Longrightarrow> w_chan w1 c = w_chan w c"
    and "chan_kept (w_chan w ch) (w_chan w1 ch)"
proof -
  have "conns_kept w w1 \<and> w_allChannels w1 = w_allChannels w \<and> (c \<noteq> ch \<longrightarrow> w_chan w1 c = w_chan w c) \<and>
      chan_kept (w_chan w ch) (w_chan w1 ch)" for c
  proof (cases "map_of (ch_subscribedConnections (w_chan w ch)) (Conn p)")
    case None
    then show ?thesis using assms by (simp add: UnsubscribeFromChannel_def)
  next
    case (Some cs)
    then have w1: "w1 = drop_interest p ch (upd_chan ch (leave_subscription p cs) w)"
      using assms by (simp add: UnsubscribeFromChannel_def)
    have "conns_kept w w1" unfolding w1 by (auto simp: conns_kept_def drop_interest_def)
    then show ?thesis by (simp add: w1 chan_kept_def leave_subscription_def)
  qed
  then show "conns_kept w w1" "w_allChannels w1 = w_allChannels w" "c \<noteq> ch \<Longrightarrow> w_chan w1 c = w_chan w c"
    "chan_kept (w_chan w ch) (w_chan w1 ch)" by blast+
qed

lemma leave_entity_result:
  assumes "fans_ok w" and "GetOwner w src \<noteq> NilConn"
  shows "\<exists>w'. leave_entity E src i ch w = Some w' \<and> reowned {} {ch} r w w'"
proof -
  have id: "reowned {} {ch} r w w" using assms(1) by (simp add: reowned_def)
  show ?thesis
  proof (cases "GetOwner w src")
    case NilIface
    then show ?thesis using id by (simp add: leave_entity_def)
  next
    case NilConn
    then show ?thesis using assms(2) by simp
  next
    case (Conn p)
    show ?thesis
    proof (cases "IsClosing (w_conn w p) \<or> HasInterestIn w p i")
      case True
      then show ?thesis using Conn id by (simp add: leave_entity_def ref_closing_def)
    next
      case False
      obtain w1 o' where w1: "UnsubscribeFromChannel p ch w = (w1, o')" by fastforce
      let ?w = "sendUnsubscribed E p empty_ctx ch None 0 w1"
      have run: "leave_entity E src i ch w = Some ?w"
        using Conn False w1 by (simp add: leave_entity_def ref_closing_def)
      have fan: "fan_ok w1 (w_chan w1 ch)"
        using UnsubscribeFromChannel_fan_ok [OF _ _ w1] assms(1) False by (simp add: fans_ok_def)
      note kept = UnsubscribeFromChannel_kept [OF w1]
      have all: "chan_kept (w_chan w c) (w_chan w1 c)" for c using kept(3) [of c] kept(4) by (cases "c = ch") simp_all
      have "fans_ok w1"
        unfolding fans_ok_def
      proof
        fix c show "fan_ok w1 (w_chan w1 c)"
          using fan kept(3) [of c] assms(1) fan_ok_kept [OF kept(1)] by (cases "c = ch") (auto simp: fans_ok_def)
      qed
      then have "reowned {} {ch} r w w1" using kept(1-3) all by (simp add: reowned_def chan_kept_def GetOwner_def)
      moreover have "fans_ok ?w" using quiet_keeps(5) [of w1 ?w] \<open>fans_ok w1\<close> by simp
      moreover have "conns_kept w ?w" using kept(1) sendSubscribed_keeps(3) by (rule conns_kept_trans)
      moreover have "w_allChannels ?w = w_allChannels w1" by (simp add: sendUnsubscribed_def Let_def)
      ultimately have "reowned {} {ch} r w ?w" by (simp add: reowned_def GetOwner_def)
      then show ?thesis using run by blast
    qed
  qed
qed

lemma change_server_result:
  assumes "fans_ok w" and "GetOwner w src \<noteq> NilConn"
  shows "\<exists>w'. change_server E src dst i e w = Some w' \<and>
    reowned {c. GetChannel w (fst e) = Some c} {c. GetChannel w (fst e) = Some c} (GetOwner w dst) w w'"
proof (cases "GetChannel w (fst e)")
  case None
  then show ?thesis using assms(1) by (simp add: change_server_def reowned_def)
next
  case (Some ch)
  obtain w1 where w1: "leave_entity E src i ch w = Some w1" "reowned {} {ch} NilIface w w1"
    using leave_entity_result [OF assms] by blast
  let ?w = "SetOwner ch (GetOwner w1 dst) w1"
  have "fan_ok ?w c = fan_ok w1 c" for c by (rule fan_ok_cong) (simp add: SetOwner_def)
  moreover have "fan_ok w1 ((w_chan w1 c)\<lparr>ch_ownerConnection := r\<rparr>) = fan_ok w1 (w_chan w1 c)" for c r
    by (simp add: fan_ok_def)
  moreover have "conns_kept w1 ?w" by (simp add: SetOwner_def)
  ultimately have "reowned {c. GetChannel w (fst e) = Some c} {c. GetChannel w (fst e) = Some c} (GetOwner w dst) w ?w"
    using w1(2) Some conns_kept_trans [of w w1 ?w] by (auto simp: reowned_def fans_ok_def SetOwner_def GetOwner_def)
  then show ?thesis using w1(1) Some by (simp add: change_server_def)
qed

lemma change_servers_result:
  assumes "fans_ok w" and "GetOwner w src \<noteq> NilConn" and "GetOwner w dst \<noteq> NilConn"
  shows "\<exists>w'. for_each (change_server E src dst i) es w = Some w' \<and>
    reowned {c. \<exists>e \<in> set es. GetChannel w (fst e) = Some c} {c. \<exists>e \<in> set es. GetChannel w (fst e) = Some c} (GetOwner w dst) w w'"
  using assms
proof (induction es arbitrary: w)
  case Nil
  then show ?case by (simp add: reowned_def)
next
  case (Cons e es)
  obtain w1 where w1: "change_server E src dst i e w = Some w1"
    "reowned {c. GetChannel w (fst e) = Some c} {c. GetChannel w (fst e) = Some c} (GetOwner w dst) w w1"
    using change_server_result [OF Cons.prems(1,2)] by blast
  then have o1: "fans_ok w1" "GetOwner w1 src \<noteq> NilConn" "GetOwner w1 dst = GetOwner w dst" "GetOwner w1 dst \<noteq> NilConn"
    "\<And>i. GetChannel w1 i = GetChannel w i"
    using Cons.prems by (auto simp: reowned_def GetChannel_def)
  obtain w' where w': "for_each (change_server E src dst i) es w1 = Some w'"
    "reowned {c. \<exists>e \<in> set es. GetChannel w1 (fst e) = Some c} {c. \<exists>e \<in> set es. GetChannel w1 (fst e) = Some c} (GetOwner w1 dst) w1 w'"
    using Cons.IH [OF o1(1,2,4)] by blast
  have "conns_kept w w'" using conns_kept_trans w1(2) w'(2) by (auto simp: reowned_def)
  then have "reowned {c. \<exists>e \<in> set (e # es). GetChannel w (fst e) = Some c} {c. \<exists>e \<in> set (e # es). GetChannel w (fst e) = Some c} (GetOwner w dst) w w'"
    using w1(2) w'(2) o1(3,5) by (auto simp: reowned_def)
  then show ?case using w1(1) w'(1) by simp
qed

subsection \<open>The handover\<close>

definition callback :: "Handler \<Rightarrow> channelMessage" where
  "callback h = \<lparr>cm_ctx = empty_ctx, cm_handler = h\<rparr>"

text \<open>The outcome of a handover of entities \<open>es\<close> from \<open>src\<close> to \<open>dst\<close>.\<close>

definition handed_over :: "ChanPtr \<Rightarrow> ChanPtr \<Rightarrow> Entities \<Rightarrow> World \<Rightarrow> World \<Rightarrow> bool" where
  "handed_over src dst es w w' \<longleftrightarrow> fans_ok w' \<and>
     (\<forall>c. GetOwner w' c = (if IsSameOwner w src dst = Some False \<and> (\<exists>e \<in> set es. GetChannel w (fst e) = Some c)
        then GetOwner w dst else GetOwner w c)) \<and>
     ch_inMsgQueue (w_chan w' src) = ch_inMsgQueue (w_chan w src) @ [callback (H_RemoveEntities src (map fst es))] \<and>
     ch_inMsgQueue (w_chan w' dst) = ch_inMsgQueue (w_chan w dst) @ [callback (H_AddEntities dst es)] \<and>
     (\<forall>c. c \<noteq> src \<and> c \<noteq> dst \<longrightarrow> ch_inMsgQueue (w_chan w' c) = ch_inMsgQueue (w_chan w c)) \<and>
     (\<forall>p. Conn p \<in> set (GetAllConnections w dst) \<and> \<not> IsClosing (w_conn w p) \<longrightarrow>
        (\<forall>e \<in> set es. \<forall>c. moved w e c \<longrightarrow> granted w' c p))"

lemma fans_ok_queue [simp]:
  "fans_ok (upd_chan ch (\<lambda>c. c\<lparr>ch_inMsgQueue := f c\<rparr>) w) = fans_ok w"
proof -
  have "fan_ok (upd_chan ch (\<lambda>c. c\<lparr>ch_inMsgQueue := f c\<rparr>) w) c = fan_ok w c" for c by (rule fan_ok_cong) simp
  moreover have "fan_ok w (c\<lparr>ch_inMsgQueue := q\<rparr>) = fan_ok w c" for c q by (simp add: fan_ok_def)
  ultimately show ?thesis by (auto simp: fans_ok_def)
qed

lemma hand_over_result:
  assumes law: "merge_law E" "\<And>m. ex_anyNew E m \<noteq> None" and fans: "fans_ok w"
    and owners: "GetOwner w src \<noteq> NilConn" "GetOwner w dst \<noteq> NilConn"
    and queues: "\<not> ch_inMsgQueueClosed (w_chan w src)" "\<not> ch_inMsgQueueClosed (w_chan w dst)"
    and ne: "src \<noteq> dst" and dst: "\<forall>e \<in> set es. GetChannel w (fst e) \<noteq> Some dst"
  shows "\<exists>w'. hand_over E src dst i j m es w = Some w' \<and> handed_over src dst es w w'"
proof -
  obtain same where same: "IsSameOwner w src dst = Some same"
    using owners(1) by (cases "GetOwner w src") (auto simp: IsSameOwner_def ref_closing_def)
  let ?es = "{c. \<exists>e \<in> set es. GetChannel w (fst e) = Some c}"
  obtain w1 where w1: "(if same then Some w else for_each (change_server E src dst j) es w) = Some w1"
    "reowned (if same then {} else ?es) ?es (GetOwner w dst) w w1"
    using change_servers_result [OF fans owners, of E j es] fans by (cases same) (auto simp: reowned_def)
  let ?q = "\<lambda>c h. upd_chan c (\<lambda>d. d\<lparr>ch_inMsgQueue := ch_inMsgQueue d @ [callback h]\<rparr>)"
  define w3 where "w3 = ?q dst (H_AddEntities dst es) (?q src (H_RemoveEntities src (map fst es)) w1)"
  have exec: "do { w2 \<leftarrow> Execute src (H_RemoveEntities src (map fst es)) w1; Execute dst (H_AddEntities dst es) w2 } = Some w3"
    using w1(2) queues ne by (simp add: Execute_def put_queue_def reowned_def w3_def callback_def)
  have fans3: "fans_ok w3" using w1(2) by (simp add: w3_def reowned_def)
  have conn3: "IsClosing (w_conn w3 p) = IsClosing (w_conn w p)" "GetChannel w3 k = GetChannel w k" for p k
    using w1(2) conns_kept_closing [of w w1 p] by (simp_all add: w3_def reowned_def GetChannel_def)
  have "dst \<notin> ?es" using dst by auto
  then have subs3: "GetAllConnections w3 dst = GetAllConnections w dst"
    using w1(2) ne by (simp add: w3_def reowned_def GetAllConnections_def)
  obtain w' where w': "tell_connections E src dst i j m es w3 = Some w'" "quiet w3 w'"
    "\<forall>p. Conn p \<in> set (GetAllConnections w3 dst) \<and> \<not> IsClosing (w_conn w3 p) \<longrightarrow>
        (\<forall>e \<in> set es. \<forall>c. moved w3 e c \<longrightarrow> granted w' c p)"
    using tell_connections_result [OF law(1) fans3, of src dst i j m es] law(2) by blast
  have run: "hand_over E src dst i j m es w = Some w'"
    using same w1(1) exec w'(1) by (auto simp: hand_over_def bind_eq_Some_conv)
  have "handed_over src dst es w w'"
    unfolding handed_over_def
  proof (intro conjI allI)
    show "fans_ok w'" using quiet_keeps(5) [OF w'(2) fans3] .
    show "GetOwner w' c = (if IsSameOwner w src dst = Some False \<and> (\<exists>e \<in> set es. GetChannel w (fst e) = Some c)
        then GetOwner w dst else GetOwner w c)" for c
    proof -
      have "GetOwner w3 c = GetOwner w1 c" by (simp add: w3_def GetOwner_def)
      then show ?thesis using w1(2) same quiet_keeps(1) [OF w'(2)] by (auto simp: reowned_def)
    qed
  qed (use w1(2) ne quiet_keeps(7) [OF w'(2)] w'(3) subs3 conn3 in \<open>auto simp: w3_def reowned_def moved_def\<close>)
  with run show ?thesis by blast
qed


text \<open>
  Nothing is handed over, and nothing changes, when the entity stays in its cell, when one of the positions
  is outside the world, when a cell or the entity has no channel, and when an entity of the handover group is
  locked.
\<close>

theorem Notify_keeps:
  assumes "\<And>c. GetOwner w c \<noteq> NilConn"
    and "snd (grid_GetChannelId E ctl (w_settings w) (nc_oldInfo call)) = False \<or>
      snd (grid_GetChannelId E ctl (w_settings w) (nc_newInfo call)) = False \<or>
      fst (grid_GetChannelId E ctl (w_settings w) (nc_newInfo call)) = fst (grid_GetChannelId E ctl (w_settings w) (nc_oldInfo call)) \<or>
      GetChannel w (fst (grid_GetChannelId E ctl (w_settings w) (nc_oldInfo call))) = None \<or>
      GetChannel w (fst (grid_GetChannelId E ctl (w_settings w) (nc_newInfo call))) = None \<or>
      GetChannel w (nc_entityId call) = None \<or>
      (\<exists>ch ec g l k. GetChannel w (nc_entityId call) = Some ch \<and> ch_entityController (w_chan w ch) = Some ec \<and>
         ec_handoverGroup ec = Some g \<and> ec_lockGroup ec = Some l \<and> k \<in> set (w_group w g) \<and> k \<in> set (w_group w l))"
  shows "grid_Notify E ctl call w = Some w"
proof -
  obtain i ok1 where i: "grid_GetChannelId E ctl (w_settings w) (nc_oldInfo call) = (i, ok1)" by fastforce
  obtain j ok2 where j: "grid_GetChannelId E ctl (w_settings w) (nc_newInfo call) = (j, ok2)" by fastforce
  have owner: "\<exists>b. HasOwner w c = Some b" for c using HasOwner_total [OF assms(1)] by blast
  have locked: "channel_GetHandoverEntities w ch = []"
    if "ch_entityController (w_chan w ch) = Some ec" "ec_handoverGroup ec = Some g" "ec_lockGroup ec = Some l"
      "k \<in> set (w_group w g)" "k \<in> set (w_group w l)" for ch ec g l k
    using that by (auto simp: channel_GetHandoverEntities_def GetHandoverEntities_def Let_def)
  show ?thesis
  proof (cases "ok1 \<and> ok2 \<and> j \<noteq> i \<and> GetChannel w i \<noteq> None")
    case False
    then show ?thesis by (auto simp: grid_Notify_def i j)
  next
    case True
    then obtain src where src: "GetChannel w i = Some src" by blast
    obtain b where b: "HasOwner w src = Some b" using owner by blast
    have empty: "channel_GetHandoverEntities w ch = []"
      if "GetChannel w j = Some dst" "GetChannel w (nc_entityId call) = Some ch" for dst ch
      using assms(2) that True locked by (auto simp: i j)
    show ?thesis using True src b empty by (auto simp: grid_Notify_def i j Let_def split: option.split)
  qed
qed

subsection \<open>Examples\<close>

text \<open>Two cells of the strip with their channels, owned by the servers 0 and 1, and an entity of the first cell.\<close>

definition handover_world :: World where
  "handover_world = demo_world\<lparr>
     w_chan := (\<lambda>c. (w_chan demo_world c)\<lparr>ch_id := (if c = 0 then 0x10000 else if c = 1 then 0x10001 else 0x80000),
        ch_channelType := (if c < 2 then ChannelType_SPATIAL else ChannelType_ENTITY),
        ch_ownerConnection := (if c = 1 then Conn 1 else Conn 0),
        ch_entityController := (if c = 2 then Some \<lparr>ec_entityId = 0x80000, ec_handoverGroup = None, ec_lockGroup = None\<rparr> else None)\<rparr>),
     w_nchan := 3, w_allChannels := [(0x10000, 0), (0x10001, 1), (0x80000, 2)],
     w_channelDataTypeRegistery := [ChannelType_SPATIAL \<mapsto> \<lparr>dm_type = ''s'', dm_fields = []\<rparr>]\<rparr>"

definition handover_call :: NotifyCall where
  "handover_call = \<lparr>nc_oldInfo = fx_info 10 10, nc_newInfo = fx_info 30 10, nc_entityId = 0x80000\<rparr>"

lemma handover_call_cells:
  "grid_GetChannelId demo_externs strip (w_settings handover_world) (nc_oldInfo handover_call) = (0x10000, True)"
  "grid_GetChannelId demo_externs strip (w_settings handover_world) (nc_newInfo handover_call) = (0x10001, True)"
proof -
  have s: "w_settings handover_world = default_settings" by (simp add: handover_world_def demo_world_def)
  have "axis_ok 1 0 10 20 10" "axis_ok 1 0 10 10 4" by (simp_all add: axis_ok_def)
  from strip_position [OF this, of 10 10 0 demo_externs default_settings] strip_position [OF this, of 30 10 1 demo_externs default_settings]
  show "grid_GetChannelId demo_externs strip (w_settings handover_world) (nc_oldInfo handover_call) = (0x10000, True)"
    "grid_GetChannelId demo_externs strip (w_settings handover_world) (nc_newInfo handover_call) = (0x10001, True)"
    by (simp_all add: s handover_call_def cell_id_def strip_size)
qed

lemma handover_world_facts:
  "GetChannel handover_world 0x10000 = Some 0" "GetChannel handover_world 0x10001 = Some 1" "GetChannel handover_world 0x80000 = Some 2"
  "GetOwner handover_world 0 = Conn 0" "GetOwner handover_world 1 = Conn 1" "GetOwner handover_world 2 = Conn 0"
  "\<not> ch_inMsgQueueClosed (w_chan handover_world c)" "fans_ok handover_world"
  "channel_GetHandoverEntities handover_world 2 = [(0x80000, None)]" "IsSameOwner handover_world 0 1 = Some False"
  "new_spatial_data demo_externs handover_world \<noteq> None"
  by (simp_all add: handover_world_def demo_world_def GetChannel_def GetOwner_def fans_ok_def fan_ok_def
      channel_GetHandoverEntities_def GetHandoverEntities_def entity_source_def GetDataMessage_def
      IsSameOwner_def ref_closing_def new_spatial_data_def ReflectChannelDataMessage_def)


theorem Notify_keeps_witness:
  "grid_Notify demo_externs strip (handover_call\<lparr>nc_newInfo := fx_info 10 10\<rparr>) handover_world = Some handover_world"
proof (rule Notify_keeps)
  show "GetOwner handover_world c \<noteq> NilConn" for c by (simp add: handover_world_def GetOwner_def)
qed (simp add: handover_call_def)

end
