(* ===== verification/UnrealData.thy ===== *)
theory UnrealData
  imports Handover
begin

text \<open>
  The channel data of the Unreal Engine extension (\<open>unreal/handover.go\<close>, \<open>unrealpb/extension.go\<close>) and of
  the game that comes with it (\<open>tpspb/data.go\<close>): when an update moves an entity, how spatial channels keep
  their entities, and how the states of actors and their components merge.
\<close>

subsection \<open>Positions\<close>

record FVector =
  v_X :: "float64 option"
  v_Y :: "float64 option"
  v_Z :: "float64 option"

text \<open>\<open>GetX\<close>, \<open>GetY\<close> and \<open>GetZ\<close>; and \<open>!=\<close> on floats.\<close>

definition coord :: "float64 option \<Rightarrow> float64" where
  "coord c = (case c of None \<Rightarrow> Fin 0 | Some x \<Rightarrow> x)"

definition fne :: "float64 \<Rightarrow> float64 \<Rightarrow> bool" where
  "fne a b \<longleftrightarrow> a \<noteq> b \<or> a = NaN"

definition ToSpatialInfo :: "FVector \<Rightarrow> SpatialInfo" where
  "ToSpatialInfo vec = \<lparr>
     si_X = (case v_X vec of None \<Rightarrow> Fin 0 | Some x \<Rightarrow> x),
     si_Y = (case v_Z vec of None \<Rightarrow> Fin 0 | Some z \<Rightarrow> z),
     si_Z = (case v_Y vec of None \<Rightarrow> Fin 0 | Some y \<Rightarrow> y)\<rparr>"

definition CheckEntityHandover :: "FVector \<Rightarrow> FVector \<Rightarrow> (SpatialInfo \<times> SpatialInfo) option" where
  "CheckEntityHandover newLoc oldLoc =
     (let newX = (case v_X newLoc of Some x \<Rightarrow> x | None \<Rightarrow> coord (v_X oldLoc));
          newY = (case v_Y newLoc of Some y \<Rightarrow> y | None \<Rightarrow> coord (v_Y oldLoc));
          newZ = (case v_Z newLoc of Some z \<Rightarrow> z | None \<Rightarrow> coord (v_Z oldLoc)) in
      if fne newX (coord (v_X oldLoc)) \<or> fne newY (coord (v_Y oldLoc)) \<or> fne newZ (coord (v_Z oldLoc))
      then Some (\<lparr>si_X = coord (v_X oldLoc), si_Y = coord (v_Z oldLoc), si_Z = coord (v_Y oldLoc)\<rparr>,
                 \<lparr>si_X = newX, si_Y = newZ, si_Z = newY\<rparr>)
      else None)"

subsection \<open>Entity channel data\<close>

text \<open>The fields the code looks at; the others of each message are one opaque part.\<close>

record UnrealObjectRef =
  or_NetGUID :: "uint32 option"
  or_others :: DataMsg

record RepMovement =
  rm_Location :: "FVector option"
  rm_others :: DataMsg

record ActorState =
  as_ReplicatedMovement :: "RepMovement option"
  as_others :: DataMsg

record SceneComponentState =
  ss_RelativeLocation :: "FVector option"
  ss_others :: DataMsg

record EntityChannelData =
  ed_ObjRef :: "UnrealObjectRef option"
  ed_ActorState :: "ActorState option"
  ed_SceneComponentState :: "SceneComponentState option"
  ed_others :: DataMsg

text \<open>\<open>proto.Merge\<close>: scalars that are set replace, messages merge.\<close>

definition set_or :: "'a option \<Rightarrow> 'a option \<Rightarrow> 'a option" where
  "set_or old new = (case new of None \<Rightarrow> old | Some x \<Rightarrow> Some x)"

definition merge_msg :: "('a \<Rightarrow> 'a \<Rightarrow> 'a) \<Rightarrow> 'a option \<Rightarrow> 'a option \<Rightarrow> 'a option" where
  "merge_msg f old new = (case new of None \<Rightarrow> old | Some y \<Rightarrow> (case old of None \<Rightarrow> Some y | Some x \<Rightarrow> Some (f x y)))"

definition merge_vector :: "FVector \<Rightarrow> FVector \<Rightarrow> FVector" where
  "merge_vector old new = \<lparr>v_X = set_or (v_X old) (v_X new), v_Y = set_or (v_Y old) (v_Y new),
     v_Z = set_or (v_Z old) (v_Z new)\<rparr>"

definition merge_objref :: "Externs \<Rightarrow> UnrealObjectRef \<Rightarrow> UnrealObjectRef \<Rightarrow> UnrealObjectRef" where
  "merge_objref E old new = \<lparr>or_NetGUID = set_or (or_NetGUID old) (or_NetGUID new),
     or_others = ex_protoMerge E (or_others old) (or_others new)\<rparr>"

definition merge_movement :: "Externs \<Rightarrow> RepMovement \<Rightarrow> RepMovement \<Rightarrow> RepMovement" where
  "merge_movement E old new = \<lparr>rm_Location = merge_msg merge_vector (rm_Location old) (rm_Location new),
     rm_others = ex_protoMerge E (rm_others old) (rm_others new)\<rparr>"

definition merge_actor :: "Externs \<Rightarrow> ActorState \<Rightarrow> ActorState \<Rightarrow> ActorState" where
  "merge_actor E old new =
     \<lparr>as_ReplicatedMovement = merge_msg (merge_movement E) (as_ReplicatedMovement old) (as_ReplicatedMovement new),
      as_others = ex_protoMerge E (as_others old) (as_others new)\<rparr>"

definition merge_component :: "Externs \<Rightarrow> SceneComponentState \<Rightarrow> SceneComponentState \<Rightarrow> SceneComponentState" where
  "merge_component E old new =
     \<lparr>ss_RelativeLocation = merge_msg merge_vector (ss_RelativeLocation old) (ss_RelativeLocation new),
      ss_others = ex_protoMerge E (ss_others old) (ss_others new)\<rparr>"

definition merge_entity_data :: "Externs \<Rightarrow> EntityChannelData \<Rightarrow> EntityChannelData \<Rightarrow> EntityChannelData" where
  "merge_entity_data E dst src = \<lparr>
     ed_ObjRef = merge_msg (merge_objref E) (ed_ObjRef dst) (ed_ObjRef src),
     ed_ActorState = merge_msg (merge_actor E) (ed_ActorState dst) (ed_ActorState src),
     ed_SceneComponentState = merge_msg (merge_component E) (ed_SceneComponentState dst) (ed_SceneComponentState src),
     ed_others = ex_protoMerge E (ed_others dst) (ed_others src)\<rparr>"

definition actor_location :: "EntityChannelData \<Rightarrow> FVector option" where
  "actor_location d = do { a \<leftarrow> ed_ActorState d; m \<leftarrow> as_ReplicatedMovement a; rm_Location m }"

definition component_location :: "EntityChannelData \<Rightarrow> FVector option" where
  "component_location d = do { s \<leftarrow> ed_SceneComponentState d; ss_RelativeLocation s }"

text \<open>The call reads the identifier of the object, which panics when it has none.\<close>

definition check_move ::
  "EntityChannelData \<Rightarrow> FVector option \<Rightarrow> FVector option \<Rightarrow> (SpatialInfo \<times> SpatialInfo) option option" where
  "check_move dst newLoc oldLoc = (case (newLoc, oldLoc) of
     (Some n, Some ol) \<Rightarrow> do { obj \<leftarrow> ed_ObjRef dst; _ \<leftarrow> or_NetGUID obj; Some (CheckEntityHandover n ol) }
   | _ \<Rightarrow> Some None)"

definition find_move ::
  "bool \<Rightarrow> EntityChannelData \<Rightarrow> EntityChannelData \<Rightarrow> (SpatialInfo \<times> SpatialInfo) option option" where
  "find_move notifier dst src =
     (if notifier \<and> ed_ObjRef dst \<noteq> None then do {
        first \<leftarrow> check_move dst (actor_location src) (actor_location dst);
        if first = None then check_move dst (component_location src) (component_location dst) else Some first
      }
      else Some None)"

definition entity_Merge ::
  "Externs \<Rightarrow> EntityChannelData \<Rightarrow> EntityChannelData \<Rightarrow> bool \<Rightarrow> (EntityChannelData \<times> NotifyCall list) option" where
  "entity_Merge E dst src notifier = do {
     found \<leftarrow> find_move notifier dst src;
     let dst' = merge_entity_data E dst (src\<lparr>ed_ObjRef := None\<rparr>);
     (case found of
        None \<Rightarrow> Some (dst', [])
      | Some (oldInfo, newInfo) \<Rightarrow> do {
          obj \<leftarrow> ed_ObjRef dst';
          i \<leftarrow> or_NetGUID obj;
          Some (dst', [\<lparr>nc_oldInfo = oldInfo, nc_newInfo = newInfo, nc_entityId = i\<rparr>])
        })
   }"

subsection \<open>Spatial channel data\<close>

text \<open>A Go map is \<open>None\<close> when it is nil: reading and deleting find nothing there, writing panics.\<close>

record SpatialEntityState =
  se_ObjRef :: "UnrealObjectRef option"
  se_Removed :: bool
  se_EntityData :: "AnyMsg option"

record SpatialChannelData =
  sd_Entities :: "(uint32 \<rightharpoonup> SpatialEntityState) option"

definition get_entity :: "uint32 \<Rightarrow> SpatialChannelData \<Rightarrow> SpatialEntityState option" where
  "get_entity i d = Option.bind (sd_Entities d) (\<lambda>m. m i)"

definition put_entity :: "uint32 \<Rightarrow> SpatialEntityState \<Rightarrow> SpatialChannelData \<Rightarrow> SpatialChannelData option" where
  "put_entity i st d = do { m \<leftarrow> sd_Entities d; Some (d\<lparr>sd_Entities := Some (m(i \<mapsto> st))\<rparr>) }"

definition del_entity :: "uint32 \<Rightarrow> SpatialChannelData \<Rightarrow> SpatialChannelData" where
  "del_entity i d = d\<lparr>sd_Entities := map_option (\<lambda>m. m(i := None)) (sd_Entities d)\<rparr>"

definition spatial_Init :: "SpatialChannelData \<Rightarrow> SpatialChannelData" where
  "spatial_Init d = d\<lparr>sd_Entities := Some Map.empty\<rparr>"

text \<open>\<open>Merge\<close> on the entities of the update, in the order in which \<open>range\<close> gives them; it may remove
channels.\<close>

fun spatial_Merge ::
  "(uint32 \<times> SpatialEntityState) list \<Rightarrow> SpatialChannelData \<times> World \<Rightarrow> (SpatialChannelData \<times> World) option" where
  "spatial_Merge [] dw = Some dw"
| "spatial_Merge ((netId, entity) # rest) (d, w) =
     (if se_Removed entity then
        (case GetChannel w netId of
           None \<Rightarrow> spatial_Merge rest (del_entity netId d, w)
         | Some entityCh \<Rightarrow> do {
             w' \<leftarrow> RemoveChannel entityCh w;
             spatial_Merge rest (del_entity netId d, w')
           })
      else if get_entity netId d \<noteq> None then spatial_Merge rest (d, w)
      else do {
        d' \<leftarrow> put_entity netId entity d;
        spatial_Merge rest (d', w)
      })"

text \<open>\<open>AddEntity\<close> of data that has an object reference (the outer option: whether it implements
\<open>EntityChannelDataWithObjRef\<close>).\<close>

definition spatial_AddEntity ::
  "uint32 \<Rightarrow> UnrealObjectRef option option \<Rightarrow> SpatialChannelData \<Rightarrow> (SpatialChannelData \<times> bool) option" where
  "spatial_AddEntity entityId entityData d = (case entityData of
     None \<Rightarrow> Some (d, False)
   | Some objRef \<Rightarrow> map_option (\<lambda>d'. (d', True))
       (put_entity entityId \<lparr>se_ObjRef = objRef, se_Removed = False, se_EntityData = None\<rparr> d))"

definition spatial_RemoveEntity :: "uint32 \<Rightarrow> SpatialChannelData \<Rightarrow> SpatialChannelData" where
  "spatial_RemoveEntity entityId d = del_entity entityId d"

text \<open>\<open>MergeTo\<close>, with the result of \<open>anypb.New\<close> as an argument; false is the error.\<close>

definition entity_MergeTo ::
  "(EntityChannelData \<Rightarrow> AnyMsg option) \<Rightarrow> EntityChannelData \<Rightarrow> bool \<Rightarrow> SpatialChannelData \<Rightarrow> (SpatialChannelData \<times> bool) option" where
  "entity_MergeTo anyNew entityData fullData d =
     (let entityState = \<lparr>se_ObjRef = ed_ObjRef entityData, se_Removed = False, se_EntityData = None\<rparr>;
          anyData = (if fullData then anyNew entityData else None) in
      if fullData \<and> anyData = None then Some (d, False)
      else do {
        let d1 = (if sd_Entities d = None then d\<lparr>sd_Entities := Some Map.empty\<rparr> else d);
        obj \<leftarrow> ed_ObjRef entityData;
        i \<leftarrow> or_NetGUID obj;
        d2 \<leftarrow> put_entity i (entityState\<lparr>se_EntityData := anyData\<rparr>) d1;
        Some (d2, True)
      })"

definition SetObjRef :: "UnrealObjectRef \<Rightarrow> EntityChannelData \<Rightarrow> EntityChannelData" where
  "SetObjRef objRef d = d\<lparr>ed_ObjRef := Some objRef\<rparr>"

subsection \<open>The channel data of the game\<close>

text \<open>The states of actors and components, keyed by network identifier; a map that is nil is created
before it is written, so it is no different from an empty one.\<close>

type_synonym States = "uint32 \<rightharpoonup> DataMsg"

record TestRepChannelData =
  tr_GameState :: "DataMsg option"
  tr_TestGameState :: "DataMsg option"
  tr_ActorStates :: States
  tr_PawnStates :: States
  tr_CharacterStates :: States
  tr_PlayerStates :: States
  tr_ControllerStates :: States
  tr_PlayerControllerStates :: States
  tr_TestRepPlayerControllerStates :: States
  tr_TestNPCStates :: States
  tr_SceneComponentStates :: States
  tr_ActorComponentStates :: States

text \<open>An update, with its maps in the order in which \<open>range\<close> visits them.\<close>

record TestRepUpdate =
  tu_GameState :: "DataMsg option"
  tu_TestGameState :: "DataMsg option"
  tu_ActorStates :: "(uint32 \<times> DataMsg) list"
  tu_PawnStates :: "(uint32 \<times> DataMsg) list"
  tu_CharacterStates :: "(uint32 \<times> DataMsg) list"
  tu_PlayerStates :: "(uint32 \<times> DataMsg) list"
  tu_ControllerStates :: "(uint32 \<times> DataMsg) list"
  tu_PlayerControllerStates :: "(uint32 \<times> DataMsg) list"
  tu_TestRepPlayerControllerStates :: "(uint32 \<times> DataMsg) list"
  tu_TestNPCStates :: "(uint32 \<times> DataMsg) list"
  tu_SceneComponentStates :: "(uint32 \<times> DataMsg) list"
  tu_ActorComponentStates :: "(uint32 \<times> DataMsg) list"

definition merge_state :: "Externs \<Rightarrow> uint32 \<Rightarrow> DataMsg \<Rightarrow> States \<Rightarrow> States" where
  "merge_state E netId new m = (case m netId of
     Some old \<Rightarrow> m(netId \<mapsto> ex_protoMerge E old new)
   | None \<Rightarrow> m(netId \<mapsto> new))"

fun merge_states :: "Externs \<Rightarrow> (uint32 \<times> DataMsg) list \<Rightarrow> States \<Rightarrow> States" where
  "merge_states E [] m = m"
| "merge_states E ((netId, new) # rest) m = merge_states E rest (merge_state E netId new m)"

text \<open>\<open>removed\<close> reads the field \<open>Removed\<close> of a state.\<close>

fun merge_components :: "Externs \<Rightarrow> (DataMsg \<Rightarrow> bool) \<Rightarrow> (uint32 \<times> DataMsg) list \<Rightarrow> States \<Rightarrow> States" where
  "merge_components E removed [] m = m"
| "merge_components E removed ((netId, new) # rest) m =
     merge_components E removed rest (if removed new then m(netId := None) else merge_state E netId new m)"

definition remove_actor :: "uint32 \<Rightarrow> TestRepChannelData \<Rightarrow> TestRepChannelData" where
  "remove_actor netId d = d\<lparr>
     tr_ActorStates := (tr_ActorStates d)(netId := None),
     tr_PawnStates := (tr_PawnStates d)(netId := None),
     tr_CharacterStates := (tr_CharacterStates d)(netId := None),
     tr_PlayerStates := (tr_PlayerStates d)(netId := None),
     tr_ControllerStates := (tr_ControllerStates d)(netId := None),
     tr_PlayerControllerStates := (tr_PlayerControllerStates d)(netId := None),
     tr_TestRepPlayerControllerStates := (tr_TestRepPlayerControllerStates d)(netId := None),
     tr_TestNPCStates := (tr_TestNPCStates d)(netId := None)\<rparr>"

fun merge_actors ::
  "Externs \<Rightarrow> (DataMsg \<Rightarrow> bool) \<Rightarrow> (uint32 \<times> DataMsg) list \<Rightarrow> TestRepChannelData \<Rightarrow> TestRepChannelData" where
  "merge_actors E removed [] d = d"
| "merge_actors E removed ((netId, new) # rest) d =
     merge_actors E removed rest
       (if removed new then remove_actor netId d
        else d\<lparr>tr_ActorStates := merge_state E netId new (tr_ActorStates d)\<rparr>)"

definition merge_game :: "Externs \<Rightarrow> DataMsg option \<Rightarrow> DataMsg option \<Rightarrow> DataMsg option" where
  "merge_game E src dst = (case src of
     None \<Rightarrow> dst
   | Some s \<Rightarrow> Some (ex_protoMerge E (case dst of None \<Rightarrow> ex_protoNew E s | Some d \<Rightarrow> d) s))"

definition TestRep_Merge ::
  "Externs \<Rightarrow> (DataMsg \<Rightarrow> bool) \<Rightarrow> TestRepUpdate \<Rightarrow> TestRepChannelData \<Rightarrow> TestRepChannelData" where
  "TestRep_Merge E removed src dst = merge_actors E removed (tu_ActorStates src) (dst\<lparr>
     tr_GameState := merge_game E (tu_GameState src) (tr_GameState dst),
     tr_TestGameState := merge_game E (tu_TestGameState src) (tr_TestGameState dst),
     tr_PawnStates := merge_states E (tu_PawnStates src) (tr_PawnStates dst),
     tr_CharacterStates := merge_states E (tu_CharacterStates src) (tr_CharacterStates dst),
     tr_PlayerStates := merge_states E (tu_PlayerStates src) (tr_PlayerStates dst),
     tr_ControllerStates := merge_states E (tu_ControllerStates src) (tr_ControllerStates dst),
     tr_PlayerControllerStates := merge_states E (tu_PlayerControllerStates src) (tr_PlayerControllerStates dst),
     tr_TestRepPlayerControllerStates :=
       merge_states E (tu_TestRepPlayerControllerStates src) (tr_TestRepPlayerControllerStates dst),
     tr_TestNPCStates := merge_states E (tu_TestNPCStates src) (tr_TestNPCStates dst),
     tr_SceneComponentStates := merge_components E removed (tu_SceneComponentStates src) (tr_SceneComponentStates dst),
     tr_ActorComponentStates := merge_components E removed (tu_ActorComponentStates src) (tr_ActorComponentStates dst)\<rparr>)"

subsection \<open>Moves\<close>

text \<open>
  An update of a location is a move exactly when the location the data has after merging it leads to
  another point, and then the two points reported are those of the location before and after merging (with
  the axes of the engine turned into those of the grid).
\<close>

theorem CheckEntityHandover_correct:
  assumes "NaN \<notin> coord ` {v_X newLoc, v_Y newLoc, v_Z newLoc, v_X oldLoc, v_Y oldLoc, v_Z oldLoc}"
  shows "CheckEntityHandover newLoc oldLoc =
    (if ToSpatialInfo (merge_vector oldLoc newLoc) = ToSpatialInfo oldLoc then None
     else Some (ToSpatialInfo oldLoc, ToSpatialInfo (merge_vector oldLoc newLoc)))"
  using assms
  by (auto simp: CheckEntityHandover_def ToSpatialInfo_def merge_vector_def set_or_def coord_def fne_def Let_def
      split: option.splits)

theorem CheckEntityHandover_correct_witness:
  "CheckEntityHandover \<lparr>v_X = Some (Fin 5), v_Y = None, v_Z = None\<rparr> \<lparr>v_X = Some (Fin 1), v_Y = Some (Fin 2), v_Z = None\<rparr> =
    Some (\<lparr>si_X = Fin 1, si_Y = Fin 0, si_Z = Fin 2\<rparr>, \<lparr>si_X = Fin 5, si_Y = Fin 0, si_Z = Fin 2\<rparr>)"
  using CheckEntityHandover_correct [of "\<lparr>v_X = Some (Fin 5), v_Y = None, v_Z = None\<rparr>" "\<lparr>v_X = Some (Fin 1), v_Y = Some (Fin 2), v_Z = None\<rparr>"]
  by (simp add: coord_def ToSpatialInfo_def merge_vector_def set_or_def)

text \<open>The call of the notifier for an entity whose location was \<open>before\<close> and is \<open>after\<close>.\<close>

definition moves :: "FVector option \<Rightarrow> FVector option \<Rightarrow> uint32 \<Rightarrow> NotifyCall list" where
  "moves before after i = (case (before, after) of
     (Some b, Some a) \<Rightarrow> if ToSpatialInfo a = ToSpatialInfo b then []
        else [\<lparr>nc_oldInfo = ToSpatialInfo b, nc_newInfo = ToSpatialInfo a, nc_entityId = i\<rparr>]
   | _ \<Rightarrow> [])"

definition no_NaN :: "FVector option \<Rightarrow> bool" where
  "no_NaN l \<longleftrightarrow> (\<forall>v. l = Some v \<longrightarrow> NaN \<notin> coord ` {v_X v, v_Y v, v_Z v})"

lemma merged_locations:
  "actor_location (merge_entity_data E dst src) = merge_msg merge_vector (actor_location dst) (actor_location src)"
  "component_location (merge_entity_data E dst src) = merge_msg merge_vector (component_location dst) (component_location src)"
  by (auto simp: actor_location_def component_location_def merge_entity_data_def merge_msg_def merge_actor_def
      merge_movement_def merge_component_def split: option.splits)

lemma merge_vector_empty: "merge_vector v \<lparr>v_X = None, v_Y = None, v_Z = None\<rparr> = v"
  by (simp add: merge_vector_def set_or_def)

lemma check_move_moves:
  assumes "ed_ObjRef dst = Some obj" and "or_NetGUID obj = Some i" and "no_NaN newLoc" "no_NaN oldLoc"
  shows "map_option (map_option (\<lambda>(a, b). \<lparr>nc_oldInfo = a, nc_newInfo = b, nc_entityId = i\<rparr>)) (check_move dst newLoc oldLoc) =
    Some (case moves oldLoc (merge_msg merge_vector oldLoc newLoc) i of [] \<Rightarrow> None | c # _ \<Rightarrow> Some c)"
proof (cases newLoc; cases oldLoc)
  fix n ol assume l: "newLoc = Some n" "oldLoc = Some ol"
  with assms(3,4) have "NaN \<notin> coord ` {v_X n, v_Y n, v_Z n, v_X ol, v_Y ol, v_Z ol}" by (auto simp: no_NaN_def)
  note c = CheckEntityHandover_correct [OF this]
  show ?thesis using assms(1,2) by (simp add: check_move_def l merge_msg_def moves_def c)
qed (auto simp: check_move_def moves_def merge_msg_def split: option.splits)

text \<open>
  C24. Merging an update into the data of an entity keeps the reference to its object, and the notifier is
  called once when the location of the actor has changed, or else that of its component, with the entity's
  identifier and the points before and after the merge; it is not called when neither has moved.
\<close>

theorem entity_Merge_notifies:
  assumes "ed_ObjRef dst = Some obj" and "or_NetGUID obj = Some i"
    and "no_NaN (actor_location src)" "no_NaN (actor_location dst)"
    and "no_NaN (component_location src)" "no_NaN (component_location dst)"
  shows "\<exists>dst' calls. entity_Merge E dst src True = Some (dst', calls) \<and> ed_ObjRef dst' = ed_ObjRef dst \<and>
    calls = (if moves (actor_location dst) (actor_location dst') i \<noteq> [] then moves (actor_location dst) (actor_location dst') i
      else moves (component_location dst) (component_location dst') i)"
proof -
  let ?d = "merge_entity_data E dst (src\<lparr>ed_ObjRef := None\<rparr>)"
  have l: "actor_location ?d = merge_msg merge_vector (actor_location dst) (actor_location src)"
    "component_location ?d = merge_msg merge_vector (component_location dst) (component_location src)"
    unfolding merged_locations by (simp_all add: actor_location_def component_location_def)
  have o: "ed_ObjRef ?d = Some obj" using assms(1) by (simp add: merge_entity_data_def merge_msg_def)
  note a = check_move_moves [OF assms(1-4), folded l(1)] and c = check_move_moves [OF assms(1,2,5,6), folded l(2)]
  have one: "moves x y i = [] \<or> (\<exists>k. moves x y i = [k])" for x y
    by (auto simp: moves_def split: option.split)
  obtain f where f: "check_move dst (actor_location src) (actor_location dst) = Some f"
    and fa: "map_option (\<lambda>(a, b). \<lparr>nc_oldInfo = a, nc_newInfo = b, nc_entityId = i\<rparr>) f =
      (case moves (actor_location dst) (actor_location ?d) i of [] \<Rightarrow> None | c # _ \<Rightarrow> Some c)"
    using a by auto
  obtain g where g: "check_move dst (component_location src) (component_location dst) = Some g"
    and gc: "map_option (\<lambda>(a, b). \<lparr>nc_oldInfo = a, nc_newInfo = b, nc_entityId = i\<rparr>) g =
      (case moves (component_location dst) (component_location ?d) i of [] \<Rightarrow> None | c # _ \<Rightarrow> Some c)"
    using c by auto
  have "entity_Merge E dst src True = Some (?d,
      if moves (actor_location dst) (actor_location ?d) i \<noteq> [] then moves (actor_location dst) (actor_location ?d) i
      else moves (component_location dst) (component_location ?d) i)"
    using one [of "actor_location dst" "actor_location ?d"] one [of "component_location dst" "component_location ?d"]
      f g fa gc o assms(1,2)
    by (auto simp: entity_Merge_def find_move_def Let_def split: option.splits)
  then show ?thesis using o assms(1) by auto
qed

definition demo_part :: DataMsg where
  "demo_part = \<lparr>dm_type = [], dm_fields = []\<rparr>"

definition demo_entity :: "float64 \<Rightarrow> EntityChannelData" where
  "demo_entity x = \<lparr>ed_ObjRef = Some \<lparr>or_NetGUID = Some 0x80000, or_others = demo_part\<rparr>, ed_ActorState = None,
     ed_SceneComponentState = Some \<lparr>ss_RelativeLocation = Some \<lparr>v_X = Some x, v_Y = None, v_Z = Some (Fin 1)\<rparr>, ss_others = demo_part\<rparr>,
     ed_others = demo_part\<rparr>"

theorem entity_Merge_notifies_witness:
  "\<exists>dst'. entity_Merge demo_externs (demo_entity (Fin 10)) (demo_entity (Fin 30)) True =
    Some (dst', [\<lparr>nc_oldInfo = \<lparr>si_X = Fin 10, si_Y = Fin 1, si_Z = Fin 0\<rparr>,
      nc_newInfo = \<lparr>si_X = Fin 30, si_Y = Fin 1, si_Z = Fin 0\<rparr>, nc_entityId = 0x80000\<rparr>])"
proof -
  let ?d = "demo_entity (Fin 10)" and ?s = "demo_entity (Fin 30)"
  have o: "ed_ObjRef ?d = Some \<lparr>or_NetGUID = Some 0x80000, or_others = demo_part\<rparr>" by (simp add: demo_entity_def)
  have n: "no_NaN (actor_location ?s)" "no_NaN (actor_location ?d)" "no_NaN (component_location ?s)" "no_NaN (component_location ?d)"
    by (simp_all add: no_NaN_def actor_location_def component_location_def demo_entity_def coord_def)
  from entity_Merge_notifies [OF o _ n, of "0x80000" demo_externs] obtain dst' calls where
    m: "entity_Merge demo_externs ?d ?s True = Some (dst', calls)"
    and calls: "calls = (if moves (actor_location ?d) (actor_location dst') 0x80000 \<noteq> []
      then moves (actor_location ?d) (actor_location dst') 0x80000
      else moves (component_location ?d) (component_location dst') 0x80000)"
    by auto
  have "dst' = merge_entity_data demo_externs ?d (?s\<lparr>ed_ObjRef := None\<rparr>)"
    using m by (auto simp: entity_Merge_def bind_eq_Some_conv Let_def split: option.split_asm)
  then have "actor_location dst' = merge_msg merge_vector (actor_location ?d) (actor_location (?s\<lparr>ed_ObjRef := None\<rparr>))"
    "component_location dst' = merge_msg merge_vector (component_location ?d) (component_location (?s\<lparr>ed_ObjRef := None\<rparr>))"
    using merged_locations by simp_all
  moreover have "actor_location (demo_entity x) = None" "actor_location (demo_entity x\<lparr>ed_ObjRef := None\<rparr>) = None"
    "component_location (demo_entity x) = Some \<lparr>v_X = Some x, v_Y = None, v_Z = Some (Fin 1)\<rparr>"
    "component_location (demo_entity x\<lparr>ed_ObjRef := None\<rparr>) = Some \<lparr>v_X = Some x, v_Y = None, v_Z = Some (Fin 1)\<rparr>" for x
    by (simp_all add: actor_location_def component_location_def demo_entity_def)
  ultimately have "calls = [\<lparr>nc_oldInfo = \<lparr>si_X = Fin 10, si_Y = Fin 1, si_Z = Fin 0\<rparr>,
      nc_newInfo = \<lparr>si_X = Fin 30, si_Y = Fin 1, si_Z = Fin 0\<rparr>, nc_entityId = 0x80000\<rparr>]"
    unfolding calls by (simp add: moves_def merge_msg_def merge_vector_def set_or_def ToSpatialInfo_def)
  then show ?thesis using m by simp
qed

subsection \<open>The entities of a spatial channel\<close>

lemma entity_lookup [simp]:
  "put_entity i st d = Some d' \<Longrightarrow> get_entity j d' = (if j = i then Some st else get_entity j d)"
  "get_entity j (del_entity i d) = (if j = i then None else get_entity j d)"
  "get_entity j (spatial_Init d) = None"
  by (auto simp: put_entity_def get_entity_def del_entity_def spatial_Init_def bind_eq_Some_conv split: option.splits)
    (auto simp: map_option_case Option.bind_eq_None_conv split: option.splits if_splits)

text \<open>
  Taking an entity away from the data of a spatial channel undoes adding it where it was not before,
  and after a handover (removed at the source, added at the destination) the destination has the entity
  with the reference of its own channel and the source has it no more, with all others as before.
\<close>

theorem entities_handed_over:
  assumes "spatial_AddEntity i (Some ref) dst = Some (dst', ok)"
  shows "ok \<and> get_entity i dst' = Some \<lparr>se_ObjRef = ref, se_Removed = False, se_EntityData = None\<rparr> \<and>
    get_entity i (spatial_RemoveEntity i src) = None \<and>
    (\<forall>j. j \<noteq> i \<longrightarrow> get_entity j dst' = get_entity j dst \<and> get_entity j (spatial_RemoveEntity i src) = get_entity j src) \<and>
    (get_entity i dst = None \<longrightarrow> spatial_RemoveEntity i dst' = dst)"
proof -
  have p: "put_entity i \<lparr>se_ObjRef = ref, se_Removed = False, se_EntityData = None\<rparr> dst = Some dst'" and ok: "ok = True"
    using assms by (auto simp: spatial_AddEntity_def)
  have "spatial_RemoveEntity i dst' = dst" if "get_entity i dst = None"
    using p that by (auto simp: spatial_RemoveEntity_def del_entity_def put_entity_def get_entity_def bind_eq_Some_conv
        fun_upd_idem_iff)
  then show ?thesis using p ok by (simp add: spatial_RemoveEntity_def)
qed

theorem entities_handed_over_witness:
  "\<exists>dst'. spatial_AddEntity 7 (Some None) (spatial_Init \<lparr>sd_Entities = None\<rparr>) = Some (dst', True) \<and>
    spatial_RemoveEntity 7 dst' = spatial_Init \<lparr>sd_Entities = None\<rparr>"
proof -
  have "\<exists>dst'. spatial_AddEntity 7 (Some None) (spatial_Init \<lparr>sd_Entities = None\<rparr>) = Some (dst', True)"
    by (simp add: spatial_AddEntity_def put_entity_def spatial_Init_def)
  then obtain dst' where a: "spatial_AddEntity 7 (Some None) (spatial_Init \<lparr>sd_Entities = None\<rparr>) = Some (dst', True)" by blast
  show ?thesis using entities_handed_over [OF a, of "spatial_Init \<lparr>sd_Entities = None\<rparr>"] a by simp
qed

text \<open>An entity that the update of a spatial channel brings is taken over unless it is there already, and one
it marks as removed is gone; data that was never initialised makes the first entity a panic.\<close>

lemma spatial_Merge_alive:
  assumes "\<forall>(i, st) \<in> set src. \<not> se_Removed st" and "sd_Entities d \<noteq> None"
  shows "\<exists>d'. spatial_Merge src (d, w) = Some (d', w) \<and> sd_Entities d' \<noteq> None \<and>
    (\<forall>i. get_entity i d' = (case get_entity i d of None \<Rightarrow> map_of src i | Some st \<Rightarrow> Some st))"
  using assms
proof (induction src arbitrary: d)
  case (Cons e src)
  obtain i st where e: "e = (i, st)" by (cases e)
  show ?case
  proof (cases "get_entity i d")
    case None
    obtain d1 where d1: "put_entity i st d = Some d1" "sd_Entities d1 \<noteq> None"
      using Cons.prems(2) by (auto simp: put_entity_def)
    from Cons.IH [OF _ d1(2)] Cons.prems(1) obtain d' where "spatial_Merge src (d1, w) = Some (d', w)"
      "sd_Entities d' \<noteq> None" "\<forall>j. get_entity j d' = (case get_entity j d1 of None \<Rightarrow> map_of src j | Some st \<Rightarrow> Some st)"
      by auto
    then show ?thesis using e None Cons.prems(1) d1(1) by (auto split: option.splits)
  next
    case (Some st')
    from Cons.IH [OF _ Cons.prems(2)] Cons.prems(1) obtain d' where "spatial_Merge src (d, w) = Some (d', w)"
      "sd_Entities d' \<noteq> None" "\<forall>j. get_entity j d' = (case get_entity j d of None \<Rightarrow> map_of src j | Some st \<Rightarrow> Some st)"
      by auto
    then show ?thesis using e Some Cons.prems(1) by (auto split: option.splits)
  qed
qed (auto split: option.split)

lemma uninitialised_entities_panic: "spatial_AddEntity i (Some ref) \<lparr>sd_Entities = None\<rparr> = None"
  by (simp add: spatial_AddEntity_def put_entity_def)

text \<open>An entry that an update marks as removed removes whatever channel has its identifier.\<close>

lemma spatial_Merge_removes_any_channel:
  assumes "GetChannel w i = Some c" and "se_Removed st"
  shows "spatial_Merge [(i, st)] (d, w) = map_option (\<lambda>w'. (del_entity i d, w')) (RemoveChannel c w)"
  using assms by (cases "RemoveChannel c w") auto

subsection \<open>The states of actors\<close>

definition merged_state :: "Externs \<Rightarrow> DataMsg option \<Rightarrow> DataMsg option \<Rightarrow> DataMsg option" where
  "merged_state E old new = merge_msg (ex_protoMerge E) old new"

lemma merge_states_lookup:
  "distinct (map fst src) \<Longrightarrow> merge_states E src m i = merged_state E (m i) (map_of src i)"
proof (induction src arbitrary: m)
  case (Cons e src)
  obtain j st where e: "e = (j, st)" by (cases e)
  have "map_of src j = None" using Cons.prems e by (metis distinct.simps(2) fst_conv list.simps(9) map_of_eq_None_iff set_map)
  then show ?case using Cons e by (auto simp: merged_state_def merge_msg_def merge_state_def split: option.splits)
qed (simp add: merged_state_def merge_msg_def)

definition keep_unless :: "bool \<Rightarrow> 'a option \<Rightarrow> 'a option" where
  "keep_unless gone x = (if gone then None else x)"

definition actor_gone :: "(DataMsg \<Rightarrow> bool) \<Rightarrow> (uint32 \<times> DataMsg) list \<Rightarrow> uint32 \<Rightarrow> bool" where
  "actor_gone removed src i \<longleftrightarrow> (\<exists>st. map_of src i = Some st \<and> removed st)"

lemma actor_gone_Cons [simp]:
  "\<not> actor_gone removed [] i"
  "j \<notin> fst ` set src \<Longrightarrow> actor_gone removed ((j, st) # src) i = (if j = i then removed st else actor_gone removed src i)"
  by (auto simp: actor_gone_def)

lemma keep_unless_simps [simp]:
  "keep_unless True x = None" "keep_unless False x = x" "keep_unless b None = None"
  by (auto simp: keep_unless_def)

lemma not_gone: "j \<notin> fst ` set src \<Longrightarrow> \<not> actor_gone removed src j"
  by (force simp: actor_gone_def dest: map_of_SomeD)

lemma merge_components_lookup:
  "distinct (map fst src) \<Longrightarrow> merge_components E removed src m i =
    keep_unless (actor_gone removed src i) (merged_state E (m i) (map_of src i))"
proof (induction src arbitrary: m)
  case (Cons e src)
  obtain j st where e: "e = (j, st)" by (cases e)
  have j: "j \<notin> fst ` set src" "map_of src j = None" using Cons.prems e by (auto simp: map_of_eq_None_iff)
  have d: "distinct (map fst src)" using Cons.prems e by simp
  show ?case
    using j by (cases "j = i"; cases "removed st")
      (simp_all add: e Cons.IH [OF d] not_gone merge_state_def merged_state_def merge_msg_def split: option.split)
qed (simp add: merged_state_def merge_msg_def)

lemma merge_actors_ActorStates:
  assumes "distinct (map fst src)"
  shows "tr_ActorStates (merge_actors E removed src d) i =
    keep_unless (actor_gone removed src i) (merged_state E (tr_ActorStates d i) (map_of src i))"
  using assms
proof (induction src arbitrary: d)
  case (Cons e src)
  obtain j st where e: "e = (j, st)" by (cases e)
  have j: "j \<notin> fst ` set src" "map_of src j = None" using Cons.prems e by (auto simp: map_of_eq_None_iff)
  have d: "distinct (map fst src)" using Cons.prems e by simp
  show ?case
    using j by (cases "j = i"; cases "removed st")
      (simp_all add: e Cons.IH [OF d] not_gone remove_actor_def merge_state_def merged_state_def merge_msg_def split: option.split)
qed (simp add: merged_state_def merge_msg_def)

lemma merge_actors_PawnStates:
  "distinct (map fst src) \<Longrightarrow> tr_PawnStates (merge_actors E removed src d) i =
    keep_unless (actor_gone removed src i) (tr_PawnStates d i)"
  by (induction src arbitrary: d) (auto simp: remove_actor_def not_gone)

lemma merge_actors_CharacterStates:
  "distinct (map fst src) \<Longrightarrow> tr_CharacterStates (merge_actors E removed src d) i =
    keep_unless (actor_gone removed src i) (tr_CharacterStates d i)"
  by (induction src arbitrary: d) (auto simp: remove_actor_def not_gone)

lemma merge_actors_PlayerStates:
  "distinct (map fst src) \<Longrightarrow> tr_PlayerStates (merge_actors E removed src d) i =
    keep_unless (actor_gone removed src i) (tr_PlayerStates d i)"
  by (induction src arbitrary: d) (auto simp: remove_actor_def not_gone)

lemma merge_actors_ControllerStates:
  "distinct (map fst src) \<Longrightarrow> tr_ControllerStates (merge_actors E removed src d) i =
    keep_unless (actor_gone removed src i) (tr_ControllerStates d i)"
  by (induction src arbitrary: d) (auto simp: remove_actor_def not_gone)

lemma merge_actors_PlayerControllerStates:
  "distinct (map fst src) \<Longrightarrow> tr_PlayerControllerStates (merge_actors E removed src d) i =
    keep_unless (actor_gone removed src i) (tr_PlayerControllerStates d i)"
  by (induction src arbitrary: d) (auto simp: remove_actor_def not_gone)

lemma merge_actors_TestRepPlayerControllerStates:
  "distinct (map fst src) \<Longrightarrow> tr_TestRepPlayerControllerStates (merge_actors E removed src d) i =
    keep_unless (actor_gone removed src i) (tr_TestRepPlayerControllerStates d i)"
  by (induction src arbitrary: d) (auto simp: remove_actor_def not_gone)

lemma merge_actors_TestNPCStates:
  "distinct (map fst src) \<Longrightarrow> tr_TestNPCStates (merge_actors E removed src d) i =
    keep_unless (actor_gone removed src i) (tr_TestNPCStates d i)"
  by (induction src arbitrary: d) (auto simp: remove_actor_def not_gone)

lemma merge_actors_components:
  "tr_SceneComponentStates (merge_actors E removed src d) = tr_SceneComponentStates d"
  "tr_ActorComponentStates (merge_actors E removed src d) = tr_ActorComponentStates d"
  by (induction src arbitrary: d rule: list.induct) (auto simp: remove_actor_def)

lemmas merge_actors_lookup = merge_actors_ActorStates
  merge_actors_PawnStates merge_actors_CharacterStates merge_actors_PlayerStates merge_actors_ControllerStates merge_actors_PlayerControllerStates merge_actors_TestRepPlayerControllerStates merge_actors_TestNPCStates

text \<open>
  After an update of the game's channel data, an actor that the update removes has no state of any kind
  left, even where the same update brought one; the states of every other actor are the old ones merged with
  those of the update (a state that was not there is taken over), and so are those of the components that the
  update does not remove.  The order of the entries makes no difference.
\<close>

theorem TestRep_Merge_correct:
  assumes "distinct (map fst (tu_ActorStates src))" "distinct (map fst (tu_PawnStates src))"
    "distinct (map fst (tu_CharacterStates src))" "distinct (map fst (tu_PlayerStates src))"
    "distinct (map fst (tu_ControllerStates src))" "distinct (map fst (tu_PlayerControllerStates src))"
    "distinct (map fst (tu_TestRepPlayerControllerStates src))" "distinct (map fst (tu_TestNPCStates src))"
    "distinct (map fst (tu_SceneComponentStates src))" "distinct (map fst (tu_ActorComponentStates src))"
  shows "let d = TestRep_Merge E removed src dst;
      gone = actor_gone removed (tu_ActorStates src) i;
      st = (\<lambda>old new. keep_unless gone (merged_state E (old i) (map_of new i))) in
    tr_ActorStates d i = st (tr_ActorStates dst) (tu_ActorStates src) \<and>
    tr_PawnStates d i = st (tr_PawnStates dst) (tu_PawnStates src) \<and>
    tr_CharacterStates d i = st (tr_CharacterStates dst) (tu_CharacterStates src) \<and>
    tr_PlayerStates d i = st (tr_PlayerStates dst) (tu_PlayerStates src) \<and>
    tr_ControllerStates d i = st (tr_ControllerStates dst) (tu_ControllerStates src) \<and>
    tr_PlayerControllerStates d i = st (tr_PlayerControllerStates dst) (tu_PlayerControllerStates src) \<and>
    tr_TestRepPlayerControllerStates d i = st (tr_TestRepPlayerControllerStates dst) (tu_TestRepPlayerControllerStates src) \<and>
    tr_TestNPCStates d i = st (tr_TestNPCStates dst) (tu_TestNPCStates src) \<and>
    tr_SceneComponentStates d i = keep_unless (actor_gone removed (tu_SceneComponentStates src) i)
      (merged_state E (tr_SceneComponentStates dst i) (map_of (tu_SceneComponentStates src) i)) \<and>
    tr_ActorComponentStates d i = keep_unless (actor_gone removed (tu_ActorComponentStates src) i)
      (merged_state E (tr_ActorComponentStates dst i) (map_of (tu_ActorComponentStates src) i))"
  unfolding Let_def TestRep_Merge_def merge_actors_lookup [OF assms(1)] merge_actors_components
  by (simp add: merge_states_lookup merge_components_lookup assms)

definition no_update :: TestRepUpdate where
  "no_update = \<lparr>tu_GameState = None, tu_TestGameState = None, tu_ActorStates = [], tu_PawnStates = [], tu_CharacterStates = [],
     tu_PlayerStates = [], tu_ControllerStates = [], tu_PlayerControllerStates = [], tu_TestRepPlayerControllerStates = [],
     tu_TestNPCStates = [], tu_SceneComponentStates = [], tu_ActorComponentStates = []\<rparr>"

definition no_states :: TestRepChannelData where
  "no_states = \<lparr>tr_GameState = None, tr_TestGameState = None, tr_ActorStates = Map.empty, tr_PawnStates = Map.empty,
     tr_CharacterStates = Map.empty, tr_PlayerStates = Map.empty, tr_ControllerStates = Map.empty,
     tr_PlayerControllerStates = Map.empty, tr_TestRepPlayerControllerStates = Map.empty, tr_TestNPCStates = Map.empty,
     tr_SceneComponentStates = Map.empty, tr_ActorComponentStates = Map.empty\<rparr>"

theorem TestRep_Merge_correct_witness:
  "tr_PawnStates (TestRep_Merge demo_externs (\<lambda>m. dm_type m = ''gone'')
     (no_update\<lparr>tu_ActorStates := [(7, demo_part\<lparr>dm_type := ''gone''\<rparr>)], tu_PawnStates := [(7, demo_part), (8, demo_part)]\<rparr>)
     no_states) 7 = None \<and>
   tr_PawnStates (TestRep_Merge demo_externs (\<lambda>m. dm_type m = ''gone'')
     (no_update\<lparr>tu_ActorStates := [(7, demo_part\<lparr>dm_type := ''gone''\<rparr>)], tu_PawnStates := [(7, demo_part), (8, demo_part)]\<rparr>)
     no_states) 8 = Some demo_part"
proof -
  let ?u = "no_update\<lparr>tu_ActorStates := [(7, demo_part\<lparr>dm_type := ''gone''\<rparr>)], tu_PawnStates := [(7, demo_part), (8, demo_part)]\<rparr>"
  have "tr_PawnStates (TestRep_Merge demo_externs (\<lambda>m. dm_type m = ''gone'') ?u no_states) i =
      keep_unless (actor_gone (\<lambda>m. dm_type m = ''gone'') (tu_ActorStates ?u) i)
        (merged_state demo_externs (tr_PawnStates no_states i) (map_of (tu_PawnStates ?u) i))" for i
    using TestRep_Merge_correct [of ?u demo_externs "\<lambda>m. dm_type m = ''gone''" no_states i] by (simp add: no_update_def Let_def)
  then show ?thesis by (simp add: keep_unless_def actor_gone_def merged_state_def merge_msg_def no_states_def no_update_def)
qed

end
