(* ===== verification/SpatialMessages.thy ===== *)
theory SpatialMessages
  imports Messages
begin

text \<open>
  The handlers of \<open>message_spatial.go\<close> (but \<open>handleCreateSpatialChannel\<close>, which \<open>handleCreateChannel\<close>
  calls and stands with it), of \<open>entity.go\<close> and of \<open>message_debug.go\<close>.  The spatial controller is the
  one the process was started with, a parameter.
\<close>

subsection \<open>Spatial interest\<close>

record SpatialDampingSettings =
  sd_MaxDistance :: nat
  sd_FanOutIntervalMs :: uint32
  sd_DataFieldMasks :: "string list"

definition spatialDampingSettings :: "SpatialDampingSettings list" where
  "spatialDampingSettings =
     [\<lparr>sd_MaxDistance = 0, sd_FanOutIntervalMs = 20, sd_DataFieldMasks = []\<rparr>,
      \<lparr>sd_MaxDistance = 1, sd_FanOutIntervalMs = 50, sd_DataFieldMasks = []\<rparr>,
      \<lparr>sd_MaxDistance = 2, sd_FanOutIntervalMs = 100, sd_DataFieldMasks = []\<rparr>]"

definition getSpatialDampingSettings :: "nat \<Rightarrow> SpatialDampingSettings option" where
  "getSpatialDampingSettings distance = find (\<lambda>s. distance \<le> sd_MaxDistance s) spatialDampingSettings"

definition interest_options :: "World \<Rightarrow> nat \<Rightarrow> ChannelSubscriptionOptions" where
  "interest_options w distance =
     (let base = \<lparr>so_DataAccess = None, so_DataFieldMasks = [], so_FanOutIntervalMs = None,
        so_FanOutDelayMs = None, so_SkipSelfUpdateFanOut = None, so_SkipFirstFanOut = None\<rparr> in
      case getSpatialDampingSettings distance of
        None \<Rightarrow> base\<lparr>so_FanOutIntervalMs := Some (cst_DefaultFanOutIntervalMs
                  (GetChannelSettings (w_settings w) ChannelType_SPATIAL))\<rparr>
      | Some s \<Rightarrow> base\<lparr>so_FanOutIntervalMs := Some (sd_FanOutIntervalMs s),
                     so_DataFieldMasks := sd_DataFieldMasks s\<rparr>)"

definition unsub_interest ::
  "Externs \<Rightarrow> MessageContext \<Rightarrow> uint32 \<Rightarrow> ConnPtr \<Rightarrow> uint32 \<Rightarrow> World \<Rightarrow> World option" where
  "unsub_interest E ctx connId client chId w = (case GetChannel w chId of
     None \<Rightarrow> Some w
   | Some c \<Rightarrow>
       let ctxUnsub = empty_ctx\<lparr>x_ChannelId := x_ChannelId ctx, x_Channel := Some c,
             x_MsgType := MessageType_UNSUB_FROM_CHANNEL, x_Msg := UnsubscribedFromChannelMessage connId,
             x_Connection := Conn client, x_StubId := x_StubId ctx\<rparr> in
       if Some c = x_Channel ctx then handleUnsubFromChannel E ctxUnsub w
       else PutMessageContext c ctxUnsub H_UnsubFromChannel w)"

definition sub_interest ::
  "Externs \<Rightarrow> MessageContext \<Rightarrow> uint32 \<Rightarrow> ConnPtr \<Rightarrow> uint32 \<times> ChannelSubscriptionOptions \<Rightarrow> World \<Rightarrow> World option" where
  "sub_interest E ctx connId client kv w = (case GetChannel w (fst kv) of
     None \<Rightarrow> Some w
   | Some c \<Rightarrow>
       let ctxSub = empty_ctx\<lparr>x_ChannelId := x_ChannelId ctx, x_Channel := Some c,
             x_MsgType := MessageType_SUB_TO_CHANNEL, x_Msg := SubscribedToChannelMessage connId (Some (snd kv)),
             x_Connection := Conn client\<rparr> in
       if Some c = x_Channel ctx then handleSubToChannel E ctxSub w
       else PutMessageContext c ctxSub H_SubToChannel w)"

definition handleUpdateSpatialInterest :: "Externs \<Rightarrow> MessageContext \<Rightarrow> World \<Rightarrow> World option" where
  "handleUpdateSpatialInterest E ctx w = (case x_Msg ctx of
     UpdateSpatialInterestMessage connId query \<Rightarrow> (case ex_spatial E of
       None \<Rightarrow> logs ctx w
     | Some sp \<Rightarrow> (case GetConnection w connId of
         None \<Rightarrow> logs ctx w
       | Some client \<Rightarrow> do {
         found \<leftarrow> sp_QueryChannelIds sp w query;
         (case found of
           None \<Rightarrow> logs ctx w
         | Some spatialChIds \<Rightarrow> do {
             let channelsToSub = map (\<lambda>(chId, distance). (chId, interest_options w distance)) spatialChIds;
             let channelsToUnsub = Difference (c_spatialSubscriptions (w_conn w client)) (map (\<lambda>(k, _). (k, client)) channelsToSub);
             w1 \<leftarrow> for_each (unsub_interest E ctx connId client) (map fst channelsToUnsub) w;
             for_each (sub_interest E ctx connId client) channelsToSub w1
           })
         }))
   | _ \<Rightarrow> logs ctx w)"

subsection \<open>Entity channels\<close>

text \<open>An entity created from the global channel whose data has a position belongs to the owner of the
spatial channel at that position, which also becomes the receiver of the answers.\<close>

definition own_spatially :: "Externs \<Rightarrow> MessageContext \<Rightarrow> ChanPtr \<Rightarrow> DataMsg \<Rightarrow> World \<Rightarrow> (World \<times> MessageContext) option" where
  "own_spatially E ctx newChannel dataMsg w =
     (if x_Channel ctx \<noteq> w_globalChannel w then Some (w, ctx)
      else case ex_spatial E of
        None \<Rightarrow> Some (w, ctx)
      | Some sp \<Rightarrow> (case ex_spatialInfoOf E dataMsg of
          None \<Rightarrow> Some (w, ctx)
        | Some info \<Rightarrow> (case sp_GetChannelId sp w info of
            (spatialChId, ok) \<Rightarrow>
              (if \<not> ok then Some (w, ctx)
               else case GetChannel w spatialChId of
                 None \<Rightarrow> Some (w, ctx)
               | Some spatialCh \<Rightarrow> do {
                   live \<leftarrow> HasOwner w spatialCh;
                   Some (if live then
                       (log_event (EvEntityChannelSpatiallyOwned newChannel spatialCh)
                          (SetOwner newChannel (GetOwner w spatialCh) w),
                        ctx\<lparr>x_Connection := GetOwner w spatialCh, x_ChannelId := spatialChId\<rparr>)
                     else (w, ctx))
                 }))))"

definition wellknown_sub_one :: "Externs \<Rightarrow> ChanPtr \<Rightarrow> uint32 \<times> ConnPtr \<Rightarrow> World \<Rightarrow> World option" where
  "wellknown_sub_one E newChannel kv w =
     (let conn = snd kv in
      if c_connectionType (w_conn w conn) = ConnectionType_SERVER then Some w
      else do {
        (w1, cs, shouldSend) \<leftarrow> SubscribeToChannel E conn newChannel None w;
        if shouldSend then do { s \<leftarrow> cs; Some (sendSubscribed E conn empty_ctx newChannel conn 0 (cs_options s) w1) }
        else Some w1
      })"

definition make_wellknown :: "Externs \<Rightarrow> ChanPtr \<Rightarrow> World \<Rightarrow> World option" where
  "make_wellknown E newChannel w = do {
     w1 \<leftarrow> for_each (wellknown_sub_one E newChannel) (w_allConnections w) w;
     Some (w1\<lparr>w_Event_AuthComplete :=
       event_ListenFor (w_Event_AuthComplete w1) (Some newChannel) (L_WellKnownEntity newChannel)\<rparr>)
   }"

definition init_entity_data ::
  "Externs \<Rightarrow> MessageContext \<Rightarrow> ChanPtr \<Rightarrow> AnyMsg option \<Rightarrow> ChannelDataMergeOptions option \<Rightarrow> World \<Rightarrow>
   (World \<times> MessageContext) option" where
  "init_entity_data E ctx newChannel data mergeOptions w = (case data of
     None \<Rightarrow> Some (InitData E newChannel None mergeOptions w, ctx)
   | Some any \<Rightarrow> (case ex_unmarshalAny E any of
       None \<Rightarrow> Some (w, ctx)
     | Some dataMsg \<Rightarrow> own_spatially E ctx newChannel dataMsg (InitData E newChannel (Some dataMsg) mergeOptions w)))"

definition create_entity ::
  "Externs \<Rightarrow> MessageContext \<Rightarrow> uint32 \<Rightarrow> string \<Rightarrow> ChannelSubscriptionOptions option \<Rightarrow> AnyMsg option \<Rightarrow>
   ChannelDataMergeOptions option \<Rightarrow> bool \<Rightarrow> World \<Rightarrow> World option" where
  "create_entity E ctx entityChId metadata subOptions data mergeOptions isWellKnown w = do {
     (w1, newChannel) \<leftarrow> createChannelWithId E entityChId ChannelType_ENTITY (x_Connection ctx) w;
     _ \<leftarrow> conn_deref (GetOwner w1 newChannel);
     (w2, ctx1) \<leftarrow> init_entity_data E ctx newChannel data mergeOptions
                    (upd_chan newChannel (\<lambda>c. c\<lparr>ch_metadata := metadata\<rparr>) w1);
     p \<leftarrow> conn_deref (x_Connection ctx1);
     let ctx2 = ctx1\<lparr>x_Msg := CreateChannelResultMessage (ch_channelType (w_chan w2 newChannel))
           (ch_metadata (w_chan w2 newChannel)) (c_id (w_conn w2 p)) (ch_id (w_chan w2 newChannel))\<rparr>;
     let w3 = world_Send E p ctx2 w2;
     w4 \<leftarrow> (if isWellKnown then make_wellknown E newChannel w3 else Some w3);
     subscribe_creator E ctx2 p subOptions newChannel w4
   }"

definition handleCreateEntityChannel :: "Externs \<Rightarrow> MessageContext \<Rightarrow> World \<Rightarrow> World option" where
  "handleCreateEntityChannel E ctx w = do {
     outside \<leftarrow> (if x_Channel ctx \<noteq> w_globalChannel w
       then map_option (\<lambda>ch. ch_channelType (w_chan w ch) \<noteq> ChannelType_SPATIAL) (x_Channel ctx)
       else Some False);
     if outside then logs ctx w
     else case x_Msg ctx of
       CreateEntityChannelMessage entityId metadata subOptions data mergeOptions isWellKnown \<Rightarrow>
         (if entityId < gs_EntityChannelIdStart (w_settings w) then logs ctx w
          else if (case GetChannel w entityId of None \<Rightarrow> False | Some c \<Rightarrow> \<not> IsRemoving w c) then logs ctx w
          else create_entity E ctx entityId metadata subOptions data mergeOptions isWellKnown w)
     | _ \<Rightarrow> logs ctx w
   }"

definition handleAddEntityGroup :: "Externs \<Rightarrow> MessageContext \<Rightarrow> World \<Rightarrow> World option" where
  "handleAddEntityGroup E ctx w = do {
     ch \<leftarrow> x_Channel ctx;
     if x_Connection ctx \<noteq> GetOwner w ch then logs ctx w
     else case x_Msg ctx of
       AddEntityGroupMessage t entitiesToAdd \<Rightarrow>
         (if ch_entityController (w_chan w ch) = None then Some w
          else AddToGroup t (CopyArray entitiesToAdd) ch w)
     | _ \<Rightarrow> logs ctx w
   }"

definition handleRemoveEntityGroup :: "Externs \<Rightarrow> MessageContext \<Rightarrow> World \<Rightarrow> World option" where
  "handleRemoveEntityGroup E ctx w = do {
     ch \<leftarrow> x_Channel ctx;
     if x_Connection ctx \<noteq> GetOwner w ch then logs ctx w
     else case x_Msg ctx of
       RemoveEntityGroupMessage t entitiesToRemove \<Rightarrow>
         (if ch_entityController (w_chan w ch) = None then Some w
          else map_option fst (RemoveFromGroup t (CopyArray entitiesToRemove) ch w))
     | _ \<Rightarrow> logs ctx w
   }"

subsection \<open>Queries\<close>

definition handleQuerySpatialChannel :: "Externs \<Rightarrow> MessageContext \<Rightarrow> World \<Rightarrow> World option" where
  "handleQuerySpatialChannel E ctx w =
     (if x_Channel ctx \<noteq> w_globalChannel w then logs ctx w
      else case x_Msg ctx of
        QuerySpatialChannelMessage infos \<Rightarrow> (case ex_spatial E of
          None \<Rightarrow> logs ctx w
        | Some sp \<Rightarrow> do {
            p \<leftarrow> conn_deref (x_Connection ctx);
            Some (world_Send E p (ctx\<lparr>x_Msg := QuerySpatialChannelResultMessage
              (map (\<lambda>info. fst (sp_GetChannelId sp w info)) infos)\<rparr>) w)
          })
      | _ \<Rightarrow> logs ctx w)"

text \<open>After a failed \<open>GetRegions\<close> the handler goes on, with no regions.\<close>

definition handleGetSpatialRegionsMessage :: "Externs \<Rightarrow> MessageContext \<Rightarrow> World \<Rightarrow> World option" where
  "handleGetSpatialRegionsMessage E ctx w =
     (if \<not> gs_Development (w_settings w) then logs ctx w
      else if x_Channel ctx \<noteq> w_globalChannel w then logs ctx w
      else if x_Msg ctx \<noteq> DebugGetSpatialRegionsMessage then logs ctx w
      else case ex_spatial E of
        None \<Rightarrow> logs ctx w
      | Some sp \<Rightarrow> do {
          p \<leftarrow> conn_deref (x_Connection ctx);
          found \<leftarrow> sp_GetRegions sp w;
          let regions = (case found of None \<Rightarrow> [] | Some rs \<Rightarrow> rs);
          Some (world_Send E p (ctx\<lparr>x_MsgType := MessageType_SPATIAL_REGIONS_UPDATE,
            x_Msg := SpatialRegionsUpdateMessage regions\<rparr>) w)
        })"

end
