(* ===== verification/SpatialContract.thy ===== *)
theory SpatialContract
  imports Handover SpatialMessages
begin

text \<open>
  What the handlers rely on of the spatial controller (the interface \<open>SpatialController\<close> of \<open>spatial.go\<close>),
  as a locale: positions lead into the listed regions, and the neighbours of a region are other regions.
  The facts about the handlers that use the controller are proved from these laws, and the grid controller
  is shown to keep them.
\<close>

locale spatial_controller =
  fixes sp :: SpatialCtl
    and ready :: "World \<Rightarrow> bool"
    and regions :: "World \<Rightarrow> uint32 set"
    and adjacent :: "World \<Rightarrow> uint32 \<Rightarrow> uint32 set"
  assumes regions_listed: "ready w \<Longrightarrow>
      \<exists>rs. sp_GetRegions sp w = Some (Some rs) \<and> distinct (map sr_ChannelId rs) \<and> sr_ChannelId ` set rs = regions w"
    and position_in_region: "ready w \<Longrightarrow> sp_GetChannelId sp w info = (i, True) \<Longrightarrow> i \<in> regions w"
    and no_position: "ready w \<Longrightarrow> sp_GetChannelId sp w info = (i, False) \<Longrightarrow> i = 0"
    and adjacent_found: "ready w \<Longrightarrow> i \<in> regions w \<Longrightarrow>
      \<exists>ids. sp_GetAdjacentChannels sp w i = Some (Some ids) \<and> distinct ids \<and> set ids = adjacent w i"
    and adjacent_regions: "ready w \<Longrightarrow> i \<in> regions w \<Longrightarrow> adjacent w i \<subseteq> regions w - {i}"

text \<open>The connections that no flag of a broadcast to the neighbourhood excludes, nor the message; and those of
them that subscribe to one of the channels.\<close>

definition may_receive :: "World \<Rightarrow> MessageContext \<Rightarrow> uint32 \<Rightarrow> ConnPtr \<Rightarrow> bool" where
  "may_receive w ctx clientConnId p \<longleftrightarrow>
     \<not> (bcheck Broadcast_ALL_BUT_SENDER (x_Broadcast ctx) \<and> x_Connection ctx = Conn p) \<and>
     \<not> (bcheck Broadcast_ALL_BUT_CLIENT (x_Broadcast ctx) \<and> c_connectionType (w_conn w p) = ConnectionType_CLIENT) \<and>
     \<not> (bcheck Broadcast_ALL_BUT_SERVER (x_Broadcast ctx) \<and> c_connectionType (w_conn w p) = ConnectionType_SERVER) \<and>
     c_id (w_conn w p) \<noteq> clientConnId"

definition adjacent_receives :: "World \<Rightarrow> uint32 set \<Rightarrow> MessageContext \<Rightarrow> uint32 \<Rightarrow> ConnPtr \<Rightarrow> bool" where
  "adjacent_receives w ids ctx clientConnId p \<longleftrightarrow> may_receive w ctx clientConnId p \<and>
     (\<exists>i \<in> ids. \<exists>c. GetChannel w i = Some c \<and> map_of (ch_subscribedConnections (w_chan w c)) (Conn p) \<noteq> None)"

lemma adjacent_one_send_to:
  "adjacent_one E ctx i (Conn p) w = Some (send_to E ctx (\<lambda>q. q = p \<and> may_receive w ctx i p) w)"
  by (auto simp: adjacent_one_def may_receive_def send_to_def world_Send_def upd_conn_def intro!: World.fold_congs)

lemma may_receive_send_to [simp]: "may_receive (send_to E ctx P w) ctx' i p = may_receive w ctx' i p"
  by (simp add: may_receive_def)

lemma adjacent_loop_sends:
  assumes "distinct rs" and "\<forall>r \<in> set rs. \<exists>p. r = Conn p"
  shows "for_each (adjacent_one E ctx i) rs w = Some (send_to E ctx (\<lambda>p. Conn p \<in> set rs \<and> may_receive w ctx i p) w)"
  using assms
proof (induction rs arbitrary: w)
  case (Cons r rs)
  then obtain p where r: "r = Conn p" by auto
  let ?w = "send_to E ctx (\<lambda>q. q = p \<and> may_receive w ctx i p) w"
  have "for_each (adjacent_one E ctx i) rs ?w = Some (send_to E ctx (\<lambda>q. Conn q \<in> set rs \<and> may_receive w ctx i q) ?w)"
    using Cons.IH [of ?w] Cons.prems by simp
  also have "send_to E ctx (\<lambda>q. Conn q \<in> set rs \<and> may_receive w ctx i q) ?w =
      send_to E ctx (\<lambda>q. (q = p \<and> may_receive w ctx i p) \<or> (Conn q \<in> set rs \<and> may_receive w ctx i q)) w"
    by (rule send_to_twice) (use Cons.prems(1) r in auto)
  also have "(\<lambda>q. (q = p \<and> may_receive w ctx i p) \<or> (Conn q \<in> set rs \<and> may_receive w ctx i q)) =
      (\<lambda>q. Conn q \<in> set (r # rs) \<and> may_receive w ctx i q)"
    using r by auto
  finally show ?case using r by (simp add: adjacent_one_send_to)
qed (simp add: send_to_def)

lemma set_adjacent_conns:
  assumes "fans_ok w"
  shows "r \<in> set (adjacent_conns w ids) \<longleftrightarrow>
    (\<exists>p i c. r = Conn p \<and> i \<in> set ids \<and> GetChannel w i = Some c \<and> map_of (ch_subscribedConnections (w_chan w c)) (Conn p) \<noteq> None)"
proof -
  have "r \<in> set (GetAllConnections w c) \<longleftrightarrow> (\<exists>p. r = Conn p \<and> map_of (ch_subscribedConnections (w_chan w c)) (Conn p) \<noteq> None)" for c
    using fan_okD(2) [of w "w_chan w c" r] assms by (auto simp: fans_ok_def GetAllConnections_def set_alist_keys dom_def)
  moreover have "r \<in> set (adjacent_conns w ids) \<longleftrightarrow> (\<exists>i \<in> set ids. \<exists>c. GetChannel w i = Some c \<and> r \<in> set (GetAllConnections w c))"
    by (simp add: adjacent_conns_def) (metis (no_types, lifting) empty_iff list.set(1) not_None_eq option.simps(4,5))
  ultimately show ?thesis by blast
qed

context spatial_controller
begin

text \<open>A broadcast to the neighbourhood of a region's channel returns and reaches each of its connections once.\<close>

lemma broadcast_adjacent_result:
  fixes ctx :: MessageContext
  assumes "ex_spatial E = Some sp" and "ready w" and "fans_ok w"
    and "ch_channelType (w_chan w ch) = ChannelType_SPATIAL" and "ch_id (w_chan w ch) \<in> regions w"
  defines "ids \<equiv> adjacent w (ch_id (w_chan w ch)) \<union>
    (if bcheck Broadcast_ALL_BUT_OWNER (x_Broadcast ctx) then {} else {ch_id (w_chan w ch)})"
  shows "broadcast_adjacent E ch ctx clientConnId w =
    Some (send_to E ctx (adjacent_receives w ids ctx clientConnId) w)"
proof -
  obtain near where near: "sp_GetAdjacentChannels sp w (ch_id (w_chan w ch)) = Some (Some near)"
    "set near = adjacent w (ch_id (w_chan w ch))"
    using adjacent_found [OF assms(2,5)] by blast
  let ?ids = "if bcheck Broadcast_ALL_BUT_OWNER (x_Broadcast ctx) then near else near @ [ch_id (w_chan w ch)]"
  have ids: "set ?ids = ids" using near(2) by (simp add: ids_def)
  have refs: "\<forall>r \<in> set (adjacent_conns w ?ids). \<exists>p. r = Conn p" using set_adjacent_conns [OF assms(3)] by blast
  have "distinct (adjacent_conns w ?ids)" by (simp add: adjacent_conns_def)
  from adjacent_loop_sends [OF this refs, of E ctx clientConnId w]
  have "for_each (adjacent_one E ctx clientConnId) (adjacent_conns w ?ids) w =
      Some (send_to E ctx (\<lambda>p. Conn p \<in> set (adjacent_conns w ?ids) \<and> may_receive w ctx clientConnId p) w)" .
  also have "(\<lambda>p. Conn p \<in> set (adjacent_conns w ?ids) \<and> may_receive w ctx clientConnId p) =
      adjacent_receives w ids ctx clientConnId"
    unfolding set_adjacent_conns [OF assms(3)] ids adjacent_receives_def by auto
  finally show ?thesis using assms(1,4) near(1) by (simp add: broadcast_adjacent_def)
qed

text \<open>A query for positions answers each with the channel of a listed region, or 0.\<close>

lemma query_answers:
  assumes "ready w"
  shows "set (map (\<lambda>info. fst (sp_GetChannelId sp w info)) infos) \<subseteq> insert 0 (regions w)"
proof
  fix i assume "i \<in> set (map (\<lambda>info. fst (sp_GetChannelId sp w info)) infos)"
  then obtain info ok where "sp_GetChannelId sp w info = (i, ok)" by (auto simp: prod_eq_iff)
  then show "i \<in> insert 0 (regions w)" using position_in_region [OF assms] no_position [OF assms] by (cases ok) auto
qed

end

subsection \<open>The grid keeps the contract\<close>

definition grid_ready :: "StaticGrid2DSpatialController \<Rightarrow> World \<Rightarrow> bool" where
  "grid_ready ctl w \<longleftrightarrow> grid_ok ctl (w_settings w) \<and> GridCols ctl < 2 ^ 31 \<and> GridRows ctl < 2 ^ 31"

definition grid_cell_ids :: "StaticGrid2DSpatialController \<Rightarrow> World \<Rightarrow> uint32 set" where
  "grid_cell_ids ctl w = {i. \<exists>x y. i = cell_id ctl (w_settings w) x y \<and> x < unat (GridCols ctl) \<and> y < unat (GridRows ctl)}"

definition grid_adjacent :: "StaticGrid2DSpatialController \<Rightarrow> World \<Rightarrow> uint32 \<Rightarrow> uint32 set" where
  "grid_adjacent ctl w i = {j. \<exists>x y x' y'. i = cell_id ctl (w_settings w) x y \<and> j = cell_id ctl (w_settings w) x' y' \<and>
     x < unat (GridCols ctl) \<and> y < unat (GridRows ctl) \<and> x' < unat (GridCols ctl) \<and> y' < unat (GridRows ctl) \<and>
     neighbours x y (x', y')}"

lemma grid_regions_listed:
  assumes "grid_ok ctl s"
  shows "\<exists>rs. grid_GetRegions ctl s = Some (Some rs) \<and> distinct (map sr_ChannelId rs) \<and>
    sr_ChannelId ` set rs = {i. \<exists>x y. i = cell_id ctl s x y \<and> x < unat (GridCols ctl) \<and> y < unat (GridRows ctl)}"
proof -
  let ?c = "unat (GridCols ctl)" and ?r = "unat (GridRows ctl)"
  obtain gc gr rs where rs: "grid_GetRegions ctl s = Some (Some rs)" "length rs = ?c * ?r"
    and at: "\<And>x y. x < ?c \<Longrightarrow> y < ?r \<Longrightarrow> rs ! (x + y * ?c) = region_at ctl s gc gr (of_nat x) (of_nat y)"
    using grid_GetRegions_result [OF assms] by metis
  have set: "sr_ChannelId ` set rs = {i. \<exists>x y. i = cell_id ctl s x y \<and> x < ?c \<and> y < ?r}"
    using regions_image [OF rs(2) at, of sr_ChannelId "\<lambda>_. True", simplified] by (auto simp: region_at_def cell_id_def)
  have "(\<lambda>(x, y). cell_id ctl s x y) ` ({..<?c} \<times> {..<?r}) = sr_ChannelId ` set rs" unfolding set by auto
  moreover have "inj_on (\<lambda>(x, y). cell_id ctl s x y) ({..<?c} \<times> {..<?r})"
    using cell_id_inject [OF assms] by (auto intro!: inj_onI)
  ultimately have "card (set (map sr_ChannelId rs)) = ?c * ?r"
    using card_image [of "\<lambda>(x, y). cell_id ctl s x y" "{..<?c} \<times> {..<?r}"] by simp
  then have "distinct (map sr_ChannelId rs)" using rs(2) by (intro card_distinct) simp
  then show ?thesis using rs(1) set by blast
qed

lemma grid_adjacent_found:
  assumes "grid_ready ctl w" and "i \<in> grid_cell_ids ctl w"
  shows "\<exists>ids. grid_GetAdjacentChannels ctl (w_settings w) i = Some ids \<and> distinct ids \<and> set ids = grid_adjacent ctl w i"
proof -
  have ok: "grid_ok ctl (w_settings w)" "GridCols ctl < 2 ^ 31" "GridRows ctl < 2 ^ 31" using assms(1) by (simp_all add: grid_ready_def)
  obtain x y where xy: "i = cell_id ctl (w_settings w) x y" "x < unat (GridCols ctl)" "y < unat (GridRows ctl)"
    using assms(2) by (auto simp: grid_cell_ids_def)
  have "grid_adjacent ctl w i = {cell_id ctl (w_settings w) i j | i j. i < unat (GridCols ctl) \<and> j < unat (GridRows ctl) \<and> neighbours x y (i, j)}"
    unfolding grid_adjacent_def xy(1) using cell_id_inject [OF ok(1) xy(2,3)] xy(2,3) by blast
  then show ?thesis using GetAdjacentChannels_result [OF ok xy(2,3)] xy(1) by simp
qed

interpretation grid: spatial_controller "grid_controller E ctl" "grid_ready ctl" "grid_cell_ids ctl" "grid_adjacent ctl" for E ctl
proof
  fix w assume ready: "grid_ready ctl w"
  then have ok: "grid_ok ctl (w_settings w)" by (simp add: grid_ready_def)
  show "\<exists>rs. sp_GetRegions (grid_controller E ctl) w = Some (Some rs) \<and> distinct (map sr_ChannelId rs) \<and>
      sr_ChannelId ` set rs = grid_cell_ids ctl w"
    using grid_regions_listed [OF ok] by (simp add: grid_controller_def grid_cell_ids_def)
  show "i \<in> grid_cell_ids ctl w" if "sp_GetChannelId (grid_controller E ctl) w info = (i, True)" for info i
  proof -
    have "GetChannelIdWithOffset E ctl (w_settings w) info (WorldOffsetX ctl) (WorldOffsetZ ctl) = (i, True)"
      using that by (simp add: grid_controller_def grid_GetChannelId_def)
    then show ?thesis by (rule GetChannelIdWithOffset_cell) (auto simp: grid_cell_ids_def)
  qed
  show "i = 0" if "sp_GetChannelId (grid_controller E ctl) w info = (i, False)" for info i
    using that by (auto simp: grid_controller_def grid_GetChannelId_def GetChannelIdWithOffset_def Let_def split: if_splits)
  fix i assume i: "i \<in> grid_cell_ids ctl w"
  show "\<exists>ids. sp_GetAdjacentChannels (grid_controller E ctl) w i = Some (Some ids) \<and> distinct ids \<and> set ids = grid_adjacent ctl w i"
    using grid_adjacent_found [OF ready i] by (auto simp: grid_controller_def)
  show "grid_adjacent ctl w i \<subseteq> grid_cell_ids ctl w - {i}"
    using cell_id_inject [OF ok] by (auto simp: grid_adjacent_def grid_cell_ids_def neighbours_def)
qed

subsection \<open>Broadcasts to the neighbourhood\<close>


text \<open>
  On the grid, a query for positions is answered, position by position, with the channel of a cell of the
  grid or with 0.
\<close>

theorem query_spatial_channel_correct:
  assumes "grid_ready ctl w" "w_globalChannel w = Some g" "x_Channel ctx = Some g" "x_Connection ctx = Conn p"
    and "x_Msg ctx = QuerySpatialChannelMessage infos"
  shows "\<exists>ids. handleQuerySpatialChannel (with_grid ctl E) ctx w =
      Some (world_Send (with_grid ctl E) p (ctx\<lparr>x_Msg := QuerySpatialChannelResultMessage ids\<rparr>) w) \<and>
    length ids = length infos \<and> set ids \<subseteq> insert 0 (grid_cell_ids ctl w)"
  using assms grid.query_answers [OF assms(1), of E infos]
  by (intro exI [of _ "map (\<lambda>info. fst (sp_GetChannelId (grid_controller E ctl) w info)) infos"])
    (simp add: handleQuerySpatialChannel_def with_grid_def)

subsection \<open>Examples\<close>

lemma strip_ready: "w_settings w = default_settings \<Longrightarrow> grid_ready strip w"
  by (simp add: grid_ready_def grid_ok_def strip_def)

lemma handover_settings: "w_settings handover_world = default_settings"
  by (simp add: handover_world_def demo_world_def)

text \<open>The client 1 subscribes to the second cell of the strip; a message from the first cell's channel
reaches it.\<close>

definition contract_world :: World where
  "contract_world = handover_world\<lparr>w_conn := (\<lambda>p. demo_conn (of_nat p) ConnectionType_CLIENT),
     w_globalChannel := Some 5,
     w_chan := (w_chan handover_world)(1 := (w_chan handover_world 1)\<lparr>
         ch_subscribedConnections := [(Conn 1, \<lparr>cs_options = defaultSubOptions demo_world ChannelType_SPATIAL,
           cs_subTime = 0, cs_fanOutElement = 0\<rparr>)],
         ch_fanOutQueue := [\<lparr>foc_elem = 0, foc_conn = Conn 1, foc_hadFirstFanOut = False, foc_lastFanOutTime = 0, foc_lastMessageIndex = 0\<rparr>],
         ch_nextElement := 1\<rparr>)\<rparr>"

lemma contract_world_facts:
  "w_settings contract_world = default_settings" "fans_ok contract_world"
  "GetChannel contract_world 0x10001 = Some 1"
  "map_of (ch_subscribedConnections (w_chan contract_world 1)) (Conn 1) \<noteq> None"
  "ch_channelType (w_chan contract_world 0) = ChannelType_SPATIAL" "ch_id (w_chan contract_world 0) = 0x10000"
  "c_id (w_conn contract_world 1) = 1"
  by (simp_all add: contract_world_def handover_world_def demo_world_def GetChannel_def fans_ok_def fan_ok_def
      alist_ok_def demo_conn_def)

definition contract_ctx :: MessageContext where
  "contract_ctx = empty_ctx\<lparr>x_Channel := Some 0, x_Connection := Conn 0,
     x_Broadcast := Broadcast_ADJACENT_CHANNELS, x_Msg := ServerForwardMessage 0 []\<rparr>"


theorem query_spatial_channel_correct_witness:
  "\<exists>ids. handleQuerySpatialChannel (with_grid strip demo_externs)
      (contract_ctx\<lparr>x_Channel := Some 5, x_Msg := QuerySpatialChannelMessage [fx_info 10 10]\<rparr>) contract_world =
    Some (world_Send (with_grid strip demo_externs) 0
      (contract_ctx\<lparr>x_Channel := Some 5, x_Msg := QuerySpatialChannelResultMessage ids\<rparr>) contract_world) \<and>
    length ids = 1 \<and> set ids \<subseteq> insert 0 (grid_cell_ids strip contract_world)"
  using query_spatial_channel_correct [OF strip_ready [OF contract_world_facts(1)], of 5
      "contract_ctx\<lparr>x_Channel := Some 5, x_Msg := QuerySpatialChannelMessage [fx_info 10 10]\<rparr>" 0 "[fx_info 10 10]" demo_externs]
  by (simp add: contract_world_def contract_ctx_def)

end
