(* ===== verification/Dispatch.thy ===== *)
theory Dispatch
  imports SpatialContract
begin

text \<open>
  From the wire to the handlers (\<open>receiveMessage\<close> in \<open>connection.go\<close>, \<open>tickMessages\<close> and \<open>Tick\<close> in
  \<open>channel.go\<close>): a message pack is checked against the message map and the connection's state machine,
  decoded and put into the queue of its channel, and the channel's tick takes the queue message by
  message, then fans out the data and cleans up.
\<close>

subsection \<open>Receiving a message pack\<close>

definition decode_pack ::
  "Externs \<Rightarrow> World \<Rightarrow> ConnPtr \<Rightarrow> byte list MessagePack \<Rightarrow> (Msg \<times> Handler) option" where
  "decode_pack E w p mp = (case MessageMap (mp_MsgType mp) of
     Some handler \<Rightarrow> map_option (\<lambda>m. (m, handler)) (ex_unmarshalMsg E (mp_MsgType mp) (mp_MsgBody mp))
   | None \<Rightarrow>
       (if c_connectionType (w_conn w p) = ConnectionType_CLIENT
        then Some (ServerForwardMessage (c_id (w_conn w p)) (mp_MsgBody mp), H_ClientToServerUser)
        else map_option (\<lambda>m. (m, H_ServerToClientUser)) (ex_unmarshalMsg E (mp_MsgType mp) (mp_MsgBody mp))))"

definition receiveMessage ::
  "Externs \<Rightarrow> ConnPtr \<Rightarrow> byte list MessagePack \<Rightarrow> World \<Rightarrow> World option" where
  "receiveMessage E p mp w = (case GetChannel w (mp_ChannelId mp) of
     None \<Rightarrow> Some w
   | Some channel \<Rightarrow>
       (if MessageMap (mp_MsgType mp) = None \<and> mp_MsgType mp < MessageType_USER_SPACE_START then Some w
        else do {
          allowed \<leftarrow> fsm_IsAllowed (c_fsm (w_conn w p)) (mp_MsgType mp);
          if \<not> allowed then broadcast_FsmDisallowed p w
          else case decode_pack E w p mp of
            None \<Rightarrow> Some w
          | Some (msg, handler) \<Rightarrow> do {
              fsm \<leftarrow> fsm_OnReceived (c_fsm (w_conn w p)) (mp_MsgType mp);
              PutMessage channel msg handler (Conn p) mp (upd_conn p (\<lambda>c. c\<lparr>c_fsm := fsm\<rparr>) w)
            }
        }))"

subsection \<open>Handling\<close>

definition run_handler :: "Externs \<Rightarrow> Handler \<Rightarrow> MessageContext \<Rightarrow> World \<Rightarrow> World option" where
  "run_handler E h ctx w = (case h of
     H_Auth \<Rightarrow> handleAuth E ctx w
   | H_CreateChannel \<Rightarrow> handleCreateChannel E ctx w
   | H_RemoveChannel \<Rightarrow> handleRemoveChannel E ctx w
   | H_ListChannel \<Rightarrow> handleListChannel E ctx w
   | H_SubToChannel \<Rightarrow> handleSubToChannel E ctx w
   | H_UnsubFromChannel \<Rightarrow> handleUnsubFromChannel E ctx w
   | H_ChannelDataUpdate \<Rightarrow> handleChannelDataUpdate E ctx w
   | H_Disconnect \<Rightarrow> handleDisconnect E ctx w
   | H_QuerySpatialChannel \<Rightarrow> handleQuerySpatialChannel E ctx w
   | H_GetSpatialRegions \<Rightarrow> handleGetSpatialRegionsMessage E ctx w
   | H_UpdateSpatialInterest \<Rightarrow> handleUpdateSpatialInterest E ctx w
   | H_CreateEntityChannel \<Rightarrow> handleCreateEntityChannel E ctx w
   | H_AddEntityGroup \<Rightarrow> handleAddEntityGroup E ctx w
   | H_RemoveEntityGroup \<Rightarrow> handleRemoveEntityGroup E ctx w
   | H_ClientToServerUser \<Rightarrow> handleClientToServerUserMessage E ctx w
   | H_ServerToClientUser \<Rightarrow> HandleServerToClientUserMessage E ctx w
   | H_AddEntities ch es \<Rightarrow> Some (add_entities E ch es w)
   | H_RemoveEntities ch ids \<Rightarrow> Some (remove_entities E ch ids w)
   | H_User n \<Rightarrow> Some (log_event (EvUserHandler n ctx) w))"

text \<open>
  The loop of \<open>tickMessages\<close>.  \<open>spent k\<close> says whether the tick interval is used up after the \<open>k\<close>-th
  message: what the clock shows then is open.  The flag of a turn says whether the time is looked at.
\<close>

definition handle_message :: "Externs \<Rightarrow> channelMessage \<Rightarrow> World \<Rightarrow> (World \<times> bool) option" where
  "handle_message E cm w =
     (if x_Msg (cm_ctx cm) = NilMsg then do { w' \<leftarrow> run_handler E (cm_handler cm) (cm_ctx cm) w; Some (w', False) }
      else if x_Connection (cm_ctx cm) = NilIface then Some (w, False)
      else do { w' \<leftarrow> run_handler E (cm_handler cm) (cm_ctx cm) w; Some (w', True) })"

partial_function (option) tickMessages :: "Externs \<Rightarrow> ChanPtr \<Rightarrow> (nat \<Rightarrow> bool) \<Rightarrow> nat \<Rightarrow> World \<Rightarrow> World option" where
  "tickMessages E ch spent k w = (case ch_inMsgQueue (w_chan w ch) of
     [] \<Rightarrow> Some w
   | cm # rest \<Rightarrow>
       Option.bind (handle_message E cm (upd_chan ch (\<lambda>c. c\<lparr>ch_inMsgQueue := rest\<rparr>) w)) (\<lambda>(w', timed).
         if timed \<and> ch_tickInterval (w_chan w' ch) > 0 \<and> spent k then Some w'
         else tickMessages E ch spent (k + 1) w'))"

text \<open>One turn of the channel's goroutine.\<close>

definition Tick ::
  "Externs \<Rightarrow> ChanPtr \<Rightarrow> (nat \<Rightarrow> bool) \<Rightarrow> World \<Rightarrow> World option" where
  "Tick E ch spent w =
     (if IsRemoving w ch then Some w
      else do {
        w1 \<leftarrow> (case ex_spatial E of
                 Some sp \<Rightarrow> if ch_channelType (w_chan w ch) = ChannelType_GLOBAL then sp_Tick sp w else Some w
               | None \<Rightarrow> Some w);
        w2 \<leftarrow> tickMessages E ch spent 0 (upd_chan ch (\<lambda>c. c\<lparr>ch_tickFrames := ch_tickFrames c + 1\<rparr>) w1);
        w3 \<leftarrow> tickData E ch (GetTime w2 ch) w2;
        w4 \<leftarrow> tickConnections E ch w3;
        tickRecoverableSubscriptions E ch w4
      })"

text \<open>A goroutine started by a handler runs, the delayed broadcast not before its time.\<close>

definition task_ready :: "World \<Rightarrow> Task \<Rightarrow> bool" where
  "task_ready w t = (case t of T_DoAuth ctx pit lt \<Rightarrow> True | T_OwnerRecovered ch dueTime \<Rightarrow> dueTime \<le> w_now w)"

definition run_task :: "Externs \<Rightarrow> Task \<Rightarrow> World \<Rightarrow> World option" where
  "run_task E t w = (case t of
     T_DoAuth ctx pit lt \<Rightarrow> do_auth_task E ctx pit lt w
   | T_OwnerRecovered ch dueTime \<Rightarrow> owner_recovered_task E ch w)"

end
