(* ===== verification/Progress.thy ===== *)
theory Progress
  imports Dispatch "HOL-Library.Sublist"
begin

text \<open>
  What no operation of the gateway undoes: the settings and the global channel stay, channels and
  connections keep their identity and their type and never come back once they are removed or closed, and
  the registry of channels stays well-formed.  Handlers also only ever append to the queues of the channels.
  Every handler has a lemma here, in the form in which proofs chain them (the collection \<open>adv\<close>).
\<close>

named_theorems adv

text \<open>
  The registry without the clause that the GLOBAL channel is registered (\<open>handleRemoveChannel\<close> may
  remove that one, too), and with the discipline of the queues: a closed queue belongs to a channel that is
  marked as removing and is not registered any more.
\<close>

definition registry_wf :: "World \<Rightarrow> bool" where
  "registry_wf w \<longleftrightarrow>
     alist_ok (w_allChannels w) \<and>
     (\<forall>i p. map_of (w_allChannels w) i = Some p \<longrightarrow> p < w_nchan w \<and> ch_id (w_chan w p) = i \<and>
        id_fits (w_settings w) (ch_channelType (w_chan w p)) i) \<and>
     settings_ok (w_settings w) \<and>
     w_nextChannelId w < gs_SpatialChannelIdStart (w_settings w) \<and>
     gs_SpatialChannelIdStart (w_settings w) \<le> w_nextSpatialChannelId w \<and>
     w_nextSpatialChannelId w < gs_EntityChannelIdStart (w_settings w) \<and>
     (\<forall>c < w_nchan w. 0 \<le> ch_removing (w_chan w c) \<and> (ch_inMsgQueueClosed (w_chan w c) \<longrightarrow>
        0 < ch_removing (w_chan w c) \<and> (\<forall>i. map_of (w_allChannels w) i \<noteq> Some c)))"

definition chan_grows :: "Channel \<Rightarrow> Channel \<Rightarrow> bool" where
  "chan_grows c c' \<longleftrightarrow> ch_id c' = ch_id c \<and> ch_channelType c' = ch_channelType c \<and>
     ch_removing c \<le> ch_removing c' \<and> (ch_inMsgQueueClosed c \<longrightarrow> ch_inMsgQueueClosed c')"

definition conn_grows :: "Connection \<Rightarrow> Connection \<Rightarrow> bool" where
  "conn_grows c c' \<longleftrightarrow> c_connectionType c' = c_connectionType c \<and> c_remoteAddr c' = c_remoteAddr c \<and>
     (IsClosing c \<longrightarrow> IsClosing c')"

definition progress :: "World \<Rightarrow> World \<Rightarrow> bool" where
  "progress w w' \<longleftrightarrow> w_settings w' = w_settings w \<and> w_globalChannel w' = w_globalChannel w \<and>
     w_nchan w \<le> w_nchan w' \<and> w_nconn w \<le> w_nconn w' \<and>
     (\<forall>c < w_nchan w. chan_grows (w_chan w c) (w_chan w' c)) \<and>
     (\<forall>p < w_nconn w. conn_grows (w_conn w p) (w_conn w' p)) \<and>
     (\<forall>i. \<forall>c < w_nchan w. map_of (w_allChannels w') i = Some c \<longrightarrow> map_of (w_allChannels w) i = Some c) \<and>
     (registry_wf w \<longrightarrow> registry_wf w')"

definition advances :: "World \<Rightarrow> World \<Rightarrow> bool" where
  "advances w w' \<longleftrightarrow> progress w w' \<and>
     (\<forall>c < w_nchan w. prefix (ch_inMsgQueue (w_chan w c)) (ch_inMsgQueue (w_chan w' c)))"

lemma chan_grows_refl [simp]: "chan_grows c c"
  by (simp add: chan_grows_def)

lemma conn_grows_refl [simp]: "conn_grows c c"
  by (simp add: conn_grows_def)

lemma chan_grows_trans: "chan_grows a b \<Longrightarrow> chan_grows b c \<Longrightarrow> chan_grows a c"
  by (simp add: chan_grows_def)

lemma conn_grows_trans: "conn_grows a b \<Longrightarrow> conn_grows b c \<Longrightarrow> conn_grows a c"
  by (simp add: conn_grows_def)

lemma progress_refl [simp]: "progress w w"
  by (simp add: progress_def)

lemma progress_trans [trans]: "progress a b \<Longrightarrow> progress b c \<Longrightarrow> progress a c"
  unfolding progress_def
  by (elim conjE, intro conjI; (meson chan_grows_trans conn_grows_trans le_trans less_le_trans)?; simp)

lemma advances_refl [simp, adv]: "advances w w"
  by (simp add: advances_def)

lemma advances_trans [trans]:
  assumes "advances a b" and "advances b c"
  shows "advances a c"
proof -
  have "w_nchan a \<le> w_nchan b" using assms(1) by (simp add: advances_def progress_def)
  then have "prefix (ch_inMsgQueue (w_chan a i)) (ch_inMsgQueue (w_chan c i))" if "i < w_nchan a" for i
    using assms that unfolding advances_def by (meson less_le_trans prefix_order.trans)
  then show ?thesis using assms progress_trans unfolding advances_def by blast
qed

lemma advances_progress: "advances w w' \<Longrightarrow> progress w w'"
  by (simp add: advances_def)

lemma advances_settings: "advances w w' \<Longrightarrow> w_settings w' = w_settings w"
  by (simp add: advances_def progress_def)

text \<open>The fields the relation does not look at.\<close>

lemma registry_wf_fields [simp]:
  "registry_wf (w\<lparr>w_tasks := a\<rparr>) = registry_wf w" "registry_wf (w\<lparr>w_Event_AuthComplete := b\<rparr>) = registry_wf w"
  "registry_wf (w\<lparr>w_Event_FsmDisallowed := c\<rparr>) = registry_wf w" "registry_wf (w\<lparr>w_pitBlacklist := d\<rparr>) = registry_wf w"
  "registry_wf (w\<lparr>w_ipBlacklist := e\<rparr>) = registry_wf w" "registry_wf (w\<lparr>w_failedAuthCounters := f\<rparr>) = registry_wf w"
  "registry_wf (w\<lparr>w_group := g\<rparr>) = registry_wf w" "registry_wf (w\<lparr>w_ngroup := h\<rparr>) = registry_wf w"
  "registry_wf (w\<lparr>w_handle := i\<rparr>) = registry_wf w" "registry_wf (w\<lparr>w_nhandle := j\<rparr>) = registry_wf w"
  "registry_wf (w\<lparr>w_connectionRecoverHandles := k\<rparr>) = registry_wf w" "registry_wf (w\<lparr>w_unauthenticatedConnections := l\<rparr>) = registry_wf w"
  "registry_wf (w\<lparr>w_allConnections := m\<rparr>) = registry_wf w" "registry_wf (w\<lparr>w_serverConnections := n\<rparr>) = registry_wf w"
  "registry_wf (w\<lparr>w_now := q\<rparr>) = registry_wf w" "registry_wf (w\<lparr>w_log := r\<rparr>) = registry_wf w"
  "registry_wf (w\<lparr>w_spatialChannelFull := s\<rparr>) = registry_wf w" "registry_wf (w\<lparr>w_nonSpatialChannelFull := t\<rparr>) = registry_wf w"
  "registry_wf (w\<lparr>w_conn := u\<rparr>) = registry_wf w" "registry_wf (w\<lparr>w_nconn := v\<rparr>) = registry_wf w"
  "registry_wf (w\<lparr>w_nextConnectionId := x\<rparr>) = registry_wf w" "registry_wf (log_event y w) = registry_wf w"
  "registry_wf (upd_conn p ff w) = registry_wf w" "registry_wf (upd_handle hh fh w) = registry_wf w" "registry_wf (upd_group gg fg w) = registry_wf w"
  by (simp_all add: registry_wf_def log_event_def upd_conn_def upd_handle_def upd_group_def)

lemma advances_fields [simp]:
  "advances w0 (w\<lparr>w_tasks := a\<rparr>) = advances w0 w" "advances w0 (w\<lparr>w_Event_AuthComplete := b\<rparr>) = advances w0 w"
  "advances w0 (w\<lparr>w_Event_FsmDisallowed := c\<rparr>) = advances w0 w" "advances w0 (w\<lparr>w_pitBlacklist := d\<rparr>) = advances w0 w"
  "advances w0 (w\<lparr>w_ipBlacklist := e\<rparr>) = advances w0 w" "advances w0 (w\<lparr>w_failedAuthCounters := f\<rparr>) = advances w0 w"
  "advances w0 (w\<lparr>w_group := g\<rparr>) = advances w0 w" "advances w0 (w\<lparr>w_ngroup := h\<rparr>) = advances w0 w"
  "advances w0 (w\<lparr>w_handle := i\<rparr>) = advances w0 w" "advances w0 (w\<lparr>w_nhandle := j\<rparr>) = advances w0 w"
  "advances w0 (w\<lparr>w_connectionRecoverHandles := k\<rparr>) = advances w0 w" "advances w0 (w\<lparr>w_unauthenticatedConnections := l\<rparr>) = advances w0 w"
  "advances w0 (w\<lparr>w_allConnections := m\<rparr>) = advances w0 w" "advances w0 (w\<lparr>w_serverConnections := n\<rparr>) = advances w0 w"
  "advances w0 (w\<lparr>w_now := q\<rparr>) = advances w0 w" "advances w0 (w\<lparr>w_log := r\<rparr>) = advances w0 w"
  "advances w0 (w\<lparr>w_spatialChannelFull := s\<rparr>) = advances w0 w" "advances w0 (w\<lparr>w_nonSpatialChannelFull := t\<rparr>) = advances w0 w"
  "advances w0 (w\<lparr>w_nextConnectionId := x\<rparr>) = advances w0 w" "advances w0 (log_event y w) = advances w0 w"
  "advances w0 (upd_handle hh fh w) = advances w0 w" "advances w0 (upd_group gg fg w) = advances w0 w"
  by (simp_all add: advances_def progress_def log_event_def upd_handle_def upd_group_def)

lemma advances_upd_conn [adv]:
  assumes "advances w0 w" and "conn_grows (w_conn w p) (f (w_conn w p))"
  shows "advances w0 (upd_conn p f w)"
proof (rule advances_trans [OF assms(1)])
  show "advances w (upd_conn p f w)" using assms(2) by (simp add: advances_def progress_def)
qed

lemma advances_upd_chan [adv]:
  assumes "advances w0 w" and "chan_grows (w_chan w c) (f (w_chan w c))"
    and "prefix (ch_inMsgQueue (w_chan w c)) (ch_inMsgQueue (f (w_chan w c)))"
    and "ch_inMsgQueueClosed (f (w_chan w c)) \<longrightarrow> ch_inMsgQueueClosed (w_chan w c)"
  shows "advances w0 (upd_chan c f w)"
proof (rule advances_trans [OF assms(1)])
  have "registry_wf (upd_chan c f w)" if "registry_wf w"
    using that assms(2,4) by (auto simp: registry_wf_def chan_grows_def)
  then show "advances w (upd_chan c f w)" using assms(2,3) by (simp add: advances_def progress_def)
qed

subsection \<open>Sending, queueing, subscribing\<close>

lemma conn_grows_send [simp]: "conn_grows c (conn_Send E ctx c)"
  by (auto simp: conn_grows_def conn_Send_def queuedMessagePackSender_Send_def IsClosing_def Let_def)

lemma conn_grows_closing [simp]:
  "conn_grows c (d\<lparr>c_state := 2\<rparr>) \<longleftrightarrow> c_connectionType d = c_connectionType c \<and> c_remoteAddr d = c_remoteAddr c"
  by (auto simp: conn_grows_def IsClosing_def)

lemma persist_fields [simp]:
  "c_connectionType (persistReplaySession c) = c_connectionType c" "c_remoteAddr (persistReplaySession c) = c_remoteAddr c"
  by (simp_all add: persistReplaySession_def split: option.splits list.splits)

lemma conn_grows_fields [simp]:
  "conn_grows c (c\<lparr>c_spatialSubscriptions := a\<rparr>)" "conn_grows c (c\<lparr>c_recoverHandle := b\<rparr>)"
  "conn_grows c (c\<lparr>c_id := d\<rparr>)" "conn_grows c (c\<lparr>c_fsm := e\<rparr>)" "conn_grows c (c\<lparr>c_pit := f, c_fsm := e\<rparr>)"
  "conn_grows c (c\<lparr>c_fsmDisallowedCounter := g\<rparr>)"
  "conn_grows c (persistReplaySession c)"
  by (auto simp: conn_grows_def IsClosing_def persistReplaySession_def split: option.splits list.splits)

lemma advances_send [adv]: "advances w0 w \<Longrightarrow> advances w0 (world_Send E p ctx w)"
  by (simp add: world_Send_def advances_upd_conn)

lemma advances_sends [adv]:
  "advances w0 w \<Longrightarrow> advances w0 (sendSubscribed E c ctx ch s stub o' w)"
  "advances w0 w \<Longrightarrow> advances w0 (sendUnsubscribed E c ctx ch u stub w)"
  by (simp_all add: sendSubscribed_def sendUnsubscribed_def Let_def advances_send)

lemma advances_interest [adv]:
  "advances w0 w \<Longrightarrow> advances w0 (add_interest p ch w)" "advances w0 w \<Longrightarrow> advances w0 (drop_interest p ch w)"
  by (simp_all add: add_interest_def drop_interest_def advances_upd_conn)

lemma advances_SetOwner [adv]: "advances w0 w \<Longrightarrow> advances w0 (SetOwner ch r w)"
  by (simp add: SetOwner_def advances_upd_chan chan_grows_def)

lemma advances_InitData [adv]: "advances w0 w \<Longrightarrow> advances w0 (InitData E ch m opts w)"
  by (simp add: InitData_def advances_upd_chan chan_grows_def)

lemma advances_chan_data [adv]:
  "advances w0 w \<Longrightarrow> advances w0 (upd_chan ch (\<lambda>c. c\<lparr>ch_data := fd c\<rparr>) w)"
  "advances w0 w \<Longrightarrow> advances w0 (upd_chan ch (\<lambda>c. c\<lparr>ch_metadata := fm c\<rparr>) w)"
  "advances w0 w \<Longrightarrow> advances w0 (upd_chan ch (\<lambda>c. c\<lparr>ch_latestDataUpdateConnId := fl c\<rparr>) w)"
  "advances w0 w \<Longrightarrow> advances w0 (upd_chan ch (\<lambda>c. c\<lparr>ch_subscribedConnections := fs c\<rparr>) w)"
  "advances w0 w \<Longrightarrow> advances w0 (upd_chan ch (\<lambda>c. c\<lparr>ch_recoverableSubs := fr c\<rparr>) w)"
  "advances w0 w \<Longrightarrow> advances w0 (upd_chan ch (\<lambda>c. c\<lparr>ch_fanOutQueue := fq c\<rparr>) w)"
  "advances w0 w \<Longrightarrow> advances w0 (upd_chan ch (\<lambda>c. c\<lparr>ch_entityController := fe c\<rparr>) w)"
  "advances w0 w \<Longrightarrow> advances w0 (upd_chan ch (\<lambda>c. c\<lparr>ch_tickFrames := ft c\<rparr>) w)"
  "advances w0 w \<Longrightarrow> advances w0 (upd_chan ch (\<lambda>c. c\<lparr>ch_removing := ch_removing c + 1\<rparr>) w)"
  by (simp_all add: advances_upd_chan chan_grows_def)

lemma advances_new_subscription [adv]:
  "new_subscription p ch opts w = Some (w', cs) \<Longrightarrow> advances w0 w \<Longrightarrow> advances w0 w'"
  by (auto simp: new_subscription_def bind_eq_Some_conv Let_def enter_subscription_def
      intro!: advances_interest advances_upd_chan chan_grows_def [THEN iffD2])

lemma advances_Subscribe [adv]:
  "SubscribeToChannel E p ch options w = Some (w', r) \<Longrightarrow> advances w0 w \<Longrightarrow> advances w0 w'"
  by (auto simp: SubscribeToChannel_def bind_eq_Some_conv Let_def split: if_splits option.splits intro: adv)

lemma advances_Unsubscribe [adv]:
  "UnsubscribeFromChannel p ch w = (w', r) \<Longrightarrow> advances w0 w \<Longrightarrow> advances w0 w'"
  by (auto simp: UnsubscribeFromChannel_def leave_subscription_def chan_grows_def split: option.splits
      intro!: advances_interest advances_upd_chan)

lemma advances_put_queue [adv]: "put_queue ch cm w = Some w' \<Longrightarrow> advances w0 w \<Longrightarrow> advances w0 w'"
  by (auto simp: put_queue_def chan_grows_def split: if_splits intro!: advances_upd_chan)

lemma advances_put [adv]:
  "PutMessage ch msg h r pack w = Some w' \<Longrightarrow> advances w0 w \<Longrightarrow> advances w0 w'"
  "PutMessageContext ch ctx h w = Some w' \<Longrightarrow> advances w0 w \<Longrightarrow> advances w0 w'"
  "PutMessageInternal ch t msg w = Some w' \<Longrightarrow> advances w0 w \<Longrightarrow> advances w0 w'"
  "Execute ch h w = Some w' \<Longrightarrow> advances w0 w \<Longrightarrow> advances w0 w'"
  by (auto simp: PutMessage_def PutMessageContext_def PutMessageInternal_def Execute_def split: if_splits option.splits intro: adv)

lemma advances_for_each:
  assumes "\<And>x w w'. f x w = Some w' \<Longrightarrow> advances w w'" and "for_each f xs w = Some w'" and "advances w0 w"
  shows "advances w0 w'"
  using assms(2,3)
proof (induction xs arbitrary: w)
  case (Cons x xs)
  then show ?case using advances_trans [OF _ assms(1)] by (fastforce simp: bind_eq_Some_conv)
qed simp

lemma advances_Broadcast [adv]: "Broadcast E ch ctx w = Some w' \<Longrightarrow> advances w0 w \<Longrightarrow> advances w0 w'"
  unfolding Broadcast_def
  by (erule advances_for_each [rotated]) (auto simp: broadcast_one_def bind_eq_Some_conv split: if_splits intro: adv)

lemma advances_SendToOwner [adv]:
  "SendToOwner E ch ctx w = Some (w', ok) \<Longrightarrow> advances w0 w \<Longrightarrow> advances w0 w'"
  by (auto simp: SendToOwner_def bind_eq_Some_conv split: ConnRef.splits if_splits intro: adv)

lemma advances_logs [adv]: "logs ctx w = Some w' \<Longrightarrow> advances w0 w \<Longrightarrow> advances w0 w'"
  by (auto simp: logs_def bind_eq_Some_conv)

subsection \<open>Connections\<close>

lemma advances_fold:
  assumes "\<And>x w. advances w (f x w)" and "advances w0 w"
  shows "advances w0 (fold f xs w)"
  using assms(2) by (induction xs arbitrary: w) (auto intro: advances_trans [OF _ assms(1)])

lemma advances_Close [adv]: "advances w0 w \<Longrightarrow> advances w0 (conn_Close err p w)"
  by (auto simp: conn_Close_def Let_def makeRecoverable_def intro!: advances_upd_conn advances_fold)

lemma advances_OnAuthenticated [adv]: "advances w0 w \<Longrightarrow> advances w0 (OnAuthenticated p pit w)"
  by (auto simp: OnAuthenticated_def RecoverFromHandle_def Let_def conn_grows_def IsClosing_def split: option.splits
      intro!: advances_upd_conn)

lemma advances_recovery_tick [adv]: "advances w0 w \<Longrightarrow> advances w0 (tickConnectionRecovery E w)"
  unfolding tickConnectionRecovery_def
  by (rule advances_fold) (auto simp: tick_recovery_one_def Let_def split: option.splits intro!: advances_upd_conn advances_send)

lemma advances_add_connection:
  assumes "advances w0 w"
  shows "advances w0 (register_connection c w)"
proof (rule advances_trans [OF assms])
  show "advances w (register_connection c w)"
    by (auto simp: register_connection_def Let_def advances_def progress_def registry_wf_def)
qed

lemma advances_conn_id [adv]:
  "conn_id_loop n tries addr mx clock w = Some w' \<Longrightarrow> advances w0 w \<Longrightarrow> advances w0 w'"
proof (induction n arbitrary: tries w)
  case (Suc n)
  then show ?case
    by (fastforce simp: bind_eq_Some_conv generateNextConnId_def Let_def split: if_splits)
qed simp

lemma advances_AddConnection [adv]:
  "AddConnection addr t clock w = Some (w', p) \<Longrightarrow> advances w0 w \<Longrightarrow> advances w0 w'"
  by (auto simp: AddConnection_def bind_eq_Some_conv Let_def intro: adv advances_add_connection)

lemma advances_accept [adv]:
  "accept_connection addr t clock w = Some (w', r) \<Longrightarrow> advances w0 w \<Longrightarrow> advances w0 w'"
  by (auto simp: accept_connection_def bind_eq_Some_conv split: if_splits intro: adv)

subsection \<open>Entity groups\<close>

lemma advances_set_group [adv]: "advances w0 w \<Longrightarrow> advances w0 (set_group t g ch w)"
  by (simp add: set_group_def advances_chan_data)

lemma advances_newEntityGroup [adv]: "newEntityGroup w = (w', g) \<Longrightarrow> advances w0 w \<Longrightarrow> advances w0 w'"
  by (auto simp: newEntityGroup_def Let_def)

lemma advances_cascadeGroup [adv]: "advances w0 w \<Longrightarrow> advances w0 (cascadeGroup t g ch ec w)"
  by (simp add: cascadeGroup_def group_Add_def advances_set_group split: option.split)

lemma advances_add_one [adv]: "advances w0 w \<Longrightarrow> advances w0 (add_one t g e w)"
  by (simp add: add_one_def Let_def advances_cascadeGroup split: option.split)

lemma advances_add_loop [adv]: "add_loop t ch es w = Some w' \<Longrightarrow> advances w0 w \<Longrightarrow> advances w0 w'"
  by (induction es arbitrary: w) (auto simp: bind_eq_Some_conv intro: adv)

lemma advances_AddToGroup [adv]: "AddToGroup t es ch w = Some w' \<Longrightarrow> advances w0 w \<Longrightarrow> advances w0 w'"
  by (auto simp: AddToGroup_def newEntityGroup_def bind_eq_Some_conv Let_def split: if_splits option.splits
      intro!: advances_set_group elim!: advances_add_loop)

lemma advances_remove_loop [adv]: "remove_loop t ch es w = Some w' \<Longrightarrow> advances w0 w \<Longrightarrow> advances w0 w'"
proof (induction es arbitrary: w)
  case (Cons e es)
  from Cons.prems(1) obtain g w2 where rest: "remove_loop t ch es w2 = Some w'"
    and step: "(case GetChannel (upd_group g (removeAll e) w) e of
        None \<Rightarrow> Some (upd_group g (removeAll e) w)
      | Some ech \<Rightarrow> (if ch_entityController (w_chan (upd_group g (removeAll e) w) ech) = None then None
           else case newEntityGroup (upd_group g (removeAll e) w) of (w', g') \<Rightarrow> Some (set_group t g' ech w'))) = Some w2"
    unfolding remove_loop.simps Let_def bind_eq_Some_conv by blast
  have "advances w0 w2" using step Cons.prems(2)
    by (auto simp: newEntityGroup_def Let_def split: option.splits if_splits intro!: advances_set_group)
  then show ?case using Cons.IH rest by blast
qed simp

lemma advances_RemoveFromGroup [adv]:
  "RemoveFromGroup t es ch w = Some (w', ok) \<Longrightarrow> advances w0 w \<Longrightarrow> advances w0 w'"
  by (auto simp: RemoveFromGroup_def bind_eq_Some_conv split: if_splits option.splits intro: adv)

lemma advances_Uninitialize [adv]: "Uninitialize ch w = Some w' \<Longrightarrow> advances w0 w \<Longrightarrow> advances w0 w'"
  by (auto simp: Uninitialize_def bind_eq_Some_conv split: if_splits dest!: advances_RemoveFromGroup)

subsection \<open>Channels\<close>

lemma advances_register_channel:
  assumes "advances w0 w" and "registry_wf w \<Longrightarrow> id_fits (w_settings w) (ch_channelType c) (ch_id c)"
    and "\<not> ch_inMsgQueueClosed c" "ch_removing c = 0"
  shows "advances w0 (register_channel c w)"
proof (rule advances_trans [OF assms(1)])
  have "registry_wf (register_channel c w)" if "registry_wf w"
    using that assms(2-4) unfolding registry_wf_def register_channel_def Let_def
    by (auto simp: less_Suc_eq split: if_splits)
  then show "advances w (register_channel c w)"
    by (simp add: advances_def progress_def register_channel_def Let_def)
qed

lemma advances_createChannelWithId [adv]:
  assumes "createChannelWithId E i t owner w = Some (w', p)" and "advances w0 w"
    and "registry_wf w \<Longrightarrow> id_fits (w_settings w) t i"
  shows "advances w0 w'"
  using assms by (elim createChannelWithId_result) (auto intro: advances_register_channel)

lemma registry_wf_next:
  assumes "registry_wf w"
  shows "i < gs_SpatialChannelIdStart (w_settings w) \<Longrightarrow> registry_wf (w\<lparr>w_nextChannelId := i\<rparr>)"
    and "gs_SpatialChannelIdStart (w_settings w) \<le> i \<Longrightarrow> i < gs_EntityChannelIdStart (w_settings w) \<Longrightarrow>
      registry_wf (w\<lparr>w_nextSpatialChannelId := i\<rparr>)"
  using assms by (simp_all add: registry_wf_def)

lemma alloc_fits:
  assumes "registry_wf w"
  shows "GetNextIdTyped (map_of (w_allChannels w)) (w_nextSpatialChannelId w) (gs_SpatialChannelIdStart (w_settings w))
      (gs_EntityChannelIdStart (w_settings w) - 1) = Some (i, True) \<Longrightarrow>
      gs_SpatialChannelIdStart (w_settings w) \<le> i \<and> i < gs_EntityChannelIdStart (w_settings w)"
    and "GetNextIdTyped (map_of (w_allChannels w)) (w_nextChannelId w) 1
      (gs_SpatialChannelIdStart (w_settings w) - 1) = Some (i, True) \<Longrightarrow> i < gs_SpatialChannelIdStart (w_settings w)"
proof -
  have r: "1 < gs_SpatialChannelIdStart (w_settings w)" "gs_SpatialChannelIdStart (w_settings w) < gs_EntityChannelIdStart (w_settings w)"
    "w_nextChannelId w < gs_SpatialChannelIdStart (w_settings w)"
    "gs_SpatialChannelIdStart (w_settings w) \<le> w_nextSpatialChannelId w"
    "w_nextSpatialChannelId w < gs_EntityChannelIdStart (w_settings w)"
    using assms by (simp_all add: registry_wf_def settings_ok_def)
  {
    assume a: "GetNextIdTyped (map_of (w_allChannels w)) (w_nextSpatialChannelId w) (gs_SpatialChannelIdStart (w_settings w))
      (gs_EntityChannelIdStart (w_settings w) - 1) = Some (i, True)"
    note mx = word_pred_le [OF r(2)]
    have "w_nextSpatialChannelId w \<le> gs_EntityChannelIdStart (w_settings w) - 1" using r(5) word_pred_le by blast
    from alloc_bounds [OF a _ this] mx r(4) have "i \<le> gs_EntityChannelIdStart (w_settings w) - 1" "gs_SpatialChannelIdStart (w_settings w) \<le> i" by auto
    then show "gs_SpatialChannelIdStart (w_settings w) \<le> i \<and> i < gs_EntityChannelIdStart (w_settings w)"
      using mx by (metis order_le_less_trans)
  }
  assume a: "GetNextIdTyped (map_of (w_allChannels w)) (w_nextChannelId w) 1 (gs_SpatialChannelIdStart (w_settings w) - 1) = Some (i, True)"
  note mx = word_pred_le [OF r(1)]
  have "w_nextChannelId w \<le> gs_SpatialChannelIdStart (w_settings w) - 1" using r(3) word_pred_le by blast
  from alloc_bounds [OF a _ this] mx have "i \<le> gs_SpatialChannelIdStart (w_settings w) - 1" by auto
  then show "i < gs_SpatialChannelIdStart (w_settings w)" using mx by (metis order_le_less_trans)
qed

lemma advances_next_id:
  "advances w0 w \<Longrightarrow> (registry_wf w \<Longrightarrow> registry_wf (w\<lparr>w_nextChannelId := i\<rparr>)) \<Longrightarrow> advances w0 (w\<lparr>w_nextChannelId := i\<rparr>)"
  "advances w0 w \<Longrightarrow> (registry_wf w \<Longrightarrow> registry_wf (w\<lparr>w_nextSpatialChannelId := i\<rparr>)) \<Longrightarrow> advances w0 (w\<lparr>w_nextSpatialChannelId := i\<rparr>)"
  by (auto simp: advances_def progress_def)

lemma advances_CreateChannel [adv]:
  assumes "CreateChannel E t owner w = Some (w', r)" and "advances w0 w"
  shows "advances w0 w'"
proof (cases r)
  case (Inl e)
  then show ?thesis using assms(1,2) by (auto simp: CreateChannel_def bind_eq_Some_conv split: if_splits)
next
  case (Inr p)
  have G: "GetChannel w = map_of (w_allChannels w)" by (simp add: GetChannel_def fun_eq_iff)
  show ?thesis
  proof (cases "t = ChannelType_SPATIAL")
    case True
    then obtain i where a: "GetNextIdTyped (map_of (w_allChannels w)) (w_nextSpatialChannelId w)
        (gs_SpatialChannelIdStart (w_settings w)) (gs_EntityChannelIdStart (w_settings w) - 1) = Some (i, True)"
      and c: "createChannelWithId E i t owner (w\<lparr>w_nextSpatialChannelId := i\<rparr>) = Some (w', p)"
      using assms(1) Inr by (auto simp: CreateChannel_def bind_eq_Some_conv G split: if_splits)
    show ?thesis
    proof (rule advances_createChannelWithId [OF c])
      show "advances w0 (w\<lparr>w_nextSpatialChannelId := i\<rparr>)"
        using assms(2) alloc_fits(1) [OF _ a] registry_wf_next(2) by (intro advances_next_id) blast+
      assume "registry_wf (w\<lparr>w_nextSpatialChannelId := i\<rparr>)"
      then show "id_fits (w_settings (w\<lparr>w_nextSpatialChannelId := i\<rparr>)) t i" using True by (simp add: registry_wf_def id_fits_def)
    qed
  next
    case False
    then obtain i where a: "GetNextIdTyped (map_of (w_allChannels w)) (w_nextChannelId w) 1
        (gs_SpatialChannelIdStart (w_settings w) - 1) = Some (i, True)"
      and c: "createChannelWithId E i t owner (w\<lparr>w_nextChannelId := i\<rparr>) = Some (w', p)"
      using assms(1) Inr by (auto simp: CreateChannel_def bind_eq_Some_conv G split: if_splits)
    show ?thesis
    proof (rule advances_createChannelWithId [OF c])
      show "advances w0 (w\<lparr>w_nextChannelId := i\<rparr>)"
        using assms(2) alloc_fits(2) [OF _ a] registry_wf_next(1) by (intro advances_next_id) blast+
      assume "registry_wf (w\<lparr>w_nextChannelId := i\<rparr>)"
      then show "id_fits (w_settings (w\<lparr>w_nextChannelId := i\<rparr>)) t i" using False by (simp add: registry_wf_def id_fits_def)
    qed
  qed
qed

lemma advances_unregister:
  assumes "unregister_channel ch w = Some w'" and "advances w0 w"
    and "registry_wf w \<Longrightarrow> id_fits (w_settings w) (ch_channelType (w_chan w ch)) (ch_id (w_chan w ch))"
  shows "advances w0 w'"
proof (rule advances_trans [OF assms(2)])
  note u = unregister_channel_result [OF assms(1)]
  have other: "w_nconn w' = w_nconn w" "w_conn w' = w_conn w"
    using assms(1) by (auto simp: unregister_channel_def Let_def split: if_splits)
  have "registry_wf w'" if wf: "registry_wf w"
  proof -
    have queues: "\<forall>c < w_nchan w'. 0 \<le> ch_removing (w_chan w' c) \<and> (ch_inMsgQueueClosed (w_chan w' c) \<longrightarrow>
        0 < ch_removing (w_chan w' c) \<and> (\<forall>i. map_of (w_allChannels w') i \<noteq> Some c))"
      using wf unfolding u(1-3) registry_wf_def by (force split: if_splits)
    moreover have "alist_ok (w_allChannels w')" using wf unfolding u(1) registry_wf_def by simp
    moreover have "\<forall>i p. map_of (w_allChannels w') i = Some p \<longrightarrow> p < w_nchan w' \<and> ch_id (w_chan w' p) = i \<and>
        id_fits (w_settings w') (ch_channelType (w_chan w' p)) i"
      using wf unfolding u(1-4) registry_wf_def by (auto split: if_splits)
    ultimately show ?thesis
      using wf assms(3) [OF wf] unfolding registry_wf_def u(4,7,8) by (auto simp: id_fits_def settings_ok_def)
  qed
  then show "advances w w'"
    unfolding advances_def progress_def u(1-4,6) other by (auto simp: chan_grows_def split: if_splits)
qed

lemma advances_RemoveChannel [adv]:
  assumes "RemoveChannel ch w = Some w'" and "advances w0 w"
    and "registry_wf w \<Longrightarrow> id_fits (w_settings w) (ch_channelType (w_chan w ch)) (ch_id (w_chan w ch))"
  shows "advances w0 w'"
proof -
  from assms(1) obtain w2 where u: "unregister_channel ch w2 = Some w'"
    and s: "(if ch_channelType (w_chan w ch) = ChannelType_ENTITY then do {
              w' \<leftarrow> Uninitialize ch (log_event (EvChannelRemoving ch) w);
              e \<leftarrow> event_UnlistenFor (w_Event_AuthComplete w') (Some ch);
              Some (w'\<lparr>w_Event_AuthComplete := e\<rparr>)
            }
            else Some (log_event (EvChannelRemoving ch) w)) = Some w2"
    by (auto simp: RemoveChannel_def Let_def bind_Some_iff simp del: log_event_frame)
  have "advances w0 w2" using s assms(2) by (auto simp: bind_eq_Some_conv split: if_splits dest!: advances_Uninitialize)
  moreover have "same_registry w w2" using s
    by (auto simp: bind_eq_Some_conv split: if_splits dest!: Uninitialize_registry) (simp_all add: same_registry_def)
  moreover from this have "registry_wf w2 = registry_wf w" by (simp add: same_registry_def registry_wf_def)
  ultimately show ?thesis using assms(3) by (intro advances_unregister [OF u]) (simp_all add: same_registry_def)
qed

subsection \<open>The tick of a channel\<close>

lemma advances_when_gone [adv]:
  "removeChannelAfterOwnerRemoved ch w = Some w' \<Longrightarrow> advances w0 w \<Longrightarrow> advances w0 w'"
  by (auto simp: removeChannelAfterOwnerRemoved_def Let_def bind_eq_Some_conv split: if_splits
      elim!: advances_put(1) intro: advances_chan_data)

lemma advances_keep_recoverable [adv]: "advances w0 w \<Longrightarrow> advances w0 (keep_recoverable p ch h w)"
  by (simp add: keep_recoverable_def advances_upd_chan chan_grows_def split: option.split)

lemma advances_prepare_recovery [adv]: "prepare_recovery E ch p w = Some w' \<Longrightarrow> advances w0 w \<Longrightarrow> advances w0 w'"
  by (auto simp: prepare_recovery_def Let_def split: option.splits if_splits intro: adv)

lemma advances_owner_gone [adv]: "owner_gone ch p w = Some (w', stop) \<Longrightarrow> advances w0 w \<Longrightarrow> advances w0 w'"
  by (auto simp: owner_gone_def Let_def bind_eq_Some_conv split: if_splits elim!: advances_when_gone
      intro: advances_SetOwner)

lemma advances_tell_owner [adv]: "tell_owner E ch p w = Some w' \<Longrightarrow> advances w0 w \<Longrightarrow> advances w0 w'"
  by (auto simp: tell_owner_def bind_eq_Some_conv split: ConnRef.splits intro: adv)

lemma advances_tick_conn_one [adv]:
  "tick_conn_one E ch key w = Some (w', stop) \<Longrightarrow> advances w0 w \<Longrightarrow> advances w0 w'"
  by (auto simp: tick_conn_one_def bind_eq_Some_conv Let_def split: if_splits
      elim!: advances_owner_gone advances_tell_owner intro!: advances_chan_data intro: advances_prepare_recovery)

lemma advances_tick_conns [adv]: "tick_conns E ch keys w = Some w' \<Longrightarrow> advances w0 w \<Longrightarrow> advances w0 w'"
proof (induction keys arbitrary: w)
  case (Cons k ks)
  then show ?case by (auto simp: bind_eq_Some_conv split: if_splits) (metis advances_tick_conn_one)+
qed simp

lemma advances_tickConnections [adv]: "tickConnections E ch w = Some w' \<Longrightarrow> advances w0 w \<Longrightarrow> advances w0 w'"
  by (auto simp: tickConnections_def intro: adv)

lemma advances_restore_owner [adv]: "restore_owner ch p rs w = Some w' \<Longrightarrow> advances w0 w \<Longrightarrow> advances w0 w'"
  by (auto simp: restore_owner_def bind_eq_Some_conv split: if_splits intro: adv)

definition recover_answer :: "Externs \<Rightarrow> ChanPtr \<Rightarrow> ConnPtr \<Rightarrow> string \<Rightarrow> World \<Rightarrow> Msg option \<Rightarrow> World \<times> bool" where
  "recover_answer E ch p key w3 r = (case r of
     None \<Rightarrow> (w3, True)
   | Some msg \<Rightarrow>
       let w4 = world_Send E p (empty_ctx\<lparr>x_MsgType := MessageType_RECOVERY_CHANNEL_DATA,
                  x_Msg := msg, x_ChannelId := ch_id (w_chan w3 ch)\<rparr>) w3;
           w5 = upd_chan ch (\<lambda>c. c\<lparr>ch_recoverableSubs := AList.delete key (ch_recoverableSubs c)\<rparr>) w4 in
       (if cst_SendOwnerLostAndRecovered (GetChannelSettings (w_settings w5) (ch_channelType (w_chan w5 ch)))
        then w5\<lparr>w_tasks := w_tasks w5 @ [T_OwnerRecovered ch (w_now w5 + ChannelDataRecoveryTimeout)]\<rparr>
        else w5, False))"

lemma option_if: "(case r of None \<Rightarrow> Some a | Some m \<Rightarrow> let x = f m; y = g x in Some (h y)) =
    Some (case r of None \<Rightarrow> a | Some m \<Rightarrow> let x = f m; y = g x in h y)"
  by (simp add: Let_def split: option.split)

lemma advances_recover_one [adv]:
  assumes "recover_one E ch key rs p w = Some (w', stop)" and "advances w0 w"
  shows "advances w0 w'"
proof -
  from assms(1) obtain w1 where w1: "restore_owner ch p rs w = Some w1"
    and rest: "(do {
     let opts = (rs_oldSubOptions rs)\<lparr>so_SkipFirstFanOut := Some True\<rparr>;
     let w2 = upd_chan ch (\<lambda>c. c\<lparr>ch_recoverableSubs :=
                AList.update key (rs\<lparr>rs_oldSubOptions := opts\<rparr>) (ch_recoverableSubs c)\<rparr>) w1;
     (w3, _) \<leftarrow> SubscribeToChannel E p ch (Some opts) w2;
     r \<leftarrow> recovery_message E w3 ch rs opts;
     Some (recover_answer E ch p key w3 r)
   }) = Some (w', stop)"
    unfolding recover_one_def recover_answer_def option_if by (auto simp: bind_eq_Some_conv)
  obtain opts w2 b w3 r where w2: "w2 = upd_chan ch (\<lambda>c. c\<lparr>ch_recoverableSubs :=
                AList.update key (rs\<lparr>rs_oldSubOptions := opts\<rparr>) (ch_recoverableSubs c)\<rparr>) w1"
    and w3: "SubscribeToChannel E p ch (Some opts) w2 = Some (w3, b)"
    and w': "recover_answer E ch p key w3 r = (w', stop)"
    using rest unfolding Let_def by (auto simp: bind_eq_Some_conv)
  have "advances w0 w2" unfolding w2 by (intro advances_chan_data advances_restore_owner [OF w1] assms(2))
  from advances_Subscribe [OF w3 this] w' show ?thesis
    by (auto simp: recover_answer_def Let_def split: if_splits option.splits intro!: advances_chan_data advances_send)
qed

lemma advances_recover_loop [adv]: "recover_loop E ch subs w = Some w' \<Longrightarrow> advances w0 w \<Longrightarrow> advances w0 w'"
proof (induction subs arbitrary: w)
  case (Cons s subs)
  then show ?case
    by (cases s) (auto simp: Let_def bind_eq_Some_conv split: if_splits option.splits
      elim!: advances_when_gone intro: advances_chan_data dest: advances_recover_one)
qed simp

lemma advances_recoverable [adv]:
  "tickRecoverableSubscriptions E ch w = Some w' \<Longrightarrow> advances w0 w \<Longrightarrow> advances w0 w'"
  by (auto simp: tickRecoverableSubscriptions_def intro: adv)

lemma advances_fanOutDataUpdate [adv]: "advances w0 w \<Longrightarrow> advances w0 (snd (fanOutDataUpdate E ch p cs m w))"
  by (simp add: fanOutDataUpdate_def Let_def advances_send split: option.splits)

lemma advances_upd_foc [adv]: "advances w0 w \<Longrightarrow> advances w0 (upd_foc i f ch w)"
  by (simp add: upd_foc_def advances_chan_data)

lemma advances_fan_out_one [adv]:
  "fan_out_one E ch t i p cs nxt w = Some w' \<Longrightarrow> advances w0 w \<Longrightarrow> advances w0 w'"
  unfolding fan_out_one_def Let_def case_prod_beta
  by (auto simp: bind_eq_Some_conv split: if_splits intro!: advances_upd_foc advances_chan_data advances_fanOutDataUpdate)

lemma advances_tick_one [adv]: "tick_one E ch t i w = Some (w', j) \<Longrightarrow> advances w0 w \<Longrightarrow> advances w0 w'"
  by (auto simp: tick_one_def bind_eq_Some_conv Let_def split: if_splits option.splits
      intro!: advances_chan_data dest: advances_fan_out_one)

lemma advances_tick_loop [adv]:
  assumes "tick_loop E ch t i w = Some w'" and "advances w0 w"
  shows "advances w0 w'"
proof -
  have "advances w w'"
  proof (rule tick_loop.raw_induct [where P = "\<lambda>E ch t i w r. advances w r", OF _ assms(1)])
    fix f :: "Externs \<Rightarrow> ChanPtr \<Rightarrow> ChannelTime \<Rightarrow> nat \<Rightarrow> World \<Rightarrow> World option"
      and E :: Externs and ch :: ChanPtr and t :: ChannelTime and i :: nat and w r :: World
    assume IH: "\<And>E ch t i w r. f E ch t i w = Some r \<Longrightarrow> advances w r"
      and eq: "(if i < length (ch_fanOutQueue (w_chan w ch))
          then tick_one E ch t i w \<bind> (\<lambda>(w', i'). f E ch t i' w') else Some w) = Some r"
    show "advances w r"
    proof (cases "i < length (ch_fanOutQueue (w_chan w ch))")
      case True
      with eq obtain w2 j where "tick_one E ch t i w = Some (w2, j)" and "f E ch t j w2 = Some r"
        by (auto simp: bind_eq_Some_conv)
      then show ?thesis by (meson IH advances_tick_one advances_refl advances_trans)
    qed (use eq in simp)
  qed
  then show ?thesis by (rule advances_trans [OF assms(2)])
qed

lemma advances_tickData [adv]: "tickData E ch t w = Some w' \<Longrightarrow> advances w0 w \<Longrightarrow> advances w0 w'"
  by (auto simp: tickData_def split: if_splits option.splits intro: adv)

subsection \<open>Authentication\<close>

lemma advances_antiddos [adv]:
  "advances w0 w \<Longrightarrow> advances w0 (antiddos_auth p r pit w)"
  "advances w0 w \<Longrightarrow> advances w0 (antiddos_fsm p w)"
  by (auto simp: antiddos_auth_def antiddos_fsm_def bump_def Let_def intro!: advances_Close advances_upd_conn)

lemma advances_wellknown [adv]: "wellknown_hook E ch p r w = Some w' \<Longrightarrow> advances w0 w \<Longrightarrow> advances w0 w'"
  by (auto simp: wellknown_hook_def bind_eq_Some_conv split: if_splits intro!: advances_sends dest: advances_Subscribe)

lemma advances_AuthComplete [adv]:
  assumes "broadcast_AuthComplete E p r pit w = Some w'" and "advances w0 w"
  shows "advances w0 w'"
proof -
  from assms(1) obtain called e where
    "for_each (run_auth_listener E p r pit) called (w\<lparr>w_Event_AuthComplete := e\<rparr>) = Some w'"
    by (auto simp: broadcast_AuthComplete_def bind_eq_Some_conv)
  then show ?thesis
    by (rule advances_for_each [rotated]) (auto simp: run_auth_listener_def assms(2) split: Listener.splits intro: advances_antiddos elim: advances_wellknown)
qed

lemma advances_FsmDisallowed [adv]:
  assumes "broadcast_FsmDisallowed p w = Some w'" and "advances w0 w"
  shows "advances w0 w'"
proof -
  from assms(1) obtain called e where
    "for_each (run_fsm_listener p) called (w\<lparr>w_Event_FsmDisallowed := e\<rparr>) = Some w'"
    by (auto simp: broadcast_FsmDisallowed_def bind_eq_Some_conv)
  then show ?thesis
    by (rule advances_for_each [rotated]) (auto simp: run_fsm_listener_def assms(2) split: Listener.splits intro: advances_antiddos)
qed

lemma advances_checkUnauth [adv]: "advances w0 w \<Longrightarrow> advances w0 (checkUnauthConns w)"
  unfolding checkUnauthConns_def
  by (rule advances_fold) (auto simp: check_unauth_one_def Let_def intro!: advances_Close)

end
