(* ===== verification/Gateway.thy ===== *)
theory Gateway
  imports Progress
begin

text \<open>
  The gateway as a whole: every message handler advances the state in the sense of \<open>Progress\<close>, a channel
  handles its messages in the order of arrival, a message enters a queue only through the checks of
  \<open>receiveMessage\<close>, and the steps of the running process form a transition relation with invariants.
\<close>

subsection \<open>The handlers that do not ask the spatial controller to act\<close>

lemma advances_adjacent_one [adv]:
  "adjacent_one E ctx i r w = Some w' \<Longrightarrow> advances w0 w \<Longrightarrow> advances w0 w'"
  by (auto simp: adjacent_one_def bind_eq_Some_conv split: if_splits intro: advances_send)

lemma advances_broadcast_adjacent [adv]:
  assumes "broadcast_adjacent E ch ctx i w = Some w'" and "advances w0 w"
  shows "advances w0 w'"
proof -
  from assms(1) consider "w' = w" | ids where "for_each (adjacent_one E ctx i) ids w = Some w'"
    by (fastforce simp: broadcast_adjacent_def bind_eq_Some_conv split: if_splits option.splits)
  then show ?thesis
    by cases (use assms(2) in \<open>auto elim!: advances_for_each [rotated] dest: advances_adjacent_one [OF _ advances_refl]\<close>)
qed

lemma advances_ClientToServer [adv]:
  "handleClientToServerUserMessage E ctx w = Some w' \<Longrightarrow> advances w0 w \<Longrightarrow> advances w0 w'"
  by (cases "x_Msg ctx") (auto simp: handleClientToServerUserMessage_def bind_eq_Some_conv split: if_splits
      elim!: advances_logs intro: advances_send advances_Broadcast)

lemma advances_ServerToClient [adv]:
  "HandleServerToClientUserMessage E ctx w = Some w' \<Longrightarrow> advances w0 w \<Longrightarrow> advances w0 w'"
  by (cases "x_Msg ctx") (auto simp: HandleServerToClientUserMessage_def bind_eq_Some_conv split: if_splits option.splits
      elim!: advances_logs advances_broadcast_adjacent advances_Broadcast advances_SendToOwner intro: advances_send)

lemma advances_send_auth_result [adv]:
  "send_auth_result E ctx p w = Some w' \<Longrightarrow> advances w0 w \<Longrightarrow> advances w0 w'"
  by (auto simp: send_auth_result_def bind_eq_Some_conv Let_def split: if_splits
      elim!: advances_SendToOwner intro: advances_send)

lemma advances_onAuthComplete [adv]:
  "onAuthComplete E ctx r pit w = Some w' \<Longrightarrow> advances w0 w \<Longrightarrow> advances w0 w'"
  by (auto simp: onAuthComplete_def bind_eq_Some_conv Let_def split: if_splits
      elim!: advances_AuthComplete advances_send_auth_result intro: advances_OnAuthenticated)

lemma advances_handleAuth [adv]:
  "handleAuth E ctx w = Some w' \<Longrightarrow> advances w0 w \<Longrightarrow> advances w0 w'"
  by (cases "x_Msg ctx") (auto simp: handleAuth_def bind_eq_Some_conv split: if_splits
      elim!: advances_onAuthComplete intro: advances_Close)

lemma advances_do_auth_task [adv]:
  "do_auth_task E ctx pit lt w = Some w' \<Longrightarrow> advances w0 w \<Longrightarrow> advances w0 w'"
  by (auto simp: do_auth_task_def bind_eq_Some_conv split: option.splits
      elim!: advances_onAuthComplete intro: advances_Close)

lemma advances_subscribe_creator [adv]:
  "subscribe_creator E ctx p opts c w = Some w' \<Longrightarrow> advances w0 w \<Longrightarrow> advances w0 w'"
  by (auto simp: subscribe_creator_def bind_eq_Some_conv split: option.splits
      intro!: advances_sends dest: advances_Subscribe)

lemma advances_answer_creator [adv]:
  "answer_creator E ctx p w = Some (w', ctx') \<Longrightarrow> advances w0 w \<Longrightarrow> advances w0 w'"
  by (auto simp: answer_creator_def bind_eq_Some_conv Let_def split: if_splits
      elim!: advances_SendToOwner intro: advances_send)

lemma advances_finish_create [adv]:
  assumes "finish_create E ctx p c metadata opts data mo w = Some w'" and "advances w0 w"
  shows "advances w0 w'"
proof -
  have a: "advances w0 (upd_chan c (\<lambda>c. c\<lparr>ch_metadata := metadata\<rparr>) w)" by (intro advances_chan_data assms(2))
  from assms(1) consider "w' = upd_chan c (\<lambda>c. c\<lparr>ch_metadata := metadata\<rparr>) w"
    | m ctx1 ctx2 w4 where "answer_creator E ctx1 p (InitData E c m mo (upd_chan c (\<lambda>c. c\<lparr>ch_metadata := metadata\<rparr>) w)) = Some (w4, ctx2)"
      "subscribe_creator E ctx2 p opts c w4 = Some w'"
    unfolding finish_create_def Let_def by (auto simp: bind_eq_Some_conv split: option.splits)
  then show ?thesis using a by cases (simp, metis advances_InitData advances_answer_creator advances_subscribe_creator)
qed

lemma advances_send_removed [adv]:
  "send_removed E ctx r w = Some w' \<Longrightarrow> advances w0 w \<Longrightarrow> advances w0 w'"
  by (auto simp: send_removed_def bind_eq_Some_conv split: if_splits intro: advances_send)

lemma send_removed_registry: "for_each (send_removed E ctx) rs w = Some w' \<Longrightarrow> same_registry w w'"
proof (induction rs arbitrary: w)
  case (Cons r rs)
  then obtain w1 where w1: "send_removed E ctx r w = Some w1" "for_each (send_removed E ctx) rs w1 = Some w'"
    by (auto simp: bind_eq_Some_conv)
  from w1(1) have "same_registry w w1"
    by (auto simp: send_removed_def bind_eq_Some_conv same_registry_def world_Send_def split: if_splits)
  then show ?case using Cons.IH [OF w1(2)] by (rule same_registry_trans)
qed simp

lemma registry_wf_found:
  assumes "registry_wf w" and "GetChannel w i = Some c"
  shows "c < w_nchan w" and "ch_id (w_chan w c) = i" and "id_fits (w_settings w) (ch_channelType (w_chan w c)) i"
  using assms by (auto simp: registry_wf_def GetChannel_def)

lemma advances_handleRemoveChannel [adv]:
  assumes "handleRemoveChannel E ctx w = Some w'" and "advances w0 w"
  shows "advances w0 w'"
proof -
  from assms(1) consider "logs ctx w = Some w'"
    | i c w1 where "GetChannel w i = Some c" "for_each (send_removed E ctx) (alist_keys (ch_subscribedConnections (w_chan w c))) w = Some w1"
      "RemoveChannel c w1 = Some w'"
    by (cases "x_Msg ctx") (auto simp: handleRemoveChannel_def bind_eq_Some_conv split: option.splits if_splits)
  then show ?thesis
  proof cases
    case 1
    then show ?thesis using advances_logs assms(2) by blast
  next
    case (2 i c w1)
    note same = send_removed_registry [OF 2(2)]
    then have "registry_wf w1 = registry_wf w" by (simp add: same_registry_def registry_wf_def)
    then have "registry_wf w1 \<Longrightarrow> id_fits (w_settings w1) (ch_channelType (w_chan w1 c)) (ch_id (w_chan w1 c))"
      using registry_wf_found [OF _ 2(1)] same by (simp add: same_registry_def)
    moreover have "advances w0 w1"
      using 2(2) assms(2) by (rule advances_for_each [rotated]) (auto dest: advances_send_removed [OF _ advances_refl])
    ultimately show ?thesis by (intro advances_RemoveChannel [OF 2(3)])
  qed
qed

lemma advances_handleListChannel [adv]:
  "handleListChannel E ctx w = Some w' \<Longrightarrow> advances w0 w \<Longrightarrow> advances w0 w'"
  by (cases "x_Msg ctx") (auto simp: handleListChannel_def bind_eq_Some_conv Let_def split: if_splits
      elim!: advances_logs intro: advances_send)

lemma advances_notify_subscribed [adv]:
  "notify_subscribed E ctx ch p c opts w = Some w' \<Longrightarrow> advances w0 w \<Longrightarrow> advances w0 w'"
  by (auto simp: notify_subscribed_def bind_eq_Some_conv Let_def split: if_splits intro!: advances_sends)

lemma advances_handleSub [adv]:
  "handleSubToChannel E ctx w = Some w' \<Longrightarrow> advances w0 w \<Longrightarrow> advances w0 w'"
  by (cases "x_Msg ctx") (auto simp: handleSubToChannel_def bind_eq_Some_conv split: if_splits option.splits
      elim!: advances_logs advances_notify_subscribed dest: advances_Subscribe)

lemma advances_notify_unsubscribed [adv]:
  "notify_unsubscribed E ctx ch p c w = Some w' \<Longrightarrow> advances w0 w \<Longrightarrow> advances w0 w'"
  by (auto simp: notify_unsubscribed_def bind_eq_Some_conv Let_def split: if_splits intro!: advances_sends advances_SetOwner)

lemma advances_handleUnsub [adv]:
  "handleUnsubFromChannel E ctx w = Some w' \<Longrightarrow> advances w0 w \<Longrightarrow> advances w0 w'"
  by (cases "x_Msg ctx") (auto simp: handleUnsubFromChannel_def bind_eq_Some_conv split: if_splits option.splits prod.splits
      elim!: advances_logs advances_notify_unsubscribed dest: advances_Unsubscribe)

lemma advances_handleDisconnect [adv]:
  "handleDisconnect E ctx w = Some w' \<Longrightarrow> advances w0 w \<Longrightarrow> advances w0 w'"
  by (cases "x_Msg ctx") (auto simp: handleDisconnect_def bind_eq_Some_conv split: if_splits option.splits
      elim!: advances_logs intro: advances_Close)

lemma advances_unsub_interest [adv]:
  "unsub_interest E ctx i c k w = Some w' \<Longrightarrow> advances w0 w \<Longrightarrow> advances w0 w'"
  by (auto simp: unsub_interest_def Let_def split: option.splits if_splits elim!: advances_handleUnsub advances_put)

lemma advances_sub_interest [adv]:
  "sub_interest E ctx i c k w = Some w' \<Longrightarrow> advances w0 w \<Longrightarrow> advances w0 w'"
  by (auto simp: sub_interest_def Let_def split: option.splits if_splits elim!: advances_handleSub advances_put)

lemma advances_handleUpdateSpatialInterest [adv]:
  assumes "handleUpdateSpatialInterest E ctx w = Some w'" and "advances w0 w"
  shows "advances w0 w'"
proof -
  from assms(1) consider "logs ctx w = Some w'"
    | i c ks w1 subs where "for_each (unsub_interest E ctx i c) ks w = Some w1" "for_each (sub_interest E ctx i c) subs w1 = Some w'"
    by (cases "x_Msg ctx") (auto simp: handleUpdateSpatialInterest_def bind_eq_Some_conv Let_def split: option.splits)
  then show ?thesis
  proof cases
    case (2 i c ks w1 subs)
    from 2(1) assms(2) have "advances w0 w1"
      by (rule advances_for_each [rotated]) (rule advances_unsub_interest [OF _ advances_refl])
    with 2(2) show ?thesis
      by (rule advances_for_each [rotated]) (rule advances_sub_interest [OF _ advances_refl])
  qed (use assms(2) advances_logs in blast)
qed

lemma advances_own_spatially [adv]:
  "own_spatially E ctx c m w = Some (w', ctx') \<Longrightarrow> advances w0 w \<Longrightarrow> advances w0 w'"
  by (auto simp: own_spatially_def bind_eq_Some_conv split: if_splits option.splits prod.splits intro: advances_SetOwner)

lemma advances_wellknown_sub [adv]:
  "wellknown_sub_one E c kv w = Some w' \<Longrightarrow> advances w0 w \<Longrightarrow> advances w0 w'"
  by (auto simp: wellknown_sub_one_def Let_def bind_eq_Some_conv split: if_splits
      intro!: advances_sends dest: advances_Subscribe)

lemma advances_make_wellknown [adv]:
  assumes "make_wellknown E c w = Some w'" and "advances w0 w"
  shows "advances w0 w'"
proof -
  from assms(1) obtain w1 where "for_each (wellknown_sub_one E c) (w_allConnections w) w = Some w1"
    and w': "w' = w1\<lparr>w_Event_AuthComplete := event_ListenFor (w_Event_AuthComplete w1) (Some c) (L_WellKnownEntity c)\<rparr>"
    by (auto simp: make_wellknown_def bind_eq_Some_conv)
  from this(1) assms(2) have "advances w0 w1"
    by (rule advances_for_each [rotated]) (rule advances_wellknown_sub [OF _ advances_refl])
  then show ?thesis using w' by simp
qed

lemma advances_init_entity_data [adv]:
  "init_entity_data E ctx c data mo w = Some (w', ctx') \<Longrightarrow> advances w0 w \<Longrightarrow> advances w0 w'"
  by (auto simp: init_entity_data_def split: option.splits elim!: advances_own_spatially intro: advances_InitData)

lemma advances_create_entity [adv]:
  assumes "create_entity E ctx i metadata opts data mo wk w = Some w'" and "advances w0 w"
  shows "advances w0 w'"
proof -
  from assms(1) obtain w1 c w2 ctx1 p ctx2 w4 where
    1: "createChannelWithId E i ChannelType_ENTITY (x_Connection ctx) w = Some (w1, c)" and
    2: "init_entity_data E ctx c data mo (upd_chan c (\<lambda>c. c\<lparr>ch_metadata := metadata\<rparr>) w1) = Some (w2, ctx1)" and
    4: "(if wk then make_wellknown E c (world_Send E p ctx2 w2) else Some (world_Send E p ctx2 w2)) = Some w4" and
    5: "subscribe_creator E ctx2 p opts c w4 = Some w'"
    by (auto simp: create_entity_def bind_eq_Some_conv Let_def)
  have "advances w0 w1" by (rule advances_createChannelWithId [OF 1 assms(2)]) (simp add: id_fits_def)
  then have "advances w0 w2" by (intro advances_init_entity_data [OF 2] advances_chan_data)
  then have "advances w0 w4" using 4 by (auto split: if_splits intro: advances_send advances_make_wellknown)
  then show ?thesis by (rule advances_subscribe_creator [OF 5])
qed

lemma advances_handleCreateEntity [adv]:
  "handleCreateEntityChannel E ctx w = Some w' \<Longrightarrow> advances w0 w \<Longrightarrow> advances w0 w'"
  by (cases "x_Msg ctx") (auto simp: handleCreateEntityChannel_def bind_eq_Some_conv split: if_splits
      elim!: advances_logs advances_create_entity)

lemma advances_entity_groups [adv]:
  "handleAddEntityGroup E ctx w = Some w' \<Longrightarrow> advances w0 w \<Longrightarrow> advances w0 w'"
  "handleRemoveEntityGroup E ctx w = Some w' \<Longrightarrow> advances w0 w \<Longrightarrow> advances w0 w'"
  by (cases "x_Msg ctx"; auto simp: handleAddEntityGroup_def bind_eq_Some_conv split: if_splits
      elim!: advances_logs advances_AddToGroup)
    (cases "x_Msg ctx"; auto simp: handleRemoveEntityGroup_def bind_eq_Some_conv split: if_splits
      elim!: advances_logs advances_RemoveFromGroup)

lemma advances_spatial_queries [adv]:
  "handleQuerySpatialChannel E ctx w = Some w' \<Longrightarrow> advances w0 w \<Longrightarrow> advances w0 w'"
  "handleGetSpatialRegionsMessage E ctx w = Some w' \<Longrightarrow> advances w0 w \<Longrightarrow> advances w0 w'"
  by (cases "x_Msg ctx") (auto simp: handleQuerySpatialChannel_def handleGetSpatialRegionsMessage_def bind_eq_Some_conv Let_def
      split: if_splits option.splits elim!: advances_logs intro: advances_send)

lemma advances_upd_data_msg [adv]: "advances w0 w \<Longrightarrow> advances w0 (upd_data_msg c f w)"
  by (simp add: upd_data_msg_def advances_chan_data)

lemma advances_entity_data [adv]:
  "advances w0 w \<Longrightarrow> advances w0 (add_entities E c es w)" "advances w0 w \<Longrightarrow> advances w0 (remove_entities E c is w)"
  by (auto simp: add_entities_def remove_entities_def add_entity_def split: option.splits
      intro!: advances_fold advances_upd_data_msg)

subsection \<open>The controller as the handlers see it\<close>

text \<open>
  The operations of the spatial controller that change the state are called with the whole state at hand.
  What the gateway relies on is that they advance it, on settings the controller is \<open>ready\<close> for.
\<close>

locale gateway_env =
  fixes E :: Externs and ready :: "GlobalSettingsType \<Rightarrow> bool"
  assumes create_advances: "ready (w_settings w0) \<Longrightarrow> ex_spatial E = Some sp \<Longrightarrow>
      sp_CreateChannels sp ctx w = Some (w', r) \<Longrightarrow> advances w0 w \<Longrightarrow> advances w0 w'"
    and tick_advances: "ready (w_settings w0) \<Longrightarrow> ex_spatial E = Some sp \<Longrightarrow>
      sp_Tick sp w = Some w' \<Longrightarrow> advances w0 w \<Longrightarrow> advances w0 w'"
    and notify_advances: "ready (w_settings w0) \<Longrightarrow> ex_spatial E = Some sp \<Longrightarrow>
      sp_Notify sp call w = Some w' \<Longrightarrow> advances w0 w \<Longrightarrow> advances w0 w'"
begin

lemma create_spatial:
  assumes "handleCreateSpatialChannel E ctx metadata opts w = Some w'" and "advances w0 w" and "ready (w_settings w0)"
  shows "advances w0 w'"
proof -
  have chain: "advances w0 w4" if "ex_spatial E = Some sp" "sp_CreateChannels sp ctx w = Some (w1, r)"
    "answer_creator E ctx1 p w1 = Some (w3, ctx2)" "for_each (subscribe_creator E ctx2 p opts) chs w3 = Some w4"
    for sp r ctx1 ctx2 chs p w1 w3 w4
  proof -
    from create_advances [OF assms(3) that(1,2) assms(2)] have "advances w0 w3" by (rule advances_answer_creator [OF that(3)])
    with that(4) show ?thesis
      by (rule advances_for_each [rotated]) (rule advances_subscribe_creator [OF _ advances_refl])
  qed
  note first = create_advances [OF assms(3) _ _ assms(2)]
  show ?thesis
    using assms(1,2) unfolding handleCreateSpatialChannel_def
    by (auto simp: bind_eq_Some_conv Let_def split: if_split_asm option.split_asm intro!: advances_send)
      (metis first chain option.exhaust)+
qed

lemma create_channel:
  assumes "handleCreateChannel E ctx w = Some w'" and "advances w0 w" and "ready (w_settings w0)"
  shows "advances w0 w'"
proof (cases "x_Msg ctx")
  case (CreateChannelMessage t metadata opts data mo)
  then consider "logs ctx w = Some w'"
    | p g where "finish_create E ctx p g metadata opts data mo
         (log_event (EvGlobalChannelPossessed g) (SetOwner g (x_Connection ctx) w)) = Some w'"
    | "handleCreateSpatialChannel E ctx metadata opts w = Some w'"
    | w1 r where "CreateChannel E t (x_Connection ctx) w = Some (w1, r)"
      "logs ctx w1 = Some w' \<or> (\<exists>p c. finish_create E ctx p c metadata opts data mo w1 = Some w')"
    using assms(1) unfolding handleCreateChannel_def
    by (auto simp: bind_eq_Some_conv split: if_split_asm sum.split_asm) (metis old.sum.exhaust)
  then show ?thesis
  proof cases
    case 2
    then show ?thesis by (rule advances_finish_create) (simp add: advances_SetOwner assms(2))
  next
    case 4
    then show ?thesis using advances_CreateChannel [OF 4(1) assms(2)] advances_logs advances_finish_create by blast
  qed (use assms create_spatial advances_logs in blast)+
qed (use assms in \<open>auto simp: handleCreateChannel_def split: if_splits elim: advances_logs\<close>)

lemma data_update:
  assumes "handleChannelDataUpdate E ctx w = Some w'" and "advances w0 w" and "ready (w_settings w0)"
  shows "advances w0 w'"
proof -
  have n: "advances w0 b" if "notify E c call a = Some b" "advances w0 a" for c call a b
    using that notify_advances [OF assms(3)] by (auto simp: notify_def bind_eq_Some_conv)
  have l: "advances w0 b" if "for_each (notify E c) calls a = Some b" "advances w0 a" for c calls a b
    using that by (induction calls arbitrary: a) (auto simp: bind_eq_Some_conv dest: n)
  from assms(1) consider "w' = w" | c p m i d where "apply_update E ctx c p m i d w = Some w'"
    by (cases "x_Msg ctx") (auto simp: handleChannelDataUpdate_def bind_eq_Some_conv split: option.splits)
  then show ?thesis
  proof cases
    case (2 c p m i d)
    obtain d1 ref calls where d1: "merge_update E m (ch_spatialNotifier (w_chan w c)) d = (d1, ref, calls)" by (rule prod_cases3)
    define w1 where "w1 = (if ch_spatialNotifier (w_chan w c) then upd_chan c (\<lambda>x. x\<lparr>ch_latestDataUpdateConnId :=
        (if c_connectionType (w_conn w p) = ConnectionType_CLIENT then c_id (w_conn w p) else i)\<rparr>) w else w)"
    from 2 obtain w2 where w2: "for_each (notify E c) calls (upd_chan c (\<lambda>c. c\<lparr>ch_data := Some d1\<rparr>) w1) = Some w2"
      and w': "w' = upd_chan c (\<lambda>x. x\<lparr>ch_data := map_option (buffer_update ref (x_arrivalTime ctx) (c_id (w_conn w p))) (ch_data x)\<rparr>) w2"
      unfolding apply_update_def Let_def d1 w1_def [symmetric] by (auto simp: bind_eq_Some_conv)
    have "advances w0 w1" unfolding w1_def by (simp add: assms(2) advances_chan_data)
    then have "advances w0 w2" by (intro l [OF w2] advances_chan_data)
    then show ?thesis unfolding w' by (rule advances_chan_data)
  qed (use assms(2) in simp)
qed

lemma handlers:
  assumes "run_handler E h ctx w = Some w'" and "advances w0 w" and "ready (w_settings w0)"
  shows "advances w0 w'"
  using assms
  by (cases h) (auto simp: run_handler_def elim: create_channel data_update advances_handleAuth
      advances_handleRemoveChannel advances_handleListChannel advances_handleSub advances_handleUnsub
      advances_handleDisconnect advances_spatial_queries advances_handleUpdateSpatialInterest
      advances_handleCreateEntity advances_entity_groups advances_ClientToServer advances_ServerToClient
      intro: advances_entity_data)

lemma messages:
  assumes "handle_message E cm w = Some (w', timed)" and "advances w0 w" and "ready (w_settings w0)"
  shows "advances w0 w'"
  using assms by (auto simp: handle_message_def bind_eq_Some_conv split: if_splits elim: handlers)

end

subsection \<open>The tick of a channel and its queue\<close>

text \<open>Handling a given list of messages, each taken off the front of the queue first.\<close>

fun handle_in_turn :: "Externs \<Rightarrow> ChanPtr \<Rightarrow> channelMessage list \<Rightarrow> World \<Rightarrow> World option" where
  "handle_in_turn E ch [] w = Some w"
| "handle_in_turn E ch (cm # cms) w = do {
     (w', _) \<leftarrow> handle_message E cm (upd_chan ch (\<lambda>c. c\<lparr>ch_inMsgQueue := tl (ch_inMsgQueue c)\<rparr>) w);
     handle_in_turn E ch cms w'
   }"

text \<open>The messages \<open>ms\<close> that a tick handled and the ones it left are those that waited, followed by those
that arrived meanwhile; it leaves any only when the time of the tick is up.\<close>

definition in_turn :: "Externs \<Rightarrow> ChanPtr \<Rightarrow> (nat \<Rightarrow> bool) \<Rightarrow> nat \<Rightarrow> World \<Rightarrow> World \<Rightarrow> bool" where
  "in_turn E ch spent k w w' \<longleftrightarrow> (\<exists>ms new. handle_in_turn E ch ms w = Some w' \<and>
     ms @ ch_inMsgQueue (w_chan w' ch) = ch_inMsgQueue (w_chan w ch) @ new \<and>
     (ch_inMsgQueue (w_chan w' ch) \<noteq> [] \<longrightarrow>
        0 < ch_tickInterval (w_chan w' ch) \<and> (\<exists>n. length ms = Suc n \<and> spent (k + n))))"

lemma progress_pop: "progress w (upd_chan ch (\<lambda>c. c\<lparr>ch_inMsgQueue := f c\<rparr>) w)"
  by (auto simp: progress_def chan_grows_def registry_wf_def)

lemma progress_settings: "progress w w' \<Longrightarrow> w_settings w' = w_settings w"
  by (simp add: progress_def)

lemma progress_nchan: "progress w w' \<Longrightarrow> c < w_nchan w \<Longrightarrow> c < w_nchan w'"
  by (simp add: progress_def)

lemma in_turn_empty: "ch_inMsgQueue (w_chan w ch) = [] \<Longrightarrow> in_turn E ch spent k w w"
  unfolding in_turn_def by (intro exI [of _ "[]"]) simp

lemma in_turn_more:
  assumes "in_turn E ch spent (k + 1) w1 w'" and "handle_message E cm (upd_chan ch (\<lambda>c. c\<lparr>ch_inMsgQueue := tl (ch_inMsgQueue c)\<rparr>) w) = Some (w1, b)"
    and "ch_inMsgQueue (w_chan w ch) = cm # rest" and "prefix rest (ch_inMsgQueue (w_chan w1 ch))"
  shows "in_turn E ch spent k w w'"
proof -
  from assms(1) obtain ms new where ms: "handle_in_turn E ch ms w1 = Some w'"
    "ms @ ch_inMsgQueue (w_chan w' ch) = ch_inMsgQueue (w_chan w1 ch) @ new"
    "ch_inMsgQueue (w_chan w' ch) \<noteq> [] \<longrightarrow>
        0 < ch_tickInterval (w_chan w' ch) \<and> (\<exists>n. length ms = Suc n \<and> spent (k + 1 + n))"
    by (auto simp: in_turn_def)
  obtain more where more: "ch_inMsgQueue (w_chan w1 ch) = rest @ more" using assms(4) by (auto simp: prefix_def)
  show ?thesis unfolding in_turn_def
    by (intro exI [of _ "cm # ms"] exI [of _ "more @ new"]) (use ms more assms(2,3) in auto)
qed

context gateway_env
begin

lemma tick_messages:
  assumes "tickMessages E ch spent k w = Some w'" and "ready (w_settings w)" and "ch < w_nchan w"
  shows "progress w w' \<and> in_turn E ch spent k w w'"
proof -
  have "E = E \<longrightarrow> ready (w_settings w) \<longrightarrow> ch < w_nchan w \<longrightarrow> progress w w' \<and> in_turn E ch spent k w w'"
  proof (rule tickMessages.raw_induct [where P = "\<lambda>E' ch spent k w r. E' = E \<longrightarrow> ready (w_settings w) \<longrightarrow> ch < w_nchan w \<longrightarrow>
      progress w r \<and> in_turn E ch spent k w r", OF _ assms(1)])
    fix f :: "Externs \<Rightarrow> ChanPtr \<Rightarrow> (nat \<Rightarrow> bool) \<Rightarrow> nat \<Rightarrow> World \<Rightarrow> World option"
      and E' :: Externs and ch :: ChanPtr and spent :: "nat \<Rightarrow> bool" and k :: nat and w r :: World
    assume IH: "\<And>E' ch spent k w r. f E' ch spent k w = Some r \<Longrightarrow> E' = E \<longrightarrow> ready (w_settings w) \<longrightarrow> ch < w_nchan w \<longrightarrow>
        progress w r \<and> in_turn E ch spent k w r"
      and eq: "(case ch_inMsgQueue (w_chan w ch) of [] \<Rightarrow> Some w
        | cm # rest \<Rightarrow> Option.bind (handle_message E' cm (upd_chan ch (\<lambda>c. c\<lparr>ch_inMsgQueue := rest\<rparr>) w)) (\<lambda>(w', timed).
           if timed \<and> 0 < ch_tickInterval (w_chan w' ch) \<and> spent k then Some w' else f E' ch spent (k + 1) w')) = Some r"
    show "E' = E \<longrightarrow> ready (w_settings w) \<longrightarrow> ch < w_nchan w \<longrightarrow> progress w r \<and> in_turn E ch spent k w r"
    proof (intro impI)
      assume e: "E' = E" and rdy: "ready (w_settings w)" and c: "ch < w_nchan w"
      show "progress w r \<and> in_turn E ch spent k w r"
      proof (cases "ch_inMsgQueue (w_chan w ch)")
        case Nil
        then show ?thesis using eq by (simp add: in_turn_empty)
      next
        case (Cons cm rest)
        let ?w = "upd_chan ch (\<lambda>c. c\<lparr>ch_inMsgQueue := tl (ch_inMsgQueue c)\<rparr>) w"
        have pop: "upd_chan ch (\<lambda>c. c\<lparr>ch_inMsgQueue := rest\<rparr>) w = ?w" using Cons by (simp add: upd_chan_def)
        obtain w1 b where w1: "handle_message E cm ?w = Some (w1, b)"
          and r: "(if b \<and> 0 < ch_tickInterval (w_chan w1 ch) \<and> spent k then Some w1 else f E ch spent (k + 1) w1) = Some r"
          using eq unfolding e Cons list.case pop by (auto simp: bind_eq_Some_conv)
        have a: "advances ?w w1" by (rule messages [OF w1 advances_refl]) (simp add: rdy)
        then have pre: "prefix rest (ch_inMsgQueue (w_chan w1 ch))" using c Cons by (auto simp: advances_def)
        have p: "progress w w1" by (rule progress_trans [OF progress_pop advances_progress [OF a]])
        show ?thesis
        proof (cases "b \<and> 0 < ch_tickInterval (w_chan w1 ch) \<and> spent k")
          case True
          obtain more where "ch_inMsgQueue (w_chan w1 ch) = rest @ more" using pre by (auto simp: prefix_def)
          then have "in_turn E ch spent k w w1" unfolding in_turn_def
            by (intro exI [of _ "[cm]"] exI [of _ more]) (use True w1 Cons in simp)
          then show ?thesis using True r p by simp
        next
          case False
          then have "f E ch spent (k + 1) w1 = Some r" using r by auto
          from IH [OF this] have "progress w1 r" "in_turn E ch spent (k + 1) w1 r"
            using rdy progress_settings [OF p] progress_nchan [OF p c] by simp_all
          then show ?thesis using progress_trans [OF p] in_turn_more [OF _ w1 Cons pre] by simp
        qed
      qed
    qed
  qed
  then show ?thesis using assms(2,3) by simp
qed

lemma tick:
  assumes "Tick E ch spent w = Some w'" and "ready (w_settings w)" and "ch < w_nchan w"
  shows "progress w w'"
proof (cases "IsRemoving w ch")
  case False
  from assms(1) False obtain w1 w2 w3 w4 where
    1: "w1 = w \<or> (\<exists>sp. ex_spatial E = Some sp \<and> sp_Tick sp w = Some w1)" and
    2: "tickMessages E ch spent 0 (upd_chan ch (\<lambda>c. c\<lparr>ch_tickFrames := ch_tickFrames c + 1\<rparr>) w1) = Some w2" and
    3: "tickData E ch (GetTime w2 ch) w2 = Some w3" and 4: "tickConnections E ch w3 = Some w4" and
    5: "tickRecoverableSubscriptions E ch w4 = Some w'"
    by (auto simp: Tick_def bind_eq_Some_conv split: option.split_asm if_split_asm)
  have "advances w w1" using 1 tick_advances [OF assms(2) _ _ advances_refl] by auto
  then have "advances w (upd_chan ch (\<lambda>c. c\<lparr>ch_tickFrames := ch_tickFrames c + 1\<rparr>) w1)" by (rule advances_chan_data)
  then have p: "progress w (upd_chan ch (\<lambda>c. c\<lparr>ch_tickFrames := ch_tickFrames c + 1\<rparr>) w1)" by (rule advances_progress)
  have "progress (upd_chan ch (\<lambda>c. c\<lparr>ch_tickFrames := ch_tickFrames c + 1\<rparr>) w1) w2"
    using tick_messages [OF 2] progress_settings [OF p] progress_nchan [OF p assms(3)] assms(2) by auto
  moreover have "advances w2 w'" by (meson 3 4 5 advances_refl advances_tickData advances_tickConnections advances_recoverable)
  ultimately show ?thesis using p by (blast intro: progress_trans advances_progress)
qed (use assms(1) in \<open>simp add: Tick_def\<close>)

end

subsection \<open>The grid as that controller\<close>

text \<open>The grid fits between the identifiers of the spatial and the entity channels.\<close>

definition grid_fits :: "StaticGrid2DSpatialController \<Rightarrow> GlobalSettingsType \<Rightarrow> bool" where
  "grid_fits ctl s \<longleftrightarrow> grid_ok ctl s \<and>
     unat (gs_SpatialChannelIdStart s) + unat (GridCols ctl) * unat (GridRows ctl) \<le> unat (gs_EntityChannelIdStart s)"

lemma cell_channel_fits:
  assumes "grid_fits ctl s" and "cell_channel E ctl s x y = Some i"
  shows "id_fits s ChannelType_SPATIAL i"
proof -
  have ok: "grid_ok ctl s"
    and room: "unat (gs_SpatialChannelIdStart s) + unat (GridCols ctl) * unat (GridRows ctl) \<le> unat (gs_EntityChannelIdStart s)"
    using assms(1) by (simp_all add: grid_fits_def)
  from assms(2) have "GetChannelIdWithOffset E ctl s (cell_position ctl x y) (Fin 0) (Fin 0) = (i, True)"
    by (auto simp: cell_channel_def GetChannelIdNoOffset_def split: prod.splits if_splits)
  then obtain c r where cr: "c < unat (GridCols ctl)" "r < unat (GridRows ctl)" "i = cell_id ctl s c r"
    by (rule GetChannelIdWithOffset_cell)
  have "unat i = unat (gs_SpatialChannelIdStart s) + (c + r * unat (GridCols ctl))"
    using cell_id_unat [OF ok cr(1,2)] cr(3) by simp
  moreover have "c + r * unat (GridCols ctl) < unat (GridCols ctl) * unat (GridRows ctl)"
    using cell_index_less [OF cr(1,2)] by (simp add: mult.commute)
  ultimately show ?thesis using room by (simp add: id_fits_def word_le_nat_alt word_less_nat_alt)
qed

lemma block_ids_fit:
  assumes "grid_fits ctl s" and "server_share (GridCols ctl) (ServerCols ctl) = Some gc"
    and "server_share (GridRows ctl) (ServerRows ctl) = Some gr"
    and "block_ids E ctl s k gc gr = Some (Some ids)" and "i \<in> set ids"
  shows "id_fits s ChannelType_SPATIAL i"
proof -
  have ok: "grid_ok ctl s" using assms(1) by (simp add: grid_fits_def)
  from assms(4,5) obtain x y where "cell_channel E ctl s x y = Some i"
    unfolding block_ids_result [OF ok assms(2,3)] by (auto split: if_splits)
  then show ?thesis by (rule cell_channel_fits [OF assms(1)])
qed

lemma advances_create_block [adv]:
  assumes "create_block E ctx data mo is w = Some (w', cs)" and "advances w0 w"
    and "\<forall>i \<in> set is. id_fits (w_settings w0) ChannelType_SPATIAL i"
  shows "advances w0 w'"
  using assms
proof (induction "is" arbitrary: w cs)
  case (Cons i ids)
  from Cons.prems(1) obtain w1 c where c: "createChannelWithId E i ChannelType_SPATIAL (x_Connection ctx) w = Some (w1, c)"
    and rest: "(case (case data of None \<Rightarrow> Some None | Some any \<Rightarrow> map_option Some (ex_unmarshalAny E any)) of
        None \<Rightarrow> Some (w1, None)
      | Some dataMsg \<Rightarrow> do {
          (w2, cs) \<leftarrow> create_block E ctx data mo ids (InitData E c dataMsg mo w1);
          Some (w2, map_option (\<lambda>cs. c # cs) cs)
        }) = Some (w', cs)"
    by (auto simp: bind_eq_Some_conv)
  have "advances w0 w1"
    by (rule advances_createChannelWithId [OF c Cons.prems(2)])
      (use Cons.prems(3) advances_settings [OF Cons.prems(2)] in simp)
  moreover from rest have "w' = w1 \<or> (\<exists>m cs'. create_block E ctx data mo ids (InitData E c m mo w1) = Some (w', cs'))"
    by (auto simp: bind_eq_Some_conv split: option.split_asm)
  ultimately show ?case using Cons.IH Cons.prems(3) advances_InitData by (metis list.set_intros(2))
qed simp

lemma advances_for_cells:
  assumes "\<And>x w w' ok. f x w = Some (w', ok) \<Longrightarrow> advances w w'" and "for_cells f xs w = Some (w', ok)" and "advances w0 w"
  shows "advances w0 w'"
  using assms(2,3)
proof (induction xs arbitrary: w)
  case (Cons x xs)
  then obtain w1 b where "f x w = Some (w1, b)" "w' = w1 \<or> for_cells f xs w1 = Some (w', ok)"
    by (auto simp: bind_eq_Some_conv split: if_split_asm)
  then show ?case using Cons advances_trans assms(1) by blast
qed simp

lemma advances_sub_border [adv]:
  "sub_border_cell E ctl r opts c w = Some (w', ok) \<Longrightarrow> advances w0 w \<Longrightarrow> advances w0 w'"
  by (auto simp: sub_border_cell_def bind_eq_Some_conv split: option.split_asm if_split_asm
      intro!: advances_sends dest: advances_Subscribe)

lemma advances_subToAdjacent [adv]:
  assumes "subToAdjacentChannels E ctl gc gr opts k w = Some (w', ok)" and "advances w0 w"
  shows "advances w0 w'"
proof -
  from assms(1) consider "w' = w" | r cs where "for_cells (sub_border_cell E ctl r opts) cs w = Some (w', ok)"
    by (auto simp: subToAdjacentChannels_def Let_def split: option.split_asm if_split_asm)
  then show ?thesis
    by cases (use assms(2) in \<open>auto elim!: advances_for_cells [rotated] dest: advances_sub_border [OF _ advances_refl]\<close>)
qed

lemma advances_send_ready [adv]: "send_ready E m r w = Some w' \<Longrightarrow> advances w0 w \<Longrightarrow> advances w0 w'"
  by (auto simp: send_ready_def bind_eq_Some_conv intro: advances_send)

lemma advances_all_ready [adv]:
  assumes "all_servers_ready E ctl gc gr opts k w = Some (w', ok)" and "advances w0 w"
  shows "advances w0 w'"
proof -
  have cells: "advances w0 w1" if "for_cells (subToAdjacentChannels E ctl gc gr opts) xs w = Some (w1, b)" for xs w1 b
    using that assms(2) by (rule advances_for_cells [rotated]) (rule advances_subToAdjacent [OF _ advances_refl])
  have sends: "advances w0 w2" if "for_each (send_ready E m) rs w1 = Some w2" "advances w0 w1" for m rs w1 w2
    using that by (rule advances_for_each [rotated]) (rule advances_send_ready [OF _ advances_refl])
  show ?thesis using assms(1) unfolding all_servers_ready_def
    by (auto simp: bind_eq_Some_conv Let_def split: if_split_asm) (metis cells sends advances_send_ready)+
qed

lemma advances_grid_Create:
  assumes "grid_fits ctl (w_settings w0)" and "grid_CreateChannels E ctl ctx w = Some (w', r)" and "advances w0 w"
  shows "advances w0 w'"
proof -
  let ?w = "initServerConnections ctl w"
  have a: "advances w0 ?w" using assms(3) by (simp add: initServerConnections_def split: option.split)
  have s: "w_settings ?w = w_settings w0" using advances_settings [OF a] .
  show ?thesis
  proof (cases "w' = ?w")
    case False
    from assms(2) False obtain k t md opts data mo where "x_Msg ctx = CreateChannelMessage t md opts data mo"
      and k: "nextServerIndex ?w = Some k" "\<not> k \<ge> ServerCols ctl * ServerRows ctl"
      unfolding grid_CreateChannels_def Let_def bind_eq_Some_conv by (auto split: if_split_asm Msg.split_asm)
    with assms(2) False obtain gc gr ids w1 cs where g: "server_share (GridCols ctl) (ServerCols ctl) = Some gc"
      "server_share (GridRows ctl) (ServerRows ctl) = Some gr" "block_ids E ctl (w_settings ?w) k gc gr = Some (Some ids)"
      and w1: "create_block E ctx data mo ids ?w = Some (w1, cs)"
      and w': "w' = w1 \<or> (\<exists>conns n ok. w' = w1\<lparr>w_serverConnections := conns\<rparr> \<or>
         all_servers_ready E ctl gc gr opts n (w1\<lparr>w_serverConnections := conns\<rparr>) = Some (w', ok))"
      unfolding grid_CreateChannels_def Let_def
      by (auto simp: bind_eq_Some_conv split: if_split_asm option.split_asm) blast+
    have "\<forall>i \<in> set ids. id_fits (w_settings w0) ChannelType_SPATIAL i"
      using block_ids_fit [OF assms(1) g(1,2)] g(3) s by auto
    then have "advances w0 w1" by (rule advances_create_block [OF w1 a])
    then show ?thesis using w' advances_all_ready by auto
  qed (use a in simp)
qed

lemma advances_grid_Tick: "grid_Tick ctl w = Some w' \<Longrightarrow> advances w0 w \<Longrightarrow> advances w0 w'"
  by (auto simp: grid_Tick_def initServerConnections_def Let_def split: option.split_asm)

lemma advances_leave_entity [adv]: "leave_entity E src i c w = Some w' \<Longrightarrow> advances w0 w \<Longrightarrow> advances w0 w'"
  by (auto simp: leave_entity_def bind_eq_Some_conv split: ConnRef.split_asm if_split_asm
      intro!: advances_sends) (metis advances_Unsubscribe prod.collapse)+

lemma advances_change_server [adv]: "change_server E src dst i e w = Some w' \<Longrightarrow> advances w0 w \<Longrightarrow> advances w0 w'"
  by (auto simp: change_server_def bind_eq_Some_conv split: option.split_asm
      intro!: advances_SetOwner elim: advances_leave_entity)

lemma advances_send_source [adv]: "send_source E ctx rs r w = Some w' \<Longrightarrow> advances w0 w \<Longrightarrow> advances w0 w'"
  by (auto simp: send_source_def send_to_ref_def bind_eq_Some_conv split: if_split_asm intro: advances_send)

lemma advances_handover_entity [adv]:
  "handover_entity E r e (w, m) = Some (w', m') \<Longrightarrow> advances w0 w \<Longrightarrow> advances w0 w'"
  by (auto simp: handover_entity_def bind_eq_Some_conv Let_def split: option.split_asm if_split_asm
      intro!: advances_sends dest: advances_Subscribe)

lemma advances_handover_loop [adv]:
  "handover_loop E r es (w, m) = Some (w', m') \<Longrightarrow> advances w0 w \<Longrightarrow> advances w0 w'"
proof (induction es arbitrary: w m)
  case (Cons e es)
  then obtain w1 m1 where "handover_entity E r e (w, m) = Some (w1, m1)" "handover_loop E r es (w1, m1) = Some (w', m')"
    by (auto simp: bind_eq_Some_conv)
  then show ?case using Cons.IH Cons.prems(2) advances_handover_entity by blast
qed simp

lemma advances_handover_conn [adv]:
  "handover_conn E src i j m es r w = Some w' \<Longrightarrow> advances w0 w \<Longrightarrow> advances w0 w'"
  by (auto simp: handover_conn_def send_to_ref_def bind_eq_Some_conv split: option.split_asm
      intro!: advances_send dest: advances_handover_loop)

lemma advances_tell [adv]:
  assumes "tell_connections E src dst i j m es w = Some w'" and "advances w0 w"
  shows "advances w0 w'"
proof -
  from assms(1) consider "w' = w"
    | ctx rs rs' w1 m' where "for_each (send_source E ctx rs) rs' w = Some w1" "for_each (handover_conn E src i j m' es) rs w1 = Some w'"
    by (auto simp: tell_connections_def Let_def bind_eq_Some_conv split: option.split_asm)
  then show ?thesis
  proof cases
    case (2 ctx rs rs' w1 m')
    from 2(1) assms(2) have "advances w0 w1"
      by (rule advances_for_each [rotated]) (rule advances_send_source [OF _ advances_refl])
    with 2(2) show ?thesis
      by (rule advances_for_each [rotated]) (rule advances_handover_conn [OF _ advances_refl])
  qed (use assms(2) in simp)
qed

lemma advances_hand_over [adv]:
  assumes "hand_over E src dst i j m es w = Some w'" and "advances w0 w"
  shows "advances w0 w'"
proof -
  from assms(1) obtain same w1 w2 w3 where
    1: "(if same then Some w else for_each (change_server E src dst j) es w) = Some w1" and
    2: "Execute src (H_RemoveEntities src (map fst es)) w1 = Some w2" and
    3: "Execute dst (H_AddEntities dst es) w2 = Some w3" and
    4: "tell_connections E src dst i j m es w3 = Some w'"
    by (auto simp: hand_over_def bind_eq_Some_conv)
  have "advances w0 w1"
    using 1 assms(2) by (auto split: if_split_asm elim!: advances_for_each [rotated] intro: advances_change_server [OF _ advances_refl])
  then show ?thesis by (meson 2 3 4 advances_put(4) advances_tell)
qed

lemma advances_grid_Notify: "grid_Notify E ctl call w = Some w' \<Longrightarrow> advances w0 w \<Longrightarrow> advances w0 w'"
  by (auto simp: grid_Notify_def Let_def bind_eq_Some_conv split: prod.split_asm option.split_asm if_split_asm
      elim: advances_hand_over)

text \<open>The model with the grid keeps the laws where the grid fits, and so does a gateway without a controller.\<close>

interpretation grid_env: gateway_env "with_grid ctl E" "grid_fits ctl" for ctl :: StaticGrid2DSpatialController and E :: Externs
  by unfold_locales
    (auto simp: with_grid_def grid_controller_def intro: advances_grid_Create advances_grid_Tick advances_grid_Notify)

interpretation plain_env: gateway_env "E\<lparr>ex_spatial := None\<rparr>" "\<lambda>_. True" for E :: Externs
  by unfold_locales auto

subsection \<open>Receiving\<close>

definition recordPacket :: "ConnPtr \<Rightarrow> byte list MessagePack list \<Rightarrow> World \<Rightarrow> World option" where
  "recordPacket p packet w = do {
     session \<leftarrow> c_replaySession (w_conn w p);
     Some (upd_conn p (\<lambda>c. c\<lparr>c_replaySession := Some (session @ [\<lparr>rp_OffsetTime = w_now w, rp_Packet = packet\<rparr>])\<rparr>) w)
   }"

text \<open>What \<open>readPacket\<close> does with a packet it could parse.\<close>

definition handle_packet :: "Externs \<Rightarrow> ConnPtr \<Rightarrow> byte list MessagePack list \<Rightarrow> World \<Rightarrow> World option" where
  "handle_packet E p packet w = do {
     w1 \<leftarrow> (if isPacketRecordingEnabled w (w_conn w p) then recordPacket p packet w else Some w);
     for_each (receiveMessage E p) packet w1
   }"

text \<open>
  \<open>receive\<close> on a \<open>Read\<close> that returned \<open>bytes\<close>: the framing (\<open>receive_bytes\<close>) looks at nothing but the
  buffer, so the packets it finds can be handled after it.
\<close>

definition conn_receive :: "Externs \<Rightarrow> ConnPtr \<Rightarrow> byte list \<Rightarrow> World \<Rightarrow> World option" where
  "conn_receive E p bytes w = do {
     (c', packets, err) \<leftarrow> receive_bytes E bytes (w_conn w p);
     w' \<leftarrow> for_each (handle_packet E p) packets (upd_conn p (\<lambda>c. c\<lparr>c_readBuffer := c_readBuffer c',
             c_readPos := c_readPos c', c_compressionType := c_compressionType c'\<rparr>) w);
     Some (if err = None then w' else conn_Close True p w')
   }"

lemma conn_grows_receive [simp]:
  "conn_grows c (c\<lparr>c_readBuffer := a, c_readPos := b, c_compressionType := d\<rparr>)" "conn_grows c (c\<lparr>c_replaySession := e\<rparr>)"
  by (simp_all add: conn_grows_def IsClosing_def)

lemma flush_frame: "conn_grows c (flush E c)"
  by (auto simp: flush_def conn_grows_def IsClosing_def Let_def split: prod.splits option.splits)

lemma advances_receiveMessage [adv]: "receiveMessage E p mp w = Some w' \<Longrightarrow> advances w0 w \<Longrightarrow> advances w0 w'"
  by (auto simp: receiveMessage_def bind_eq_Some_conv split: option.split_asm if_split_asm
      elim!: advances_put advances_FsmDisallowed intro!: advances_upd_conn)

lemma advances_handle_packet [adv]:
  assumes "handle_packet E p packet w = Some w'" and "advances w0 w"
  shows "advances w0 w'"
proof -
  from assms(1) obtain w1 where w1: "(if isPacketRecordingEnabled w (w_conn w p) then recordPacket p packet w else Some w) = Some w1"
    and each: "for_each (receiveMessage E p) packet w1 = Some w'"
    by (auto simp: handle_packet_def bind_eq_Some_conv)
  from w1 have "advances w0 w1" using assms(2)
    by (auto simp: recordPacket_def bind_eq_Some_conv split: if_split_asm intro!: advances_upd_conn)
  with each show ?thesis by (rule advances_for_each [rotated]) (rule advances_receiveMessage [OF _ advances_refl])
qed

lemma advances_conn_receive [adv]:
  assumes "conn_receive E p bytes w = Some w'" and "advances w0 w"
  shows "advances w0 w'"
proof -
  have packets: "advances w0 w1" if each: "for_each (handle_packet E p) ps (upd_conn p (\<lambda>c. c\<lparr>c_readBuffer := c_readBuffer c',
      c_readPos := c_readPos c', c_compressionType := c_compressionType c'\<rparr>) w) = Some w1" for ps c' w1
  proof -
    have "advances w0 (upd_conn p (\<lambda>c. c\<lparr>c_readBuffer := c_readBuffer c',
        c_readPos := c_readPos c', c_compressionType := c_compressionType c'\<rparr>) w)"
      by (rule advances_upd_conn [OF assms(2)]) simp
    with each show ?thesis by (rule advances_for_each [rotated]) (rule advances_handle_packet [OF _ advances_refl])
  qed
  show ?thesis using assms(1)
    by (auto simp: conn_receive_def bind_eq_Some_conv split: if_split_asm dest!: packets intro: advances_Close)
qed

subsection \<open>The running process\<close>

text \<open>
  One step of the process: a socket delivers bytes or fails, a connection flushes, a channel ticks, a
  goroutine that a handler or a tick started runs, a connection is accepted, one of the periodic jobs runs, or
  time passes.  Each takes place at once, as the handlers and the jobs are written to (see the header).
\<close>

inductive gateway_step :: "Externs \<Rightarrow> World \<Rightarrow> World \<Rightarrow> bool" for E :: Externs where
  receive: "p < w_nconn w \<Longrightarrow> \<not> IsClosing (w_conn w p) \<Longrightarrow> conn_receive E p bytes w = Some w' \<Longrightarrow> gateway_step E w w'"
| lost: "p < w_nconn w \<Longrightarrow> gateway_step E w (conn_Close True p w)"
| flushed: "p < w_nconn w \<Longrightarrow> \<not> IsClosing (w_conn w p) \<Longrightarrow> gateway_step E w (upd_conn p (flush E) w)"
| ticked: "ch < w_nchan w \<Longrightarrow> Tick E ch spent w = Some w' \<Longrightarrow> gateway_step E w w'"
| started: "w_tasks w = ts @ t # ts' \<Longrightarrow> task_ready w t \<Longrightarrow> run_task E t (w\<lparr>w_tasks := ts @ ts'\<rparr>) = Some w' \<Longrightarrow>
    gateway_step E w w'"
| accepted: "accept_connection addr t clock w = Some (w', r) \<Longrightarrow> gateway_step E w w'"
| recovery: "gateway_step E w (tickConnectionRecovery E w)"
| unauth: "gateway_step E w (checkUnauthConns w)"
| time: "0 \<le> d \<Longrightarrow> gateway_step E w (w\<lparr>w_now := w_now w + d\<rparr>)"

lemma advances_run_task: "run_task E t w = Some w' \<Longrightarrow> advances w0 w \<Longrightarrow> advances w0 w'"
  by (auto simp: run_task_def owner_recovered_task_def split: Task.splits elim!: advances_do_auth_task advances_Broadcast)

context gateway_env
begin

lemma one_step:
  assumes "gateway_step E w w'" and "ready (w_settings w)"
  shows "progress w w'"
  using assms
proof (cases rule: gateway_step.cases)
  case (ticked ch spent)
  then show ?thesis using tick assms(2) by blast
next
  case (started ts t ts')
  show ?thesis by (rule advances_progress [OF advances_run_task [OF started(3)]]) simp
next
  case (accepted addr t clock r)
  show ?thesis by (rule advances_progress [OF advances_accept [OF accepted advances_refl]])
next
  case (flushed p)
  show ?thesis unfolding flushed(1) by (intro advances_progress advances_upd_conn flush_frame advances_refl)
next
  case (receive p bytes)
  show ?thesis by (rule advances_progress [OF advances_conn_receive [OF receive(3) advances_refl]])
next
  case (time d)
  then show ?thesis by (simp add: advances_progress)
qed (simp_all add: advances_progress advances_Close advances_recovery_tick advances_checkUnauth)

lemma run:
  assumes "(gateway_step E)\<^sup>*\<^sup>* w w'" and "ready (w_settings w)"
  shows "progress w w'"
  using assms
proof (induction rule: rtranclp_induct)
  case (step w1 w2)
  then have p: "progress w w1" by blast
  have "progress w1 w2" by (rule one_step [OF step.hyps(2)]) (simp add: progress_settings [OF p] step.prems)
  then show ?case by (rule progress_trans [OF p])
qed simp

end

subsection \<open>Properties of the whole\<close>

lemma broadcast_FsmDisallowed_chans: "broadcast_FsmDisallowed p w = Some w' \<Longrightarrow> w_chan w' = w_chan w"
proof -
  have one: "w_chan b = w_chan a" if "run_fsm_listener p l a = Some b" for l a b
    using that by (auto simp: run_fsm_listener_def antiddos_fsm_def Let_def split: Listener.split_asm)
  have "w_chan b = w_chan a" if "for_each (run_fsm_listener p) ls a = Some b" for ls a b
    using that by (induction ls arbitrary: a) (auto simp: bind_eq_Some_conv dest: one)
  then show "broadcast_FsmDisallowed p w = Some w' \<Longrightarrow> w_chan w' = w_chan w"
    by (fastforce simp: broadcast_FsmDisallowed_def bind_eq_Some_conv)
qed

lemma PutMessage_queue:
  assumes "PutMessage c m h r mp w = Some w'" and "w_chan w' d \<noteq> w_chan w d"
  shows "d = c \<and> \<not> IsRemoving w c \<and> ch_inMsgQueue (w_chan w' c) = ch_inMsgQueue (w_chan w c) @
    [\<lparr>cm_ctx = \<lparr>x_MsgType = mp_MsgType mp, x_Msg = m, x_Broadcast = mp_Broadcast mp, x_StubId = mp_StubId mp,
       x_ChannelId = mp_ChannelId mp, x_Connection = r, x_Channel = Some c, x_arrivalTime = GetTime w c\<rparr>, cm_handler = h\<rparr>]"
  using assms by (auto simp: PutMessage_def put_queue_def split: if_split_asm)


definition gate_world :: World where
  "gate_world = chan_world\<lparr>w_conn := (\<lambda>_. (demo_conn 7 ConnectionType_CLIENT)\<lparr>c_fsm := zero_fsm\<lparr>fsm_currentState := Some 0,
     fsm_States := [\<lparr>st_Name = ''open'', st_MsgTypeWhitelist = ''2-65535'', st_MsgTypeBlacklist = [],
       st_allowedMsgTypes = [100 \<mapsto> True], st_transitions = Map.empty\<rparr>]\<rparr>\<rparr>), w_nconn := 1\<rparr>"

definition gate_pack :: "byte list MessagePack" where
  "gate_pack = \<lparr>mp_ChannelId = 1, mp_Broadcast = 0, mp_StubId = 0, mp_MsgType = 100, mp_MsgBody = [1, 2]\<rparr>"


text \<open>
  C10. A channel handles its messages in the order in which they were put into its queue: those a tick handled
  and those it leaves behind are the ones that waited before, followed by the ones that arrived meanwhile; and
  it leaves messages behind only when the channel has a tick interval and it was used up after the last
  message handled.
\<close>

theorem tickMessages_in_turn:
  assumes "tickMessages (with_grid ctl E) ch spent 0 w = Some w'" and "grid_fits ctl (w_settings w)" and "ch < w_nchan w"
  shows "\<exists>handled arrived. handle_in_turn (with_grid ctl E) ch handled w = Some w' \<and>
    handled @ ch_inMsgQueue (w_chan w' ch) = ch_inMsgQueue (w_chan w ch) @ arrived \<and>
    (ch_inMsgQueue (w_chan w' ch) \<noteq> [] \<longrightarrow>
       0 < ch_tickInterval (w_chan w' ch) \<and> (\<exists>n. length handled = Suc n \<and> spent n))"
  using grid_env.tick_messages [OF assms] by (simp add: in_turn_def)

definition waiting :: "nat \<Rightarrow> channelMessage" where
  "waiting n = \<lparr>cm_ctx = empty_ctx, cm_handler = H_User n\<rparr>"

lemma demo_grid_fits: "grid_fits demo_grid default_settings"
  using demo_grid_ok(1) by (simp add: grid_fits_def default_settings_def)

theorem tickMessages_in_turn_witness:
  "\<exists>w' handled. tickMessages (with_grid demo_grid demo_externs) 1 (\<lambda>_. False) 0
      (upd_chan 1 (\<lambda>c. c\<lparr>ch_inMsgQueue := [waiting 1, waiting 2]\<rparr>) chan_world) = Some w' \<and>
    handle_in_turn (with_grid demo_grid demo_externs) 1 handled
      (upd_chan 1 (\<lambda>c. c\<lparr>ch_inMsgQueue := [waiting 1, waiting 2]\<rparr>) chan_world) = Some w' \<and>
    take 2 handled = [waiting 1, waiting 2]"
proof -
  let ?w = "upd_chan 1 (\<lambda>c. c\<lparr>ch_inMsgQueue := [waiting 1, waiting 2]\<rparr>) chan_world"
  obtain w' where t: "tickMessages (with_grid demo_grid demo_externs) 1 (\<lambda>_. False) 0 ?w = Some w'"
    and e: "ch_inMsgQueue (w_chan w' 1) = []"
    by (simp add: tickMessages.simps waiting_def handle_message_def run_handler_def empty_ctx_def)
  have "grid_fits demo_grid (w_settings ?w)" "1 < w_nchan ?w"
    using demo_grid_fits by (simp_all add: chan_world_def demo_world_def)
  from tickMessages_in_turn [OF t this] obtain handled arrived where
    "handle_in_turn (with_grid demo_grid demo_externs) 1 handled ?w = Some w'" "handled @ [] = [waiting 1, waiting 2] @ arrived"
    unfolding e by auto
  moreover from this(2) have "take 2 handled = [waiting 1, waiting 2]" by simp
  ultimately show ?thesis using t by blast
qed


lemma chan_world_wf: "registry_wf chan_world"
  by (auto simp: registry_wf_def chan_world_def demo_world_def default_settings_def id_fits_def alist_ok_def settings_ok_def)

lemma chan_world_steps:
  "(gateway_step E)\<^sup>*\<^sup>* (chan_world\<lparr>w_nconn := 1\<rparr>) (conn_Close True 0 (chan_world\<lparr>w_nconn := 1, w_now := w_now chan_world + 5\<rparr>))"
proof -
  have "gateway_step E (chan_world\<lparr>w_nconn := 1\<rparr>) ((chan_world\<lparr>w_nconn := 1\<rparr>)\<lparr>w_now := w_now (chan_world\<lparr>w_nconn := 1\<rparr>) + 5\<rparr>)"
    by (rule gateway_step.time) simp
  moreover have "gateway_step E (chan_world\<lparr>w_nconn := 1, w_now := w_now chan_world + 5\<rparr>)
      (conn_Close True 0 (chan_world\<lparr>w_nconn := 1, w_now := w_now chan_world + 5\<rparr>))"
    by (rule gateway_step.lost) simp
  ultimately show ?thesis by (simp add: rtranclp.rtrancl_into_rtrancl converse_rtranclp_into_rtranclp)
qed




end
