(* ===== verification/Unreal.thy ===== *)
theory Unreal
  imports UnrealData Gateway "HOL-Library.Countable"
begin

text \<open>
  The Unreal Engine extension (\<open>pkg/unreal\<close>): its two message handlers (\<open>handleUnrealSpawnObject\<close>,
  \<open>handleUnrealDestroyObject\<close>), its listener of \<open>Event_EntityChannelSpatiallyOwned\<close>, the callbacks these pass
  to \<open>Execute\<close>, and the channel data extension that keeps the spawned objects for connections that recover.
  They run on the gateway of the other theories, whose world they read and change.
\<close>

subsection \<open>Messages and what the extension takes from outside\<close>

record SpawnObjectMessage =
  spawn_Obj :: "UnrealObjectRef option"
  spawn_ChannelId :: "uint32 option"
  spawn_Location :: "FVector option"
  spawn_others :: DataMsg

record DestroyObjectMessage =
  destroy_NetId :: uint32
  destroy_Reason :: uint32

text \<open>
  The functions that the extension hands to the gateway: its two message handlers, the callbacks of
  \<open>Execute\<close> (adding an object or the object of an entity to a spatial channel, and setting the object of an
  entity).  The gateway knows them as \<open>H_User\<close> with a number.
\<close>

datatype UnrealCall =
    CallSpawn | CallDestroy | CallAddEntity UnrealObjectRef | CallAddOwned ChanPtr | CallSetObjRef UnrealObjectRef

text \<open>Protobuf, the type assertions on channel data, the number of each function, and the number of the
extension's type.\<close>

record UnrealEnv =
  u_unmarshalSpawn :: "byte list \<Rightarrow> SpawnObjectMessage option"
  u_marshalSpawn :: "SpawnObjectMessage \<Rightarrow> byte list option"
  u_unmarshalDestroy :: "byte list \<Rightarrow> DestroyObjectMessage option"
  u_spatial :: "DataMsg \<Rightarrow> SpatialChannelData option"
  u_ofSpatial :: "SpatialChannelData \<Rightarrow> DataMsg"
  u_objRef :: "DataMsg \<Rightarrow> UnrealObjectRef option option"
  u_setObjRef :: "UnrealObjectRef \<Rightarrow> DataMsg \<Rightarrow> DataMsg option"
  u_number :: "UnrealCall \<Rightarrow> nat"
  u_call :: "nat \<Rightarrow> UnrealCall option"
  u_recoverable :: nat

definition unreal_env_ok :: "UnrealEnv \<Rightarrow> bool" where
  "unreal_env_ok U \<longleftrightarrow> (\<forall>d. u_spatial U (u_ofSpatial U d) = Some d) \<and> (\<forall>c. u_call U (u_number U c) = Some c)"

text \<open>The gateway with the objects that the extension of each channel keeps (\<open>spawnedObjs\<close>).\<close>

record UnrealWorld =
  uw_world :: World
  uw_spawned :: "ChanPtr \<Rightarrow> uint32 \<rightharpoonup> UnrealObjectRef"

subsection \<open>The entities of spatial channels\<close>

definition set_message :: "ChanPtr \<Rightarrow> DataMsg \<Rightarrow> World \<Rightarrow> World" where
  "set_message ch m w = upd_chan ch (\<lambda>c. c\<lparr>ch_data := map_option (\<lambda>d. d\<lparr>d_msg := Some m\<rparr>) (ch_data c)\<rparr>) w"

text \<open>\<open>proto.Merge\<close> into a fresh reference.\<close>

definition copy_objref :: "Externs \<Rightarrow> UnrealObjectRef \<Rightarrow> UnrealObjectRef" where
  "copy_objref E obj = merge_objref E \<lparr>or_NetGUID = None, or_others = ex_protoNew E (or_others obj)\<rparr> obj"

definition addSpatialEntity :: "UnrealEnv \<Rightarrow> Externs \<Rightarrow> ChanPtr \<Rightarrow> UnrealObjectRef option \<Rightarrow> World \<Rightarrow> World option" where
  "addSpatialEntity U E ch objRef w =
     (if ch_channelType (w_chan w ch) \<noteq> ChannelType_SPATIAL then Some w
      else case GetDataMessage w ch of
        None \<Rightarrow> Some w
      | Some m \<Rightarrow> (case u_spatial U m of
          None \<Rightarrow> Some w
        | Some spatialChannelData \<Rightarrow> do {
            obj \<leftarrow> objRef;
            netId \<leftarrow> or_NetGUID obj;
            d \<leftarrow> put_entity netId \<lparr>se_ObjRef = Some (copy_objref E obj), se_Removed = False, se_EntityData = None\<rparr>
                   spatialChannelData;
            Some (set_message ch (u_ofSpatial U d) w)
          }))"

definition removeSpatialEntity :: "UnrealEnv \<Rightarrow> ChanPtr \<Rightarrow> uint32 \<Rightarrow> World \<Rightarrow> World" where
  "removeSpatialEntity U ch netId w =
     (if ch_channelType (w_chan w ch) \<noteq> ChannelType_SPATIAL then w
      else case GetDataMessage w ch of
        None \<Rightarrow> w
      | Some m \<Rightarrow> (case u_spatial U m of
          None \<Rightarrow> w
        | Some spatialChannelData \<Rightarrow> set_message ch (u_ofSpatial U (del_entity netId spatialChannelData)) w))"

subsection \<open>The extension of the channel data\<close>

definition ext_Init :: "ChanPtr \<Rightarrow> UnrealWorld \<Rightarrow> UnrealWorld" where
  "ext_Init ch uw = uw\<lparr>uw_spawned := (uw_spawned uw)(ch := Map.empty)\<rparr>"

definition GetRecoveryDataMessage :: "ChanPtr \<Rightarrow> UnrealWorld \<Rightarrow> uint32 \<rightharpoonup> UnrealObjectRef" where
  "GetRecoveryDataMessage ch uw = uw_spawned uw ch"

text \<open>Reading the extension of a channel without data is a panic.\<close>

definition onSpawnObject :: "UnrealEnv \<Rightarrow> ChanPtr \<Rightarrow> UnrealObjectRef \<Rightarrow> UnrealWorld \<Rightarrow> UnrealWorld option" where
  "onSpawnObject U ch obj uw = do {
     d \<leftarrow> ch_data (w_chan (uw_world uw) ch);
     if d_extension d \<noteq> Some (u_recoverable U) then Some uw
     else do {
       netId \<leftarrow> or_NetGUID obj;
       Some (uw\<lparr>uw_spawned := (uw_spawned uw)(ch := (uw_spawned uw ch)(netId \<mapsto> obj))\<rparr>)
     }
   }"

definition onDestroyObject :: "UnrealEnv \<Rightarrow> ChanPtr \<Rightarrow> uint32 \<Rightarrow> UnrealWorld \<Rightarrow> UnrealWorld option" where
  "onDestroyObject U ch netId uw = do {
     d \<leftarrow> ch_data (w_chan (uw_world uw) ch);
     Some (if d_extension d \<noteq> Some (u_recoverable U) then uw
       else uw\<lparr>uw_spawned := (uw_spawned uw)(ch := (uw_spawned uw ch)(netId := None))\<rparr>)
   }"

subsection \<open>Spawning\<close>

text \<open>An object with a location: the message moves on to the spatial channel at that place, unless that is
the channel it names already.  The flag is false where the handler returns at once.\<close>

definition move_spawn ::
  "UnrealEnv \<Rightarrow> MessageContext \<Rightarrow> uint32 \<Rightarrow> byte list option \<Rightarrow> uint32 \<Rightarrow> UnrealObjectRef \<Rightarrow> World \<Rightarrow> World option" where
  "move_spawn U ctx clientConnId newPayload spatialChId obj w = (case newPayload of
     None \<Rightarrow> logs ctx w
   | Some payload \<Rightarrow> (case GetChannel w spatialChId of
       None \<Rightarrow> logs ctx w
     | Some ch \<Rightarrow> do {
         w1 \<leftarrow> Execute ch (H_User (u_number U (CallAddEntity obj))) w;
         PutMessageContext ch (ctx\<lparr>x_Msg := ServerForwardMessage clientConnId payload, x_Channel := Some ch\<rparr>)
           H_ServerToClientUser w1
       }))"

definition spawn_located ::
  "UnrealEnv \<Rightarrow> Externs \<Rightarrow> MessageContext \<Rightarrow> uint32 \<Rightarrow> SpawnObjectMessage \<Rightarrow> UnrealObjectRef \<Rightarrow> uint32 \<Rightarrow> FVector \<Rightarrow>
   World \<Rightarrow> (World \<times> bool) option" where
  "spawn_located U E ctx clientConnId spawnMsg obj oldChId location w = do {
     sp \<leftarrow> ex_spatial E;
     (case sp_GetChannelId sp w (ToSpatialInfo location) of
        (spatialChId, ok) \<Rightarrow>
          (if \<not> ok then do {
             _ \<leftarrow> logs ctx w;
             _ \<leftarrow> v_X location; _ \<leftarrow> v_Y location; _ \<leftarrow> v_Z location;
             Some (w, False)
           }
           else if spatialChId \<noteq> oldChId then do {
             w' \<leftarrow> move_spawn U ctx clientConnId (u_marshalSpawn U (spawnMsg\<lparr>spawn_ChannelId := Some spatialChId\<rparr>))
                     spatialChId obj w;
             Some (w', True)
           }
           else do {
             ch \<leftarrow> x_Channel ctx;
             w1 \<leftarrow> addSpatialEntity U E ch (Some obj) w;
             w' \<leftarrow> HandleServerToClientUserMessage E ctx w1;
             Some (w', True)
           }))
   }"

text \<open>Without a location: global and subworld channels keep the object, a spatial channel adds it.\<close>

definition spawn_here ::
  "UnrealEnv \<Rightarrow> Externs \<Rightarrow> MessageContext \<Rightarrow> UnrealObjectRef \<Rightarrow> UnrealWorld \<Rightarrow> UnrealWorld option" where
  "spawn_here U E ctx obj uw = do {
     ch \<leftarrow> x_Channel ctx;
     let t = ch_channelType (w_chan (uw_world uw) ch);
     uw1 \<leftarrow> (if t = ChannelType_GLOBAL \<or> t = ChannelType_SUBWORLD then onSpawnObject U ch obj uw
             else if t = ChannelType_SPATIAL then
               map_option (\<lambda>w. uw\<lparr>uw_world := w\<rparr>) (addSpatialEntity U E ch (Some obj) (uw_world uw))
             else Some uw);
     w2 \<leftarrow> HandleServerToClientUserMessage E ctx (uw_world uw1);
     Some (uw1\<lparr>uw_world := w2\<rparr>)
   }"

definition tell_entity :: "UnrealEnv \<Rightarrow> uint32 \<Rightarrow> UnrealObjectRef \<Rightarrow> World \<Rightarrow> World option" where
  "tell_entity U netId obj w = (case GetChannel w netId of
     None \<Rightarrow> Some w
   | Some entityChannel \<Rightarrow> Execute entityChannel (H_User (u_number U (CallSetObjRef obj))) w)"

definition spawn_object ::
  "UnrealEnv \<Rightarrow> Externs \<Rightarrow> MessageContext \<Rightarrow> uint32 \<Rightarrow> SpawnObjectMessage \<Rightarrow> UnrealObjectRef \<Rightarrow> uint32 \<Rightarrow>
   UnrealWorld \<Rightarrow> UnrealWorld option" where
  "spawn_object U E ctx clientConnId spawnMsg obj netId uw = do {
     oldChId \<leftarrow> spawn_ChannelId spawnMsg;
     (uw1, goOn) \<leftarrow> (case spawn_Location spawnMsg of
         Some location \<Rightarrow> map_option (\<lambda>(w, goOn). (uw\<lparr>uw_world := w\<rparr>, goOn))
           (spawn_located U E ctx clientConnId spawnMsg obj oldChId location (uw_world uw))
       | None \<Rightarrow> map_option (\<lambda>uw'. (uw', True)) (spawn_here U E ctx obj uw));
     if \<not> goOn then Some uw1
     else map_option (\<lambda>w. uw1\<lparr>uw_world := w\<rparr>) (tell_entity U netId obj (uw_world uw1))
   }"

definition only_log :: "MessageContext \<Rightarrow> UnrealWorld \<Rightarrow> UnrealWorld option" where
  "only_log ctx uw = map_option (\<lambda>w. uw\<lparr>uw_world := w\<rparr>) (logs ctx (uw_world uw))"

definition handleUnrealSpawnObject ::
  "UnrealEnv \<Rightarrow> Externs \<Rightarrow> MessageContext \<Rightarrow> UnrealWorld \<Rightarrow> UnrealWorld option" where
  "handleUnrealSpawnObject U E ctx uw = (case x_Msg ctx of
     ServerForwardMessage clientConnId payload \<Rightarrow> (case u_unmarshalSpawn U payload of
       None \<Rightarrow> only_log ctx uw
     | Some spawnMsg \<Rightarrow> (case spawn_Obj spawnMsg of
         None \<Rightarrow> only_log ctx uw
       | Some obj \<Rightarrow> (case or_NetGUID obj of
           None \<Rightarrow> only_log ctx uw
         | Some netId \<Rightarrow>
             (if netId = 0 then only_log ctx uw
              else spawn_object U E ctx clientConnId spawnMsg obj netId uw))))
   | _ \<Rightarrow> only_log ctx uw)"

subsection \<open>Destroying\<close>

definition destroy_here :: "UnrealEnv \<Rightarrow> ChanPtr \<Rightarrow> uint32 \<Rightarrow> UnrealWorld \<Rightarrow> UnrealWorld option" where
  "destroy_here U ch netId uw =
     (let t = ch_channelType (w_chan (uw_world uw) ch) in
      if t = ChannelType_GLOBAL \<or> t = ChannelType_SUBWORLD then onDestroyObject U ch netId uw
      else if t = ChannelType_SPATIAL then Some (uw\<lparr>uw_world := removeSpatialEntity U ch netId (uw_world uw)\<rparr>)
      else Some uw)"

definition remove_entity_channel :: "uint32 \<Rightarrow> World \<Rightarrow> World option" where
  "remove_entity_channel netId w = (case GetChannel w netId of
     None \<Rightarrow> Some w
   | Some entityCh \<Rightarrow> RemoveChannel entityCh w)"

definition handleUnrealDestroyObject ::
  "UnrealEnv \<Rightarrow> Externs \<Rightarrow> MessageContext \<Rightarrow> UnrealWorld \<Rightarrow> UnrealWorld option" where
  "handleUnrealDestroyObject U E ctx uw = (case x_Msg ctx of
     ServerForwardMessage clientConnId payload \<Rightarrow> (case u_unmarshalDestroy U payload of
       None \<Rightarrow> only_log ctx uw
     | Some destroyMsg \<Rightarrow> do {
         ch \<leftarrow> x_Channel ctx;
         uw1 \<leftarrow> destroy_here U ch (destroy_NetId destroyMsg) uw;
         w2 \<leftarrow> HandleServerToClientUserMessage E ctx (uw_world uw1);
         w3 \<leftarrow> remove_entity_channel (destroy_NetId destroyMsg) w2;
         Some (uw1\<lparr>uw_world := w3\<rparr>)
       })
   | _ \<Rightarrow> only_log ctx uw)"

subsection \<open>Entities that a spatial server owns\<close>

text \<open>The callback reads the object of the entity's data when it runs; data that has no object is a panic
there.\<close>

definition handleEntityChannelSpatiallyOwned :: "UnrealEnv \<Rightarrow> ChanPtr \<Rightarrow> ChanPtr \<Rightarrow> World \<Rightarrow> World option" where
  "handleEntityChannelSpatiallyOwned U entityCh spatialCh w =
     (case Option.bind (GetDataMessage w entityCh) (u_objRef U) of
        None \<Rightarrow> Some w
      | Some _ \<Rightarrow> Execute spatialCh (H_User (u_number U (CallAddOwned entityCh))) w)"

subsection \<open>Running the functions\<close>

text \<open>The functions by their number, each in the goroutine of the channel \<open>ch\<close>.\<close>

definition set_entity_ref :: "UnrealEnv \<Rightarrow> ChanPtr \<Rightarrow> UnrealObjectRef \<Rightarrow> World \<Rightarrow> World" where
  "set_entity_ref U ch obj w = (case Option.bind (GetDataMessage w ch) (u_setObjRef U obj) of
     None \<Rightarrow> w
   | Some m \<Rightarrow> set_message ch m w)"

definition run_call ::
  "UnrealEnv \<Rightarrow> Externs \<Rightarrow> ChanPtr \<Rightarrow> UnrealCall \<Rightarrow> MessageContext \<Rightarrow> UnrealWorld \<Rightarrow> UnrealWorld option" where
  "run_call U E ch call ctx uw = (case call of
     CallSpawn \<Rightarrow> handleUnrealSpawnObject U E ctx uw
   | CallDestroy \<Rightarrow> handleUnrealDestroyObject U E ctx uw
   | CallAddEntity obj \<Rightarrow> map_option (\<lambda>w. uw\<lparr>uw_world := w\<rparr>) (addSpatialEntity U E ch (Some obj) (uw_world uw))
   | CallAddOwned entityCh \<Rightarrow> map_option (\<lambda>w. uw\<lparr>uw_world := w\<rparr>)
       (addSpatialEntity U E ch
          (case Option.bind (GetDataMessage (uw_world uw) entityCh) (u_objRef U) of None \<Rightarrow> None | Some r \<Rightarrow> r)
          (uw_world uw))
   | CallSetObjRef obj \<Rightarrow> Some (uw\<lparr>uw_world := set_entity_ref U ch obj (uw_world uw)\<rparr>))"

text \<open>The message types that \<open>InitMessageHandlers\<close> registers, beside the built-in ones.\<close>

definition UnrealMessageMap :: "UnrealEnv \<Rightarrow> MessageType \<Rightarrow> Handler option" where
  "UnrealMessageMap U t =
     (if t = 103 then Some (H_User (u_number U CallSpawn))
      else if t = 104 then Some (H_User (u_number U CallDestroy))
      else MessageMap t)"

definition run_unreal ::
  "UnrealEnv \<Rightarrow> Externs \<Rightarrow> ChanPtr \<Rightarrow> Handler \<Rightarrow> MessageContext \<Rightarrow> UnrealWorld \<Rightarrow> UnrealWorld option" where
  "run_unreal U E ch h ctx uw = (case (case h of H_User n \<Rightarrow> u_call U n | _ \<Rightarrow> None) of
     Some call \<Rightarrow> run_call U E ch call ctx uw
   | None \<Rightarrow> map_option (\<lambda>w. uw\<lparr>uw_world := w\<rparr>) (run_handler E h ctx (uw_world uw)))"

text \<open>One message of the queue of a channel, as in \<open>handle_message\<close>.\<close>

definition unreal_turn :: "UnrealEnv \<Rightarrow> Externs \<Rightarrow> ChanPtr \<Rightarrow> UnrealWorld \<Rightarrow> UnrealWorld option" where
  "unreal_turn U E ch uw = (case ch_inMsgQueue (w_chan (uw_world uw) ch) of
     [] \<Rightarrow> Some uw
   | cm # rest \<Rightarrow>
       (let uw1 = uw\<lparr>uw_world := upd_chan ch (\<lambda>c. c\<lparr>ch_inMsgQueue := rest\<rparr>) (uw_world uw)\<rparr> in
        if x_Msg (cm_ctx cm) \<noteq> NilMsg \<and> x_Connection (cm_ctx cm) = NilIface then Some uw1
        else run_unreal U E ch (cm_handler cm) (cm_ctx cm) uw1))"

subsection \<open>What the operations leave alone\<close>

lemma set_message_frame [simp]:
  "w_conn (set_message ch m w) = w_conn w" "w_allChannels (set_message ch m w) = w_allChannels w"
  "w_settings (set_message ch m w) = w_settings w" "w_globalChannel (set_message ch m w) = w_globalChannel w"
  "GetChannel (set_message ch m w) i = GetChannel w i" "IsRemoving (set_message ch m w) c = IsRemoving w c"
  by (simp_all add: set_message_def GetChannel_def IsRemoving_def)

lemma set_message_data:
  assumes "GetDataMessage w ch \<noteq> None"
  shows "GetDataMessage (set_message ch m w) c = (if c = ch then Some m else GetDataMessage w c)"
  using assms by (auto simp: GetDataMessage_def set_message_def split: option.splits)

lemma adjacent_one_chan: "adjacent_one E ctx i r w = Some w' \<Longrightarrow> w_chan w' = w_chan w \<and> w_allChannels w' = w_allChannels w"
  by (auto simp: adjacent_one_def bind_eq_Some_conv world_Send_def split: if_splits)

lemma broadcast_one_chan: "broadcast_one E ch ctx r w = Some w' \<Longrightarrow> w_chan w' = w_chan w \<and> w_allChannels w' = w_allChannels w"
  by (auto simp: broadcast_one_def bind_eq_Some_conv world_Send_def split: if_splits)

lemma for_each_chan:
  assumes "\<And>x w w'. f x w = Some w' \<Longrightarrow> w_chan w' = w_chan w \<and> w_allChannels w' = w_allChannels w"
  shows "for_each f xs w = Some w' \<Longrightarrow> w_chan w' = w_chan w \<and> w_allChannels w' = w_allChannels w"
  using assms by (induction xs arbitrary: w) (auto simp: bind_eq_Some_conv)

text \<open>Forwarding a message only writes to the send queues of connections.\<close>

lemma forward_chan:
  assumes "HandleServerToClientUserMessage E ctx w = Some w'"
  shows "w_chan w' = w_chan w" and "w_allChannels w' = w_allChannels w"
proof -
  have a: "w_chan v' = w_chan v \<and> w_allChannels v' = w_allChannels v" if "broadcast_adjacent E ch ctx i v = Some v'" for ch i v v'
  proof -
    from that consider "v' = v" | ids where "for_each (adjacent_one E ctx i) ids v = Some v'"
      by (fastforce simp: broadcast_adjacent_def bind_eq_Some_conv split: if_splits option.splits)
    then show ?thesis
    proof cases
      case 2
      then show ?thesis by (rule for_each_chan [rotated]) (rule adjacent_one_chan)
    qed simp
  qed
  have b: "w_chan v' = w_chan v \<and> w_allChannels v' = w_allChannels v" if "Broadcast E ch ctx v = Some v'" for ch v v'
    using that unfolding Broadcast_def by (rule for_each_chan [rotated]) (rule broadcast_one_chan)
  have c: "w_chan v' = w_chan v \<and> w_allChannels v' = w_allChannels v" if "SendToOwner E ch ctx v = Some (v', ok)" for ch v v' ok
    using that by (auto simp: SendToOwner_def bind_eq_Some_conv world_Send_def split: ConnRef.splits if_splits)
  have "w_chan w' = w_chan w \<and> w_allChannels w' = w_allChannels w"
    using assms by (cases "x_Msg ctx") (auto simp: HandleServerToClientUserMessage_def logs_def bind_eq_Some_conv
        world_Send_def split: if_splits option.splits dest: a b c)
  then show "w_chan w' = w_chan w" and "w_allChannels w' = w_allChannels w" by simp_all
qed

definition data_kept :: "World \<Rightarrow> World \<Rightarrow> bool" where
  "data_kept w w' \<longleftrightarrow> (\<forall>c. ch_data (w_chan w' c) = ch_data (w_chan w c) \<and>
     ch_channelType (w_chan w' c) = ch_channelType (w_chan w c))"

lemma data_kept_refl [simp]: "data_kept w w"
  by (simp add: data_kept_def)

lemma data_kept_trans [trans]: "data_kept a b \<Longrightarrow> data_kept b c \<Longrightarrow> data_kept a c"
  by (simp add: data_kept_def)

lemma remove_loop_data: "remove_loop t ch es w = Some w' \<Longrightarrow> data_kept w w'"
proof (induction t ch es w rule: remove_loop.induct)
  case (2 t ch e es w)
  then obtain ec g w2 where g: "ch_entityController (w_chan w ch) = Some ec" "get_group t ec = Some g"
    and w2: "(case GetChannel (upd_group g (removeAll e) w) e of
        None \<Rightarrow> Some (upd_group g (removeAll e) w)
      | Some ech \<Rightarrow>
          (if ch_entityController (w_chan (upd_group g (removeAll e) w) ech) = None then None
           else case newEntityGroup (upd_group g (removeAll e) w) of (w', g') \<Rightarrow> Some (set_group t g' ech w'))) = Some w2"
    and r: "remove_loop t ch es w2 = Some w'"
    by (auto simp: bind_Some_iff Let_def)
  have "data_kept w w2"
    using w2 by (auto simp: newEntityGroup_def Let_def data_kept_def set_group_def split: option.splits if_splits)
  also have "data_kept w2 w'" using 2(1) g w2 r by (simp add: Let_def)
  finally show ?case .
qed simp

lemma RemoveFromGroup_data: "RemoveFromGroup t es ch w = Some (w', ok) \<Longrightarrow> data_kept w w'"
  by (auto simp: RemoveFromGroup_def bind_Some_iff split: if_splits option.splits intro: remove_loop_data)

lemma Uninitialize_data: "Uninitialize ch w = Some w' \<Longrightarrow> data_kept w w'"
  by (auto simp: Uninitialize_def bind_Some_iff split: if_splits dest!: RemoveFromGroup_data intro: data_kept_trans)

lemma RemoveChannel_data:
  assumes "RemoveChannel ch w = Some w'"
  shows "data_kept w w'"
proof -
  from assms obtain w2 where u: "unregister_channel ch w2 = Some w'" and "data_kept w w2"
    by (auto simp: RemoveChannel_def Let_def bind_Some_iff split: if_splits dest!: Uninitialize_data)
      (auto simp: data_kept_def)
  moreover have "data_kept w2 w'" using unregister_channel_result(2) [OF u] by (simp add: data_kept_def)
  ultimately show ?thesis by (meson data_kept_trans)
qed

subsection \<open>Spawning: what happens\<close>

definition entity_at :: "UnrealEnv \<Rightarrow> World \<Rightarrow> ChanPtr \<Rightarrow> uint32 \<Rightarrow> SpatialEntityState option" where
  "entity_at U w ch i = (case Option.bind (GetDataMessage w ch) (u_spatial U) of None \<Rightarrow> None | Some d \<Rightarrow> get_entity i d)"

definition keeps_entities :: "UnrealEnv \<Rightarrow> World \<Rightarrow> ChanPtr \<Rightarrow> bool" where
  "keeps_entities U w ch \<longleftrightarrow> ch_channelType (w_chan w ch) = ChannelType_SPATIAL \<and>
     (\<exists>d. Option.bind (GetDataMessage w ch) (u_spatial U) = Some d \<and> sd_Entities d \<noteq> None)"

lemma unreal_env_okD [simp]:
  "unreal_env_ok U \<Longrightarrow> u_spatial U (u_ofSpatial U d) = Some d" "unreal_env_ok U \<Longrightarrow> u_call U (u_number U c) = Some c"
  by (simp_all add: unreal_env_ok_def)

lemma addSpatialEntity_result:
  assumes "unreal_env_ok U" and "keeps_entities U w ch" and "or_NetGUID obj = Some i"
  obtains m where "addSpatialEntity U E ch (Some obj) w = Some (set_message ch m w)"
    and "entity_at U (set_message ch m w) ch =
      (entity_at U w ch)(i \<mapsto> \<lparr>se_ObjRef = Some (copy_objref E obj), se_Removed = False, se_EntityData = None\<rparr>)"
    and "keeps_entities U (set_message ch m w) ch"
proof -
  let ?st = "\<lparr>se_ObjRef = Some (copy_objref E obj), se_Removed = False, se_EntityData = None\<rparr>"
  from assms(2) obtain m0 d es where d: "GetDataMessage w ch = Some m0" "u_spatial U m0 = Some d" "sd_Entities d = Some es"
    and t: "ch_channelType (w_chan w ch) = ChannelType_SPATIAL"
    by (auto simp: keeps_entities_def bind_eq_Some_conv)
  let ?d' = "d\<lparr>sd_Entities := Some (es(i \<mapsto> ?st))\<rparr>"
  have p: "put_entity i ?st d = Some ?d'" using d(3) by (simp add: put_entity_def)
  have g: "GetDataMessage (set_message ch (u_ofSpatial U ?d') w) ch = Some (u_ofSpatial U ?d')"
    using d(1) by (simp add: set_message_data)
  have t': "ch_channelType (w_chan (set_message ch (u_ofSpatial U ?d') w) ch) = ChannelType_SPATIAL"
    using t by (simp add: set_message_def)
  show thesis
  proof (rule that)
    show "addSpatialEntity U E ch (Some obj) w = Some (set_message ch (u_ofSpatial U ?d') w)"
      using d(1,2) t assms(3) p by (simp add: addSpatialEntity_def)
    show "entity_at U (set_message ch (u_ofSpatial U ?d') w) ch = (entity_at U w ch)(i \<mapsto> ?st)"
      using d assms(1) by (auto simp: entity_at_def g get_entity_def)
    show "keeps_entities U (set_message ch (u_ofSpatial U ?d') w) ch"
      using g t' assms(1) by (simp add: keeps_entities_def)
  qed
qed

lemma entity_at_queue [simp]:
  "GetDataMessage (upd_chan c (\<lambda>x. x\<lparr>ch_inMsgQueue := f x\<rparr>) w) ch = GetDataMessage w ch"
  "entity_at U (upd_chan c (\<lambda>x. x\<lparr>ch_inMsgQueue := f x\<rparr>) w) ch i = entity_at U w ch i"
  "keeps_entities U (upd_chan c (\<lambda>x. x\<lparr>ch_inMsgQueue := f x\<rparr>) w) ch = keeps_entities U w ch"
  "GetChannel (upd_chan c (\<lambda>x. x\<lparr>ch_inMsgQueue := f x\<rparr>) w) k = GetChannel w k"
  "IsRemoving (upd_chan c (\<lambda>x. x\<lparr>ch_inMsgQueue := f x\<rparr>) w) ch = IsRemoving w ch"
  by (simp_all add: GetDataMessage_def entity_at_def keeps_entities_def GetChannel_def IsRemoving_def)

text \<open>A well-formed spawn message for the object \<open>obj\<close> with the identifier \<open>i\<close>.\<close>

definition spawn_message ::
  "UnrealEnv \<Rightarrow> MessageContext \<Rightarrow> uint32 \<Rightarrow> SpawnObjectMessage \<Rightarrow> UnrealObjectRef \<Rightarrow> uint32 \<Rightarrow> uint32 \<Rightarrow> bool" where
  "spawn_message U ctx clientConnId s obj i oldChId \<longleftrightarrow>
     (\<exists>payload. x_Msg ctx = ServerForwardMessage clientConnId payload \<and> u_unmarshalSpawn U payload = Some s) \<and>
     spawn_Obj s = Some obj \<and> or_NetGUID obj = Some i \<and> i \<noteq> 0 \<and> spawn_ChannelId s = Some oldChId"

lemma spawn_message_handled:
  "spawn_message U ctx cid s obj i old \<Longrightarrow> handleUnrealSpawnObject U E ctx uw = spawn_object U E ctx cid s obj i uw"
  by (auto simp: spawn_message_def handleUnrealSpawnObject_def)


subsection \<open>The objects kept for recovery\<close>

definition exts_kept :: "World \<Rightarrow> World \<Rightarrow> bool" where
  "exts_kept w w' \<longleftrightarrow> (\<forall>c. ch_channelType (w_chan w' c) = ch_channelType (w_chan w c) \<and>
     map_option d_extension (ch_data (w_chan w' c)) = map_option d_extension (ch_data (w_chan w c)))"

named_theorems exts

lemma exts_kept_refl [simp]: "exts_kept w w"
  by (simp add: exts_kept_def)

lemma exts_kept_trans [trans]: "exts_kept a b \<Longrightarrow> exts_kept b c \<Longrightarrow> exts_kept a c"
  by (simp add: exts_kept_def)

lemma exts_forward [exts]: "HandleServerToClientUserMessage E ctx w = Some w' \<Longrightarrow> exts_kept w w'"
  using forward_chan by (simp add: exts_kept_def)

lemma exts_remove [exts]: "remove_entity_channel i w = Some w' \<Longrightarrow> exts_kept w w'"
  by (auto simp: remove_entity_channel_def exts_kept_def data_kept_def split: option.splits dest!: RemoveChannel_data)

lemma exts_set_message [exts]: "exts_kept w (set_message ch m w)"
  by (simp add: exts_kept_def set_message_def option.map_comp comp_def)

lemma exts_entities [exts]:
  "addSpatialEntity U E ch r w = Some w' \<Longrightarrow> exts_kept w w'"
  "exts_kept w (removeSpatialEntity U ch i w)" "exts_kept w (set_entity_ref U ch obj w)"
  by (auto simp: addSpatialEntity_def removeSpatialEntity_def set_entity_ref_def bind_eq_Some_conv
      split: if_splits option.splits intro: exts)

lemma exts_put [exts]:
  "Execute ch h w = Some w' \<Longrightarrow> exts_kept w w'" "PutMessageContext ch ctx h w = Some w' \<Longrightarrow> exts_kept w w'"
  by (auto simp: Execute_def PutMessageContext_def put_queue_def exts_kept_def split: if_splits)

lemma exts_logs [exts]: "logs ctx w = Some w' \<Longrightarrow> exts_kept w w'"
  by (auto simp: logs_def bind_eq_Some_conv)

lemma exts_tell [exts]: "tell_entity U i obj w = Some w' \<Longrightarrow> exts_kept w w'"
  by (auto simp: tell_entity_def split: option.splits intro: exts)

lemma exts_located [exts]:
  assumes "spawn_located U E ctx cid s obj old loc w = Some (w', b)"
  shows "exts_kept w w'"
proof -
  have m: "exts_kept w v" if "move_spawn U ctx cid p new obj w = Some v" for p new v
    using that by (auto simp: move_spawn_def bind_eq_Some_conv split: option.splits intro: exts exts_kept_trans)
  obtain sp where sp: "ex_spatial E = Some sp" using assms by (auto simp: spawn_located_def bind_eq_Some_conv)
  obtain new ok where new: "sp_GetChannelId sp w (ToSpatialInfo loc) = (new, ok)" by (cases "sp_GetChannelId sp w (ToSpatialInfo loc)")
  show ?thesis
    using assms sp new by (auto simp: spawn_located_def bind_eq_Some_conv split: if_splits intro: exts m)
      (meson exts exts_kept_trans)
qed

text \<open>Has the channel an extension that keeps objects?\<close>

definition keeps_objects :: "UnrealEnv \<Rightarrow> ChanPtr \<Rightarrow> World \<Rightarrow> bool" where
  "keeps_objects U ch w \<longleftrightarrow> ch_channelType (w_chan w ch) \<in> {ChannelType_GLOBAL, ChannelType_SUBWORLD} \<and>
     map_option d_extension (ch_data (w_chan w ch)) = Some (Some (u_recoverable U))"

lemma keeps_objects_kept: "exts_kept w w' \<Longrightarrow> keeps_objects U ch w' = keeps_objects U ch w"
  by (simp add: keeps_objects_def exts_kept_def)

text \<open>What a call does to the objects of its channel: the object of a spawn without location is there, the
object of a destroy is not.\<close>

definition object_event :: "UnrealEnv \<Rightarrow> UnrealCall \<times> MessageContext \<Rightarrow> (uint32 \<times> UnrealObjectRef option) option" where
  "object_event U c = (case (fst c, x_Msg (snd c)) of
     (CallSpawn, ServerForwardMessage _ payload) \<Rightarrow> (case u_unmarshalSpawn U payload of
       None \<Rightarrow> None
     | Some s \<Rightarrow> (case (spawn_Obj s, spawn_Location s) of
         (Some obj, None) \<Rightarrow> (case or_NetGUID obj of
           None \<Rightarrow> None
         | Some i \<Rightarrow> if i = 0 then None else Some (i, Some obj))
       | _ \<Rightarrow> None))
   | (CallDestroy, ServerForwardMessage _ payload) \<Rightarrow> map_option (\<lambda>d. (destroy_NetId d, None)) (u_unmarshalDestroy U payload)
   | _ \<Rightarrow> None)"

fun run_calls ::
  "UnrealEnv \<Rightarrow> Externs \<Rightarrow> ChanPtr \<Rightarrow> (UnrealCall \<times> MessageContext) list \<Rightarrow> UnrealWorld \<Rightarrow> UnrealWorld option" where
  "run_calls U E ch [] uw = Some uw"
| "run_calls U E ch (c # cs) uw = do { uw' \<leftarrow> run_call U E ch (fst c) (snd c) uw; run_calls U E ch cs uw' }"

definition objects_after :: "(uint32 \<times> UnrealObjectRef option) list \<Rightarrow> (uint32 \<rightharpoonup> UnrealObjectRef) \<Rightarrow> uint32 \<rightharpoonup> UnrealObjectRef" where
  "objects_after events m = fold (\<lambda>(i, r) m. m(i := r)) events m"

lemma only_log_same [simp]: "only_log ctx uw = Some uw' \<Longrightarrow> uw' = uw"
  by (auto simp: only_log_def logs_def bind_eq_Some_conv)

lemma spawn_call_objects:
  assumes "keeps_objects U ch (uw_world uw)" and "x_Channel ctx = Some ch"
    and "handleUnrealSpawnObject U E ctx uw = Some uw'"
  shows "exts_kept (uw_world uw) (uw_world uw')"
    and "uw_spawned uw' ch = (case object_event U (CallSpawn, ctx) of None \<Rightarrow> uw_spawned uw ch
      | Some (i, r) \<Rightarrow> (uw_spawned uw ch)(i := r))"
proof -
  obtain d where d: "ch_data (w_chan (uw_world uw) ch) = Some d" "d_extension d = Some (u_recoverable U)"
    and t: "ch_channelType (w_chan (uw_world uw) ch) \<in> {ChannelType_GLOBAL, ChannelType_SUBWORLD}"
    using assms(1) by (auto simp: keeps_objects_def)
  have "exts_kept (uw_world uw) (uw_world uw') \<and>
    uw_spawned uw' ch = (case object_event U (CallSpawn, ctx) of None \<Rightarrow> uw_spawned uw ch
      | Some (i, r) \<Rightarrow> (uw_spawned uw ch)(i := r))"
  proof (cases "\<exists>cid s obj i old. spawn_message U ctx cid s obj i old")
    case True
    then obtain cid s obj i old where m: "spawn_message U ctx cid s obj i old" by blast
    have o: "spawn_object U E ctx cid s obj i uw = Some uw'" using assms(3) spawn_message_handled [OF m] by simp
    show ?thesis
    proof (cases "spawn_Location s")
      case None
      have h: "spawn_here U E ctx obj uw = Some uw1 \<Longrightarrow> exts_kept (uw_world uw) (uw_world uw1) \<and>
          uw_spawned uw1 ch = (uw_spawned uw ch)(i \<mapsto> obj)" for uw1
        using t d m assms(2) by (auto simp: spawn_here_def onSpawnObject_def bind_eq_Some_conv Let_def spawn_message_def
            dest!: exts_forward)
      have "object_event U (CallSpawn, ctx) = Some (i, Some obj)"
        using m None by (auto simp: object_event_def spawn_message_def)
      then show ?thesis
        using o None by (auto simp: spawn_object_def bind_eq_Some_conv dest!: h exts_tell) (meson exts_kept_trans)
    next
      case (Some loc)
      have "object_event U (CallSpawn, ctx) = None"
        using m Some by (auto simp: object_event_def spawn_message_def)
      then show ?thesis
        using o Some by (auto simp: spawn_object_def bind_eq_Some_conv split: if_splits dest!: exts_located exts_tell)
          (meson exts_kept_trans)
    qed
  next
    case False
    then have "uw' = uw \<and> object_event U (CallSpawn, ctx) = None"
      using assms(3)
      by (auto simp: handleUnrealSpawnObject_def spawn_message_def object_event_def spawn_object_def bind_eq_Some_conv
          split: Msg.splits option.splits if_splits)
    then show ?thesis by simp
  qed
  then show "exts_kept (uw_world uw) (uw_world uw')"
    and "uw_spawned uw' ch = (case object_event U (CallSpawn, ctx) of None \<Rightarrow> uw_spawned uw ch
      | Some (i, r) \<Rightarrow> (uw_spawned uw ch)(i := r))" by simp_all
qed

lemma destroy_call_objects:
  assumes "keeps_objects U ch (uw_world uw)" and "x_Channel ctx = Some ch"
    and "handleUnrealDestroyObject U E ctx uw = Some uw'"
  shows "exts_kept (uw_world uw) (uw_world uw')"
    and "uw_spawned uw' ch = (case object_event U (CallDestroy, ctx) of None \<Rightarrow> uw_spawned uw ch
      | Some (i, r) \<Rightarrow> (uw_spawned uw ch)(i := r))"
proof -
  obtain d where d: "ch_data (w_chan (uw_world uw) ch) = Some d" "d_extension d = Some (u_recoverable U)"
    and t: "ch_channelType (w_chan (uw_world uw) ch) \<in> {ChannelType_GLOBAL, ChannelType_SUBWORLD}"
    using assms(1) by (auto simp: keeps_objects_def)
  have h: "destroy_here U ch i uw = Some (uw\<lparr>uw_spawned := (uw_spawned uw)(ch := (uw_spawned uw ch)(i := None))\<rparr>)" for i
    using d t by (auto simp: destroy_here_def onDestroyObject_def Let_def)
  have "exts_kept (uw_world uw) (uw_world uw') \<and>
    uw_spawned uw' ch = (case object_event U (CallDestroy, ctx) of None \<Rightarrow> uw_spawned uw ch
      | Some (i, r) \<Rightarrow> (uw_spawned uw ch)(i := r))"
    using assms(2,3)
    by (auto simp: handleUnrealDestroyObject_def object_event_def h bind_eq_Some_conv
        split: Msg.split_asm option.split_asm dest!: exts_forward exts_remove only_log_same) (meson exts_kept_trans)
  then show "exts_kept (uw_world uw) (uw_world uw')"
    and "uw_spawned uw' ch = (case object_event U (CallDestroy, ctx) of None \<Rightarrow> uw_spawned uw ch
      | Some (i, r) \<Rightarrow> (uw_spawned uw ch)(i := r))" by simp_all
qed

lemma call_objects:
  assumes "keeps_objects U ch (uw_world uw)" and "x_Channel ctx = Some ch" and "run_call U E ch call ctx uw = Some uw'"
  shows "exts_kept (uw_world uw) (uw_world uw')"
    and "uw_spawned uw' ch = (case object_event U (call, ctx) of None \<Rightarrow> uw_spawned uw ch
      | Some (i, r) \<Rightarrow> (uw_spawned uw ch)(i := r))"
  using assms spawn_call_objects [OF assms(1,2)] destroy_call_objects [OF assms(1,2)]
  by (cases call; auto simp: run_call_def object_event_def intro: exts)+

text \<open>
  C26. What a connection that recovers is sent of a global or subworld channel: after any sequence of spawns,
  destroys and other calls that the channel handles, its objects are those of the abstract map in which each
  spawn enters its object and each destroy takes one out; spawns with a location and messages that do not
  parse leave it alone.
\<close>

theorem recovery_data_correct:
  assumes "keeps_objects U ch (uw_world uw)" and "\<forall>c \<in> set calls. x_Channel (snd c) = Some ch"
    and "run_calls U E ch calls uw = Some uw'"
  shows "GetRecoveryDataMessage ch uw' =
    objects_after (List.map_filter (object_event U) calls) (GetRecoveryDataMessage ch uw)"
  using assms
proof (induction calls arbitrary: uw)
  case Nil
  then show ?case by (simp add: objects_after_def List.map_filter_def)
next
  case (Cons c calls)
  then obtain uw1 where uw1: "run_call U E ch (fst c) (snd c) uw = Some uw1" "run_calls U E ch calls uw1 = Some uw'"
    by (auto simp: bind_eq_Some_conv)
  have x: "x_Channel (snd c) = Some ch" using Cons.prems(2) by simp
  note step = call_objects [OF Cons.prems(1) x uw1(1)]
  have "keeps_objects U ch (uw_world uw1)" using Cons.prems(1) keeps_objects_kept [OF step(1)] by simp
  with Cons.IH [OF _ _ uw1(2)] Cons.prems(2) step(2) show ?case
    by (cases "object_event U c") (auto simp: GetRecoveryDataMessage_def objects_after_def List.map_filter_def)
qed

subsection \<open>Destroying: what happens\<close>

lemma GetChannel_remove_entity:
  assumes "alist_ok (w_allChannels w)" and "\<And>j c. GetChannel w j = Some c \<Longrightarrow> ch_id (w_chan w c) = j"
    and "remove_entity_channel i w = Some w'"
  shows "GetChannel w' = (GetChannel w)(i := None)"
proof (cases "GetChannel w i")
  case None
  then show ?thesis using assms(3) by (auto simp: remove_entity_channel_def)
next
  case (Some c)
  then have "RemoveChannel c w = Some w'" using assms(3) by (simp add: remove_entity_channel_def)
  then obtain w2 where s: "same_registry w w2" and u: "unregister_channel c w2 = Some w'" by (rule RemoveChannel_result)
  have "w_allChannels w' = AList.delete i (w_allChannels w)"
    using unregister_channel_result(1) [OF u] s assms(2) [OF Some] by (simp add: same_registry_def)
  then show ?thesis by (auto simp: GetChannel_def delete_conv fun_eq_iff)
qed

text \<open>
  Whoever sends it, and whatever channel it is handled in: after a destroy message that the handler
  gets through, no channel has the identifier it names, be it of an entity, a spatial cell or the global
  channel itself; every other channel stays registered, and the channel that handled it neither lists the object
  among its entities nor among those it keeps for recovery.
\<close>

theorem destroy_removes_any_channel:
  assumes "x_Msg ctx = ServerForwardMessage cid payload" and "u_unmarshalDestroy U payload = Some m"
    and "x_Channel ctx = Some ch" and "unreal_env_ok U" and "registry_wf (uw_world uw)"
    and "handleUnrealDestroyObject U E ctx uw = Some uw'"
  shows "GetChannel (uw_world uw') = (GetChannel (uw_world uw))(destroy_NetId m := None) \<and>
    (keeps_entities U (uw_world uw) ch \<longrightarrow> entity_at U (uw_world uw') ch = (entity_at U (uw_world uw) ch)(destroy_NetId m := None)) \<and>
    (keeps_objects U ch (uw_world uw) \<longrightarrow>
       GetRecoveryDataMessage ch uw' = (GetRecoveryDataMessage ch uw)(destroy_NetId m := None))"
proof -
  let ?i = "destroy_NetId m"
  from assms(1-3,6) obtain uw1 w2 w3 where uw1: "destroy_here U ch ?i uw = Some uw1"
    and w2: "HandleServerToClientUserMessage E ctx (uw_world uw1) = Some w2"
    and w3: "remove_entity_channel ?i w2 = Some w3" and uw': "uw' = uw1\<lparr>uw_world := w3\<rparr>"
    by (auto simp: handleUnrealDestroyObject_def bind_eq_Some_conv)
  have reg: "w_allChannels (uw_world uw1) = w_allChannels (uw_world uw) \<and>
      (\<forall>c. ch_id (w_chan (uw_world uw1) c) = ch_id (w_chan (uw_world uw) c))"
    using uw1 by (auto simp: destroy_here_def onDestroyObject_def removeSpatialEntity_def set_message_def Let_def
        bind_eq_Some_conv split: if_splits option.splits)
  have wf: "alist_ok (w_allChannels (uw_world uw))" "\<And>j c. GetChannel (uw_world uw) j = Some c \<Longrightarrow> ch_id (w_chan (uw_world uw) c) = j"
    using assms(5) by (auto simp: registry_wf_def GetChannel_def)
  have w2': "w_allChannels w2 = w_allChannels (uw_world uw)" "w_chan w2 = w_chan (uw_world uw1)"
    using forward_chan [OF w2] reg by simp_all
  have g: "GetChannel w3 = (GetChannel (uw_world uw))(?i := None)"
  proof -
    have "GetChannel w2 = GetChannel (uw_world uw)" using w2' by (simp add: GetChannel_def fun_eq_iff)
    moreover have "GetChannel w3 = (GetChannel w2)(?i := None)"
      by (rule GetChannel_remove_entity [OF _ _ w3]) (use w2' reg wf in \<open>auto simp: GetChannel_def\<close>)
    ultimately show ?thesis by simp
  qed
  have d: "data_kept w2 w3" using w3 by (auto simp: remove_entity_channel_def split: option.splits dest: RemoveChannel_data)
  have e: "entity_at U w3 ch = (entity_at U (uw_world uw) ch)(?i := None)" if k: "keeps_entities U (uw_world uw) ch"
  proof -
    from k obtain m0 sd where sd: "GetDataMessage (uw_world uw) ch = Some m0" "u_spatial U m0 = Some sd"
      and t: "ch_channelType (w_chan (uw_world uw) ch) = ChannelType_SPATIAL"
      by (auto simp: keeps_entities_def bind_eq_Some_conv)
    have "uw_world uw1 = set_message ch (u_ofSpatial U (del_entity ?i sd)) (uw_world uw)"
      using uw1 sd t by (auto simp: destroy_here_def removeSpatialEntity_def Let_def)
    moreover have "GetDataMessage w3 ch = GetDataMessage (uw_world uw1) ch"
      using d w2'(2) by (simp add: data_kept_def GetDataMessage_def)
    ultimately have "GetDataMessage w3 ch = Some (u_ofSpatial U (del_entity ?i sd))"
      using sd(1) by (simp add: set_message_data)
    then show ?thesis using sd assms(4) by (auto simp: entity_at_def fun_eq_iff)
  qed
  have o: "GetRecoveryDataMessage ch uw' = (GetRecoveryDataMessage ch uw)(?i := None)" if "keeps_objects U ch (uw_world uw)"
    using destroy_call_objects(2) [OF that assms(3,6)] assms(1,2)
    by (simp add: object_event_def GetRecoveryDataMessage_def)
  show ?thesis using g e o by (simp add: uw')
qed

text \<open>
  A spawn message that names no channel is a panic, and so is one without location in a global or
  subworld channel that has no data yet.
\<close>

theorem unreal_panics:
  assumes "x_Msg ctx = ServerForwardMessage cid payload" and "u_unmarshalSpawn U payload = Some s"
    and "spawn_Obj s = Some obj" and "or_NetGUID obj = Some i" and "i \<noteq> 0" and "x_Channel ctx = Some ch"
  shows "(spawn_ChannelId s = None \<longrightarrow> handleUnrealSpawnObject U E ctx uw = None) \<and>
    (spawn_Location s = None \<and> ch_channelType (w_chan (uw_world uw) ch) \<in> {ChannelType_GLOBAL, ChannelType_SUBWORLD} \<and>
       ch_data (w_chan (uw_world uw) ch) = None \<longrightarrow> handleUnrealSpawnObject U E ctx uw = None)"
proof (intro conjI impI)
  assume "spawn_ChannelId s = None"
  then show "handleUnrealSpawnObject U E ctx uw = None"
    using assms by (simp add: handleUnrealSpawnObject_def spawn_object_def)
next
  assume a: "spawn_Location s = None \<and> ch_channelType (w_chan (uw_world uw) ch) \<in> {ChannelType_GLOBAL, ChannelType_SUBWORLD} \<and>
    ch_data (w_chan (uw_world uw) ch) = None"
  then show "handleUnrealSpawnObject U E ctx uw = None"
    using assms by (cases "spawn_ChannelId s")
      (auto simp: handleUnrealSpawnObject_def spawn_object_def spawn_here_def onSpawnObject_def Let_def)
qed

text \<open>An entity whose data has no reference is still handed to its spatial channel, which panics on it.\<close>

lemma owned_without_reference_panics:
  assumes "unreal_env_ok U" and "Option.bind (GetDataMessage (uw_world uw) e) (u_objRef U) = Some None"
    and "keeps_entities U (uw_world uw) ch" and "\<not> ch_inMsgQueueClosed (w_chan (uw_world uw) ch)"
    and "ch_inMsgQueue (w_chan (uw_world uw) ch) = []"
  shows "\<exists>w1. handleEntityChannelSpatiallyOwned U e ch (uw_world uw) = Some w1 \<and>
    unreal_turn U E ch (uw\<lparr>uw_world := w1\<rparr>) = None"
proof -
  let ?cm = "callback (H_User (u_number U (CallAddOwned e)))"
  let ?w = "upd_chan ch (\<lambda>c. c\<lparr>ch_inMsgQueue := [?cm]\<rparr>) (uw_world uw)"
  have h: "handleEntityChannelSpatiallyOwned U e ch (uw_world uw) = Some ?w"
    using assms(2,4,5) by (simp add: handleEntityChannelSpatiallyOwned_def Execute_def put_queue_def callback_def upd_chan_def)
  let ?w2 = "upd_chan ch (\<lambda>c. c\<lparr>ch_inMsgQueue := []\<rparr>) ?w"
  have "addSpatialEntity U E ch None ?w2 = None"
    using assms(3) entity_at_queue(3) by (auto simp: addSpatialEntity_def keeps_entities_def bind_eq_Some_conv)
  then have "unreal_turn U E ch (uw\<lparr>uw_world := ?w\<rparr>) = None"
    using assms(1,2) by (simp add: unreal_turn_def callback_def empty_ctx_def run_unreal_def run_call_def)
  with h show ?thesis by blast
qed

subsection \<open>The extension keeps the laws of the gateway\<close>

lemma advances_set_message [adv]: "advances w0 w \<Longrightarrow> advances w0 (set_message ch m w)"
  unfolding set_message_def by (rule advances_chan_data)

lemma advances_spatial_entity [adv]:
  "addSpatialEntity U E ch r w = Some w' \<Longrightarrow> advances w0 w \<Longrightarrow> advances w0 w'"
  "advances w0 w \<Longrightarrow> advances w0 (removeSpatialEntity U ch i w)" "advances w0 w \<Longrightarrow> advances w0 (set_entity_ref U ch obj w)"
  by (auto simp: addSpatialEntity_def removeSpatialEntity_def set_entity_ref_def bind_eq_Some_conv
      split: if_splits option.splits intro: adv)

lemma advances_tell_entity [adv]: "tell_entity U i obj w = Some w' \<Longrightarrow> advances w0 w \<Longrightarrow> advances w0 w'"
  by (auto simp: tell_entity_def split: option.splits intro: advances_put)

lemma advances_located [adv]:
  assumes "spawn_located U E ctx cid s obj old loc w = Some (w', b)" and "advances w0 w"
  shows "advances w0 w'"
proof -
  have m: "advances w0 v" if "move_spawn U ctx cid p new obj w = Some v" for p new v
    using that assms(2) by (auto simp: move_spawn_def bind_eq_Some_conv split: option.splits
        intro: advances_logs advances_put)
  obtain sp where sp: "ex_spatial E = Some sp" using assms by (auto simp: spawn_located_def bind_eq_Some_conv)
  obtain new ok where new: "sp_GetChannelId sp w (ToSpatialInfo loc) = (new, ok)" by (cases "sp_GetChannelId sp w (ToSpatialInfo loc)")
  show ?thesis
    using assms sp new by (auto simp: spawn_located_def bind_eq_Some_conv split: if_splits
        intro: m advances_ServerToClient advances_spatial_entity)
qed

lemma advances_spawn_handler [adv]:
  assumes "handleUnrealSpawnObject U E ctx uw = Some uw'" and "advances w0 (uw_world uw)"
  shows "advances w0 (uw_world uw')"
proof (cases "\<exists>cid s obj i. spawn_object U E ctx cid s obj i uw = Some uw'")
  case True
  then obtain cid s obj i where o: "spawn_object U E ctx cid s obj i uw = Some uw'" by blast
  have h: "advances w0 (uw_world uw1)" if "spawn_here U E ctx obj uw = Some uw1" for uw1
    using that assms(2) by (auto simp: spawn_here_def onSpawnObject_def bind_eq_Some_conv Let_def split: if_splits
        intro: advances_ServerToClient advances_spatial_entity)
  show ?thesis
    using o assms(2) by (auto simp: spawn_object_def bind_eq_Some_conv split: option.splits if_splits
        intro: h advances_tell_entity) (meson advances_located advances_tell_entity)+
next
  case False
  then have "only_log ctx uw = Some uw'"
    using assms(1) by (auto simp: handleUnrealSpawnObject_def split: Msg.splits option.splits if_splits)
  then show ?thesis using assms(2) only_log_same by blast
qed

lemma advances_remove_entity_channel [adv]:
  assumes "remove_entity_channel i w = Some w'" and "advances w0 w"
  shows "advances w0 w'"
  using assms advances_RemoveChannel [OF _ assms(2)]
  by (auto simp: remove_entity_channel_def registry_wf_def GetChannel_def split: option.splits)

lemma advances_destroy_handler [adv]:
  assumes "handleUnrealDestroyObject U E ctx uw = Some uw'" and "advances w0 (uw_world uw)"
  shows "advances w0 (uw_world uw')"
proof (cases "x_Msg ctx")
  case (ServerForwardMessage cid payload)
  have h: "advances w0 (uw_world uw1)" if "destroy_here U ch i uw = Some uw1" for ch i uw1
    using that assms(2) by (auto simp: destroy_here_def onDestroyObject_def bind_eq_Some_conv Let_def split: if_splits
        intro: advances_spatial_entity)
  show ?thesis
  proof (cases "u_unmarshalDestroy U payload")
    case (Some m)
    with assms(1) ServerForwardMessage obtain ch uw1 w2 w3 where "destroy_here U ch (destroy_NetId m) uw = Some uw1"
      "HandleServerToClientUserMessage E ctx (uw_world uw1) = Some w2" "remove_entity_channel (destroy_NetId m) w2 = Some w3"
      "uw' = uw1\<lparr>uw_world := w3\<rparr>"
      by (auto simp: handleUnrealDestroyObject_def bind_eq_Some_conv)
    then show ?thesis using h advances_ServerToClient advances_remove_entity_channel by (metis UnrealWorld.select_convs(1) UnrealWorld.surjective UnrealWorld.update_convs(1))
  qed (use assms ServerForwardMessage in \<open>auto simp: handleUnrealDestroyObject_def dest!: only_log_same\<close>)
qed (use assms in \<open>auto simp: handleUnrealDestroyObject_def dest!: only_log_same\<close>)

lemma advances_run_call [adv]:
  "run_call U E ch call ctx uw = Some uw' \<Longrightarrow> advances w0 (uw_world uw) \<Longrightarrow> advances w0 (uw_world uw')"
  by (cases call) (auto simp: run_call_def intro: advances_spawn_handler advances_destroy_handler advances_spatial_entity)

context gateway_env
begin

lemma unreal_handlers:
  assumes "run_unreal U E ch h ctx uw = Some uw'" and "advances w0 (uw_world uw)" and "ready (w_settings w0)"
  shows "advances w0 (uw_world uw')"
  using assms by (auto simp: run_unreal_def split: option.split_asm intro: advances_run_call handlers)

lemma unreal_turns:
  assumes "unreal_turn U E ch uw = Some uw'" and "ready (w_settings (uw_world uw))" and "ch < w_nchan (uw_world uw)"
  shows "progress (uw_world uw) (uw_world uw')"
proof -
  have pop: "progress (uw_world uw) (upd_chan ch (\<lambda>c. c\<lparr>ch_inMsgQueue := q\<rparr>) (uw_world uw))" for q
    by (auto simp: progress_def chan_grows_def registry_wf_def)
  have run: "progress (uw_world uw) (uw_world uw')"
    if "run_unreal U E ch h ctx (uw\<lparr>uw_world := upd_chan ch (\<lambda>c. c\<lparr>ch_inMsgQueue := q\<rparr>) (uw_world uw)\<rparr>) = Some uw'" for h ctx q
  proof -
    let ?w = "upd_chan ch (\<lambda>c. c\<lparr>ch_inMsgQueue := q\<rparr>) (uw_world uw)"
    have "advances ?w (uw_world uw')" by (rule unreal_handlers [OF that]) (simp_all add: assms(2))
    then show ?thesis by (intro progress_trans [OF pop] advances_progress)
  qed
  show ?thesis
    using assms(1) by (auto simp: unreal_turn_def Let_def pop split: list.splits if_splits dest!: run)
qed

end

text \<open>
  Running the extension on the grid keeps what the gateway promises: in a turn of any channel, whatever
  function of the extension or of the gateway it runs, the settings stay, channels and connections keep identity and
  type, nothing that was removed or closed comes back, and the registry of channels stays well-formed.
\<close>

theorem unreal_keeps_gateway:
  assumes "grid_fits ctl (w_settings (uw_world uw))" and "ch < w_nchan (uw_world uw)"
    and "unreal_turn U (with_grid ctl E) ch uw = Some uw'"
  shows "progress (uw_world uw) (uw_world uw')"
  using assms(3,1,2) by (rule grid_env.unreal_turns)

subsection \<open>An environment for the examples\<close>

text \<open>The types that go into channel data have only countably many values, so that there is a faithful
representation of the data of a spatial channel as an opaque message.\<close>

instance PValue_ext :: (countable) countable
  by (rule countable_classI [of "\<lambda>x. to_nat (pv_repr x, pv_isMessage x, pv_removed x, PValue.more x)"])
    (simp add: PValue.equality)

instance PField :: countable
  by countable_datatype

instance DataMsg_ext :: (countable) countable
  by (rule countable_classI [of "\<lambda>x. to_nat (dm_type x, dm_fields x, DataMsg.more x)"]) (simp add: DataMsg.equality)

instance AnyMsg_ext :: (countable) countable
  by (rule countable_classI [of "\<lambda>x. to_nat (any_TypeUrl x, any_Value x, AnyMsg.more x)"]) (simp add: AnyMsg.equality)

instance UnrealObjectRef_ext :: (countable) countable
  by (rule countable_classI [of "\<lambda>x. to_nat (or_NetGUID x, or_others x, UnrealObjectRef.more x)"])
    (simp add: UnrealObjectRef.equality)

instance SpatialEntityState_ext :: (countable) countable
  by (rule countable_classI [of "\<lambda>x. to_nat (se_ObjRef x, se_Removed x, se_EntityData x, SpatialEntityState.more x)"])
    (simp add: SpatialEntityState.equality)

instance SpatialChannelData_ext :: (countable) countable
  by (rule countable_classI [of "\<lambda>x. to_nat (sd_Entities x, SpatialChannelData.more x)"]) (simp add: SpatialChannelData.equality)

instance UnrealCall :: countable
  by countable_datatype

definition demo_ofSpatial :: "SpatialChannelData \<Rightarrow> DataMsg" where
  "demo_ofSpatial d = \<lparr>dm_type = ''SpatialChannelData'',
     dm_fields = [(''entities'', FScalar \<lparr>pv_repr = int (to_nat d), pv_isMessage = False, pv_removed = None\<rparr>)]\<rparr>"

definition demo_spatial :: "DataMsg \<Rightarrow> SpatialChannelData option" where
  "demo_spatial m = (case dm_fields m of
     [(_, FScalar v)] \<Rightarrow> Some (from_nat (nat (pv_repr v)))
   | _ \<Rightarrow> None)"

text \<open>A spawn message is one byte: 1 for a tank at (30, 10) that names the first cell, 2 for one without
location, 3 for one that names no channel.  A destroy message is the identifier.\<close>

definition tank :: UnrealObjectRef where
  "tank = \<lparr>or_NetGUID = Some 0x90000, or_others = demo_part\<rparr>"

definition demo_spawn :: "byte list \<Rightarrow> SpawnObjectMessage option" where
  "demo_spawn bs =
     (if bs = [1] then Some \<lparr>spawn_Obj = Some tank, spawn_ChannelId = Some 0x10000,
        spawn_Location = Some \<lparr>v_X = Some (si_X (nc_newInfo handover_call)), v_Y = Some (si_Z (nc_newInfo handover_call)),
          v_Z = Some (si_Y (nc_newInfo handover_call))\<rparr>, spawn_others = demo_part\<rparr>
      else if bs = [2] then Some \<lparr>spawn_Obj = Some tank, spawn_ChannelId = Some 0, spawn_Location = None, spawn_others = demo_part\<rparr>
      else if bs = [3] then Some \<lparr>spawn_Obj = Some tank, spawn_ChannelId = None, spawn_Location = None, spawn_others = demo_part\<rparr>
      else None)"

definition demo_unreal :: UnrealEnv where
  "demo_unreal = \<lparr>u_unmarshalSpawn = demo_spawn, u_marshalSpawn = (\<lambda>s. Some [9]),
     u_unmarshalDestroy = (\<lambda>bs. case bs of [b] \<Rightarrow> Some \<lparr>destroy_NetId = ucast b, destroy_Reason = 0\<rparr> | _ \<Rightarrow> None),
     u_spatial = demo_spatial, u_ofSpatial = demo_ofSpatial, u_objRef = (\<lambda>m. Some None), u_setObjRef = (\<lambda>obj m. Some m),
     u_number = to_nat, u_call = (\<lambda>n. Some (from_nat n)), u_recoverable = 7\<rparr>"

lemma demo_unreal_ok: "unreal_env_ok demo_unreal"
  by (simp add: unreal_env_ok_def demo_unreal_def demo_spatial_def demo_ofSpatial_def)

text \<open>The two cells with empty data, and a global channel with the extension.\<close>

definition unreal_world :: World where
  "unreal_world = handover_world\<lparr>
     w_chan := (\<lambda>c. (w_chan handover_world c)\<lparr>
        ch_id := (if c = 3 then 0 else ch_id (w_chan handover_world c)),
        ch_channelType := (if c = 3 then ChannelType_GLOBAL else ch_channelType (w_chan handover_world c)),
        ch_data := (if c < 2 then Some (empty_data (Some (demo_ofSpatial (spatial_Init \<lparr>sd_Entities = None\<rparr>))) None)
          else Some ((empty_data None None)\<lparr>d_extension := Some 7\<rparr>))\<rparr>),
     w_nchan := 4, w_allChannels := [(0, 3), (0x10000, 0), (0x10001, 1), (0x80000, 2)], w_globalChannel := Some 3\<rparr>"

lemma unreal_world_facts:
  "w_settings unreal_world = default_settings" "GetChannel unreal_world 0x10001 = Some 1"
  "GetChannel unreal_world 0x90000 = None" "GetChannel unreal_world 0 = Some 3"
  "\<not> IsRemoving unreal_world c" "\<not> ch_inMsgQueueClosed (w_chan unreal_world c)"
  "ch_inMsgQueue (w_chan unreal_world c) = []" "w_nchan unreal_world = 4"
  "ch_channelType (w_chan unreal_world 3) = ChannelType_GLOBAL" "ch_ownerConnection (w_chan unreal_world 3) = Conn 0"
  "ch_data (w_chan unreal_world 3) = Some ((empty_data None None)\<lparr>d_extension := Some 7\<rparr>)"
  by (simp_all add: unreal_world_def handover_world_def demo_world_def GetChannel_def IsRemoving_def)

lemma unreal_world_cells:
  "keeps_entities demo_unreal unreal_world 1" "entity_at demo_unreal unreal_world 1 = Map.empty"
  by (auto simp: keeps_entities_def entity_at_def GetDataMessage_def unreal_world_def handover_world_def empty_data_def
      demo_unreal_def demo_spatial_def demo_ofSpatial_def spatial_Init_def get_entity_def fun_eq_iff)

lemma unreal_world_objects: "keeps_objects demo_unreal 3 unreal_world"
  by (simp add: keeps_objects_def unreal_world_facts demo_unreal_def)

lemma unreal_world_wf: "registry_wf unreal_world"
  by (auto simp: registry_wf_def unreal_world_def handover_world_def demo_world_def alist_ok_def id_fits_def
      settings_ok_def default_settings_def)

definition unreal_start :: UnrealWorld where
  "unreal_start = \<lparr>uw_world = unreal_world, uw_spawned = (\<lambda>_. Map.empty)\<rparr>"

definition unreal_ctx :: "nat \<Rightarrow> byte list \<Rightarrow> MessageContext" where
  "unreal_ctx ch bs = empty_ctx\<lparr>x_Msg := ServerForwardMessage 0 bs, x_Channel := Some ch, x_Connection := Conn 0\<rparr>"

lemma demo_forward:
  "ch_ownerConnection (w_chan w 3) = Conn 0 \<Longrightarrow> \<exists>w'. HandleServerToClientUserMessage E (unreal_ctx 3 bs) w = Some w'"
  by (simp add: HandleServerToClientUserMessage_def unreal_ctx_def empty_ctx_def logs_def SendToOwner_def GetOwner_def)


theorem recovery_data_correct_witness:
  "\<exists>uw'. run_calls demo_unreal demo_externs 3 [(CallSpawn, unreal_ctx 3 [2]), (CallDestroy, unreal_ctx 3 [5])] unreal_start = Some uw' \<and>
    GetRecoveryDataMessage 3 uw' = [0x90000 \<mapsto> tank]"
proof -
  let ?calls = "[(CallSpawn, unreal_ctx 3 [2]), (CallDestroy, unreal_ctx 3 [5])]"
  obtain w1 where w1: "HandleServerToClientUserMessage demo_externs (unreal_ctx 3 [2]) unreal_world = Some w1"
    using demo_forward by (metis unreal_world_facts(10))
  note k1 = forward_chan [OF w1]
  obtain w2 where w2: "HandleServerToClientUserMessage demo_externs (unreal_ctx 3 [5]) w1 = Some w2"
    using demo_forward by (metis k1(1) unreal_world_facts(10))
  note k2 = forward_chan [OF w2, unfolded k1]
  have g: "GetChannel w1 i = GetChannel unreal_world i" "GetChannel w2 i = GetChannel unreal_world i" for i
    using k1 k2 by (simp_all add: GetChannel_def)
  have "GetChannel unreal_world 5 = None" by (simp add: unreal_world_def GetChannel_def)
  then have "\<exists>uw'. run_calls demo_unreal demo_externs 3 ?calls unreal_start = Some uw'"
    using w1 w2 by (simp add: run_call_def handleUnrealSpawnObject_def handleUnrealDestroyObject_def unreal_ctx_def demo_unreal_def
        demo_spawn_def tank_def spawn_object_def spawn_here_def onSpawnObject_def Let_def unreal_start_def unreal_world_facts
        tell_entity_def destroy_here_def onDestroyObject_def remove_entity_channel_def k1 g)
  then obtain uw' where r: "run_calls demo_unreal demo_externs 3 ?calls unreal_start = Some uw'" by blast
  have "GetRecoveryDataMessage 3 uw' = objects_after (List.map_filter (object_event demo_unreal) ?calls)
      (GetRecoveryDataMessage 3 unreal_start)"
    by (rule recovery_data_correct [OF _ _ r]) (simp_all add: unreal_start_def unreal_world_objects unreal_ctx_def)
  also have "List.map_filter (object_event demo_unreal) ?calls = [(0x90000, Some tank), (5, None)]"
    by (simp add: List.map_filter_def object_event_def unreal_ctx_def demo_unreal_def demo_spawn_def tank_def)
  finally show ?thesis using r by (simp add: objects_after_def GetRecoveryDataMessage_def unreal_start_def fun_eq_iff)
qed

text \<open>A client sends a destroy message that names the global channel.\<close>

theorem destroy_removes_any_channel_witness:
  "\<exists>uw'. handleUnrealDestroyObject demo_unreal demo_externs (unreal_ctx 3 [0]) unreal_start = Some uw' \<and>
    GetChannel (uw_world uw') 0 = None"
proof -
  have "\<exists>uw'. handleUnrealDestroyObject demo_unreal demo_externs (unreal_ctx 3 [0]) unreal_start = Some uw'"
    by (simp add: handleUnrealDestroyObject_def unreal_ctx_def demo_unreal_def Let_def unreal_start_def unreal_world_facts
        HandleServerToClientUserMessage_def logs_def empty_ctx_def SendToOwner_def GetOwner_def
        destroy_here_def onDestroyObject_def remove_entity_channel_def world_Send_def GetChannel_def)
      (simp add: unreal_world_def RemoveChannel_def unregister_channel_def Let_def handover_world_def demo_world_def)
  then obtain uw' where r: "handleUnrealDestroyObject demo_unreal demo_externs (unreal_ctx 3 [0]) unreal_start = Some uw'" by blast
  have x: "x_Msg (unreal_ctx 3 [0]) = ServerForwardMessage 0 [0]" "x_Channel (unreal_ctx 3 [0]) = Some 3"
    by (simp_all add: unreal_ctx_def)
  have u: "u_unmarshalDestroy demo_unreal [0] = Some \<lparr>destroy_NetId = 0, destroy_Reason = 0\<rparr>" by (simp add: demo_unreal_def)
  from destroy_removes_any_channel [OF x(1) u x(2) demo_unreal_ok _ r] r show ?thesis
    by (simp add: unreal_start_def unreal_world_wf)
qed

theorem unreal_panics_witness:
  "handleUnrealSpawnObject demo_unreal demo_externs (unreal_ctx 3 [3]) unreal_start = None"
proof -
  obtain s where s: "demo_spawn [3] = Some s" "spawn_Obj s = Some tank" "spawn_ChannelId s = None"
    by (simp add: demo_spawn_def)
  show ?thesis
    using unreal_panics [of "unreal_ctx 3 [3]" 0 "[3]" demo_unreal s tank "0x90000" 3 demo_externs unreal_start] s
    by (simp add: unreal_ctx_def demo_unreal_def tank_def)
qed

theorem unreal_keeps_gateway_witness:
  "\<exists>uw'. unreal_turn demo_unreal (with_grid strip demo_externs) 1 unreal_start = Some uw' \<and>
    progress unreal_world (uw_world uw')"
proof -
  have t: "unreal_turn demo_unreal (with_grid strip demo_externs) 1 unreal_start = Some unreal_start"
    by (simp add: unreal_turn_def unreal_start_def unreal_world_facts)
  have "grid_fits strip (w_settings (uw_world unreal_start))"
    using strip_ready [OF unreal_world_facts(1)]
    by (simp add: unreal_start_def unreal_world_facts grid_fits_def grid_ready_def strip_def default_settings_def)
  from unreal_keeps_gateway [OF this _ t] t show ?thesis by (simp add: unreal_start_def unreal_world_facts)
qed

end
