(* ===== verification/Settings.thy ===== *)
theory Settings
  imports Channels
begin

text \<open>
  The settings of the process (\<open>settings.go\<close>): the two optional flag values and \<open>ParseFlag\<close>, which reads the
  command line and the channel settings file.  The \<open>flag\<close> package has parsed the values of the flags to their
  types; the content of the file, read as JSON over the settings there are, is a parameter.
\<close>

subsection \<open>Optional values\<close>

record NullableInt =
  ni_Value :: int
  ni_HasValue :: bool

record NullableString =
  ns_Value :: string
  ns_HasValue :: bool

text \<open>\<open>strconv.Itoa\<close> and \<open>strconv.Atoi\<close>, for the 64 bits of an \<open>int\<close>.\<close>

definition Itoa :: "int \<Rightarrow> string" where
  "Itoa n = (if n < 0 then CHR ''-'' # show_nat (nat (- n)) else show_nat (nat n))"

definition Atoi :: "string \<Rightarrow> int option" where
  "Atoi s =
     (let (negative, digits) = (case s of
            c # cs \<Rightarrow> if c = CHR ''-'' then (True, cs) else if c = CHR ''+'' then (False, cs) else (False, s)
          | [] \<Rightarrow> (False, [])) in
      if digits = [] then None
      else case digits_value 0 digits of
        None \<Rightarrow> None
      | Some v \<Rightarrow>
          (let n = (if negative then - int v else int v) in
           if - (2 ^ 63) \<le> n \<and> n < 2 ^ 63 then Some n else None))"

definition NullableInt_String :: "NullableInt \<Rightarrow> string" where
  "NullableInt_String i = (if ni_HasValue i then Itoa (ni_Value i) else [])"

text \<open>\<open>Set\<close> with its error as false.\<close>

definition NullableInt_Set :: "string \<Rightarrow> NullableInt \<Rightarrow> NullableInt \<times> bool" where
  "NullableInt_Set s i = (case Atoi s of
     None \<Rightarrow> (i, False)
   | Some val \<Rightarrow> (i\<lparr>ni_Value := val, ni_HasValue := True\<rparr>, True))"

definition NullableString_Set :: "string \<Rightarrow> NullableString \<Rightarrow> NullableString" where
  "NullableString_Set s ns = ns\<lparr>ns_Value := s, ns_HasValue := True\<rparr>"

subsection \<open>Flags\<close>

text \<open>The settings that only the programs, the listeners and the logs read.\<close>

datatype ProfileOption = CPUProfile | MemProfile | GoroutineProfile

record ProcessSettings =
  pr_LogLevel :: NullableInt
  pr_LogFile :: NullableString
  pr_ProfileOption :: "ProfileOption option"
  pr_ProfilePath :: string
  pr_ServerNetwork :: string
  pr_ServerAddress :: string
  pr_ServerWriteBufferSize :: int
  pr_ServerFSM :: string
  pr_ClientNetworkWaitMasterServer :: bool
  pr_ClientNetwork :: string
  pr_ClientAddress :: string
  pr_ClientWriteBufferSize :: int
  pr_ClientFSM :: string
  pr_SpatialControllerConfig :: NullableString
  pr_ReplaySessionPersistenceDir :: string

text \<open>The process settings a program starts with (\<open>GlobalSettings\<close>).\<close>

definition plain_process :: ProcessSettings where
  "plain_process = \<lparr>pr_LogLevel = \<lparr>ni_Value = 0, ni_HasValue = False\<rparr>, pr_LogFile = \<lparr>ns_Value = [], ns_HasValue = False\<rparr>,
     pr_ProfileOption = None, pr_ProfilePath = [], pr_ServerNetwork = [], pr_ServerAddress = [], pr_ServerWriteBufferSize = 256,
     pr_ServerFSM = ''config/server_authoratative_fsm.json'', pr_ClientNetworkWaitMasterServer = False, pr_ClientNetwork = [],
     pr_ClientAddress = [], pr_ClientWriteBufferSize = 512, pr_ClientFSM = ''config/client_non_authoratative_fsm.json'',
     pr_SpatialControllerConfig = \<lparr>ns_Value = [], ns_HasValue = False\<rparr>, pr_ReplaySessionPersistenceDir = []\<rparr>"

text \<open>The flags with the values the library parsed.  A negative size of a read buffer counts as 0: a connection
takes a buffer of at least one packet.\<close>

datatype Flag =
    F_dev bool | F_loglevel string | F_logfile string | F_profile string | F_profilepath string
  | F_sn string | F_sa string | F_srb int | F_swb int | F_sfsm string | F_sba bool | F_scr bool | F_scrt int
  | F_cwm bool | F_cn string | F_ca string | F_crb int | F_cwb int | F_cfsm string | F_erp bool | F_rspd string
  | F_ct "64 word" | F_scc string | F_scs "64 word" | F_ecs "64 word" | F_mcb "64 word" | F_cat "64 word"
  | F_mfaa int | F_mfd int | F_chs string

text \<open>The flags whose values \<open>ParseFlag\<close> assigns only after the command line is read.\<close>

record PendingFlags =
  pf_ct :: "64 word"
  pf_scs :: "64 word"
  pf_ecs :: "64 word"
  pf_mcb :: "64 word"
  pf_cat :: "64 word"
  pf_mfaa :: int
  pf_mfd :: int
  pf_chs :: string

record ParseState =
  st_settings :: GlobalSettingsType
  st_process :: ProcessSettings
  st_pending :: PendingFlags

text \<open>Registering a flag sets its variable to the default value.\<close>

definition register_flags :: "GlobalSettingsType \<Rightarrow> ProcessSettings \<Rightarrow> ParseState" where
  "register_flags s p = \<lparr>
     st_settings = s\<lparr>gs_Development := False, gs_EnableRecordPacket := False\<rparr>,
     st_process = p\<lparr>pr_ProfilePath := ''profiles'', pr_ServerNetwork := ''tcp'', pr_ServerAddress := '':11288'',
       pr_ClientNetworkWaitMasterServer := True, pr_ClientNetwork := ''tcp'', pr_ClientAddress := '':12108'',
       pr_ReplaySessionPersistenceDir := []\<rparr>,
     st_pending = \<lparr>pf_ct = 0, pf_scs = ucast (gs_SpatialChannelIdStart s), pf_ecs = ucast (gs_EntityChannelIdStart s),
       pf_mcb = of_nat (gs_MaxConnectionIdBits s), pf_cat = of_int (gs_ConnectionAuthTimeoutMs s),
       pf_mfaa = gs_MaxFailedAuthAttempts s, pf_mfd = gs_MaxFsmDisallowed s,
       pf_chs = ''config/channel_settings_hifi.json''\<rparr>\<rparr>"

definition profile_option :: "string \<Rightarrow> ProfileOption option" where
  "profile_option str = (let s = map (\<lambda>c. let n = of_char c :: nat in if 65 \<le> n \<and> n \<le> 90 then char_of (n + 32) else c) str in
     if s = ''cpu'' then Some CPUProfile
     else if s = ''mem'' then Some MemProfile
     else if s = ''goroutine'' then Some GoroutineProfile
     else None)"

text \<open>One flag of the command line; a value that its setter refuses ends the process.\<close>

definition set_flag :: "Flag \<Rightarrow> ParseState \<Rightarrow> ParseState option" where
  "set_flag f st =
     (let s = st_settings st; p = st_process st; q = st_pending st;
          S = (\<lambda>s. Some (st\<lparr>st_settings := s\<rparr>)); P = (\<lambda>p. Some (st\<lparr>st_process := p\<rparr>)); Q = (\<lambda>q. Some (st\<lparr>st_pending := q\<rparr>)) in
      case f of
        F_dev b \<Rightarrow> S (s\<lparr>gs_Development := b\<rparr>)
      | F_loglevel v \<Rightarrow> (case NullableInt_Set v (pr_LogLevel p) of
          (i, ok) \<Rightarrow> if ok then P (p\<lparr>pr_LogLevel := i\<rparr>) else None)
      | F_logfile v \<Rightarrow> P (p\<lparr>pr_LogFile := NullableString_Set v (pr_LogFile p)\<rparr>)
      | F_profile v \<Rightarrow> (case profile_option v of
          None \<Rightarrow> None
        | Some opt \<Rightarrow> P (p\<lparr>pr_ProfileOption := Some opt\<rparr>))
      | F_profilepath v \<Rightarrow> P (p\<lparr>pr_ProfilePath := v\<rparr>)
      | F_sn v \<Rightarrow> P (p\<lparr>pr_ServerNetwork := v\<rparr>)
      | F_sa v \<Rightarrow> P (p\<lparr>pr_ServerAddress := v\<rparr>)
      | F_srb n \<Rightarrow> S (s\<lparr>gs_ServerReadBufferSize := nat n\<rparr>)
      | F_swb n \<Rightarrow> P (p\<lparr>pr_ServerWriteBufferSize := n\<rparr>)
      | F_sfsm v \<Rightarrow> P (p\<lparr>pr_ServerFSM := v\<rparr>)
      | F_sba b \<Rightarrow> S (s\<lparr>gs_ServerBypassAuth := b\<rparr>)
      | F_scr b \<Rightarrow> S (s\<lparr>gs_ServerConnRecoverable := b\<rparr>)
      | F_scrt n \<Rightarrow> S (s\<lparr>gs_ServerConnRecoverTimeoutMs := n\<rparr>)
      | F_cwm b \<Rightarrow> P (p\<lparr>pr_ClientNetworkWaitMasterServer := b\<rparr>)
      | F_cn v \<Rightarrow> P (p\<lparr>pr_ClientNetwork := v\<rparr>)
      | F_ca v \<Rightarrow> P (p\<lparr>pr_ClientAddress := v\<rparr>)
      | F_crb n \<Rightarrow> S (s\<lparr>gs_ClientReadBufferSize := nat n\<rparr>)
      | F_cwb n \<Rightarrow> P (p\<lparr>pr_ClientWriteBufferSize := n\<rparr>)
      | F_cfsm v \<Rightarrow> P (p\<lparr>pr_ClientFSM := v\<rparr>)
      | F_erp b \<Rightarrow> S (s\<lparr>gs_EnableRecordPacket := b\<rparr>)
      | F_rspd v \<Rightarrow> P (p\<lparr>pr_ReplaySessionPersistenceDir := v\<rparr>)
      | F_ct v \<Rightarrow> Q (q\<lparr>pf_ct := v\<rparr>)
      | F_scc v \<Rightarrow> P (p\<lparr>pr_SpatialControllerConfig := NullableString_Set v (pr_SpatialControllerConfig p)\<rparr>)
      | F_scs v \<Rightarrow> Q (q\<lparr>pf_scs := v\<rparr>)
      | F_ecs v \<Rightarrow> Q (q\<lparr>pf_ecs := v\<rparr>)
      | F_mcb v \<Rightarrow> Q (q\<lparr>pf_mcb := v\<rparr>)
      | F_cat v \<Rightarrow> Q (q\<lparr>pf_cat := v\<rparr>)
      | F_mfaa n \<Rightarrow> Q (q\<lparr>pf_mfaa := n\<rparr>)
      | F_mfd n \<Rightarrow> Q (q\<lparr>pf_mfd := n\<rparr>)
      | F_chs v \<Rightarrow> Q (q\<lparr>pf_chs := v\<rparr>))"

fun set_flags :: "Flag list \<Rightarrow> ParseState \<Rightarrow> ParseState option" where
  "set_flags [] st = Some st"
| "set_flags (f # fs) st = do { st' \<leftarrow> set_flag f st; set_flags fs st' }"

text \<open>The conversions to the narrower types of the settings.\<close>

definition assign_pending :: "PendingFlags \<Rightarrow> GlobalSettingsType \<Rightarrow> GlobalSettingsType" where
  "assign_pending q s = s\<lparr>
     gs_CompressionType := sint (ucast (pf_ct q) :: 32 word),
     gs_SpatialChannelIdStart := ucast (pf_scs q),
     gs_EntityChannelIdStart := ucast (pf_ecs q),
     gs_MaxConnectionIdBits := unat (ucast (pf_mcb q) :: 8 word),
     gs_ConnectionAuthTimeoutMs := sint (pf_cat q),
     gs_MaxFailedAuthAttempts := pf_mfaa q,
     gs_MaxFsmDisallowed := pf_mfd q\<rparr>"

text \<open>\<open>ParseFlag\<close>: \<open>None\<close> when the process exits, and otherwise the settings and whether the channel settings
could be read.  \<open>readFile\<close> gives the content of a file, \<open>unmarshal\<close> what the content makes of the channel
settings.\<close>

definition ParseFlag ::
  "(string \<Rightarrow> 'f option) \<Rightarrow> ('f \<Rightarrow> (ChannelType \<rightharpoonup> ChannelSettingsType) \<Rightarrow> (ChannelType \<rightharpoonup> ChannelSettingsType) \<times> bool) \<Rightarrow>
   Flag list \<Rightarrow> GlobalSettingsType \<Rightarrow> ProcessSettings \<Rightarrow> (GlobalSettingsType \<times> ProcessSettings \<times> bool) option" where
  "ParseFlag readFile unmarshal flags s p = do {
     st \<leftarrow> set_flags flags (register_flags s p);
     let s1 = assign_pending (st_pending st) (st_settings st);
     Some (case readFile (pf_chs (st_pending st)) of
       None \<Rightarrow> (s1, st_process st, False)
     | Some chsData \<Rightarrow> (case unmarshal chsData (gs_ChannelSettings s1) of
         (chs, ok) \<Rightarrow> (s1\<lparr>gs_ChannelSettings := chs\<rparr>, st_process st, ok)))
   }"

subsection \<open>What the flags make of the settings\<close>

lemma show_nat_head: "\<exists>c cs. show_nat n = c # cs \<and> c \<noteq> CHR ''-'' \<and> c \<noteq> CHR ''+''"
proof -
  obtain c cs where c: "show_nat n = c # cs" by (cases "show_nat n") auto
  then have "digit_of c \<noteq> None" using show_nat_digits [of c n] by simp
  then have "c \<noteq> CHR ''-''" "c \<noteq> CHR ''+''" by (auto simp: digit_of_def Let_def split: if_splits)
  with c show ?thesis by blast
qed

text \<open>
  Every value that an \<open>int\<close> can have is read back from its text: setting an optional integer to the text of
  another makes it that one, whatever it was before.
\<close>

theorem NullableInt_roundtrip:
  assumes "- (2 ^ 63) \<le> n" and "n < 2 ^ 63"
  shows "NullableInt_Set (NullableInt_String \<lparr>ni_Value = n, ni_HasValue = True\<rparr>) i = (i\<lparr>ni_Value := n, ni_HasValue := True\<rparr>, True)"
proof -
  have "Atoi (Itoa n) = Some n"
  proof (cases "n < 0")
    case True
    then show ?thesis using assms by (simp add: Itoa_def Atoi_def digits_value_show_nat)
  next
    case False
    obtain c cs where c: "show_nat (nat n) = c # cs" "c \<noteq> CHR ''-''" "c \<noteq> CHR ''+''" using show_nat_head by blast
    then have "digits_value 0 (c # cs) = Some (nat n)" using digits_value_show_nat [of "nat n"] by simp
    then show ?thesis using False assms c by (simp add: Itoa_def Atoi_def del: digits_value.simps)
  qed
  then show ?thesis by (simp add: NullableInt_Set_def NullableInt_String_def)
qed

theorem NullableInt_roundtrip_witness:
  "NullableInt_Set ''-1'' \<lparr>ni_Value = 0, ni_HasValue = False\<rparr> = (\<lparr>ni_Value = -1, ni_HasValue = True\<rparr>, True)"
proof -
  have "NullableInt_String \<lparr>ni_Value = -1, ni_HasValue = True\<rparr> = ''-1''"
    by code_simp
  then show ?thesis
    using NullableInt_roundtrip [of "-1" "\<lparr>ni_Value = 0, ni_HasValue = False\<rparr>"] by simp
qed

text \<open>The value of the last flag of a kind.\<close>

definition last_flag :: "(Flag \<Rightarrow> 'v option) \<Rightarrow> Flag list \<Rightarrow> 'v \<Rightarrow> 'v" where
  "last_flag sel flags v = fold (\<lambda>f v. case sel f of None \<Rightarrow> v | Some x \<Rightarrow> x) flags v"

definition scs_of :: "Flag \<Rightarrow> 64 word option" where "scs_of f = (case f of F_scs v \<Rightarrow> Some v | _ \<Rightarrow> None)"
definition ecs_of :: "Flag \<Rightarrow> 64 word option" where "ecs_of f = (case f of F_ecs v \<Rightarrow> Some v | _ \<Rightarrow> None)"
definition mcb_of :: "Flag \<Rightarrow> 64 word option" where "mcb_of f = (case f of F_mcb v \<Rightarrow> Some v | _ \<Rightarrow> None)"

lemma set_flag_pending:
  assumes "set_flag f st = Some st'"
  shows "pf_scs (st_pending st') = (case scs_of f of None \<Rightarrow> pf_scs (st_pending st) | Some v \<Rightarrow> v)"
    and "pf_ecs (st_pending st') = (case ecs_of f of None \<Rightarrow> pf_ecs (st_pending st) | Some v \<Rightarrow> v)"
    and "pf_mcb (st_pending st') = (case mcb_of f of None \<Rightarrow> pf_mcb (st_pending st) | Some v \<Rightarrow> v)"
  using assms by (cases f; auto simp: set_flag_def Let_def scs_of_def ecs_of_def mcb_of_def split: prod.splits if_splits option.splits)+

lemma set_flags_pending:
  "set_flags flags st = Some st' \<Longrightarrow> pf_scs (st_pending st') = last_flag scs_of flags (pf_scs (st_pending st)) \<and>
    pf_ecs (st_pending st') = last_flag ecs_of flags (pf_ecs (st_pending st)) \<and>
    pf_mcb (st_pending st') = last_flag mcb_of flags (pf_mcb (st_pending st))"
proof (induction flags arbitrary: st)
  case (Cons f flags)
  then obtain st1 where "set_flag f st = Some st1" "set_flags flags st1 = Some st'" by (auto simp: bind_eq_Some_conv)
  with Cons.IH set_flag_pending show ?case by (simp add: last_flag_def)
qed (simp add: last_flag_def)

lemma ParseFlag_ids:
  assumes "ParseFlag readFile unmarshal flags s p = Some (s', p', ok)"
  shows "gs_SpatialChannelIdStart s' = ucast (last_flag scs_of flags (ucast (gs_SpatialChannelIdStart s)))"
    and "gs_EntityChannelIdStart s' = ucast (last_flag ecs_of flags (ucast (gs_EntityChannelIdStart s)))"
    and "gs_MaxConnectionIdBits s' = unat (last_flag mcb_of flags (of_nat (gs_MaxConnectionIdBits s))) mod 256"
proof -
  have same: "\<exists>chs. t = t\<lparr>gs_ChannelSettings := chs\<rparr>" for t :: GlobalSettingsType
    by (rule exI [of _ "gs_ChannelSettings t"]) simp
  from assms obtain st where st: "set_flags flags (register_flags s p) = Some st"
    and r: "(case readFile (pf_chs (st_pending st)) of
       None \<Rightarrow> (assign_pending (st_pending st) (st_settings st), st_process st, False)
     | Some c \<Rightarrow> (case unmarshal c (gs_ChannelSettings (assign_pending (st_pending st) (st_settings st))) of
         (chs, ok) \<Rightarrow> ((assign_pending (st_pending st) (st_settings st))\<lparr>gs_ChannelSettings := chs\<rparr>, st_process st, ok))) = (s', p', ok)"
    by (auto simp: ParseFlag_def Let_def bind_eq_Some_conv)
  have s': "\<exists>chs. s' = (assign_pending (st_pending st) (st_settings st))\<lparr>gs_ChannelSettings := chs\<rparr>"
    using r same by (auto split: option.split_asm prod.split_asm)
  with set_flags_pending [OF st]
  show "gs_SpatialChannelIdStart s' = ucast (last_flag scs_of flags (ucast (gs_SpatialChannelIdStart s)))"
    and "gs_EntityChannelIdStart s' = ucast (last_flag ecs_of flags (ucast (gs_EntityChannelIdStart s)))"
    and "gs_MaxConnectionIdBits s' = unat (last_flag mcb_of flags (of_nat (gs_MaxConnectionIdBits s))) mod 256"
    by (auto simp: assign_pending_def register_flags_def unsigned_ucast_eq take_bit_eq_mod)
qed

lemma settings_ok_ucast:
  fixes scs ecs :: "64 word"
  assumes "gs_SpatialChannelIdStart s = ucast scs" and "gs_EntityChannelIdStart s = ucast ecs"
    and "1 < scs" and "scs < ecs" and "ecs < 2 ^ 32"
  shows "settings_ok s"
proof -
  have "unat ecs < 2 ^ 32" using assms(5) by (simp add: word_less_nat_alt)
  then have "unat (ucast scs :: 32 word) = unat scs" "unat (ucast ecs :: 32 word) = unat ecs"
    using assms(4) by (simp_all add: unsigned_ucast_eq take_bit_eq_mod word_less_nat_alt)
  with assms show ?thesis by (simp add: settings_ok_def word_less_nat_alt)
qed

text \<open>
  C38. The identifier ranges of spatial and entity channels are the last values of their flags (or the settings there
  were) cut down to 32 bits, whether or not the channel settings can be read, and the number of bits of
  connection identifiers is cut down to 8 bits; where the flags are in order and in range, the settings are
  what the channels need, and with 256 bits, there is a single connection identifier.
\<close>

theorem ParseFlag_identifiers:
  assumes "ParseFlag readFile unmarshal flags s p = Some (s', p', ok)"
  shows "let scs = last_flag scs_of flags (ucast (gs_SpatialChannelIdStart s));
      ecs = last_flag ecs_of flags (ucast (gs_EntityChannelIdStart s));
      mcb = last_flag mcb_of flags (of_nat (gs_MaxConnectionIdBits s)) in
    gs_SpatialChannelIdStart s' = ucast scs \<and> gs_EntityChannelIdStart s' = ucast ecs \<and>
    gs_MaxConnectionIdBits s' = unat mcb mod 256 \<and>
    (1 < scs \<longrightarrow> scs < ecs \<longrightarrow> ecs < 2 ^ 32 \<longrightarrow> settings_ok s') \<and> (mcb = 256 \<longrightarrow> max_conn_id s' = 0)"
  using ParseFlag_ids [OF assms] settings_ok_ucast [of s'] by (auto simp: Let_def max_conn_id_def)

theorem ParseFlag_identifiers_witness:
  "\<exists>s' p'. ParseFlag (\<lambda>f. None :: unit option) (\<lambda>c m. (m, True)) [F_scs 0x20000, F_mcb 256, F_dev True] default_settings plain_process =
    Some (s', p', False) \<and> settings_ok s' \<and> max_conn_id s' = 0"
proof -
  let ?fs = "[F_scs 0x20000, F_mcb 256, F_dev True]"
  have "\<exists>s' p'. ParseFlag (\<lambda>f. None :: unit option) (\<lambda>c m. (m, True)) ?fs default_settings plain_process = Some (s', p', False)"
    by (simp add: ParseFlag_def set_flag_def register_flags_def Let_def)
  then obtain s' p' where r: "ParseFlag (\<lambda>f. None :: unit option) (\<lambda>c m. (m, True)) ?fs default_settings plain_process = Some (s', p', False)"
    by blast
  from ParseFlag_identifiers [OF r] r show ?thesis
    by (simp add: last_flag_def scs_of_def ecs_of_def mcb_of_def default_settings_def)
qed

end
