(* ===== verification/Websocket.thy ===== *)
theory Websocket
  imports Security
begin

text \<open>
  The WebSocket listener (\<open>connection_websocket.go\<close>): how it takes its address apart, which upgrade
  requests it trusts, how it adds connections, and how \<open>wsConn.Read\<close> turns messages into the byte stream that
  \<open>receive\<close> reads.  The WebSocket library and the HTTP server are outside: a connection is its remote
  address and the messages it brings.
\<close>

subsection \<open>The address\<close>

text \<open>\<open>strings.Index\<close>.\<close>

fun str_index :: "string \<Rightarrow> string \<Rightarrow> nat option" where
  "str_index sub [] = (if sub = [] then Some 0 else None)"
| "str_index sub (c # cs) = (if take (length sub) (c # cs) = sub then Some 0 else map_option Suc (str_index sub cs))"

text \<open>The pattern and the host; \<open>address[:pathIndex-1]\<close> panics when the address starts with its path.\<close>

definition ws_address :: "string \<Rightarrow> (string \<times> string) option" where
  "ws_address address =
     (let address1 = (case str_index ''://'' address of
            Some protocolIndex \<Rightarrow> drop (protocolIndex + 3) address
          | None \<Rightarrow> address) in
      case str_index ''/'' address1 of
        None \<Rightarrow> Some (''/'', address1)
      | Some pathIndex \<Rightarrow> (if pathIndex = 0 then None else Some (drop pathIndex address1, take (pathIndex - 1) address1)))"

lemma str_index_skip: "c \<noteq> d \<Longrightarrow> str_index (d # sub) (c # cs) = map_option Suc (str_index (d # sub) cs)"
  by simp

lemma str_index_after:
  assumes "CHR '':'' \<notin> set scheme"
  shows "str_index ''://'' (scheme @ ''://'' @ rest) = Some (length scheme)"
  using assms by (induction scheme) auto

lemma str_index_slash:
  assumes "CHR ''/'' \<notin> set host"
  shows "str_index ''/'' (host @ ''/'' @ path) = Some (length host)" and "str_index ''/'' host = None"
    and "str_index ''://'' host = None"
proof -
  show "str_index ''/'' (host @ ''/'' @ path) = Some (length host)" "str_index ''/'' host = None"
    using assms by (induction host) auto
  have "str_index ''://'' xs = None" if "CHR ''/'' \<notin> set xs" for xs
    using that
  proof (induction xs)
    case (Cons x xs)
    then have "take 2 xs \<noteq> ''//''" by (cases xs) auto
    then show ?case using Cons by (simp add: numeral_2_eq_2)
  qed simp
  then show "str_index ''://'' host = None" using assms by blast
qed

text \<open>
  Where the listener listens: an address without a path is the host itself, with or without a scheme; with
  a path, the host loses its last character (the port its last digit), and an address that is only a path
  is a panic.
\<close>

theorem ws_address_correct:
  assumes "CHR '':'' \<notin> set scheme" and "CHR ''/'' \<notin> set host"
  shows "ws_address host = Some (''/'', host) \<and> ws_address (scheme @ ''://'' @ host) = Some (''/'', host) \<and>
    ws_address (scheme @ ''://'' @ host @ ''/'' @ path) =
      (if host = [] then None else Some (''/'' @ path, butlast host))"
proof -
  have d: "drop (length scheme + 3) (scheme @ ''://'' @ xs) = xs" for xs by simp
  note i = str_index_slash [OF assms(2)] and s = str_index_after [OF assms(1)]
  have "ws_address host = Some (''/'', host)" using i by (simp add: ws_address_def)
  moreover have "ws_address (scheme @ ''://'' @ host) = Some (''/'', host)"
    unfolding ws_address_def Let_def s option.case d using i(2) by simp
  moreover have "ws_address (scheme @ ''://'' @ host @ ''/'' @ path) =
      (if host = [] then None else Some (''/'' @ path, butlast host))"
    unfolding ws_address_def Let_def s option.case d i(1) by (simp add: butlast_conv_take)
  ultimately show ?thesis by blast
qed

theorem ws_address_correct_witness:
  "ws_address ''ws://:12108/game'' = Some (''/game'', '':1210'')"
  using ws_address_correct [of "''ws''" "'':12108''" "''game''"] by simp

subsection \<open>Requests and connections\<close>

text \<open>\<open>CheckOrigin\<close> looks at the address of the peer; nil trusts all.\<close>

definition CheckOrigin :: "string list option \<Rightarrow> string \<Rightarrow> bool" where
  "CheckOrigin trustedOrigins remoteAddr = (case trustedOrigins of
     None \<Rightarrow> True
   | Some addrs \<Rightarrow> list_ex (\<lambda>addr. addr = remoteAddr) addrs)"

text \<open>An upgraded connection waits in \<open>connsToAdd\<close>; a request that \<open>CheckOrigin\<close> refuses panics in its own
goroutine, which the HTTP server recovers.\<close>

definition ws_upgrade :: "string list option \<Rightarrow> string \<times> NetAddr \<Rightarrow> NetAddr list \<Rightarrow> NetAddr list" where
  "ws_upgrade trustedOrigins request connsToAdd =
     (if CheckOrigin trustedOrigins (fst request) then connsToAdd @ [snd request] else connsToAdd)"

definition ws_add_next ::
  "ConnectionType \<Rightarrow> (nat \<Rightarrow> int) \<Rightarrow> NetAddr list \<Rightarrow> World \<Rightarrow> (NetAddr list \<times> World) option" where
  "ws_add_next t clock connsToAdd w = (case connsToAdd of
     [] \<Rightarrow> Some ([], w)
   | conn # rest \<Rightarrow> map_option (\<lambda>(w', p). (rest, w')) (AddConnection conn t clock w))"

text \<open>
  A blacklisted address that the TCP listener refuses gets a connection over WebSocket: a request that
  passes \<open>CheckOrigin\<close> is added with a fresh identifier, in the unauthenticated state and with its address, while the blacklist
  is not looked at.
\<close>

theorem ws_ignores_blacklist:
  assumes "w_ipBlacklist w (GetIP addr) \<noteq> None" and "alist_ok (w_allConnections w)" and "CheckOrigin trusted remote"
    and "ws_add_next t clock (ws_upgrade trusted (remote, addr) []) w = Some (q, w')"
  shows "accept_connection addr t clock w = Some (w, None) \<and> q = [] \<and>
    (\<exists>p i. GetConnection w i = None \<and> GetConnection w' i = Some p \<and>
       c_state (w_conn w' p) = ConnectionState_UNAUTHENTICATED \<and> c_remoteAddr (w_conn w' p) = addr)"
proof -
  from assms(3,4) obtain p where a: "AddConnection addr t clock w = Some (w', p)" and q: "q = []"
    by (auto simp: ws_add_next_def ws_upgrade_def)
  have "c_remoteAddr (w_conn w' p) = addr"
    by (rule AddConnection_result [OF a]) (simp add: register_connection_def new_connection_def Let_def)
  with AddConnection_correct [OF a assms(2)]
  have "GetConnection w (c_id (w_conn w' p)) = None \<and> GetConnection w' (c_id (w_conn w' p)) = Some p \<and>
      c_state (w_conn w' p) = ConnectionState_UNAUTHENTICATED \<and> c_remoteAddr (w_conn w' p) = addr"
    by (simp add: Let_def)
  then show ?thesis using q assms(1) by (auto simp: accept_connection_def)
qed

text \<open>The development settings of the other examples, with the peer on the blacklist.\<close>

theorem ws_ignores_blacklist_witness:
  "\<exists>q w' i p. ws_add_next ConnectionType_CLIENT (\<lambda>_. 0) (ws_upgrade None (''10.0.0.1:5'', OtherAddr ''pipe'') [])
      (dev_world\<lparr>w_ipBlacklist := [''pipe'' \<mapsto> 0]\<rparr>) = Some (q, w') \<and> GetConnection w' i = Some p"
proof -
  let ?w = "dev_world\<lparr>w_ipBlacklist := [''pipe'' \<mapsto> 0]\<rparr>"
  have "conn_id_loop (Suc 100) 0 (OtherAddr ''pipe'') (max_conn_id (w_settings ?w)) (\<lambda>_. 0) ?w = Some (?w\<lparr>w_nextConnectionId := 1\<rparr>)"
    unfolding conn_id_loop.simps
    by (simp add: generateNextConnId_def dev_world_def demo_world_def default_settings_def max_conn_id_def word_le_nat_alt)
  then have "\<exists>r. ws_add_next ConnectionType_CLIENT (\<lambda>_. 0) (ws_upgrade None (''10.0.0.1:5'', OtherAddr ''pipe'') []) ?w = Some r"
    by (simp add: ws_add_next_def ws_upgrade_def CheckOrigin_def AddConnection_def reader_size_def dev_world_def demo_world_def
        del: conn_id_loop.simps)
  then obtain q w' where r: "ws_add_next ConnectionType_CLIENT (\<lambda>_. 0)
      (ws_upgrade None (''10.0.0.1:5'', OtherAddr ''pipe'') []) ?w = Some (q, w')" by auto
  have b: "w_ipBlacklist ?w (GetIP (OtherAddr ''pipe'')) \<noteq> None" "alist_ok (w_allConnections ?w)" "CheckOrigin None ''10.0.0.1:5''"
    by (simp_all add: GetIP_def CheckOrigin_def dev_world_def demo_world_def)
  from ws_ignores_blacklist [OF b r] r show ?thesis by blast
qed

subsection \<open>Messages as a stream\<close>

text \<open>\<open>Read\<close> into a buffer with \<open>room\<close> bytes free: what does not fit is gone with the message.\<close>

definition wsConn_Read :: "nat \<Rightarrow> byte list option \<Rightarrow> byte list \<times> bool" where
  "wsConn_Read room message = (case message of
     None \<Rightarrow> ([], False)
   | Some body \<Rightarrow> (take room body, True))"

fun ws_run ::
  "Externs \<Rightarrow> byte list list \<Rightarrow> Connection \<Rightarrow> (Connection \<times> byte list MessagePack list list \<times> string option) option" where
  "ws_run E [] c = Some (c, [], None)"
| "ws_run E (m # ms) c = do {
     (c1, ps, e) \<leftarrow> receive_bytes E (fst (wsConn_Read (length (c_readBuffer c) - c_readPos c) (Some m))) c;
     if e \<noteq> None then Some (c1, ps, e)
     else do { (c2, ps', e') \<leftarrow> ws_run E ms c1; Some (c2, ps @ ps', e') }
   }"

definition whole_frames :: "Externs \<Rightarrow> byte list \<Rightarrow> byte list MessagePack list list \<Rightarrow> bool" where
  "whole_frames E m ps \<longleftrightarrow> parse_stream E m = (ps, [], None)"

text \<open>
  Messages that each hold whole frames and fit the buffer are read without loss, one after the other, and
  leave nothing in it; of a message that is longer than the buffer only its beginning is read, as if the rest
  had never been sent.
\<close>

theorem ws_messages_read:
  assumes "reader_ok c" and "pending c = []" and "list_all2 (whole_frames E) ms ps"
    and "\<forall>m \<in> set ms. length m \<le> length (c_readBuffer c)"
  shows "(\<exists>c'. ws_run E ms c = Some (c', concat ps, None) \<and> pending c' = []) \<and>
    ws_run E (m # ms) c = ws_run E (take (length (c_readBuffer c)) m # ms) c"
proof
  have pos: "c_readPos d = 0" if "reader_ok d" "pending d = []" for d
    using that length_pending [OF that(1)] by simp
  show "\<exists>c'. ws_run E ms c = Some (c', concat ps, None) \<and> pending c' = []"
    using assms(3,1,2,4)
  proof (induction arbitrary: c rule: list_all2_induct)
    case (Cons m ms p ps)
    have len: "c_readPos c + length m \<le> length (c_readBuffer c)" using Cons.prems pos by simp
    from receive_bytes_parses [OF Cons.prems(1) len, of E] Cons.hyps(1) Cons.prems(2) obtain c1
      where r: "receive_bytes E m c = Some (c1, p, None)" "reader_ok c1" "pending c1 = []"
        "length (c_readBuffer c1) = length (c_readBuffer c)"
      by (auto simp: whole_frames_def parse_stream_short)
    from Cons.IH [OF r(2,3)] Cons.prems(3) r(4) obtain c' where "ws_run E ms c1 = Some (c', concat ps, None)" "pending c' = []" by auto
    with r(1) len show ?case by (simp add: wsConn_Read_def)
  qed auto
  show "ws_run E (m # ms) c = ws_run E (take (length (c_readBuffer c)) m # ms) c"
    using pos [OF assms(1,2)] by (simp add: wsConn_Read_def)
qed

theorem ws_messages_read_witness:
  "let c = demo_conn 1 2 in \<exists>c'. ws_run demo_externs [[67, 72, 0, 1, 0, 7], [67, 72, 0, 1, 0, 8]] c =
    Some (c', [[\<lparr>mp_ChannelId = 0, mp_Broadcast = 0, mp_StubId = 0, mp_MsgType = 100, mp_MsgBody = [7]\<rparr>],
      [\<lparr>mp_ChannelId = 0, mp_Broadcast = 0, mp_StubId = 0, mp_MsgType = 100, mp_MsgBody = [8]\<rparr>]], None)"
proof -
  have c: "reader_ok (demo_conn 1 2)" "pending (demo_conn 1 2) = []" by (simp_all add: demo_conn_def reader_ok_def pending_def)
  have f: "whole_frames demo_externs [67, 72, 0, 1, 0, b] [[\<lparr>mp_ChannelId = 0, mp_Broadcast = 0, mp_StubId = 0, mp_MsgType = 100, mp_MsgBody = [b]\<rparr>]]"
    if "b \<noteq> 255" for b
    using that by (simp add: whole_frames_def parse_stream.simps frame_step_def readSize.simps PacketHeaderSize_def read_body_def
        demo_externs_def body_packet_def)
  let ?ms = "[[67, 72, 0, 1, 0, 7], [67, 72, 0, 1, 0, 8]] :: byte list list"
  have l: "list_all2 (whole_frames demo_externs) ?ms
      (map (\<lambda>b. [[\<lparr>mp_ChannelId = 0, mp_Broadcast = 0, mp_StubId = 0, mp_MsgType = 100, mp_MsgBody = [b]\<rparr>]]) [7, 8])"
    using f [of 7] f [of 8] by simp
  have "\<forall>m \<in> set ?ms. length m \<le> length (c_readBuffer (demo_conn 1 2))" by (simp add: demo_conn_def)
  from ws_messages_read [OF c l this, THEN conjunct1] show ?thesis unfolding Let_def list.map concat.simps append_Nil append_Cons append_Nil2 by blast
qed

subsection \<open>The client's side\<close>

text \<open>\<open>wsConn\<close> of the client library (\<open>pkg/client/client.go\<close>) keeps what a read does not take.  A read is
given the size of the buffer and the messages that wait; \<open>None\<close> is a failed connection.\<close>

record ClientWs =
  cw_readBuf :: "byte list option"
  cw_readIdx :: nat

definition clientWs_Read :: "nat \<Rightarrow> byte list list \<Rightarrow> ClientWs \<Rightarrow> (byte list \<times> byte list list \<times> ClientWs) option" where
  "clientWs_Read n msgs c = do {
     (buf, idx, msgs') \<leftarrow>
       (case cw_readBuf c of
          Some buf \<Rightarrow>
            (if cw_readIdx c \<ge> length buf then (case msgs of [] \<Rightarrow> None | m # rest \<Rightarrow> Some (m, 0, rest))
             else Some (buf, cw_readIdx c, msgs))
        | None \<Rightarrow> (case msgs of [] \<Rightarrow> None | m # rest \<Rightarrow> Some (m, 0, rest)));
     let b = take n (drop idx buf);
     Some (b, msgs', \<lparr>cw_readBuf = Some buf, cw_readIdx = idx + length b\<rparr>)
   }"

fun clientWs_reads :: "nat list \<Rightarrow> byte list list \<Rightarrow> ClientWs \<Rightarrow> (byte list list \<times> byte list list \<times> ClientWs) option" where
  "clientWs_reads [] msgs c = Some ([], msgs, c)"
| "clientWs_reads (n # ns) msgs c = do {
     (b, msgs1, c1) \<leftarrow> clientWs_Read n msgs c;
     (bs, msgs2, c2) \<leftarrow> clientWs_reads ns msgs1 c1;
     Some (b # bs, msgs2, c2)
   }"

definition clientWs_unread :: "ClientWs \<Rightarrow> byte list" where
  "clientWs_unread c = (case cw_readBuf c of None \<Rightarrow> [] | Some buf \<Rightarrow> drop (cw_readIdx c) buf)"

lemma clientWs_Read_stream:
  assumes "clientWs_Read n msgs c = Some (b, msgs', c')"
  shows "b @ clientWs_unread c' @ concat msgs' = clientWs_unread c @ concat msgs \<and>
    (0 < n \<longrightarrow> b = [] \<longrightarrow> msgs = [] # msgs')"
proof -
  obtain buf i where start: "drop i buf @ concat msgs' = clientWs_unread c @ concat msgs"
      "drop i buf = [] \<longrightarrow> msgs = [] # msgs'"
    and b: "b = take n (drop i buf)" and c': "c' = \<lparr>cw_readBuf = Some buf, cw_readIdx = i + length b\<rparr>"
    using assms
    by (auto simp: clientWs_Read_def Let_def bind_eq_Some_conv clientWs_unread_def simp del: length_take
        split: option.splits if_splits list.splits)
  have "b @ clientWs_unread c' = drop i buf"
    unfolding b c' clientWs_unread_def by simp (metis add.commute append_take_drop_id drop_drop length_drop min_def take_all_iff nat_le_linear)
  with start b show ?thesis by (metis append.assoc gr_implies_not0 take_eq_Nil)
qed

text \<open>
  The client loses nothing of the messages: whatever the sizes of its reads, the bytes it has read, what it
  keeps and the messages that wait are the stream of all messages; and a read into a buffer that is not
  empty brings something, unless the message was empty.
\<close>

theorem clientWs_reads_stream:
  assumes "clientWs_reads ns msgs c = Some (bs, msgs', c')"
  shows "concat bs @ clientWs_unread c' @ concat msgs' = clientWs_unread c @ concat msgs \<and> length bs = length ns \<and>
    (\<forall>i < length ns. 0 < ns ! i \<longrightarrow> bs ! i = [] \<longrightarrow> [] \<in> set msgs)"
  using assms
proof (induction ns arbitrary: msgs c bs)
  case (Cons n ns)
  then obtain b msgs1 c1 bs1 where r: "clientWs_Read n msgs c = Some (b, msgs1, c1)"
    "clientWs_reads ns msgs1 c1 = Some (bs1, msgs', c')" "bs = b # bs1"
    by (auto simp: bind_eq_Some_conv)
  have "set msgs1 \<subseteq> set msgs" using r(1)
    by (auto simp: clientWs_Read_def Let_def bind_eq_Some_conv split: option.splits if_splits list.splits)
  with Cons.IH [OF r(2)] clientWs_Read_stream [OF r(1)] r(3) show ?case
    by (auto simp: nth_Cons split: nat.splits)
qed simp

theorem clientWs_reads_stream_witness:
  "\<exists>bs msgs' c'. clientWs_reads [2, 2, 2] [[1, 2, 3], [4, 5]] \<lparr>cw_readBuf = None, cw_readIdx = 0\<rparr> = Some (bs, msgs', c') \<and>
    concat bs = [1, 2, 3, 4, 5]"
proof -
  have r: "clientWs_reads [2, 2, 2] [[1, 2, 3], [4, 5]] \<lparr>cw_readBuf = None, cw_readIdx = 0\<rparr> =
      Some ([[1, 2], [3], [4, 5]], [], \<lparr>cw_readBuf = Some [4, 5], cw_readIdx = 2\<rparr>)"
    by (simp add: clientWs_Read_def)
  from clientWs_reads_stream [OF r] r show ?thesis by (auto simp: clientWs_unread_def)
qed

end
