(* ===== verification/Startup.thy ===== *)
theory Startup
  imports Unreal Settings Websocket
begin

text \<open>
  How a process comes up: the initialisers (\<open>InitConnections\<close>, \<open>InitChannels\<close>, \<open>InitSpatialController\<close>), the
  listeners (\<open>StartListening\<close>), and the programs that call them (\<open>cmd/main.go\<close> and the game server
  \<open>examples/channeld-ue-tps/main.go\<close>).  It shows that the state a program starts the gateway in is one the
  invariants of the gateway speak of, and that the game server admits no client before the global channel
  has been possessed.

  \<open>None\<close> is the end of the process: a panic, a flag that is refused, or the return of \<open>main\<close>.
\<close>

subsection \<open>The process\<close>

text \<open>Reading files and decoding JSON are outside: the settings, a state machine, and the \<open>Config\<close> of a
spatial controller (the outer option: the file is JSON at all; the second: it has the key; the third: it
decodes).\<close>

record 'f Files =
  file_read :: "string \<Rightarrow> 'f option"
  file_settings :: "'f \<Rightarrow> (ChannelType \<rightharpoonup> ChannelSettingsType) \<Rightarrow> (ChannelType \<rightharpoonup> ChannelSettingsType) \<times> bool"
  file_fsm :: "'f \<Rightarrow> string + FiniteStateMachine"
  file_spatial :: "'f \<Rightarrow> StaticGrid2DSpatialController option option option"

datatype Endpoint = WebSocketEndpoint string string | KcpEndpoint string | NetEndpoint string string

text \<open>Where the main goroutine of the game server is: before, during and after its wait for the possession
of the global channel.\<close>

datatype Phase = Starting | Waiting | Released | Serving

text \<open>The package variables: two of them are nil until their initialiser has run; and what runs beside the
world: the goroutine of the recovery handles and the listeners.\<close>

record Process =
  p_world :: World
  p_connectionsMade :: bool
  p_channelsMade :: bool
  p_recoveryTicker :: bool
  p_spatial :: "StaticGrid2DSpatialController option"
  p_messages :: "MessageType \<Rightarrow> Handler option"
  p_listening :: "(ConnectionType \<times> Endpoint) list"
  p_phase :: Phase

definition fresh_process :: "GlobalSettingsType \<Rightarrow> Process" where
  "fresh_process s = \<lparr>
     p_world = demo_world\<lparr>w_settings := s, w_serverFsm := None, w_clientFsm := None, w_nextSpatialChannelId := 0\<rparr>,
     p_connectionsMade = False, p_channelsMade = False, p_recoveryTicker = False, p_spatial = None,
     p_messages = MessageMap, p_listening = [], p_phase = Starting\<rparr>"

text \<open>What the gateway finds outside: the spatial controller is the one of the process.\<close>

definition process_env :: "StaticGrid2DSpatialController option \<Rightarrow> Externs \<Rightarrow> Externs" where
  "process_env sc E = (case sc of None \<Rightarrow> E\<lparr>ex_spatial := None\<rparr> | Some ctl \<Rightarrow> with_grid ctl E)"

subsection \<open>Initialisers\<close>

text \<open>A state machine that does not load ends the process, and so does one without a current state, whose
name is logged.\<close>

definition load_fsm :: "'f Files \<Rightarrow> string \<Rightarrow> FiniteStateMachine option" where
  "load_fsm F path = do {
     bytes \<leftarrow> file_read F path;
     (case fsm_Load (file_fsm F bytes) of
        (fsm, Some err) \<Rightarrow> None
      | (fsm, None) \<Rightarrow> (if cur_state fsm = None then None else Some fsm))
   }"

definition InitConnections :: "'f Files \<Rightarrow> string \<Rightarrow> string \<Rightarrow> Process \<Rightarrow> Process option" where
  "InitConnections F serverFsmPath clientFsmPath P =
     (if p_connectionsMade P then Some P
      else do {
        serverFsm \<leftarrow> load_fsm F serverFsmPath;
        clientFsm \<leftarrow> load_fsm F clientFsmPath;
        let w = (p_world P)\<lparr>w_allConnections := [], w_serverFsm := Some serverFsm, w_clientFsm := Some clientFsm,
              w_connectionRecoverHandles := []\<rparr>;
        Some (P\<lparr>p_world := w, p_connectionsMade := True,
          p_recoveryTicker := p_recoveryTicker P \<or> gs_ServerConnRecoverable (w_settings w)\<rparr>)
      })"

definition init_channels :: "Externs \<Rightarrow> (ChannelType \<times> DataMsg) list \<Rightarrow> Process \<Rightarrow> Process option" where
  "init_channels E dataTypes P =
     (if p_channelsMade P then Some P
      else map_option (\<lambda>w. P\<lparr>p_world := w, p_channelsMade := True\<rparr>) (InitChannels (process_env (p_spatial P) E) dataTypes (p_world P)))"

definition init_spatial :: "'f Files \<Rightarrow> NullableString \<Rightarrow> Process \<Rightarrow> Process option" where
  "init_spatial F spatialControllerConfig P =
     (if \<not> ns_HasValue spatialControllerConfig then Some P
      else do {
        sccData \<leftarrow> file_read F (ns_Value spatialControllerConfig);
        sccMap \<leftarrow> file_spatial F sccData;
        config \<leftarrow> sccMap;
        Some (P\<lparr>p_spatial := Some (InitSpatialController config)\<rparr>)
      })"

definition SetChannelDataExtension :: "ChannelType \<Rightarrow> nat \<Rightarrow> Process \<Rightarrow> Process" where
  "SetChannelDataExtension t ext P = P\<lparr>p_world :=
     (p_world P)\<lparr>w_channelDataExtensionRegistery := (w_channelDataExtensionRegistery (p_world P))(t \<mapsto> ext)\<rparr>\<rparr>"

definition register_data_type :: "ChannelType \<Rightarrow> DataMsg \<Rightarrow> Process \<Rightarrow> Process" where
  "register_data_type t m P = P\<lparr>p_world := RegisterChannelDataType t m (p_world P)\<rparr>"

subsection \<open>Listeners\<close>

text \<open>What \<open>StartListening\<close> opens; \<open>canListen\<close> says whether the system lets it.  A WebSocket server that
cannot be opened is logged, and the function returns (false); any other failure is a panic.\<close>

definition endpoint_of :: "string \<Rightarrow> string \<Rightarrow> Endpoint option" where
  "endpoint_of network address =
     (if network = ''ws'' \<or> network = ''websocket'' then map_option (\<lambda>(pattern, a). WebSocketEndpoint pattern a) (ws_address address)
      else if network = ''kcp'' then Some (KcpEndpoint address)
      else Some (NetEndpoint network address))"

definition StartListening ::
  "(Endpoint \<Rightarrow> bool) \<Rightarrow> ConnectionType \<Rightarrow> string \<Rightarrow> string \<Rightarrow> Process \<Rightarrow> (Process \<times> bool) option" where
  "StartListening canListen t network address P = do {
     e \<leftarrow> endpoint_of network address;
     if canListen e then Some (P\<lparr>p_listening := p_listening P @ [(t, e)]\<rparr>, True)
     else (case e of WebSocketEndpoint _ _ \<Rightarrow> Some (P, False) | _ \<Rightarrow> None)
   }"

text \<open>On the main goroutine, the process ends when the function returns; in a goroutine of its own nothing
waits for it.\<close>

definition listen_main :: "(Endpoint \<Rightarrow> bool) \<Rightarrow> ConnectionType \<Rightarrow> string \<Rightarrow> string \<Rightarrow> Process \<Rightarrow> Process option" where
  "listen_main canListen t network address P =
     Option.bind (StartListening canListen t network address P) (\<lambda>(P', stays). if stays then Some P' else None)"

definition listen_go :: "(Endpoint \<Rightarrow> bool) \<Rightarrow> ConnectionType \<Rightarrow> string \<Rightarrow> string \<Rightarrow> Process \<Rightarrow> Process option" where
  "listen_go canListen t network address P = map_option fst (StartListening canListen t network address P)"

subsection \<open>The programs\<close>

text \<open>\<open>main\<close> of \<open>cmd/main.go\<close>: an error of \<open>ParseFlag\<close> is printed and ignored.\<close>

definition cmd_main ::
  "'f Files \<Rightarrow> Externs \<Rightarrow> (Endpoint \<Rightarrow> bool) \<Rightarrow> (ChannelType \<times> DataMsg) list \<Rightarrow> Flag list \<Rightarrow> Process option" where
  "cmd_main F E canListen dataTypes flags = do {
     (s, pr, _) \<leftarrow> ParseFlag (file_read F) (file_settings F) flags default_settings plain_process;
     P1 \<leftarrow> InitConnections F (pr_ServerFSM pr) (pr_ClientFSM pr) (fresh_process s);
     P2 \<leftarrow> init_channels E dataTypes P1;
     P3 \<leftarrow> listen_go canListen ConnectionType_SERVER (pr_ServerNetwork pr) (pr_ServerAddress pr) P2;
     listen_main canListen ConnectionType_CLIENT (pr_ClientNetwork pr) (pr_ClientAddress pr) P3
   }"

text \<open>\<open>main\<close> of the game server, up to where it waits for the possession of the global channel (or does
not); and what it does after that.\<close>

definition tps_main ::
  "UnrealEnv \<Rightarrow> 'f Files \<Rightarrow> Externs \<Rightarrow> (Endpoint \<Rightarrow> bool) \<Rightarrow> (ChannelType \<times> DataMsg) list \<Rightarrow> DataMsg \<Rightarrow> Flag list \<Rightarrow>
   (Process \<times> ProcessSettings) option" where
  "tps_main U F E canListen dataTypes spatialTemplate flags = do {
     (s, pr, _) \<leftarrow> ParseFlag (file_read F) (file_settings F) flags default_settings plain_process;
     P1 \<leftarrow> InitConnections F (pr_ServerFSM pr) (pr_ClientFSM pr) (fresh_process s);
     let P2 = SetChannelDataExtension ChannelType_SUBWORLD (u_recoverable U)
                (SetChannelDataExtension ChannelType_GLOBAL (u_recoverable U) P1);
     P3 \<leftarrow> init_channels E dataTypes P2;
     P4 \<leftarrow> init_spatial F (pr_SpatialControllerConfig pr) P3;
     let P5 = register_data_type ChannelType_SPATIAL spatialTemplate (P4\<lparr>p_messages := UnrealMessageMap U\<rparr>);
     P6 \<leftarrow> listen_go canListen ConnectionType_SERVER (pr_ServerNetwork pr) (pr_ServerAddress pr) P5;
     Some (P6\<lparr>p_phase := (if pr_ClientNetworkWaitMasterServer pr then Starting else Released)\<rparr>, pr)
   }"

subsection \<open>The game server at work\<close>

text \<open>
  The steps of the game server: those of the gateway that take no connection in, the acceptance of
  connections at the listeners there are (a WebSocket listener does not look at the blacklist), and the main
  goroutine, which waits for the event that the global channel has been possessed and opens the
  listener for clients.  An event that comes before the wait is not seen.
\<close>

definition possessed :: "World \<Rightarrow> World \<Rightarrow> bool" where
  "possessed w w' \<longleftrightarrow> (\<exists>g. EvGlobalChannelPossessed g \<in> set (drop (length (w_log w)) (w_log w')))"

definition accept_at :: "Endpoint \<Rightarrow> NetAddr \<Rightarrow> ConnectionType \<Rightarrow> (nat \<Rightarrow> int) \<Rightarrow> World \<Rightarrow> World option" where
  "accept_at e addr t clock w = (case e of
     WebSocketEndpoint _ _ \<Rightarrow> map_option fst (AddConnection addr t clock w)
   | _ \<Rightarrow> map_option fst (accept_connection addr t clock w))"

inductive tps_step :: "Externs \<Rightarrow> (Endpoint \<Rightarrow> bool) \<Rightarrow> ProcessSettings \<Rightarrow> Process \<Rightarrow> Process \<Rightarrow> bool"
  for E :: Externs and canListen :: "Endpoint \<Rightarrow> bool" and pr :: ProcessSettings where
  works: "gateway_step (process_env (p_spatial P) E) (p_world P) w' \<Longrightarrow> w_nconn w' = w_nconn (p_world P) \<Longrightarrow>
    \<not> (p_phase P = Waiting \<and> possessed (p_world P) w') \<Longrightarrow> tps_step E canListen pr P (P\<lparr>p_world := w'\<rparr>)"
| released: "gateway_step (process_env (p_spatial P) E) (p_world P) w' \<Longrightarrow> w_nconn w' = w_nconn (p_world P) \<Longrightarrow>
    p_phase P = Waiting \<Longrightarrow> possessed (p_world P) w' \<Longrightarrow>
    tps_step E canListen pr P (P\<lparr>p_world := w', p_phase := Released\<rparr>)"
| accepts: "(t, e) \<in> set (p_listening P) \<Longrightarrow> accept_at e addr t clock (p_world P) = Some w' \<Longrightarrow>
    tps_step E canListen pr P (P\<lparr>p_world := w'\<rparr>)"
| waits: "p_phase P = Starting \<Longrightarrow> tps_step E canListen pr P (P\<lparr>p_phase := Waiting\<rparr>)"
| serves: "p_phase P = Released \<Longrightarrow>
    listen_main canListen ConnectionType_CLIENT (pr_ClientNetwork pr) (pr_ClientAddress pr) P = Some P' \<Longrightarrow>
    tps_step E canListen pr P (P'\<lparr>p_phase := Serving\<rparr>)"

subsection \<open>A started gateway\<close>

definition spatial_fits :: "StaticGrid2DSpatialController option \<Rightarrow> GlobalSettingsType \<Rightarrow> bool" where
  "spatial_fits sc s = (case sc of None \<Rightarrow> True | Some ctl \<Rightarrow> grid_fits ctl s)"

interpretation process: gateway_env "process_env sc E" "spatial_fits sc" for sc and E :: Externs
  by (cases sc; unfold_locales)
    (auto simp: process_env_def spatial_fits_def with_grid_def grid_controller_def
      intro: advances_grid_Create advances_grid_Tick advances_grid_Notify)

text \<open>A gateway nobody has connected to: the global channel is the only one and has no owner, and neither
an authentication provider nor the listeners of the anti-DDoS module are there.\<close>

definition started :: "GlobalSettingsType \<Rightarrow> World \<Rightarrow> bool" where
  "started s w \<longleftrightarrow> registry_wf w \<and> w_settings w = s \<and> w_nconn w = 0 \<and> w_allConnections w = [] \<and>
     w_allChannels w = [(0, 0)] \<and> w_globalChannel w = Some 0 \<and> ch_channelType (w_chan w 0) = ChannelType_GLOBAL \<and>
     HasOwner w 0 = Some False \<and> w_authProvider w = None \<and> w_pitBlacklist w = Map.empty \<and>
     w_Event_AuthComplete w = [] \<and> w_Event_FsmDisallowed w = []"

lemma fold_register_types:
  "\<exists>r. fold (\<lambda>(t, m). RegisterChannelDataType t m) ds w = w\<lparr>w_channelDataTypeRegistery := r\<rparr>"
proof (induction ds arbitrary: w)
  case (Cons d ds)
  obtain r where "RegisterChannelDataType (fst d) (snd d) w = w\<lparr>w_channelDataTypeRegistery := r\<rparr>"
    by (cases "w_channelDataTypeRegistery w (fst d) = None")
      (auto simp: RegisterChannelDataType_def intro: that [of "w_channelDataTypeRegistery w"])
  with Cons [of "RegisterChannelDataType (fst d) (snd d) w"] show ?case by (auto simp: case_prod_unfold)
next
  case Nil
  show ?case by (rule exI [of _ "w_channelDataTypeRegistery w"]) simp
qed

lemma load_fsm_state:
  assumes "load_fsm F path = Some fsm"
  shows "cur_state fsm \<noteq> None"
proof -
  from assms obtain bytes where "(case fsm_Load (file_fsm F bytes) of (fsm, Some err) \<Rightarrow> None
      | (fsm, None) \<Rightarrow> (if cur_state fsm = None then None else Some fsm)) = Some fsm"
    by (auto simp: load_fsm_def bind_eq_Some_conv)
  then show ?thesis
    by (cases "fsm_Load (file_fsm F bytes)") (auto split: option.split_asm if_split_asm)
qed

lemma InitConnections_result:
  assumes "InitConnections F a b (fresh_process s) = Some P"
  obtains srv cl where "load_fsm F a = Some srv" "load_fsm F b = Some cl"
    "P = (fresh_process s)\<lparr>p_world := (p_world (fresh_process s))\<lparr>w_serverFsm := Some srv, w_clientFsm := Some cl\<rparr>,
       p_connectionsMade := True, p_recoveryTicker := gs_ServerConnRecoverable s\<rparr>"
  using assms by (auto simp: InitConnections_def fresh_process_def bind_eq_Some_conv Let_def demo_world_def)

lemma init_channels_started:
  assumes "init_channels E dataTypes ((fresh_process s)\<lparr>p_world := (p_world (fresh_process s))\<lparr>w_serverFsm := srv, w_clientFsm := cl,
      w_channelDataExtensionRegistery := x\<rparr>, p_connectionsMade := c, p_recoveryTicker := r\<rparr>) = Some P"
    and "settings_ok s"
  shows "started s (p_world P) \<and> w_serverFsm (p_world P) = srv \<and> w_clientFsm (p_world P) = cl \<and>
    w_channelDataExtensionRegistery (p_world P) = x \<and> p_spatial P = None \<and> p_listening P = []"
proof -
  let ?w = "(p_world (fresh_process s))\<lparr>w_serverFsm := srv, w_clientFsm := cl, w_channelDataExtensionRegistery := x\<rparr>"
  have "settings_ok (w_settings ?w)" "w_globalChannel ?w = None" "\<not> w_nonSpatialChannelFull ?w"
    using assms(2) by (simp_all add: fresh_process_def demo_world_def)
  then obtain k where i: "InitChannels (process_env None E) dataTypes ?w = Some (fold (\<lambda>(t, m). RegisterChannelDataType t m) dataTypes
      ((log_event (EvChannelCreated (w_nchan ?w)) (register_channel k (?w\<lparr>w_allChannels := [], w_nextChannelId := 0,
         w_nextSpatialChannelId := gs_SpatialChannelIdStart (w_settings ?w)\<rparr>)))\<lparr>w_globalChannel := Some (w_nchan ?w)\<rparr>))"
    and k: "ch_id k = 0" "ch_channelType k = ChannelType_GLOBAL" "ch_ownerConnection k = NilIface" "ch_removing k = 0"
    "\<not> ch_inMsgQueueClosed k"
    by (rule InitChannels_result)
  have s: "0 < gs_SpatialChannelIdStart s" using assms(2) by (auto simp: settings_ok_def word_less_nat_alt)
  from assms(1) i have P: "P = (fresh_process s)\<lparr>p_world := p_world P, p_connectionsMade := c, p_recoveryTicker := r, p_channelsMade := True\<rparr>"
    and w: "p_world P = fold (\<lambda>(t, m). RegisterChannelDataType t m) dataTypes
      ((log_event (EvChannelCreated (w_nchan ?w)) (register_channel k (?w\<lparr>w_allChannels := [], w_nextChannelId := 0,
         w_nextSpatialChannelId := gs_SpatialChannelIdStart (w_settings ?w)\<rparr>)))\<lparr>w_globalChannel := Some (w_nchan ?w)\<rparr>)"
    by (auto simp: init_channels_def fresh_process_def)
  obtain reg where reg: "p_world P = ((log_event (EvChannelCreated (w_nchan ?w)) (register_channel k (?w\<lparr>w_allChannels := [],
      w_nextChannelId := 0, w_nextSpatialChannelId := gs_SpatialChannelIdStart (w_settings ?w)\<rparr>)))
      \<lparr>w_globalChannel := Some (w_nchan ?w)\<rparr>)\<lparr>w_channelDataTypeRegistery := reg\<rparr>"
    unfolding w using fold_register_types by blast
  have "p_spatial P = None" "p_listening P = []"
    using P [THEN arg_cong, of p_spatial] P [THEN arg_cong, of p_listening] by (simp_all add: fresh_process_def)
  then show ?thesis
    using assms(2) s k unfolding reg
    by (simp add: started_def registry_wf_def settings_ok_def register_channel_def Let_def fresh_process_def demo_world_def
        log_event_def HasOwner_def GetOwner_def alist_ok_def id_fits_def)
qed

lemma listen_go_result:
  assumes "listen_go canListen t n a P = Some P'"
  obtains l where "P' = P\<lparr>p_listening := p_listening P @ l\<rparr>" "fst ` set l \<subseteq> {t}"
  using assms
  by (cases "endpoint_of n a") (auto simp: listen_go_def StartListening_def split: if_splits Endpoint.splits
      intro: that [of "[]"] that [of "[(t, the (endpoint_of n a))]"])

lemma listen_main_result:
  assumes "listen_main canListen t n a P = Some P'"
  obtains e where "P' = P\<lparr>p_listening := p_listening P @ [(t, e)]\<rparr>" "endpoint_of n a = Some e" "canListen e"
  using assms
  by (auto simp: listen_main_def StartListening_def bind_eq_Some_conv split: if_splits Endpoint.splits)

text \<open>
  C7. The program starts the gateway in a state its invariants speak of: if the flags leave the identifier ranges in order, then the
  global channel is there without an owner, nobody is connected, both state machines are loaded and at a
  state, clients are listened for, and from there on the registry stays well-formed and no message is put into a
  closed queue, however the gateway runs.
\<close>

theorem cmd_main_starts:
  assumes "cmd_main F E canListen dataTypes flags = Some P"
    and "1 < last_flag scs_of flags 0x10000" and "last_flag scs_of flags 0x10000 < last_flag ecs_of flags 0x80000"
    and "last_flag ecs_of flags 0x80000 < 2 ^ 32"
  shows "started (w_settings (p_world P)) (p_world P) \<and>
    (\<exists>srv cl. w_serverFsm (p_world P) = Some srv \<and> cur_state srv \<noteq> None \<and>
       w_clientFsm (p_world P) = Some cl \<and> cur_state cl \<noteq> None) \<and>
    ConnectionType_CLIENT \<in> fst ` set (p_listening P) \<and>
    (\<forall>w'. (gateway_step (process_env (p_spatial P) E))\<^sup>*\<^sup>* (p_world P) w' \<longrightarrow> registry_wf w' \<and>
       (\<forall>c < w_nchan w'. \<forall>m h r mp. PutMessage c m h r mp w' \<noteq> None))"
proof -
  from assms(1) obtain s pr ok P1 P2 P3 where
    flags: "ParseFlag (file_read F) (file_settings F) flags default_settings plain_process = Some (s, pr, ok)"
    and P1: "InitConnections F (pr_ServerFSM pr) (pr_ClientFSM pr) (fresh_process s) = Some P1"
    and P2: "init_channels E dataTypes P1 = Some P2"
    and P3: "listen_go canListen ConnectionType_SERVER (pr_ServerNetwork pr) (pr_ServerAddress pr) P2 = Some P3"
    and P4: "listen_main canListen ConnectionType_CLIENT (pr_ClientNetwork pr) (pr_ClientAddress pr) P3 = Some P"
    by (auto simp: cmd_main_def bind_eq_Some_conv)
  have "ucast (0x10000 :: 32 word) = (0x10000 :: 64 word)" "ucast (0x80000 :: 32 word) = (0x80000 :: 64 word)" by simp_all
  then have ok: "settings_ok s"
    using settings_ok_ucast [OF ParseFlag_ids(1,2) [OF flags]] assms(2-4) by (simp add: default_settings_def)
  obtain srv cl where fsm: "load_fsm F (pr_ServerFSM pr) = Some srv" "load_fsm F (pr_ClientFSM pr) = Some cl"
    and P1': "P1 = (fresh_process s)\<lparr>p_world := (p_world (fresh_process s))\<lparr>w_serverFsm := Some srv, w_clientFsm := Some cl\<rparr>,
       p_connectionsMade := True, p_recoveryTicker := gs_ServerConnRecoverable s\<rparr>"
    by (rule InitConnections_result [OF P1])
  have s2: "started s (p_world P2) \<and> w_serverFsm (p_world P2) = Some srv \<and> w_clientFsm (p_world P2) = Some cl \<and> p_spatial P2 = None"
    using init_channels_started [where E = E and dataTypes = dataTypes and s = s and srv = "Some srv" and cl = "Some cl" and
        x = Map.empty and c = True and r = "gs_ServerConnRecoverable s" and P = P2] P2 ok
    unfolding P1' by (simp add: fresh_process_def demo_world_def)
  obtain l where P3': "P3 = P2\<lparr>p_listening := p_listening P2 @ l\<rparr>" by (rule listen_go_result [OF P3])
  obtain e where P: "P = P3\<lparr>p_listening := p_listening P3 @ [(ConnectionType_CLIENT, e)]\<rparr>" by (rule listen_main_result [OF P4])
  have world: "p_world P = p_world P2" "p_spatial P = None" "ConnectionType_CLIENT \<in> fst ` set (p_listening P)"
    using P P3' s2 by auto
  have run: "registry_wf w' \<and> (\<forall>c < w_nchan w'. \<forall>m h r mp. PutMessage c m h r mp w' \<noteq> None)"
    if "(gateway_step (process_env (p_spatial P) E))\<^sup>*\<^sup>* (p_world P) w'" for w'
  proof -
    have "progress (p_world P) w'" by (rule process.run [OF that]) (simp add: world spatial_fits_def)
    with s2 world have "registry_wf w'" by (simp add: progress_def started_def)
    then show ?thesis by (auto simp: registry_wf_def PutMessage_def put_queue_def IsRemoving_def)
  qed
  have "cur_state srv \<noteq> None" "cur_state cl \<noteq> None"
    using fsm load_fsm_state by blast+
  then have "\<exists>srv cl. w_serverFsm (p_world P) = Some srv \<and> cur_state srv \<noteq> None \<and>
      w_clientFsm (p_world P) = Some cl \<and> cur_state cl \<noteq> None" using s2 world(1) by simp
  moreover have "started (w_settings (p_world P)) (p_world P)" using s2 world by (simp add: started_def)
  ultimately show ?thesis using world(3) run by blast
qed

text \<open>
  Without the flag for development, the first authentication message that reaches the global channel ends the
  process: no program sets an authentication provider.
\<close>

lemma no_auth_provider_panics:
  assumes "started s w" and "\<not> gs_Development s" and "x_Msg ctx = AuthMessage pit lt" and "x_Channel ctx = w_globalChannel w"
  shows "handleAuth E ctx w = None"
  using assms by (auto simp: started_def handleAuth_def bind_eq_None_conv split: option.split)

subsection \<open>Clients wait for the master server\<close>

definition no_client :: "Process \<Rightarrow> bool" where
  "no_client P \<longleftrightarrow> ConnectionType_CLIENT \<notin> fst ` set (p_listening P) \<and>
     (\<forall>p < w_nconn (p_world P). c_connectionType (w_conn (p_world P) p) \<noteq> ConnectionType_CLIENT)"

text \<open>The global channel was possessed while the main goroutine waited, in a step on the way.\<close>

definition possessed_on_the_way ::
  "Externs \<Rightarrow> (Endpoint \<Rightarrow> bool) \<Rightarrow> ProcessSettings \<Rightarrow> Process \<Rightarrow> Process \<Rightarrow> bool" where
  "possessed_on_the_way E canListen pr P0 P \<longleftrightarrow> (\<exists>Q w'. (tps_step E canListen pr)\<^sup>*\<^sup>* P0 Q \<and> p_phase Q = Waiting \<and>
     gateway_step (process_env (p_spatial Q) E) (p_world Q) w' \<and> possessed (p_world Q) w' \<and>
     (tps_step E canListen pr)\<^sup>*\<^sup>* (Q\<lparr>p_world := w', p_phase := Released\<rparr>) P)"

lemma possessed_later:
  "possessed_on_the_way E canListen pr P0 P \<Longrightarrow> tps_step E canListen pr P P' \<Longrightarrow> possessed_on_the_way E canListen pr P0 P'"
  unfolding possessed_on_the_way_def by (meson rtranclp.rtrancl_into_rtrancl)

lemma accept_at_result:
  assumes "accept_at e addr t clock w = Some w'"
  shows "w_settings w' = w_settings w \<and> (\<forall>p < w_nconn w'. p < w_nconn w \<and> w_conn w' p = w_conn w p \<or>
    c_connectionType (w_conn w' p) = t)"
proof -
  have a: "w_settings v = w_settings w \<and> (\<forall>p < w_nconn v. p < w_nconn w \<and> w_conn v p = w_conn w p \<or>
      c_connectionType (w_conn v p) = t)" if "AddConnection addr t clock w = Some (v, q)" for v q
    by (rule AddConnection_result [OF that]) (auto simp: register_connection_def new_connection_def Let_def less_Suc_eq)
  from assms show ?thesis
    by (auto simp: accept_at_def accept_connection_def bind_eq_Some_conv dest!: a split: Endpoint.splits if_splits)
qed

text \<open>The state of the wait: the settings and the controller stay, and as long as the phase is before the release there is no client.\<close>

definition waiting_inv ::
  "Externs \<Rightarrow> (Endpoint \<Rightarrow> bool) \<Rightarrow> ProcessSettings \<Rightarrow> Process \<Rightarrow> Process \<Rightarrow> bool" where
  "waiting_inv E canListen pr P0 P \<longleftrightarrow> p_spatial P = p_spatial P0 \<and> w_settings (p_world P) = w_settings (p_world P0) \<and>
     (p_phase P \<in> {Starting, Waiting} \<and> no_client P \<or> possessed_on_the_way E canListen pr P0 P)"

lemma gateway_step_clients:
  assumes "gateway_step (process_env (p_spatial P) E) (p_world P) w'" and "w_nconn w' = w_nconn (p_world P)"
    and "spatial_fits (p_spatial P) (w_settings (p_world P))"
  shows "w_settings w' = w_settings (p_world P)" and "no_client P \<Longrightarrow> p_listening P' = p_listening P \<Longrightarrow> p_world P' = w' \<Longrightarrow> no_client P'"
proof -
  have "progress (p_world P) w'" by (rule process.one_step [OF assms(1,3)])
  then show "w_settings w' = w_settings (p_world P)"
    and "no_client P \<Longrightarrow> p_listening P' = p_listening P \<Longrightarrow> p_world P' = w' \<Longrightarrow> no_client P'"
    using assms(2) by (auto simp: progress_def no_client_def conn_grows_def)
qed

lemma waiting_inv_step:
  assumes run: "(tps_step E canListen pr)\<^sup>*\<^sup>* P0 P" and step: "tps_step E canListen pr P P'"
    and fits: "spatial_fits (p_spatial P0) (w_settings (p_world P0))" and inv: "waiting_inv E canListen pr P0 P"
  shows "waiting_inv E canListen pr P0 P'"
proof -
  have same: "p_spatial P = p_spatial P0" "w_settings (p_world P) = w_settings (p_world P0)"
    using inv by (simp_all add: waiting_inv_def)
  note later = possessed_later [OF _ step]
  from step show ?thesis
  proof cases
    case (works w')
    note k = gateway_step_clients [OF works(2,3), unfolded same, OF fits]
    show ?thesis using inv later k(1) k(2) [of P'] works(1) same by (auto simp: waiting_inv_def)
  next
    case (released w')
    note k = gateway_step_clients [OF released(2,3), unfolded same, OF fits]
    have "possessed_on_the_way E canListen pr P0 P'"
      unfolding possessed_on_the_way_def using run released by blast
    with k(1) released(1) same show ?thesis by (simp add: waiting_inv_def)
  next
    case (accepts t e addr clock w')
    have "no_client P'" if "no_client P"
      using that accept_at_result [OF accepts(3)] accepts(1,2) by (force simp: no_client_def)
    with inv later accept_at_result [OF accepts(3)] accepts(1) same show ?thesis by (auto simp: waiting_inv_def)
  next
    case waits
    then show ?thesis using inv later by (auto simp: waiting_inv_def no_client_def)
  next
    case (serves Q)
    obtain e where "Q = P\<lparr>p_listening := p_listening P @ [(ConnectionType_CLIENT, e)]\<rparr>"
      by (rule listen_main_result [OF serves(3)])
    with serves inv later show ?thesis by (auto simp: waiting_inv_def)
  qed
qed

text \<open>
  C8. The game server that waits for the master server takes no client in before the global channel has been
  possessed: in every state of every run, there is neither a connection of a client nor a listener
  for clients unless, on the way to it, the channel was possessed while the main goroutine waited.
\<close>

theorem tps_clients_wait:
  assumes "tps_main U F E canListen dataTypes template flags = Some (P0, pr)" and "pr_ClientNetworkWaitMasterServer pr"
    and "1 < last_flag scs_of flags 0x10000" and "last_flag scs_of flags 0x10000 < last_flag ecs_of flags 0x80000"
    and "last_flag ecs_of flags 0x80000 < 2 ^ 32"
    and "spatial_fits (p_spatial P0) (w_settings (p_world P0))" and "(tps_step E canListen pr)\<^sup>*\<^sup>* P0 P"
  shows "no_client P \<or> possessed_on_the_way E canListen pr P0 P"
proof -
  from assms(1) obtain s ok P1 P3 P4 P6 where
    flags: "ParseFlag (file_read F) (file_settings F) flags default_settings plain_process = Some (s, pr, ok)"
    and P1: "InitConnections F (pr_ServerFSM pr) (pr_ClientFSM pr) (fresh_process s) = Some P1"
    and P3: "init_channels E dataTypes (SetChannelDataExtension ChannelType_SUBWORLD (u_recoverable U)
                (SetChannelDataExtension ChannelType_GLOBAL (u_recoverable U) P1)) = Some P3"
    and P4: "init_spatial F (pr_SpatialControllerConfig pr) P3 = Some P4"
    and P6: "listen_go canListen ConnectionType_SERVER (pr_ServerNetwork pr) (pr_ServerAddress pr)
               (register_data_type ChannelType_SPATIAL template (P4\<lparr>p_messages := UnrealMessageMap U\<rparr>)) = Some P6"
    and P0: "P0 = P6\<lparr>p_phase := Starting\<rparr>"
    using assms(2) by (auto simp: tps_main_def bind_eq_Some_conv Let_def)
  have "ucast (0x10000 :: 32 word) = (0x10000 :: 64 word)" "ucast (0x80000 :: 32 word) = (0x80000 :: 64 word)" by simp_all
  then have ok: "settings_ok s"
    using settings_ok_ucast [OF ParseFlag_ids(1,2) [OF flags]] assms(3-5) by (simp add: default_settings_def)
  obtain srv cl where P1': "P1 = (fresh_process s)\<lparr>p_world := (p_world (fresh_process s))\<lparr>w_serverFsm := Some srv, w_clientFsm := Some cl\<rparr>,
       p_connectionsMade := True, p_recoveryTicker := gs_ServerConnRecoverable s\<rparr>"
    by (rule InitConnections_result [OF P1])
  have "w_nconn (p_world P3) = 0 \<and> p_listening P3 = []"
    using init_channels_started [where E = E and dataTypes = dataTypes and s = s and srv = "Some srv" and cl = "Some cl" and
        x = "[ChannelType_GLOBAL \<mapsto> u_recoverable U, ChannelType_SUBWORLD \<mapsto> u_recoverable U]" and c = True and
        r = "gs_ServerConnRecoverable s" and P = P3] P3 ok
    unfolding P1' by (simp add: SetChannelDataExtension_def fresh_process_def demo_world_def started_def)
  moreover have "p_world P4 = p_world P3 \<and> p_listening P4 = p_listening P3"
    using P4 by (auto simp: init_spatial_def bind_eq_Some_conv split: if_splits)
  moreover obtain l where "P6 = (register_data_type ChannelType_SPATIAL template (P4\<lparr>p_messages := UnrealMessageMap U\<rparr>))
      \<lparr>p_listening := p_listening P4 @ l\<rparr>" "fst ` set l \<subseteq> {ConnectionType_SERVER}"
    by (rule listen_go_result [OF P6]) (simp add: register_data_type_def)
  ultimately have "no_client P0"
    by (auto simp: P0 no_client_def register_data_type_def RegisterChannelDataType_def)
  then have start: "waiting_inv E canListen pr P0 P0" by (simp add: waiting_inv_def P0)
  have "waiting_inv E canListen pr P0 P"
    using assms(7) by (induction rule: rtranclp_induct) (use start waiting_inv_step [OF _ _ assms(6)] in blast)+
  then show ?thesis by (auto simp: waiting_inv_def)
qed

subsection \<open>The programs come up\<close>

lemma init_channels_returns:
  assumes "settings_ok (w_settings (p_world P))" and "w_globalChannel (p_world P) = None" and "\<not> w_nonSpatialChannelFull (p_world P)"
  shows "\<exists>w. init_channels E dataTypes P = Some (P\<lparr>p_world := w, p_channelsMade := True\<rparr>) \<or> init_channels E dataTypes P = Some P"
  using InitChannels_correct [OF assms, of "process_env (p_spatial P) E" dataTypes]
  by (auto simp: init_channels_def)

lemma listen_go_returns:
  "endpoint_of n a = Some e \<Longrightarrow> canListen e \<Longrightarrow> listen_go canListen t n a P = Some (P\<lparr>p_listening := p_listening P @ [(t, e)]\<rparr>)"
  "endpoint_of n a = Some e \<Longrightarrow> canListen e \<Longrightarrow> listen_main canListen t n a P = Some (P\<lparr>p_listening := p_listening P @ [(t, e)]\<rparr>)"
  by (simp_all add: listen_go_def listen_main_def StartListening_def)

lemma InitConnections_returns:
  assumes "load_fsm F a = Some srv" and "load_fsm F b = Some cl"
  shows "InitConnections F a b (fresh_process s) =
    Some ((fresh_process s)\<lparr>p_world := (p_world (fresh_process s))\<lparr>w_serverFsm := Some srv, w_clientFsm := Some cl\<rparr>,
       p_connectionsMade := True, p_recoveryTicker := gs_ServerConnRecoverable s\<rparr>)"
  using assms by (simp add: InitConnections_def fresh_process_def Let_def demo_world_def)

definition demo_machine :: FiniteStateMachine where
  "demo_machine = \<lparr>fsm_InitState = None, fsm_States = [\<lparr>st_Name = ''INIT'', st_MsgTypeWhitelist = [], st_MsgTypeBlacklist = [],
      st_allowedMsgTypes = Map.empty, st_transitions = Map.empty\<rparr>], fsm_Transitions = [], fsm_currentState = None,
      fsm_stateNameMap = Map.empty\<rparr>"

definition demo_files :: "unit Files" where
  "demo_files = \<lparr>file_read = (\<lambda>_. Some ()), file_settings = (\<lambda>_ m. (m, True)), file_fsm = (\<lambda>_. Inr demo_machine),
     file_spatial = (\<lambda>_. None)\<rparr>"

lemma demo_load: "\<exists>fsm. load_fsm demo_files path = Some fsm"
proof -
  have "snd (fsm_Load (Inr demo_machine)) = None \<and> cur_state (fst (fsm_Load (Inr demo_machine))) \<noteq> None"
    by (simp add: fsm_Load_def demo_machine_def load_states_def cur_state_def)
  then show ?thesis
    by (cases "fsm_Load (Inr demo_machine)") (simp add: load_fsm_def demo_files_def)
qed

definition demo_flags :: "Flag list" where
  "demo_flags = [F_scs 0x20000, F_dev True]"

lemma demo_parse:
  "\<exists>s pr ok. ParseFlag (file_read demo_files) (file_settings demo_files) demo_flags default_settings plain_process = Some (s, pr, ok) \<and>
    settings_ok s \<and> pr_ServerNetwork pr = ''tcp'' \<and> pr_ClientNetwork pr = ''tcp'' \<and> pr_ClientNetworkWaitMasterServer pr \<and>
    \<not> ns_HasValue (pr_SpatialControllerConfig pr)"
  by (simp add: ParseFlag_def set_flag_def register_flags_def Let_def demo_files_def demo_flags_def assign_pending_def
      default_settings_def settings_ok_def plain_process_def) blast

lemma demo_ids: "last_flag scs_of demo_flags 0x10000 = 0x20000" "last_flag ecs_of demo_flags 0x80000 = 0x80000"
  by (simp_all add: last_flag_def demo_flags_def scs_of_def ecs_of_def)

theorem cmd_main_starts_witness:
  "\<exists>P. cmd_main demo_files demo_externs (\<lambda>_. True) [] demo_flags = Some P \<and> registry_wf (p_world P)"
proof -
  obtain s pr ok where s: "ParseFlag (file_read demo_files) (file_settings demo_files) demo_flags default_settings plain_process = Some (s, pr, ok)"
    "settings_ok s" "pr_ServerNetwork pr = ''tcp''" "pr_ClientNetwork pr = ''tcp''" using demo_parse by blast
  obtain srv cl where fsm: "load_fsm demo_files (pr_ServerFSM pr) = Some srv" "load_fsm demo_files (pr_ClientFSM pr) = Some cl"
    using demo_load by blast
  let ?P1 = "(fresh_process s)\<lparr>p_world := (p_world (fresh_process s))\<lparr>w_serverFsm := Some srv, w_clientFsm := Some cl\<rparr>,
       p_connectionsMade := True, p_recoveryTicker := gs_ServerConnRecoverable s\<rparr>"
  obtain P2 where "init_channels demo_externs [] ?P1 = Some P2"
    using init_channels_returns [of ?P1 demo_externs "[]"] s(2) by (auto simp: fresh_process_def demo_world_def)
  then obtain P where "cmd_main demo_files demo_externs (\<lambda>_. True) [] demo_flags = Some P"
    using s fsm by (simp add: cmd_main_def InitConnections_returns listen_go_returns endpoint_of_def)
  with cmd_main_starts [OF this] demo_ids show ?thesis by (auto simp: started_def)
qed

theorem tps_clients_wait_witness:
  "\<exists>P0 pr P. tps_main demo_unreal demo_files demo_externs (\<lambda>_. True) [] demo_part demo_flags = Some (P0, pr) \<and>
    (tps_step demo_externs (\<lambda>_. True) pr)\<^sup>*\<^sup>* P0 P \<and> p_phase P = Waiting \<and>
    (no_client P \<or> possessed_on_the_way demo_externs (\<lambda>_. True) pr P0 P)"
proof -
  obtain s pr ok where s: "ParseFlag (file_read demo_files) (file_settings demo_files) demo_flags default_settings plain_process = Some (s, pr, ok)"
    "settings_ok s" "pr_ServerNetwork pr = ''tcp''" "pr_ClientNetworkWaitMasterServer pr" "\<not> ns_HasValue (pr_SpatialControllerConfig pr)"
    using demo_parse by blast
  obtain srv cl where fsm: "load_fsm demo_files (pr_ServerFSM pr) = Some srv" "load_fsm demo_files (pr_ClientFSM pr) = Some cl"
    using demo_load by blast
  let ?P1 = "(fresh_process s)\<lparr>p_world := (p_world (fresh_process s))\<lparr>w_serverFsm := Some srv, w_clientFsm := Some cl\<rparr>,
       p_connectionsMade := True, p_recoveryTicker := gs_ServerConnRecoverable s\<rparr>"
  let ?P2 = "SetChannelDataExtension ChannelType_SUBWORLD (u_recoverable demo_unreal)
      (SetChannelDataExtension ChannelType_GLOBAL (u_recoverable demo_unreal) ?P1)"
  obtain P3 where P3: "init_channels demo_externs [] ?P2 = Some P3" "p_spatial P3 = None"
    using init_channels_returns [of ?P2 demo_externs "[]"] s(2)
    by (auto simp: fresh_process_def demo_world_def SetChannelDataExtension_def)
  then obtain P0 where P0: "tps_main demo_unreal demo_files demo_externs (\<lambda>_. True) [] demo_part demo_flags = Some (P0, pr)"
    and start: "p_phase P0 = Starting" "p_spatial P0 = None"
    using s fsm by (simp add: tps_main_def InitConnections_returns listen_go_returns endpoint_of_def init_spatial_def
        register_data_type_def Let_def)
  have "(tps_step demo_externs (\<lambda>_. True) pr)\<^sup>*\<^sup>* P0 (P0\<lparr>p_phase := Waiting\<rparr>)"
    using tps_step.waits [OF start(1)] by blast
  with tps_clients_wait [OF P0 s(4) _ _ _ _ this] demo_ids P0 start(2) show ?thesis
    by (intro exI [of _ P0] exI [of _ pr] exI [of _ "P0\<lparr>p_phase := Waiting\<rparr>"]) (simp add: spatial_fits_def)
qed

end
