(* ===== verification/GameMerges.thy ===== *)
theory GameMerges
  imports UnrealData
begin

text \<open>
  The merges of the channel data of the example games (\<open>MergeableChannelData\<close>): the two chat rooms, which
  keep a list of messages, and the tanks, which keep maps of states.  The chat merges are compared with what
  the gateway does with a list that has no merge of its own (\<open>limit_list\<close>, the reflective merge).
\<close>

subsection \<open>Slices\<close>

text \<open>\<open>xs[:n]\<close> may reach beyond the length of the slice, into what else its array holds (\<open>spare\<close>); beyond that
it panics.\<close>

definition reslice :: "nat \<Rightarrow> 'a list \<Rightarrow> 'a list \<Rightarrow> 'a list option" where
  "reslice n spare xs = (if n \<le> length xs + length spare then Some (take n (xs @ spare)) else None)"

definition merged_list :: "ChannelDataMergeOptions \<Rightarrow> 'a list \<Rightarrow> 'a list \<Rightarrow> 'a list" where
  "merged_list options src dst = (if mo_ShouldReplaceList options then src else dst @ src)"

subsection \<open>The chat of the Unreal example\<close>

definition ue_chat_Merge :: "'a list \<Rightarrow> ChannelDataMergeOptions \<Rightarrow> 'a list \<Rightarrow> 'a list \<Rightarrow> 'a list option" where
  "ue_chat_Merge spare options src dst =
     (let ChatMessages = merged_list options src dst; ListSizeLimit = unat (mo_ListSizeLimit options) in
      if ListSizeLimit > 0 then
        (if mo_TruncateTop options then Some (drop (length ChatMessages - ListSizeLimit) ChatMessages)
         else reslice ListSizeLimit spare ChatMessages)
      else Some ChatMessages)"

subsection \<open>The chat rooms\<close>

record ChatMessage =
  cm_Sender :: string
  cm_SendTime :: "64 word"
  cm_Content :: string

text \<open>\<open>time.UnixMilli\<close>, in nanoseconds; and the loop that moves the start back over the messages that are not
older than \<open>availableTime\<close>.\<close>

definition UnixMilli :: "64 word \<Rightarrow> int" where
  "UnixMilli ms = sint ms * 1000000"

fun keep_recent :: "int \<Rightarrow> ChatMessage list \<Rightarrow> nat \<Rightarrow> nat" where
  "keep_recent availableTime xs 0 = 0"
| "keep_recent availableTime xs (Suc start) =
     (if UnixMilli (cm_SendTime (xs ! start)) < availableTime then Suc start else keep_recent availableTime xs start)"

definition chat_Merge ::
  "int \<Rightarrow> int \<Rightarrow> ChannelDataMergeOptions \<Rightarrow> ChatMessage list \<Rightarrow> ChatMessage list \<Rightarrow> ChatMessage list" where
  "chat_Merge TimeSpanLimit now options src dst =
     (let ChatMessages = merged_list options src dst; limit = unat (mo_ListSizeLimit options); n = length ChatMessages in
      if limit > 0 \<and> n > limit then
        (if mo_TruncateTop options then
           drop (if TimeSpanLimit > 0 then keep_recent (now - TimeSpanLimit) ChatMessages (n - limit) else n - limit) ChatMessages
         else take limit ChatMessages)
      else ChatMessages)"

subsection \<open>The tanks\<close>

record TankState =
  tank_Removed :: bool
  tank_Health :: "32 word"
  tank_IsAI :: bool

record Position =
  pos_X :: float64
  pos_Y :: float64
  pos_Z :: float64

record TransformState =
  tf_Removed :: bool
  tf_Position :: "Position option"
  tf_Rotation :: "DataMsg option"
  tf_Scale :: "DataMsg option"

record TankGameChannelData =
  tk_TransformStates :: "uint32 \<rightharpoonup> TransformState"
  tk_TankStates :: "uint32 \<rightharpoonup> TankState"

fun merge_tanks :: "(uint32 \<times> TankState) list \<Rightarrow> (uint32 \<rightharpoonup> TankState) \<Rightarrow> (uint32 \<rightharpoonup> TankState)" where
  "merge_tanks [] m = m"
| "merge_tanks ((k, v) # rest) m = merge_tanks rest
     (if tank_Removed v then m(k := None)
      else case m k of
        Some tank \<Rightarrow> m(k \<mapsto> tank\<lparr>tank_Health := tank_Health v\<rparr>)
      | None \<Rightarrow> m(k \<mapsto> v))"

text \<open>The notifier, when there is one, is told of a move on the plane; \<open>asks\<close> says whether it then asks for the
data to hand over.  It passes a pointer to an identifier, and the provider takes it for a Go channel: a
panic.\<close>

definition notifies_move :: "(SpatialInfo \<Rightarrow> SpatialInfo \<Rightarrow> bool) option \<Rightarrow> Position \<Rightarrow> Position \<Rightarrow> bool" where
  "notifies_move notifier old new = (case notifier of
     None \<Rightarrow> False
   | Some asks \<Rightarrow> (fne (pos_X old) (pos_X new) \<or> fne (pos_Z old) (pos_Z new)) \<and>
       asks \<lparr>si_X = pos_X old, si_Y = Fin 0, si_Z = pos_Z old\<rparr> \<lparr>si_X = pos_X new, si_Y = Fin 0, si_Z = pos_Z new\<rparr>)"

definition merge_transform ::
  "(SpatialInfo \<Rightarrow> SpatialInfo \<Rightarrow> bool) option \<Rightarrow> TransformState \<Rightarrow> TransformState \<Rightarrow> TransformState option" where
  "merge_transform notifier v old =
     (if (case (tf_Position v, tf_Position old) of (Some new, Some before) \<Rightarrow> notifies_move notifier before new | _ \<Rightarrow> False)
      then None
      else Some (old\<lparr>
        tf_Position := (if tf_Position v \<noteq> None then tf_Position v else tf_Position old),
        tf_Rotation := (if tf_Rotation v \<noteq> None then tf_Rotation v else tf_Rotation old),
        tf_Scale := (if tf_Scale v \<noteq> None then tf_Scale v else tf_Scale old)\<rparr>))"

fun merge_transforms ::
  "(SpatialInfo \<Rightarrow> SpatialInfo \<Rightarrow> bool) option \<Rightarrow> (uint32 \<times> TransformState) list \<Rightarrow> (uint32 \<rightharpoonup> TransformState) \<Rightarrow>
   (uint32 \<rightharpoonup> TransformState) option" where
  "merge_transforms notifier [] m = Some m"
| "merge_transforms notifier ((k, v) # rest) m =
     (if tf_Removed v then merge_transforms notifier rest (m(k := None))
      else case m k of
        Some old \<Rightarrow> do {
          old' \<leftarrow> merge_transform notifier v old;
          merge_transforms notifier rest (m(k \<mapsto> old'))
        }
      | None \<Rightarrow> merge_transforms notifier rest (m(k \<mapsto> v)))"

definition tank_Merge ::
  "(SpatialInfo \<Rightarrow> SpatialInfo \<Rightarrow> bool) option \<Rightarrow> (uint32 \<times> TransformState) list \<Rightarrow> (uint32 \<times> TankState) list \<Rightarrow>
   TankGameChannelData \<Rightarrow> TankGameChannelData option" where
  "tank_Merge notifier srcTransforms srcTanks dst = do {
     transforms \<leftarrow> merge_transforms notifier srcTransforms (tk_TransformStates dst);
     Some \<lparr>tk_TransformStates = transforms, tk_TankStates = merge_tanks srcTanks (tk_TankStates dst)\<rparr>
   }"

subsection \<open>Chat messages\<close>

text \<open>
  The merge of the Unreal chat treats the list as the reflective merge does, except when it is to cut the
  list at the end and the list is shorter than the limit: then it brings back what the array holds behind
  the list, and panics when the array is shorter, too.
\<close>

theorem ue_chat_Merge_correct:
  "ue_chat_Merge spare options src dst =
    (let xs = merged_list options src dst; limit = unat (mo_ListSizeLimit options) in
     if limit = 0 \<or> mo_TruncateTop options \<or> limit \<le> length xs then Some (limit_list options xs)
     else if limit \<le> length xs + length spare then Some (take limit (xs @ spare)) else None)"
  by (auto simp: ue_chat_Merge_def reslice_def limit_list_correct Let_def)

lemma keep_recent_start:
  "keep_recent t xs start \<le> start \<and>
   (\<forall>i. keep_recent t xs start \<le> i \<longrightarrow> i < start \<longrightarrow> t \<le> UnixMilli (cm_SendTime (xs ! i))) \<and>
   (0 < keep_recent t xs start \<longrightarrow> UnixMilli (cm_SendTime (xs ! (keep_recent t xs start - 1))) < t)"
  by (induction t xs start rule: keep_recent.induct) (auto simp: less_Suc_eq)

text \<open>
  The merge of the chat rooms does what the reflective merge does with the list, except that it keeps the
  messages sent in time before the last ones of the limit, too: when the messages are in the order in which they were
  sent, those that go are just the messages that are both too old and too many.
\<close>

theorem chat_Merge_correct:
  assumes "sorted (map (UnixMilli \<circ> cm_SendTime) (merged_list options src dst))"
  shows "chat_Merge lifetime now options src dst =
    (let xs = merged_list options src dst; limit = unat (mo_ListSizeLimit options) in
     if mo_TruncateTop options \<and> 0 < lifetime \<and> 0 < limit
     then map snd (filter (\<lambda>(i, m). length xs \<le> i + limit \<or> now - lifetime \<le> UnixMilli (cm_SendTime m)) (enumerate 0 xs))
     else limit_list options xs)"
proof -
  define xs where "xs = merged_list options src dst"
  define limit where "limit = unat (mo_ListSizeLimit options)"
  note sorted = assms [folded xs_def]
  show ?thesis
  proof (cases "mo_TruncateTop options \<and> 0 < lifetime \<and> limit > 0")
    case True
    define s where "s = (if limit < length xs then keep_recent (now - lifetime) xs (length xs - limit) else 0)"
    have merge: "chat_Merge lifetime now options src dst = drop s xs"
      using True by (auto simp: chat_Merge_def Let_def s_def xs_def limit_def)
    have s: "s \<le> length xs" "\<And>i. s \<le> i \<Longrightarrow> i + limit < length xs \<Longrightarrow> now - lifetime \<le> UnixMilli (cm_SendTime (xs ! i))"
      using keep_recent_start [of "now - lifetime" xs "length xs - limit"] by (auto simp: s_def split: if_splits)
    have old: "UnixMilli (cm_SendTime (xs ! i)) < now - lifetime \<and> i + limit < length xs" if "i < s" for i
    proof -
      from that have k: "limit < length xs" and s': "s = keep_recent (now - lifetime) xs (length xs - limit)"
        by (auto simp: s_def split: if_splits)
      from keep_recent_start [of "now - lifetime" xs "length xs - limit"] that
      have "UnixMilli (cm_SendTime (xs ! (s - 1))) < now - lifetime" "s \<le> length xs - limit" unfolding s' by auto
      moreover have "UnixMilli (cm_SendTime (xs ! i)) \<le> UnixMilli (cm_SendTime (xs ! (s - 1)))"
        using sorted_nth_mono [OF sorted, of i "s - 1"] that s(1) by simp
      ultimately show ?thesis using that k by linarith
    qed
    let ?P = "\<lambda>(i, m). length xs \<le> i + limit \<or> now - lifetime \<le> UnixMilli (cm_SendTime m)"
    have split: "enumerate 0 xs = enumerate 0 (take s xs) @ enumerate s (drop s xs)"
      using enumerate_append_eq [of 0 "take s xs" "drop s xs"] s(1) by simp
    have "filter ?P (enumerate 0 (take s xs)) = []"
      using old by (fastforce simp: filter_empty_conv in_set_enumerate_eq)
    moreover have "filter ?P (enumerate s (drop s xs)) = enumerate s (drop s xs)"
      using s(1) by (auto simp: filter_id_conv in_set_enumerate_eq dest: s(2) intro: leI)
        (meson leI not_le s(2))
    ultimately have "map snd (filter ?P (enumerate 0 xs)) = drop s xs" by (simp add: split)
    with True merge show ?thesis by (simp add: xs_def limit_def)
  next
    case False
    then show ?thesis by (auto simp: chat_Merge_def limit_list_correct Let_def xs_def limit_def)
  qed
qed

subsection \<open>Tanks\<close>

definition tank_after :: "TankState option \<Rightarrow> TankState option \<Rightarrow> TankState option" where
  "tank_after update old = (case update of
     None \<Rightarrow> old
   | Some v \<Rightarrow> (if tank_Removed v then None
       else Some (case old of None \<Rightarrow> v | Some t \<Rightarrow> t\<lparr>tank_Health := tank_Health v\<rparr>)))"

definition set_fields :: "TransformState \<Rightarrow> TransformState \<Rightarrow> TransformState" where
  "set_fields v t = t\<lparr>tf_Position := set_or (tf_Position t) (tf_Position v), tf_Rotation := set_or (tf_Rotation t) (tf_Rotation v),
     tf_Scale := set_or (tf_Scale t) (tf_Scale v)\<rparr>"

definition transform_after :: "TransformState option \<Rightarrow> TransformState option \<Rightarrow> TransformState option" where
  "transform_after update old = (case update of
     None \<Rightarrow> old
   | Some v \<Rightarrow> (if tf_Removed v then None else Some (case old of None \<Rightarrow> v | Some t \<Rightarrow> set_fields v t)))"

text \<open>An update that the notifier would hand over.\<close>

definition hands_over :: "(SpatialInfo \<Rightarrow> SpatialInfo \<Rightarrow> bool) option \<Rightarrow> TransformState option \<Rightarrow> TransformState \<Rightarrow> bool" where
  "hands_over notifier old v \<longleftrightarrow> \<not> tf_Removed v \<and>
     (\<exists>t new before. old = Some t \<and> tf_Position v = Some new \<and> tf_Position t = Some before \<and> notifies_move notifier before new)"

lemma merge_tanks_step: "merge_tanks ((k, v) # rest) m = merge_tanks rest (m(k := tank_after (Some v) (m k)))"
  by (auto simp: tank_after_def split: option.splits)

lemma merge_tanks_lookup:
  "distinct (map fst src) \<Longrightarrow> merge_tanks src m = (\<lambda>k. tank_after (map_of src k) (m k))"
proof (induction src arbitrary: m)
  case (Cons u src)
  obtain k v where u: "u = (k, v)" by fastforce
  have "map_of src k = None" using Cons.prems u by (simp add: map_of_eq_None_iff)
  with Cons u show ?case
    by (auto simp only: merge_tanks_step fun_eq_iff distinct.simps list.map fst_conv)
      (auto simp: tank_after_def)
qed (simp add: tank_after_def)

lemma merge_transform_fields:
  "\<not> tf_Removed v \<Longrightarrow>
    merge_transform notifier v t = (if hands_over notifier (Some t) v then None else Some (set_fields v t))"
  by (auto simp: merge_transform_def hands_over_def set_fields_def set_or_def split: option.splits)

lemma merge_transforms_step:
  "merge_transforms notifier ((k, v) # rest) m =
    (if hands_over notifier (m k) v then None
     else merge_transforms notifier rest (m(k := transform_after (Some v) (m k))))"
  by (cases "tf_Removed v"; cases "m k")
    (simp_all add: transform_after_def merge_transform_fields, simp_all add: hands_over_def)

lemma merge_transforms_lookup:
  "distinct (map fst src) \<Longrightarrow> merge_transforms notifier src m =
    (if list_ex (\<lambda>(k, v). hands_over notifier (m k) v) src then None
     else Some (\<lambda>k. transform_after (map_of src k) (m k)))"
proof (induction src arbitrary: m)
  case (Cons u src)
  obtain k v where u: "u = (k, v)" by fastforce
  let ?m = "m(k := transform_after (Some v) (m k))"
  have new: "map_of src k = None" and k: "k \<notin> fst ` set src"
    using Cons.prems u by (simp_all add: map_of_eq_None_iff)
  have "list_ex (\<lambda>(k, v). hands_over notifier (?m k) v) src = list_ex (\<lambda>(k, v). hands_over notifier (m k) v) src"
    using k by (force simp: list_ex_iff)
  moreover have "(\<lambda>j. transform_after (map_of src j) (?m j)) = (\<lambda>j. transform_after (map_of (u # src) j) (m j))"
    using new by (auto simp: fun_eq_iff u transform_after_def)
  moreover have "merge_transforms notifier src ?m =
      (if list_ex (\<lambda>(k, v). hands_over notifier (?m k) v) src then None else Some (\<lambda>k. transform_after (map_of src k) (?m k)))"
    using Cons by simp
  ultimately show ?case by (simp add: u merge_transforms_step del: merge_transforms.simps)
qed (simp add: transform_after_def)

text \<open>
  Merging the state of the game: an update of a tank that is there sets its health only, one of a transform
  sets the parts it has, marked entries go and new ones are taken over, and all others stay as they are.  It
  panics exactly when the notifier asks for the data of a tank that moved; without a notifier, as in the subworld
  channels of the game, it never does.
\<close>

theorem tank_Merge_correct:
  assumes "distinct (map fst srcTransforms)" and "distinct (map fst srcTanks)"
  shows "tank_Merge notifier srcTransforms srcTanks dst =
      (if list_ex (\<lambda>(k, v). hands_over notifier (tk_TransformStates dst k) v) srcTransforms then None
       else Some \<lparr>tk_TransformStates = (\<lambda>k. transform_after (map_of srcTransforms k) (tk_TransformStates dst k)),
         tk_TankStates = (\<lambda>k. tank_after (map_of srcTanks k) (tk_TankStates dst k))\<rparr>) \<and>
    tank_Merge None srcTransforms srcTanks dst \<noteq> None"
  using merge_transforms_lookup [OF assms(1)] merge_tanks_lookup [OF assms(2)]
  by (simp add: tank_Merge_def list_ex_iff) (auto simp: hands_over_def notifies_move_def)

theorem tank_Merge_correct_witness:
  "tank_Merge (Some (\<lambda>_ _. True)) [(7, \<lparr>tf_Removed = False, tf_Position = Some \<lparr>pos_X = Fin 1, pos_Y = Fin 0, pos_Z = Fin 0\<rparr>,
       tf_Rotation = None, tf_Scale = None\<rparr>)] []
     \<lparr>tk_TransformStates = [7 \<mapsto> \<lparr>tf_Removed = False, tf_Position = Some \<lparr>pos_X = Fin 0, pos_Y = Fin 0, pos_Z = Fin 0\<rparr>,
       tf_Rotation = None, tf_Scale = None\<rparr>], tk_TankStates = Map.empty\<rparr> = None"
  using tank_Merge_correct [of "[(7, \<lparr>tf_Removed = False, tf_Position = Some \<lparr>pos_X = Fin 1, pos_Y = Fin 0, pos_Z = Fin 0\<rparr>,
       tf_Rotation = None, tf_Scale = None\<rparr>)]" "[]" "Some (\<lambda>_ _. True)"
     "\<lparr>tk_TransformStates = [7 \<mapsto> \<lparr>tf_Removed = False, tf_Position = Some \<lparr>pos_X = Fin 0, pos_Y = Fin 0, pos_Z = Fin 0\<rparr>,
       tf_Rotation = None, tf_Scale = None\<rparr>], tk_TankStates = Map.empty\<rparr>"]
  by (simp add: hands_over_def notifies_move_def fne_def)

text \<open>Examples of the chat merges: a limit beyond the list that is to be cut at the end, and a room that keeps a
recent message beyond the limit.\<close>

theorem chat_Merge_correct_witness:
  "chat_Merge 5000000 20000000 \<lparr>mo_ShouldReplaceList = False, mo_ListSizeLimit = 1, mo_TruncateTop = True, mo_ShouldCheckRemovableMapField = True\<rparr>
     [\<lparr>cm_Sender = ''b'', cm_SendTime = 20, cm_Content = []\<rparr>]
     [\<lparr>cm_Sender = ''a'', cm_SendTime = 10, cm_Content = []\<rparr>, \<lparr>cm_Sender = ''a'', cm_SendTime = 18, cm_Content = []\<rparr>] =
   [\<lparr>cm_Sender = ''a'', cm_SendTime = 18, cm_Content = []\<rparr>, \<lparr>cm_Sender = ''b'', cm_SendTime = 20, cm_Content = []\<rparr>]"
  using chat_Merge_correct [of "\<lparr>mo_ShouldReplaceList = False, mo_ListSizeLimit = 1, mo_TruncateTop = True, mo_ShouldCheckRemovableMapField = True\<rparr>"
     "[\<lparr>cm_Sender = ''b'', cm_SendTime = 20, cm_Content = []\<rparr>]"
     "[\<lparr>cm_Sender = ''a'', cm_SendTime = 10, cm_Content = []\<rparr>, \<lparr>cm_Sender = ''a'', cm_SendTime = 18, cm_Content = []\<rparr>]" 5000000 20000000]
  by (simp add: merged_list_def UnixMilli_def)

lemma ue_chat_Merge_panics:
  "ue_chat_Merge [] \<lparr>mo_ShouldReplaceList = False, mo_ListSizeLimit = 10, mo_TruncateTop = False, mo_ShouldCheckRemovableMapField = True\<rparr>
     [x] [] = None"
  by (simp add: ue_chat_Merge_def merged_list_def reslice_def)

end
