(* ===== verification/Client.thy ===== *)
theory Client
  imports Framing
begin

text \<open>
  The Go client library (\<open>pkg/client/client.go\<close>): the framing on the client's side, the queues in both
  directions, the callbacks of requests and the handlers that keep the sets of channels.  The gateway's
  side of the framing is in the theory of framing, and the two are put together here.

  The queues are Go channels of 128 and 32 places: sending to a full one does not return, which is
  \<open>None\<close> here, as a panic is.  The codecs, \<open>Dial\<close> and the application's callbacks are parameters.
\<close>

subsection \<open>State\<close>

text \<open>The handlers of the library, and those (and the callbacks) of the application by number.\<close>

datatype ClientHandler =
    CH_Auth | CH_CreateChannel | CH_RemoveChannel | CH_SubToChannel | CH_UnsubToChannel | CH_ListChannel
  | CH_Default | CH_App nat

record messageMapEntry =
  me_msg :: Msg
  me_handlers :: "ClientHandler list"

record messageQueueEntry =
  qe_msg :: Msg
  qe_channelId :: uint32
  qe_stubId :: uint32
  qe_handlers :: "ClientHandler list"

record ChanneldClient =
  cl_Id :: uint32
  cl_CompressionType :: CompressionType
  cl_SubscribedChannels :: "uint32 set"
  cl_CreatedChannels :: "uint32 set"
  cl_ListedChannels :: "uint32 set"
  cl_readBuffer :: "byte list"
  cl_readPos :: nat
  cl_connected :: bool
  cl_incomingQueue :: "messageQueueEntry list"
  cl_outgoingQueue :: "byte list MessagePack list"
  cl_messageMap :: "uint32 \<rightharpoonup> messageMapEntry"
  cl_stubCallbacks :: "uint32 \<rightharpoonup> ClientHandler"
  cl_written :: "byte list list"

text \<open>The codec: \<open>Clone\<close> of a template and \<open>Unmarshal\<close> into it, \<open>Marshal\<close>, \<open>Size\<close>; and what a callback of
the application does.\<close>

record ClientEnv =
  ce_unmarshal :: "Msg \<Rightarrow> byte list \<Rightarrow> Msg option"
  ce_marshal :: "Msg \<Rightarrow> byte list option"
  ce_size :: "byte list MessagePack \<Rightarrow> nat"
  ce_marshalPacket :: "byte list MessagePack list \<Rightarrow> byte list option"
  ce_app :: "nat \<Rightarrow> uint32 \<Rightarrow> Msg \<Rightarrow> ChanneldClient \<Rightarrow> ChanneldClient option"

definition incoming_capacity :: nat where "incoming_capacity = 128"
definition outgoing_capacity :: nat where "outgoing_capacity = 32"

definition SetMessageEntry :: "uint32 \<Rightarrow> Msg \<Rightarrow> ClientHandler list \<Rightarrow> ChanneldClient \<Rightarrow> ChanneldClient" where
  "SetMessageEntry msgType msgTemplate handlers c =
     c\<lparr>cl_messageMap := (cl_messageMap c)(msgType \<mapsto> \<lparr>me_msg = msgTemplate, me_handlers = handlers\<rparr>)\<rparr>"

definition AddMessageHandler :: "uint32 \<Rightarrow> ClientHandler list \<Rightarrow> ChanneldClient \<Rightarrow> ChanneldClient \<times> bool" where
  "AddMessageHandler msgType handlers c = (case cl_messageMap c msgType of
     None \<Rightarrow> (c, False)
   | Some entry \<Rightarrow>
       (c\<lparr>cl_messageMap := (cl_messageMap c)(msgType \<mapsto> entry\<lparr>me_handlers := me_handlers entry @ handlers\<rparr>)\<rparr>, True))"

text \<open>The templates of the messages a client receives: messages without content.\<close>

definition zero_options :: ChannelSubscriptionOptions where
  "zero_options = \<lparr>so_DataAccess = None, so_DataFieldMasks = [], so_FanOutIntervalMs = None,
     so_FanOutDelayMs = None, so_SkipSelfUpdateFanOut = None, so_SkipFirstFanOut = None\<rparr>"

definition NewClient :: ChanneldClient where
  "NewClient =
     SetMessageEntry MessageType_CHANNEL_DATA_UPDATE (ChannelDataUpdateMessage None 0) [CH_Default]
    (SetMessageEntry MessageType_LIST_CHANNEL (ListChannelResultMessage []) [CH_ListChannel]
    (SetMessageEntry MessageType_UNSUB_FROM_CHANNEL (UnsubscribedFromChannelResultMessage 0 0 0) [CH_UnsubToChannel]
    (SetMessageEntry MessageType_SUB_TO_CHANNEL (SubscribedToChannelResultMessage 0 zero_options 0 0) [CH_SubToChannel]
    (SetMessageEntry MessageType_REMOVE_CHANNEL (RemoveChannelMessage 0) [CH_RemoveChannel]
    (SetMessageEntry MessageType_CREATE_CHANNEL (CreateChannelResultMessage 0 [] 0 0) [CH_CreateChannel]
    (SetMessageEntry MessageType_AUTH (AuthResultMessage 0 0 0 False) [CH_Auth]
      \<lparr>cl_Id = 0, cl_CompressionType = Compression_NO, cl_SubscribedChannels = {}, cl_CreatedChannels = {},
       cl_ListedChannels = {}, cl_readBuffer = replicate MaxPacketSize 0, cl_readPos = 0, cl_connected = True,
       cl_incomingQueue = [], cl_outgoingQueue = [], cl_messageMap = Map.empty,
       cl_stubCallbacks = [0 \<mapsto> CH_Default], cl_written = []\<rparr>))))))"

subsection \<open>Handlers\<close>

text \<open>A type assertion that fails is a panic.\<close>

definition client_handleAuth :: "Msg \<Rightarrow> ChanneldClient \<Rightarrow> ChanneldClient option" where
  "client_handleAuth m c = (case m of
     AuthResultMessage result connId compressionType shouldRecover \<Rightarrow>
       Some (if result = AuthResult_SUCCESSFUL \<and> cl_Id c = 0
             then c\<lparr>cl_Id := connId, cl_CompressionType := compressionType\<rparr> else c)
   | _ \<Rightarrow> None)"

definition client_handleCreateChannel :: "uint32 \<Rightarrow> ChanneldClient \<Rightarrow> ChanneldClient option" where
  "client_handleCreateChannel channelId c = Some (c\<lparr>cl_CreatedChannels := insert channelId (cl_CreatedChannels c)\<rparr>)"

definition client_handleRemoveChannel :: "Msg \<Rightarrow> ChanneldClient \<Rightarrow> ChanneldClient option" where
  "client_handleRemoveChannel m c = (case m of
     RemoveChannelMessage i \<Rightarrow> Some (c\<lparr>cl_SubscribedChannels := cl_SubscribedChannels c - {i},
       cl_CreatedChannels := cl_CreatedChannels c - {i}, cl_ListedChannels := cl_ListedChannels c - {i}\<rparr>)
   | _ \<Rightarrow> None)"

definition client_handleSubToChannel :: "uint32 \<Rightarrow> ChanneldClient \<Rightarrow> ChanneldClient option" where
  "client_handleSubToChannel channelId c = Some (c\<lparr>cl_SubscribedChannels := insert channelId (cl_SubscribedChannels c)\<rparr>)"

definition client_handleUnsubToChannel :: "uint32 \<Rightarrow> ChanneldClient \<Rightarrow> ChanneldClient option" where
  "client_handleUnsubToChannel channelId c = Some (c\<lparr>cl_SubscribedChannels := cl_SubscribedChannels c - {channelId}\<rparr>)"

definition client_handleListChannel :: "Msg \<Rightarrow> ChanneldClient \<Rightarrow> ChanneldClient option" where
  "client_handleListChannel m c = (case m of
     ListChannelResultMessage infos \<Rightarrow> Some (c\<lparr>cl_ListedChannels := set (map ci_ChannelId infos)\<rparr>)
   | _ \<Rightarrow> None)"

definition client_call :: "ClientEnv \<Rightarrow> ClientHandler \<Rightarrow> uint32 \<Rightarrow> Msg \<Rightarrow> ChanneldClient \<Rightarrow> ChanneldClient option" where
  "client_call CE h channelId m c = (case h of
     CH_Auth \<Rightarrow> client_handleAuth m c
   | CH_CreateChannel \<Rightarrow> client_handleCreateChannel channelId c
   | CH_RemoveChannel \<Rightarrow> client_handleRemoveChannel m c
   | CH_SubToChannel \<Rightarrow> client_handleSubToChannel channelId c
   | CH_UnsubToChannel \<Rightarrow> client_handleUnsubToChannel channelId c
   | CH_ListChannel \<Rightarrow> client_handleListChannel m c
   | CH_Default \<Rightarrow> Some c
   | CH_App n \<Rightarrow> ce_app CE n channelId m c)"

subsection \<open>Receiving\<close>

text \<open>The size in a header, \<open>None\<close> for an invalid tag.\<close>

fun client_packetSize :: "byte list \<Rightarrow> nat option" where
  "client_packetSize (t0 # t1 # t2 # t3 # tag) =
     (if t0 \<noteq> 67 then None
      else if t1 \<noteq> 72 then Some (unat t3 + 256 * unat t2 + 65536 * unat t1)
      else if t2 \<noteq> 78 then Some (unat t3 + 256 * unat t2)
      else Some (unat t3))"
| "client_packetSize _ = None"

text \<open>The messages of a packet go to the queue one by one; the flag is false when one of them is not
registered or does not unmarshal, and those before it have been queued then.\<close>

fun client_deliver ::
  "ClientEnv \<Rightarrow> byte list MessagePack list \<Rightarrow> ChanneldClient \<Rightarrow> (ChanneldClient \<times> bool) option" where
  "client_deliver CE [] c = Some (c, True)"
| "client_deliver CE (mp # mps) c = (case cl_messageMap c (mp_MsgType mp) of
     None \<Rightarrow> Some (c, False)
   | Some entry \<Rightarrow> (case ce_unmarshal CE (me_msg entry) (mp_MsgBody mp) of
       None \<Rightarrow> Some (c, False)
     | Some msg \<Rightarrow>
         if incoming_capacity \<le> length (cl_incomingQueue c) then None
         else client_deliver CE mps (c\<lparr>cl_incomingQueue := cl_incomingQueue c @
           [\<lparr>qe_msg = msg, qe_channelId = mp_ChannelId mp, qe_stubId = mp_StubId mp, qe_handlers = me_handlers entry\<rparr>]\<rparr>)))"

definition client_body :: "Externs \<Rightarrow> byte \<Rightarrow> byte list \<Rightarrow> byte list MessagePack list option" where
  "client_body E ct bytes =
     Option.bind (if int (unat ct) = Compression_SNAPPY
         then Option.bind (ex_snappyDecodedLen E bytes) (\<lambda>_. ex_snappyDecode E bytes) else Some bytes)
       (ex_unmarshalPacket E)"

text \<open>What \<open>Receive\<close> does once the bytes are in the buffer: one packet at most, and then the buffer is
considered empty.\<close>

definition client_take_packet :: "Externs \<Rightarrow> ClientEnv \<Rightarrow> ChanneldClient \<Rightarrow> (ChanneldClient \<times> bool) option" where
  "client_take_packet E CE c =
     (if cl_readPos c < 5 then Some (c, True)
      else do {
        tag \<leftarrow> go_slice (cl_readBuffer c) 0 5;
        (case client_packetSize tag of
          None \<Rightarrow> Some (c, False)
        | Some packetSize \<Rightarrow>
            if cl_readPos c < 5 + packetSize then Some (c, True)
            else do {
              bytes \<leftarrow> go_slice (cl_readBuffer c) 5 (5 + packetSize);
              (case client_body E (tag ! 4) bytes of
                None \<Rightarrow> Some (c, False)
              | Some mps \<Rightarrow> do {
                  (c', ok) \<leftarrow> client_deliver CE mps c;
                  Some (if ok then (c'\<lparr>cl_readPos := 0\<rparr>, True) else (c', False))
                })
            })
      })"

text \<open>\<open>Read\<close> offers the given bytes, at most as many as the free part of the buffer has, or an error; the
flag says that there was no error.\<close>

definition client_Receive ::
  "Externs \<Rightarrow> ClientEnv \<Rightarrow> byte list option \<Rightarrow> ChanneldClient \<Rightarrow> (ChanneldClient \<times> bool) option" where
  "client_Receive E CE bytes c = (case bytes of
     None \<Rightarrow> Some (c, False)
   | Some bs \<Rightarrow>
       (if length (cl_readBuffer c) < cl_readPos c + length bs then None
        else client_take_packet E CE (c\<lparr>cl_readBuffer := read_into (cl_readBuffer c) (cl_readPos c) bs,
               cl_readPos := cl_readPos c + length bs\<rparr>)))"

subsection \<open>Sending\<close>

text \<open>The search for a free stub identifier, which counts on from 0 and wraps around.\<close>

partial_function (option) free_stub :: "(uint32 \<rightharpoonup> ClientHandler) \<Rightarrow> uint32 \<Rightarrow> uint32 option" where
  "free_stub m i = (if m i = None then Some i else free_stub m (i + 1))"

definition register_stub :: "ClientHandler option \<Rightarrow> ChanneldClient \<Rightarrow> (ChanneldClient \<times> uint32) option" where
  "register_stub callback c = (case callback of
     None \<Rightarrow> Some (c, 0)
   | Some h \<Rightarrow> do {
       i \<leftarrow> free_stub (cl_stubCallbacks c) 0;
       Some (c\<lparr>cl_stubCallbacks := (cl_stubCallbacks c)(i \<mapsto> h)\<rparr>, i)
     })"

definition client_SendRaw ::
  "uint32 \<Rightarrow> uint32 \<Rightarrow> uint32 \<Rightarrow> byte list \<Rightarrow> ClientHandler option \<Rightarrow> ChanneldClient \<Rightarrow> (ChanneldClient \<times> bool) option" where
  "client_SendRaw channelId broadcast msgType msgBody callback c = do {
     (c1, stubId) \<leftarrow> register_stub callback c;
     if outgoing_capacity \<le> length (cl_outgoingQueue c1) then None
     else Some (c1\<lparr>cl_outgoingQueue := cl_outgoingQueue c1 @
       [\<lparr>mp_ChannelId = channelId, mp_Broadcast = broadcast, mp_StubId = stubId, mp_MsgType = msgType, mp_MsgBody = msgBody\<rparr>]\<rparr>, True)
   }"

text \<open>A message that does not marshal leaves its callback behind.\<close>

definition client_Send ::
  "ClientEnv \<Rightarrow> uint32 \<Rightarrow> uint32 \<Rightarrow> uint32 \<Rightarrow> Msg \<Rightarrow> ClientHandler option \<Rightarrow> ChanneldClient \<Rightarrow> (ChanneldClient \<times> bool) option" where
  "client_Send CE channelId broadcast msgType msg callback c = (case ce_marshal CE msg of
     None \<Rightarrow> map_option (\<lambda>(c1, _). (c1, False)) (register_stub callback c)
   | Some msgBody \<Rightarrow> client_SendRaw channelId broadcast msgType msgBody callback c)"

definition client_Auth :: "ClientEnv \<Rightarrow> string \<Rightarrow> string \<Rightarrow> ChanneldClient \<Rightarrow> ChanneldClient option" where
  "client_Auth CE lt pit c = map_option fst (client_Send CE 0 Broadcast_NO MessageType_AUTH (AuthMessage pit lt) None c)"

text \<open>The frame of a body; the third byte carries the size only from 256 bytes on, the second from
65536 on.\<close>

definition client_frame :: "CompressionType \<Rightarrow> byte list \<Rightarrow> byte list" where
  "client_frame ct body =
     [67,
      if length body > 0xffff then of_nat ((length body div 65536) mod 256) else 72,
      if length body > 0xff then of_nat ((length body div 256) mod 256) else 78,
      of_nat (length body mod 256), of_int ct] @ body"

definition writePacket :: "Externs \<Rightarrow> ClientEnv \<Rightarrow> byte list MessagePack list \<Rightarrow> ChanneldClient \<Rightarrow> ChanneldClient \<times> bool" where
  "writePacket E CE p c = (case ce_marshalPacket CE p of
     None \<Rightarrow> (c, False)
   | Some bytes \<Rightarrow>
       let body = (if cl_CompressionType c = Compression_SNAPPY then ex_snappyEncode E bytes else bytes) in
       (c\<lparr>cl_written := cl_written c @ [client_frame (cl_CompressionType c) body]\<rparr>, True))"

subsection \<open>The tick\<close>

fun client_call_all :: "ClientEnv \<Rightarrow> ClientHandler list \<Rightarrow> uint32 \<Rightarrow> Msg \<Rightarrow> ChanneldClient \<Rightarrow> ChanneldClient option" where
  "client_call_all CE [] channelId m c = Some c"
| "client_call_all CE (h # hs) channelId m c = do {
     c1 \<leftarrow> client_call CE h channelId m c;
     client_call_all CE hs channelId m c1
   }"

definition client_handle_entry :: "ClientEnv \<Rightarrow> messageQueueEntry \<Rightarrow> ChanneldClient \<Rightarrow> ChanneldClient option" where
  "client_handle_entry CE entry c = do {
     c1 \<leftarrow> client_call_all CE (qe_handlers entry) (qe_channelId entry) (qe_msg entry) c;
     if qe_stubId entry > 0 then (case cl_stubCallbacks c1 (qe_stubId entry) of
         None \<Rightarrow> Some c1
       | Some callback \<Rightarrow> client_call CE callback (qe_channelId entry) (qe_msg entry) c1)
     else Some c1
   }"

partial_function (option) client_tick_incoming :: "ClientEnv \<Rightarrow> ChanneldClient \<Rightarrow> ChanneldClient option" where
  "client_tick_incoming CE c = (case cl_incomingQueue c of
     [] \<Rightarrow> Some c
   | entry # rest \<Rightarrow>
       Option.bind (client_handle_entry CE entry (c\<lparr>cl_incomingQueue := rest\<rparr>)) (client_tick_incoming CE))"

text \<open>The packs of the next packet and those that stay in the queue.  The size of the packet is not added
up, and the pack that ends the loop is gone.\<close>

fun take_outgoing :: "ClientEnv \<Rightarrow> byte list MessagePack list \<Rightarrow> byte list MessagePack list \<times> byte list MessagePack list" where
  "take_outgoing CE [] = ([], [])"
| "take_outgoing CE (mp # q) =
     (if ce_size CE mp \<ge> 0xfffff0 then ([], q)
      else case take_outgoing CE q of (ms, rest) \<Rightarrow> (mp # ms, rest))"

definition client_Tick :: "Externs \<Rightarrow> ClientEnv \<Rightarrow> ChanneldClient \<Rightarrow> (ChanneldClient \<times> bool) option" where
  "client_Tick E CE c = do {
     c1 \<leftarrow> client_tick_incoming CE c;
     if cl_outgoingQueue c1 = [] then Some (c1, True)
     else case take_outgoing CE (cl_outgoingQueue c1) of
       (messages, rest) \<Rightarrow> Some (writePacket E CE messages (c1\<lparr>cl_outgoingQueue := rest\<rparr>))
   }"

subsection \<open>The two framings\<close>

lemma of_nat_byte: "n < 256 \<Longrightarrow> unat (of_nat n :: byte) = n"
  by (simp add: unat_of_nat take_bit_eq_mod)

lemma of_nat_byte_eq: "m < 256 \<Longrightarrow> n < 256 \<Longrightarrow> (of_nat m :: byte) = of_nat n \<longleftrightarrow> m = n"
  by (metis of_nat_byte)

text \<open>
  C32. The frame the client library writes for a body is the frame the gateway writes for it exactly when
  the body has at least 256 bytes.
\<close>

theorem frames_agree:
  assumes "length body \<le> MaxPacketSize"
  shows "client_frame ct body = frame ct body \<longleftrightarrow> 256 \<le> length body"
proof (cases "length body > 0xff")
  case True
  then show ?thesis using assms by (simp add: client_frame_def frame_def MaxPacketSize_def)
next
  case False
  then have "(78 :: byte) \<noteq> of_nat (length body div 256 mod 256)" using of_nat_byte_eq [of 78 0] by simp
  then show ?thesis using False assms by (simp add: client_frame_def frame_def MaxPacketSize_def)
qed

theorem frames_agree_witness:
  "client_frame 0 (replicate 256 7) = frame 0 (replicate 256 7) \<and> client_frame 0 [7] \<noteq> frame 0 [7]"
proof
  show "client_frame 0 (replicate 256 7) = frame 0 (replicate 256 7)"
    by (rule frames_agree [THEN iffD2]) (simp_all add: MaxPacketSize_def)
  show "client_frame 0 [7] \<noteq> frame 0 [7]"
    by (subst frames_agree) (simp_all add: MaxPacketSize_def)
qed

lemma client_frame_size:
  assumes "length body < 256"
  shows "readSize (take 5 (client_frame ct body)) = Some (length body + 19968)"
  using assms by (simp add: client_frame_def of_nat_byte)

text \<open>
  C33. A packet of less than 256 bytes from the client library is never delivered: the gateway takes the
  unused third byte of the header for a size and waits for 19968 more bytes, whatever the client sends in
  the meantime and however the stream is cut into reads, without an error.
\<close>

theorem small_packets_stall_gateway:
  assumes "length body < 256" and "length ys < 19968"
    and "reader_ok c" and "c_readPos c = 0" and "stream = client_frame ct body @ ys"
  shows "\<exists>c' unread. receive_run E ns stream c = Some (c', [], None, unread)"
proof -
  have wait: "parse_stream E bs = ([], bs, None)" if "stream = bs @ more" for bs more
  proof (cases "length bs < 5")
    case False
    from that have "take 5 bs = take 5 stream" using False by simp
    also have "\<dots> = take 5 (client_frame ct body)" using assms(5) by (simp add: client_frame_def)
    finally have size: "readSize (take 5 bs) = Some (length body + 19968)" using client_frame_size [OF assms(1)] by simp
    have "length bs \<le> length stream" using that by simp
    also have "\<dots> < 5 + (length body + 19968)" using assms(2,5) by (simp add: client_frame_def)
    finally have "frame_step E bs = FWait" using size False by (simp add: frame_step_def PacketHeaderSize_def)
    then show ?thesis by (simp add: parse_stream.simps [of E bs])
  qed (simp add: parse_stream_short)
  have "parse_stream E (pending c) = ([], pending c, None)" using assms(4) by (simp add: pending_def parse_stream_short)
  from receive_run_parses [OF assms(3) this, of ns stream] obtain c' ps e unread consumed rest
    where run: "receive_run E ns stream c = Some (c', ps, e, unread)" "stream = consumed @ unread"
      "parse_stream E (pending c @ consumed) = (ps, rest, e)" by blast
  moreover have "pending c = []" using assms(4) by (simp add: pending_def)
  ultimately have "ps = [] \<and> e = None" using wait [of consumed unread] by simp
  then show ?thesis using run(1) by blast
qed

theorem small_packets_stall_gateway_witness:
  "\<exists>c' unread. receive_run demo_externs [3, 100] (client_frame 0 [7, 7]) (demo_conn 1 2) = Some (c', [], None, unread)"
  using small_packets_stall_gateway [of "[7, 7]" "[]" "demo_conn 1 2" "client_frame 0 [7, 7]" 0 demo_externs "[3, 100]"]
  by (simp add: demo_conn_def reader_ok_def)

subsection \<open>Receiving packets\<close>

definition registered :: "ClientEnv \<Rightarrow> ChanneldClient \<Rightarrow> byte list MessagePack \<Rightarrow> bool" where
  "registered CE c mp \<longleftrightarrow> (case cl_messageMap c (mp_MsgType mp) of
     None \<Rightarrow> False
   | Some entry \<Rightarrow> ce_unmarshal CE (me_msg entry) (mp_MsgBody mp) \<noteq> None)"

definition queued :: "ClientEnv \<Rightarrow> ChanneldClient \<Rightarrow> byte list MessagePack \<Rightarrow> messageQueueEntry" where
  "queued CE c mp = (let entry = the (cl_messageMap c (mp_MsgType mp)) in
     \<lparr>qe_msg = the (ce_unmarshal CE (me_msg entry) (mp_MsgBody mp)), qe_channelId = mp_ChannelId mp,
      qe_stubId = mp_StubId mp, qe_handlers = me_handlers entry\<rparr>)"

lemma client_deliver_all:
  assumes "\<forall>mp \<in> set mps. registered CE c mp"
    and "length (cl_incomingQueue c) + length mps \<le> incoming_capacity"
  shows "client_deliver CE mps c = Some (c\<lparr>cl_incomingQueue := cl_incomingQueue c @ map (queued CE c) mps\<rparr>, True)"
  using assms
proof (induction mps arbitrary: c)
  case (Cons mp mps)
  from Cons.prems(1) obtain entry msg where e: "cl_messageMap c (mp_MsgType mp) = Some entry"
    "ce_unmarshal CE (me_msg entry) (mp_MsgBody mp) = Some msg"
    by (auto simp: registered_def split: option.splits)
  let ?c = "c\<lparr>cl_incomingQueue := cl_incomingQueue c @ [queued CE c mp]\<rparr>"
  have "registered CE ?c = registered CE c" "queued CE ?c = queued CE c"
    by (simp_all add: registered_def queued_def fun_eq_iff)
  with Cons.IH [of ?c] Cons.prems
  have "client_deliver CE mps ?c = Some (c\<lparr>cl_incomingQueue := cl_incomingQueue c @ map (queued CE c) (mp # mps)\<rparr>, True)"
    by simp
  then show ?case using e Cons.prems(2) by (simp add: queued_def)
qed simp

lemma client_packetSize_frame:
  assumes "length body \<le> MaxPacketSize" and "length body div 256 \<noteq> 78"
  shows "client_packetSize (take 5 (frame ct body)) = Some (length body)"
proof -
  have d: "length body div 256 < 256" using assms(1) by (simp add: MaxPacketSize_def)
  then have "(of_nat (length body div 256) :: byte) \<noteq> of_nat 78"
    using of_nat_byte_eq [of "length body div 256" 78] assms(2) by simp
  then show ?thesis using d by (simp add: frame_def of_nat_byte)
qed

lemma client_body_packet: "body_packet E ct body = Some p \<Longrightarrow> client_body E (of_int ct) body = Some p"
  by (auto simp: body_packet_def client_body_def read_body_def Let_def split: option.splits if_splits read_result.splits)

text \<open>The bytes of the buffer that have been read.\<close>

definition unread :: "ChanneldClient \<Rightarrow> byte list" where
  "unread c = take (cl_readPos c) (cl_readBuffer c)"

lemma unread_slice:
  assumes "cl_readPos c \<le> length (cl_readBuffer c)" and "a \<le> b" "b \<le> cl_readPos c"
  shows "go_slice (cl_readBuffer c) a b = Some (take (b - a) (drop a (unread c)))"
  using assms by (simp add: go_slice_def unread_def drop_take min_def)

text \<open>A whole frame is delivered, and what stands behind it is forgotten.\<close>

lemma take_packet_frame:
  assumes "unread c = frame ct body @ ys" and "cl_readPos c \<le> length (cl_readBuffer c)"
    and "length body \<le> MaxPacketSize" "length body div 256 \<noteq> 78" "body_packet E ct body = Some mps"
    and "\<forall>mp \<in> set mps. registered CE c mp"
    and "length (cl_incomingQueue c) + length mps \<le> incoming_capacity"
  shows "client_take_packet E CE c =
    Some (c\<lparr>cl_readPos := 0, cl_incomingQueue := cl_incomingQueue c @ map (queued CE c) mps\<rparr>, True)"
proof -
  have "length (unread c) = cl_readPos c" using assms(2) by (simp add: unread_def)
  then have len: "5 + length body \<le> cl_readPos c" using assms(1) by (simp add: frame_def)
  have tag: "go_slice (cl_readBuffer c) 0 5 = Some (take 5 (frame ct body))"
    using unread_slice [OF assms(2), of 0 5] len assms(1) by (simp add: frame_def)
  have "go_slice (cl_readBuffer c) 5 (5 + length body) = Some body"
    using unread_slice [OF assms(2), of 5 "5 + length body"] len assms(1) by (simp add: frame_def)
  moreover have "take 5 (frame ct body) ! 4 = of_int ct" by (simp add: frame_def)
  moreover have "client_deliver CE mps c = Some (c\<lparr>cl_incomingQueue := cl_incomingQueue c @ map (queued CE c) mps\<rparr>, True)"
    by (rule client_deliver_all) (use assms(6,7) in auto)
  ultimately show ?thesis
    using tag len client_packetSize_frame [OF assms(3,4)] client_body_packet [OF assms(5)]
    by (simp add: client_take_packet_def del: nth_take)
qed

lemma take_packet_waits:
  assumes "unread c @ left = frame ct body" and "left \<noteq> []" and "cl_readPos c \<le> length (cl_readBuffer c)"
    and "length body \<le> MaxPacketSize" "length body div 256 \<noteq> 78"
  shows "client_take_packet E CE c = Some (c, True)"
proof (cases "cl_readPos c < 5")
  case True
  then show ?thesis by (simp add: client_take_packet_def)
next
  case False
  have "length (unread c) = cl_readPos c" using assms(3) by (simp add: unread_def)
  moreover have "length (unread c) < length (frame ct body)" using assms(1,2) by (metis length_append length_greater_0_conv less_add_same_cancel1)
  ultimately have len: "cl_readPos c < 5 + length body" by (simp add: frame_def)
  have "take 5 (unread c) = take 5 (frame ct body)"
    using False \<open>length (unread c) = cl_readPos c\<close> by (simp flip: assms(1))
  then have "go_slice (cl_readBuffer c) 0 5 = Some (take 5 (frame ct body))"
    using unread_slice [OF assms(3), of 0 5] False by simp
  then show ?thesis using len False client_packetSize_frame [OF assms(4,5)] by (simp add: client_take_packet_def)
qed

fun client_Receive_all ::
  "Externs \<Rightarrow> ClientEnv \<Rightarrow> byte list list \<Rightarrow> ChanneldClient \<Rightarrow> (ChanneldClient \<times> bool) option" where
  "client_Receive_all E CE [] c = Some (c, True)"
| "client_Receive_all E CE (bs # bss) c = do {
     (c1, ok) \<leftarrow> client_Receive E CE (Some bs) c;
     if ok then client_Receive_all E CE bss c1 else Some (c1, False)
   }"

lemma unread_read_into:
  assumes "cl_readPos c + length bs \<le> length (cl_readBuffer c)"
  shows "unread (c\<lparr>cl_readBuffer := read_into (cl_readBuffer c) (cl_readPos c) bs, cl_readPos := cl_readPos c + length bs\<rparr>) =
    unread c @ bs"
  using assms by (cases bs) (auto simp: unread_def read_into_def min_def)

lemma Receive_all_empty:
  assumes "concat chunks = []" and "cl_readPos c = 0"
  shows "client_Receive_all E CE chunks c = Some (c, True)"
proof -
  have self: "c\<lparr>cl_readBuffer := cl_readBuffer c, cl_readPos := 0\<rparr> = c" using assms(2) by (cases c) simp
  have "client_Receive E CE (Some []) c = Some (c, True)"
    using assms(2) by (simp add: client_Receive_def client_take_packet_def read_into_def self del: ChanneldClient.surjective)
  then show ?thesis using assms(1) by (induction chunks) simp_all
qed

lemma client_receives_chunks:
  assumes "unread c @ concat chunks = frame ct body" and "concat chunks \<noteq> []"
    and "cl_readPos c \<le> length (cl_readBuffer c)" "length (frame ct body) \<le> length (cl_readBuffer c)"
    and "length body \<le> MaxPacketSize" "length body div 256 \<noteq> 78" "body_packet E ct body = Some mps"
    and "\<forall>mp \<in> set mps. registered CE c mp"
    and "length (cl_incomingQueue c) + length mps \<le> incoming_capacity"
  shows "\<exists>buf. client_Receive_all E CE chunks c = Some (c\<lparr>cl_readBuffer := buf, cl_readPos := 0,
    cl_incomingQueue := cl_incomingQueue c @ map (queued CE c) mps\<rparr>, True)"
  using assms
proof (induction chunks arbitrary: c)
  case (Cons bs chunks)
  let ?c = "c\<lparr>cl_readBuffer := read_into (cl_readBuffer c) (cl_readPos c) bs, cl_readPos := cl_readPos c + length bs\<rparr>"
  have "length (unread c) = cl_readPos c" using Cons.prems(3) by (simp add: unread_def)
  moreover have "length (frame ct body) = length (unread c) + length bs + length (concat chunks)"
    using Cons.prems(1) by (simp flip: Cons.prems(1))
  ultimately have room: "cl_readPos c + length bs \<le> length (cl_readBuffer c)" using Cons.prems(4) by simp
  have size: "length (cl_readBuffer ?c) = length (cl_readBuffer c)" using room by (simp add: read_into_def)
  have un: "unread ?c @ concat chunks = frame ct body" using unread_read_into [OF room] Cons.prems(1) by simp
  have reg: "registered CE ?c = registered CE c" "queued CE ?c = queued CE c"
    by (simp_all add: registered_def queued_def fun_eq_iff)
  show ?case
  proof (cases "concat chunks = []")
    case True
    have "client_take_packet E CE ?c =
        Some (?c\<lparr>cl_readPos := 0, cl_incomingQueue := cl_incomingQueue ?c @ map (queued CE ?c) mps\<rparr>, True)"
      by (rule take_packet_frame [of _ ct body "[]"]) (use un True room size reg Cons.prems(5-9) in \<open>simp_all\<close>)
    then show ?thesis using room Receive_all_empty [OF True] by (auto simp: client_Receive_def reg)
  next
    case False
    have "client_take_packet E CE ?c = Some (?c, True)"
      by (rule take_packet_waits [OF un False]) (use room size Cons.prems(5,6) in simp_all)
    moreover obtain buf where "client_Receive_all E CE chunks ?c = Some (?c\<lparr>cl_readBuffer := buf, cl_readPos := 0,
        cl_incomingQueue := cl_incomingQueue ?c @ map (queued CE ?c) mps\<rparr>, True)"
      using Cons.IH [OF un False] room size reg Cons.prems(4-9) by auto
    ultimately show ?thesis using room by (auto simp: client_Receive_def reg)
  qed
qed simp


text \<open>
  When a read brings more than one packet, those behind the first are lost: the client takes the first
  packet and declares the whole buffer empty.
\<close>

theorem coalesced_packets_lost:
  assumes "length (frame ct body @ ys) \<le> length (cl_readBuffer c)"
    and "length body \<le> MaxPacketSize" "length body div 256 \<noteq> 78" "body_packet E ct body = Some mps"
    and "\<forall>mp \<in> set mps. registered CE c mp"
    and "length (cl_incomingQueue c) + length mps \<le> incoming_capacity" and "cl_readPos c = 0"
  shows "\<exists>buf. client_Receive E CE (Some (frame ct body @ ys)) c =
    Some (c\<lparr>cl_readBuffer := buf, cl_readPos := 0, cl_incomingQueue := cl_incomingQueue c @ map (queued CE c) mps\<rparr>, True)"
proof -
  let ?bs = "frame ct body @ ys"
  let ?c = "c\<lparr>cl_readBuffer := read_into (cl_readBuffer c) (cl_readPos c) ?bs, cl_readPos := cl_readPos c + length ?bs\<rparr>"
  have room: "cl_readPos c + length ?bs \<le> length (cl_readBuffer c)" using assms(1,7) by simp
  have "unread ?c = frame ct body @ ys" using unread_read_into [OF room] assms(7) by (simp add: unread_def)
  moreover have "registered CE ?c = registered CE c" "queued CE ?c = queued CE c"
    by (simp_all add: registered_def queued_def fun_eq_iff)
  ultimately have "client_take_packet E CE ?c =
      Some (?c\<lparr>cl_readPos := 0, cl_incomingQueue := cl_incomingQueue ?c @ map (queued CE c) mps\<rparr>, True)"
    using take_packet_frame [of ?c ct body ys E mps CE] room assms(2-6) by (simp add: read_into_def)
  then show ?thesis using room by (auto simp: client_Receive_def)
qed

text \<open>A client that has the message type 100 registered, and an environment that ignores bodies.\<close>

definition demo_client :: ChanneldClient where
  "demo_client = SetMessageEntry 100 NilMsg [CH_App 0] NewClient"

definition demo_client_env :: ClientEnv where
  "demo_client_env = \<lparr>ce_unmarshal = (\<lambda>template body. Some template), ce_marshal = (\<lambda>m. Some [1]),
     ce_size = (\<lambda>mp. 10), ce_marshalPacket = (\<lambda>mps. Some (replicate (12 * length mps) 1)),
     ce_app = (\<lambda>n channelId m c. Some c)\<rparr>"

lemma demo_client_facts:
  "cl_readPos demo_client = 0" "cl_readBuffer demo_client = replicate MaxPacketSize 0" "cl_incomingQueue demo_client = []"
  "cl_messageMap demo_client 100 = Some \<lparr>me_msg = NilMsg, me_handlers = [CH_App 0]\<rparr>"
  "cl_stubCallbacks demo_client = [0 \<mapsto> CH_Default]" "cl_outgoingQueue demo_client = []" "cl_written demo_client = []"
  by (simp_all add: demo_client_def NewClient_def SetMessageEntry_def)

lemma demo_body:
  "body_packet demo_externs 0 [7, 7] =
    Some [\<lparr>mp_ChannelId = 0, mp_Broadcast = 0, mp_StubId = 0, mp_MsgType = 100, mp_MsgBody = [7, 7]\<rparr>]"
  by (simp add: body_packet_def read_body_def demo_externs_def)


theorem coalesced_packets_lost_witness:
  "\<exists>buf. client_Receive demo_externs demo_client_env (Some (frame 0 [7, 7] @ frame 0 [7, 7])) demo_client =
    Some (demo_client\<lparr>cl_readBuffer := buf, cl_readPos := 0, cl_incomingQueue :=
      [\<lparr>qe_msg = NilMsg, qe_channelId = 0, qe_stubId = 0, qe_handlers = [CH_App 0]\<rparr>]\<rparr>, True)"
  using coalesced_packets_lost [OF _ _ _ demo_body, of "frame 0 [7, 7]" demo_client demo_client_env]
  by (simp add: registered_def queued_def demo_client_facts demo_client_env_def incoming_capacity_def MaxPacketSize_def frame_def)

text \<open>A packet of more than 65535 bytes, which \<open>Tick\<close> does not prevent, closes the connection at the gateway.\<close>

lemma oversized_packet_refused:
  assumes "0xffff < length body" and "length body div 65536 mod 256 \<noteq> 72"
  shows "frame_step E (client_frame ct body @ ys) = FErr ''invlaid tag''"
proof -
  have "(of_nat (length body div 65536 mod 256) :: byte) \<noteq> of_nat 72"
    using of_nat_byte_eq [of "length body div 65536 mod 256" 72] assms(2) by simp
  then show ?thesis using assms(1) by (simp add: frame_step_def client_frame_def PacketHeaderSize_def)
qed

text \<open>A packet with a message that is not registered stays in the buffer after those before it have been
queued: the next call, if it reads nothing, queues them again.\<close>

lemma failed_packet_repeats:
  assumes "client_take_packet E CE c = Some (c1, False)" and "cl_readPos c1 = cl_readPos c"
    and "cl_readBuffer c1 = cl_readBuffer c" and "cl_readPos c \<le> length (cl_readBuffer c)"
  shows "client_Receive E CE (Some []) c1 = client_take_packet E CE c1"
proof -
  have "read_into (cl_readBuffer c1) (cl_readPos c1) [] = cl_readBuffer c1" by (simp add: read_into_def)
  moreover have "c1\<lparr>cl_readBuffer := cl_readBuffer c1, cl_readPos := cl_readPos c1\<rparr> = c1" by (cases c1) simp
  moreover have "cl_readPos c1 \<le> length (cl_readBuffer c1)" using assms by simp
  ultimately show ?thesis by (simp add: client_Receive_def del: ChanneldClient.simps(3))
qed

subsection \<open>Requests\<close>

lemma free_stub_step: "m i \<noteq> None \<Longrightarrow> free_stub m i = free_stub m (i + 1)"
  by (subst free_stub.simps) auto

lemma free_stub_from:
  assumes "m (of_nat n) = None" and "\<forall>k. i \<le> k \<and> k < n \<longrightarrow> m (of_nat k) \<noteq> None" and "i \<le> n"
  shows "free_stub m (of_nat i) = Some (of_nat n)"
  using assms(2,3)
proof (induction "n - i" arbitrary: i)
  case 0
  then have "i = n" by simp
  then show ?case using assms(1) by (subst free_stub.simps) simp
next
  case (Suc d)
  then have "m (of_nat i) \<noteq> None" by simp
  then have "free_stub m (of_nat i) = free_stub m (of_nat (Suc i))" using free_stub_step [of m "of_nat i"] by (simp add: add.commute)
  then show ?case using Suc.hyps(1) [of "Suc i"] Suc.hyps(2) Suc.prems by (simp add: add.commute)
qed

lemma free_stub_least:
  assumes "m j = None"
  shows "\<exists>i. free_stub m 0 = Some i \<and> m i = None \<and> (\<forall>k < i. m k \<noteq> None)"
proof -
  define n where "n = (LEAST n. m (of_nat n) = None)"
  have j: "m (of_nat (unat j)) = None" using assms by simp
  have n: "m (of_nat n) = None" "n \<le> unat j" unfolding n_def by (rule LeastI [where P = "\<lambda>n. m (of_nat n) = None", OF j], rule Least_le [where P = "\<lambda>n. m (of_nat n) = None", OF j])
  have below: "\<forall>k < n. m (of_nat k) \<noteq> None" unfolding n_def by (blast dest: not_less_Least)
  have "free_stub m (of_nat 0) = Some (of_nat n)" by (intro free_stub_from) (use n below in simp_all)
  moreover have "m k \<noteq> None" if "k < of_nat n" for k
  proof -
    have "unat j < 2 ^ LENGTH(32)" by (rule unsigned_less)
    then have "unat j < 2 ^ 32" by simp
    then have "unat (of_nat n :: uint32) = n" using n(2) by (simp add: unat_of_nat take_bit_nat_eq_self)
    then have "unat k < n" using that by (simp add: word_less_nat_alt)
    then have "m (of_nat (unat k)) \<noteq> None" using below by blast
    then show ?thesis by simp
  qed
  ultimately show ?thesis using n(1) by auto
qed

text \<open>
  A request with a callback gets the smallest stub identifier that is not in use (so never 0, which is
  reserved), its callback is the only one that changes, and its pack goes to the end of the queue with that
  identifier.
\<close>

theorem Send_fresh_stub:
  assumes "cl_stubCallbacks c j = None" and "length (cl_outgoingQueue c) < outgoing_capacity"
    and "ce_marshal CE msg = Some body"
  shows "\<exists>i. client_Send CE channelId broadcast msgType msg (Some h) c =
      Some (c\<lparr>cl_stubCallbacks := (cl_stubCallbacks c)(i \<mapsto> h), cl_outgoingQueue := cl_outgoingQueue c @
        [\<lparr>mp_ChannelId = channelId, mp_Broadcast = broadcast, mp_StubId = i, mp_MsgType = msgType, mp_MsgBody = body\<rparr>]\<rparr>, True) \<and>
    cl_stubCallbacks c i = None \<and> (\<forall>k < i. cl_stubCallbacks c k \<noteq> None)"
proof -
  obtain i where "free_stub (cl_stubCallbacks c) 0 = Some i" "cl_stubCallbacks c i = None" "\<forall>k < i. cl_stubCallbacks c k \<noteq> None"
    using free_stub_least [of "cl_stubCallbacks c" j] assms(1) by blast
  then show ?thesis using assms(2,3) by (intro exI [of _ i]) (simp add: client_Send_def client_SendRaw_def register_stub_def)
qed

theorem Send_fresh_stub_witness:
  "\<exists>c'. client_Send demo_client_env 0 0 100 NilMsg (Some (CH_App 1)) demo_client = Some (c', True) \<and>
     cl_stubCallbacks c' 0 = Some CH_Default"
proof -
  have "cl_stubCallbacks demo_client 1 = None" by (simp add: demo_client_facts)
  from Send_fresh_stub [OF this, of demo_client_env NilMsg "[1]" 0 0 100 "CH_App 1"] obtain i
    where "client_Send demo_client_env 0 0 100 NilMsg (Some (CH_App 1)) demo_client =
      Some (demo_client\<lparr>cl_stubCallbacks := (cl_stubCallbacks demo_client)(i \<mapsto> CH_App 1), cl_outgoingQueue :=
        [\<lparr>mp_ChannelId = 0, mp_Broadcast = 0, mp_StubId = i, mp_MsgType = 100, mp_MsgBody = [1]\<rparr>]\<rparr>, True)"
      "cl_stubCallbacks demo_client i = None"
    by (auto simp: demo_client_facts demo_client_env_def outgoing_capacity_def)
  then show ?thesis by (auto simp: demo_client_facts split: if_splits)
qed

subsection \<open>The tick\<close>

text \<open>The messages of the queue one after the other, each handled when those behind it are still queued.\<close>

fun handle_all :: "ClientEnv \<Rightarrow> messageQueueEntry list \<Rightarrow> ChanneldClient \<Rightarrow> ChanneldClient option" where
  "handle_all CE [] c = Some c"
| "handle_all CE (entry # rest) c =
     Option.bind (client_handle_entry CE entry (c\<lparr>cl_incomingQueue := rest\<rparr>)) (handle_all CE rest)"

text \<open>The application's callbacks do not call \<open>Receive\<close>.\<close>

definition callbacks_law :: "ClientEnv \<Rightarrow> bool" where
  "callbacks_law CE \<longleftrightarrow> (\<forall>n channelId m c c'. ce_app CE n channelId m c = Some c' \<longrightarrow> cl_incomingQueue c' = cl_incomingQueue c)"

lemma client_call_queue:
  "callbacks_law CE \<Longrightarrow> client_call CE h channelId m c = Some c' \<Longrightarrow> cl_incomingQueue c' = cl_incomingQueue c"
  by (auto simp: client_call_def client_handleAuth_def client_handleCreateChannel_def client_handleRemoveChannel_def
      client_handleSubToChannel_def client_handleUnsubToChannel_def client_handleListChannel_def callbacks_law_def
      split: ClientHandler.splits Msg.splits)

lemma client_call_all_queue:
  assumes "callbacks_law CE" and "client_call_all CE hs channelId m c = Some c'"
  shows "cl_incomingQueue c' = cl_incomingQueue c"
  using assms(2) client_call_queue [OF assms(1)] by (induction hs arbitrary: c) (auto simp: bind_eq_Some_conv)

lemma client_handle_entry_queue:
  assumes "callbacks_law CE" and "client_handle_entry CE entry c = Some c'"
  shows "cl_incomingQueue c' = cl_incomingQueue c"
proof -
  obtain c1 where c1: "client_call_all CE (qe_handlers entry) (qe_channelId entry) (qe_msg entry) c = Some c1"
    using assms(2) by (auto simp: client_handle_entry_def bind_eq_Some_conv)
  then have "cl_incomingQueue c' = cl_incomingQueue c1"
    using assms(2) client_call_queue [OF assms(1)] by (auto simp: client_handle_entry_def split: if_splits option.splits)
  then show ?thesis using client_call_all_queue [OF assms(1) c1] by simp
qed

lemma tick_incoming_handles:
  assumes "callbacks_law CE" and "cl_incomingQueue c = q"
  shows "client_tick_incoming CE c = handle_all CE q c"
  using assms(2)
proof (induction q arbitrary: c)
  case Nil
  then show ?case by (subst client_tick_incoming.simps) simp
next
  case (Cons entry rest)
  have "client_tick_incoming CE c =
      Option.bind (client_handle_entry CE entry (c\<lparr>cl_incomingQueue := rest\<rparr>)) (client_tick_incoming CE)"
    using Cons.prems by (subst client_tick_incoming.simps) simp
  also have "\<dots> = handle_all CE (entry # rest) c"
    using Cons.IH client_handle_entry_queue [OF assms(1), of entry "c\<lparr>cl_incomingQueue := rest\<rparr>"]
    by (cases "client_handle_entry CE entry (c\<lparr>cl_incomingQueue := rest\<rparr>)") simp_all
  finally show ?case .
qed

lemma take_outgoing_all: "\<forall>mp \<in> set q. ce_size CE mp < 0xfffff0 \<Longrightarrow> take_outgoing CE q = (q, [])"
  by (induction q) auto

text \<open>A pack that is too large ends the packet and is lost; those behind it stay.\<close>

lemma take_outgoing_drops:
  "\<forall>mp \<in> set q. ce_size CE mp < 0xfffff0 \<Longrightarrow> 0xfffff0 \<le> ce_size CE mp \<Longrightarrow> take_outgoing CE (q @ mp # q') = (q, q')"
  by (induction q) auto

text \<open>
  A tick ends: it handles the queued messages in the order of their arrival, each by its handlers and
  then by the callback of its request, and writes all that is queued for sending then as one frame, in
  order, and leaves both queues empty.
\<close>

theorem client_Tick_correct:
  assumes "callbacks_law CE" and "handle_all CE (cl_incomingQueue c) c = Some c1"
    and "\<forall>mp \<in> set (cl_outgoingQueue c1). ce_size CE mp < 0xfffff0"
    and "ce_marshalPacket CE (cl_outgoingQueue c1) = Some bytes"
  shows "client_Tick E CE c = Some (if cl_outgoingQueue c1 = [] then c1 else c1\<lparr>cl_outgoingQueue := [],
      cl_written := cl_written c1 @ [client_frame (cl_CompressionType c1)
        (if cl_CompressionType c1 = Compression_SNAPPY then ex_snappyEncode E bytes else bytes)]\<rparr>, True) \<and>
    cl_incomingQueue c1 = []"
proof
  show "client_Tick E CE c = Some (if cl_outgoingQueue c1 = [] then c1 else c1\<lparr>cl_outgoingQueue := [],
      cl_written := cl_written c1 @ [client_frame (cl_CompressionType c1)
        (if cl_CompressionType c1 = Compression_SNAPPY then ex_snappyEncode E bytes else bytes)]\<rparr>, True)"
    using tick_incoming_handles [OF assms(1) refl, of c] assms(2,4) take_outgoing_all [OF assms(3)]
    by (simp add: client_Tick_def writePacket_def)
  have "cl_incomingQueue c' = []" if "handle_all CE q c = Some c'" "q = [] \<longrightarrow> cl_incomingQueue c = []" for q c c'
    using that
  proof (induction q arbitrary: c)
    case (Cons entry rest)
    then show ?case using client_handle_entry_queue [OF assms(1)] by (fastforce simp: bind_eq_Some_conv)
  qed simp
  from this [OF assms(2)] show "cl_incomingQueue c1 = []" by simp
qed

theorem client_Tick_correct_witness:
  "\<exists>c'. client_Tick demo_externs demo_client_env (demo_client\<lparr>cl_incomingQueue :=
      [\<lparr>qe_msg = AuthResultMessage AuthResult_SUCCESSFUL 5 0 False, qe_channelId = 0, qe_stubId = 0, qe_handlers = [CH_Auth]\<rparr>]\<rparr>) =
    Some (c', True) \<and> cl_Id c' = 5"
proof -
  let ?e = "\<lparr>qe_msg = AuthResultMessage AuthResult_SUCCESSFUL 5 0 False, qe_channelId = 0, qe_stubId = 0, qe_handlers = [CH_Auth]\<rparr>"
  have "cl_Id demo_client = 0" by (simp add: demo_client_def NewClient_def SetMessageEntry_def)
  then have run: "handle_all demo_client_env [?e] (demo_client\<lparr>cl_incomingQueue := [?e]\<rparr>) =
      Some (demo_client\<lparr>cl_incomingQueue := [], cl_Id := 5, cl_CompressionType := 0\<rparr>)"
    by (simp add: client_handle_entry_def client_call_def client_handleAuth_def)
  have "callbacks_law demo_client_env" by (simp add: callbacks_law_def demo_client_env_def)
  from client_Tick_correct [OF this, of "demo_client\<lparr>cl_incomingQueue := [?e]\<rparr>"] run show ?thesis
    by (simp add: demo_client_facts demo_client_env_def)
qed

end
