(* ===== verification/Replay.thy ===== *)
theory Replay
  imports Client Connections
begin

text \<open>
  The replay client (\<open>pkg/replay/replay.go\<close>): it plays a session that the gateway recorded
  (\<open>recordPacket\<close>, \<open>persistReplaySession\<close>) over connections of the client library, packet by packet, not
  before its time, and over again until the running time is up.

  One connection is one goroutine: a loop whose turns send at most one packet and tick the client.  A turn
  is a function of the time it reads; \<open>None\<close> is a panic, or a send that does not return because the queue of
  the client is full.  The handlers of the application are parameters.
\<close>

subsection \<open>Configuration and state\<close>

record ConnectionGroupConfig =
  rg_ConnectionNumber :: int
  rg_ConnectInterval :: int
  rg_RunningTime :: int
  rg_SleepEndOfSession :: int
  rg_MaxTickInterval :: int
  rg_ActionIntervalMultiplier :: float64
  rg_WaitAuthSuccess :: bool
  rg_AuthOnlyOnce :: bool

definition DefaultConnGroupConfig :: ConnectionGroupConfig where
  "DefaultConnGroupConfig = \<lparr>rg_ConnectionNumber = 1, rg_ConnectInterval = 0, rg_RunningTime = 0, rg_SleepEndOfSession = 0,
     rg_MaxTickInterval = 0, rg_ActionIntervalMultiplier = Fin 1, rg_WaitAuthSuccess = True, rg_AuthOnlyOnce = True\<rparr>"

type_synonym Pack = "byte list MessagePack"

text \<open>The hooks of the application: one may send a message to another channel or drop it, one may rewrite
or drop the messages of a type, and one says which messages to wait for.  The callback that counts the answers
is the application's function \<open>re_callback\<close> of the client.\<close>

record ReplayHooks =
  re_alterChannelId :: "(uint32 \<Rightarrow> uint32 \<Rightarrow> Pack \<Rightarrow> ChanneldClient \<Rightarrow> uint32 \<times> bool) option"
  re_beforeSend :: "uint32 \<rightharpoonup> Msg \<times> (Msg \<Rightarrow> Pack \<Rightarrow> ChanneldClient \<Rightarrow> Msg \<times> bool)"
  re_needWait :: "(uint32 \<Rightarrow> Pack \<Rightarrow> ChanneldClient \<Rightarrow> bool) option"
  re_messageMap :: "(uint32 \<times> messageMapEntry) list"
  re_callback :: nat

record ReplayState =
  rl_client :: ChanneldClient
  rl_nextPacketIndex :: nat
  rl_prePacketTime :: int
  rl_isFirstAuth :: bool
  rl_waitMessageCallback :: "32 word"

text \<open>Registering handlers, on the replay client and then on each connection; the entries of the map are in
the order in which \<open>range\<close> gives them.\<close>

definition replay_AddMessageHandler :: "uint32 \<Rightarrow> ClientHandler list \<Rightarrow> ReplayHooks \<Rightarrow> ReplayHooks" where
  "replay_AddMessageHandler msgType handlers rc = rc\<lparr>re_messageMap :=
     (case map_of (re_messageMap rc) msgType of
        Some entry \<Rightarrow> AList.update msgType (entry\<lparr>me_handlers := me_handlers entry @ handlers\<rparr>) (re_messageMap rc)
      | None \<Rightarrow> AList.update msgType \<lparr>me_msg = NilMsg, me_handlers = handlers\<rparr> (re_messageMap rc))\<rparr>"

definition replay_SetMessageEntry :: "uint32 \<Rightarrow> Msg \<Rightarrow> ClientHandler list \<Rightarrow> ReplayHooks \<Rightarrow> ReplayHooks" where
  "replay_SetMessageEntry msgType msgTemp handlers rc = rc\<lparr>re_messageMap :=
     AList.update msgType \<lparr>me_msg = msgTemp, me_handlers = handlers\<rparr> (re_messageMap rc)\<rparr>"

fun register_entries :: "(uint32 \<times> messageMapEntry) list \<Rightarrow> ChanneldClient \<Rightarrow> ChanneldClient" where
  "register_entries [] c = c"
| "register_entries ((msgType, entry) # rest) c =
     register_entries rest (case AddMessageHandler msgType (me_handlers entry) c of
       (c', ok) \<Rightarrow> if ok then c' else SetMessageEntry msgType (me_msg entry) (me_handlers entry) c)"

definition start_replay :: "ReplayHooks \<Rightarrow> int \<Rightarrow> ReplayState" where
  "start_replay R now = \<lparr>rl_client = register_entries (re_messageMap R) NewClient, rl_nextPacketIndex = 0,
     rl_prePacketTime = now, rl_isFirstAuth = True, rl_waitMessageCallback = 0\<rparr>"

subsection \<open>Sending a packet\<close>

definition send_pack ::
  "ClientEnv \<Rightarrow> ReplayHooks \<Rightarrow> uint32 \<Rightarrow> bool \<Rightarrow> Pack \<Rightarrow> ReplayState \<Rightarrow> (ReplayState \<times> bool) option" where
  "send_pack CE R channelId needWait mp st =
     (let callback = (if needWait then Some (CH_App (re_callback R)) else None);
          counted = st\<lparr>rl_waitMessageCallback := rl_waitMessageCallback st + (if needWait then 1 else 0)\<rparr> in
      case re_beforeSend R (mp_MsgType mp) of
        None \<Rightarrow> do {
          (c, _) \<leftarrow> client_SendRaw channelId (mp_Broadcast mp) (mp_MsgType mp) (mp_MsgBody mp) callback (rl_client st);
          Some (counted\<lparr>rl_client := c\<rparr>, True)
        }
      | Some (msgTemp, beforeSendHandler) \<Rightarrow> (case ce_unmarshal CE msgTemp (mp_MsgBody mp) of
          None \<Rightarrow> Some (st, False)
        | Some msg \<Rightarrow> (case beforeSendHandler msg mp (rl_client st) of
            (msg', needToSend) \<Rightarrow>
              if \<not> needToSend then Some (st, True)
              else do {
                (c, _) \<leftarrow> client_Send CE channelId (mp_Broadcast mp) (mp_MsgType mp) msg' callback (rl_client st);
                Some (counted\<lparr>rl_client := c\<rparr>, True)
              })))"

text \<open>One message of a packet; the flag is false when the goroutine returns.\<close>

definition replay_message ::
  "ClientEnv \<Rightarrow> ReplayHooks \<Rightarrow> ConnectionGroupConfig \<Rightarrow> Pack \<Rightarrow> ReplayState \<Rightarrow> (ReplayState \<times> bool) option" where
  "replay_message CE R cfg mp st =
     (let msgType = mp_MsgType mp; isAuth = (msgType = MessageType_AUTH) in
      if isAuth \<and> \<not> rl_isFirstAuth st \<and> rg_AuthOnlyOnce cfg then Some (st, True)
      else
        let st1 = (if isAuth then st\<lparr>rl_isFirstAuth := False\<rparr> else st);
            (channelId, needToSend) = (case re_alterChannelId R of
               None \<Rightarrow> (mp_ChannelId mp, True)
             | Some alter \<Rightarrow> alter (mp_ChannelId mp) msgType mp (rl_client st1)) in
        if \<not> needToSend then Some (st1, True)
        else
          let needWait = (case re_needWait R of None \<Rightarrow> False | Some h \<Rightarrow> h msgType mp (rl_client st1)) \<or>
                 isAuth \<and> rg_WaitAuthSuccess cfg in
          send_pack CE R channelId needWait mp st1)"

fun replay_messages ::
  "ClientEnv \<Rightarrow> ReplayHooks \<Rightarrow> ConnectionGroupConfig \<Rightarrow> Pack list \<Rightarrow> ReplayState \<Rightarrow> (ReplayState \<times> bool) option" where
  "replay_messages CE R cfg [] st = Some (st, True)"
| "replay_messages CE R cfg (mp # mps) st = do {
     (st1, goOn) \<leftarrow> replay_message CE R cfg mp st;
     if goOn then replay_messages CE R cfg mps st1 else Some (st1, False)
   }"

subsection \<open>A turn of the loop\<close>

text \<open>At the end of the session it starts again, later by the configured time; a session without packets
is a division by zero.\<close>

definition wrap_around :: "ConnectionGroupConfig \<Rightarrow> ReplayPacket list \<Rightarrow> ReplayState \<Rightarrow> ReplayState option" where
  "wrap_around cfg packets st =
     (if rl_nextPacketIndex st \<ge> length packets then
        (if length packets = 0 then None
         else Some (st\<lparr>rl_nextPacketIndex := rl_nextPacketIndex st mod length packets,
           rl_prePacketTime := rl_prePacketTime st + rg_SleepEndOfSession cfg\<rparr>))
      else Some st)"

definition offset_time :: "Externs \<Rightarrow> ConnectionGroupConfig \<Rightarrow> ReplayPacket \<Rightarrow> int" where
  "offset_time E cfg p = go_int (ex_floatToInt E)
     (fmul (round64 (of_int (rp_OffsetTime p))) (rg_ActionIntervalMultiplier cfg))"

definition packet_due :: "Externs \<Rightarrow> ConnectionGroupConfig \<Rightarrow> ReplayPacket \<Rightarrow> int \<Rightarrow> ReplayState \<Rightarrow> bool" where
  "packet_due E cfg p now st \<longleftrightarrow> rl_waitMessageCallback st = 0 \<and> now - rl_prePacketTime st \<ge> offset_time E cfg p"

definition replay_send ::
  "Externs \<Rightarrow> ClientEnv \<Rightarrow> ReplayHooks \<Rightarrow> ConnectionGroupConfig \<Rightarrow> ReplayPacket list \<Rightarrow> int \<Rightarrow> ReplayState \<Rightarrow>
   (ReplayState \<times> bool) option" where
  "replay_send E CE R cfg packets now st = do {
     st1 \<leftarrow> wrap_around cfg packets st;
     let p = packets ! rl_nextPacketIndex st1;
     if packet_due E cfg p now st1 then
       replay_messages CE R cfg (rp_Packet p)
         (st1\<lparr>rl_prePacketTime := rl_prePacketTime st1 + offset_time E cfg p,
              rl_nextPacketIndex := rl_nextPacketIndex st1 + 1\<rparr>)
     else Some (st1, True)
   }"

text \<open>\<open>Tick\<close> of the client with the counter that the callback decreases.\<close>

definition replay_entry ::
  "ClientEnv \<Rightarrow> ReplayHooks \<Rightarrow> messageQueueEntry \<Rightarrow> ChanneldClient \<times> 32 word \<Rightarrow> (ChanneldClient \<times> 32 word) option" where
  "replay_entry CE R entry cn = do {
     c1 \<leftarrow> client_call_all CE (qe_handlers entry) (qe_channelId entry) (qe_msg entry) (fst cn);
     (case (if qe_stubId entry > 0 then cl_stubCallbacks c1 (qe_stubId entry) else None) of
        None \<Rightarrow> Some (c1, snd cn)
      | Some callback \<Rightarrow>
          (if callback = CH_App (re_callback R) then Some (c1, snd cn - 1)
           else map_option (\<lambda>c. (c, snd cn)) (client_call CE callback (qe_channelId entry) (qe_msg entry) c1)))
   }"

partial_function (option) replay_incoming ::
  "ClientEnv \<Rightarrow> ReplayHooks \<Rightarrow> ChanneldClient \<times> 32 word \<Rightarrow> (ChanneldClient \<times> 32 word) option" where
  "replay_incoming CE R cn = (case cl_incomingQueue (fst cn) of
     [] \<Rightarrow> Some cn
   | entry # rest \<Rightarrow>
       Option.bind (replay_entry CE R entry ((fst cn)\<lparr>cl_incomingQueue := rest\<rparr>, snd cn)) (replay_incoming CE R))"

definition replay_Tick :: "Externs \<Rightarrow> ClientEnv \<Rightarrow> ReplayHooks \<Rightarrow> ReplayState \<Rightarrow> ReplayState option" where
  "replay_Tick E CE R st = do {
     (c, n) \<leftarrow> replay_incoming CE R (rl_client st, rl_waitMessageCallback st);
     let st1 = st\<lparr>rl_client := c, rl_waitMessageCallback := n\<rparr>;
     if cl_outgoingQueue c = [] then Some st1
     else case take_outgoing CE (cl_outgoingQueue c) of
       (messages, rest) \<Rightarrow> Some (st1\<lparr>rl_client := fst (writePacket E CE messages (c\<lparr>cl_outgoingQueue := rest\<rparr>))\<rparr>)
   }"

text \<open>The guard of the loop, for the time it started at.\<close>

definition keeps_running :: "ConnectionGroupConfig \<Rightarrow> int \<Rightarrow> int \<Rightarrow> ReplayState \<Rightarrow> bool" where
  "keeps_running cfg started now st \<longleftrightarrow> now - started < rg_RunningTime cfg \<and> cl_connected (rl_client st)"

text \<open>
  The loop, turn by turn: the messages that arrive meanwhile are whatever the receiving goroutine put into
  the queue (\<open>arrive\<close>).  The trace has the packets that went out, each with the time of its turn, its
  index in the session and the message packs it brought into the queue of the client.
\<close>

record ReplayEvent =
  ev_now :: int
  ev_index :: nat
  ev_packs :: "Pack list"

inductive replays ::
  "Externs \<Rightarrow> ClientEnv \<Rightarrow> ReplayHooks \<Rightarrow> ConnectionGroupConfig \<Rightarrow> ReplayPacket list \<Rightarrow> ReplayState \<Rightarrow>
   ReplayEvent list \<Rightarrow> ReplayState \<Rightarrow> bool"
  for E :: Externs and CE :: ClientEnv and R :: ReplayHooks and cfg :: ConnectionGroupConfig
    and packets :: "ReplayPacket list" and st0 :: ReplayState where
  started: "replays E CE R cfg packets st0 [] st0"
| idle: "replays E CE R cfg packets st0 tr st \<Longrightarrow> wrap_around cfg packets st = Some st1 \<Longrightarrow>
    \<not> packet_due E cfg (packets ! rl_nextPacketIndex st1) now st1 \<Longrightarrow> replay_Tick E CE R st1 = Some st2 \<Longrightarrow>
    replays E CE R cfg packets st0 tr st2"
| sends: "replays E CE R cfg packets st0 tr st \<Longrightarrow> wrap_around cfg packets st = Some st1 \<Longrightarrow>
    packet_due E cfg (packets ! rl_nextPacketIndex st1) now st1 \<Longrightarrow>
    replay_send E CE R cfg packets now st = Some (st2, True) \<Longrightarrow> replay_Tick E CE R st2 = Some st3 \<Longrightarrow>
    replays E CE R cfg packets st0
      (tr @ [\<lparr>ev_now = now, ev_index = rl_nextPacketIndex st1,
         ev_packs = drop (length (cl_outgoingQueue (rl_client st))) (cl_outgoingQueue (rl_client st2))\<rparr>]) st3"
| arrive: "replays E CE R cfg packets st0 tr st \<Longrightarrow>
    replays E CE R cfg packets st0 tr (st\<lparr>rl_client := (rl_client st)\<lparr>cl_incomingQueue :=
      cl_incomingQueue (rl_client st) @ arrived\<rparr>\<rparr>)"

subsection \<open>What a turn leaves alone\<close>

definition auths :: "Pack list \<Rightarrow> nat" where
  "auths q = length (filter (\<lambda>mp. mp_MsgType mp = MessageType_AUTH) q)"

lemma auths_simps [simp]: "auths [] = 0" "auths (a @ b) = auths a + auths b"
  "auths (mp # q) = (if mp_MsgType mp = MessageType_AUTH then 1 else 0) + auths q"
  by (simp_all add: auths_def)

abbreviation "outgoing st \<equiv> cl_outgoingQueue (rl_client st)"

lemma register_stub_queue: "register_stub h c = Some (c', i) \<Longrightarrow> cl_outgoingQueue c' = cl_outgoingQueue c"
  by (auto simp: register_stub_def bind_eq_Some_conv split: option.splits)

lemma SendRaw_queue:
  "client_SendRaw ch b t body h c = Some (c', ok) \<Longrightarrow> \<exists>i. cl_outgoingQueue c' = cl_outgoingQueue c @
     [\<lparr>mp_ChannelId = ch, mp_Broadcast = b, mp_StubId = i, mp_MsgType = t, mp_MsgBody = body\<rparr>]"
  by (auto simp: client_SendRaw_def bind_eq_Some_conv split: if_splits dest: register_stub_queue)

lemma Send_queue:
  "client_Send CE ch b t m h c = Some (c', ok) \<Longrightarrow> \<exists>new. cl_outgoingQueue c' = cl_outgoingQueue c @ new \<and>
     length new \<le> 1 \<and> (\<forall>x \<in> set new. mp_MsgType x = t)"
  by (auto simp: client_Send_def split: option.splits dest!: register_stub_queue SendRaw_queue)

text \<open>What sending leaves: the place in the session and its time; the queue only grows.\<close>

lemma send_pack_effect:
  assumes "send_pack CE R ch need mp st = Some (st', b)"
  shows "rl_nextPacketIndex st' = rl_nextPacketIndex st" and "rl_prePacketTime st' = rl_prePacketTime st"
    and "rl_isFirstAuth st' = rl_isFirstAuth st"
    and "\<exists>new. outgoing st' = outgoing st @ new \<and> length new \<le> 1 \<and> (\<forall>x \<in> set new. mp_MsgType x = mp_MsgType mp)"
  using assms
  by (auto simp: send_pack_def Let_def bind_eq_Some_conv split: option.splits prod.splits if_splits
      dest!: SendRaw_queue Send_queue)

lemma replay_message_effect:
  assumes "replay_message CE R cfg mp st = Some (st', b)"
  shows "rl_nextPacketIndex st' = rl_nextPacketIndex st" and "rl_prePacketTime st' = rl_prePacketTime st"
    and "\<exists>new. outgoing st' = outgoing st @ new \<and> (rg_AuthOnlyOnce cfg \<longrightarrow>
      auths new + (if rl_isFirstAuth st' then 1 else 0) \<le> (if rl_isFirstAuth st then 1 else 0))"
proof -
  have q: "\<exists>new. outgoing st' = outgoing s @ new \<and> auths new \<le> (if mp_MsgType mp = MessageType_AUTH then 1 else 0)"
    if "send_pack CE R ch need mp s = Some (st', b)" for ch need s
    using send_pack_effect(4) [OF that]
    by (auto simp: auths_def)
  consider "mp_MsgType mp = MessageType_AUTH" "\<not> rl_isFirstAuth st" "rg_AuthOnlyOnce cfg" "st' = st"
    | s where "s = (if mp_MsgType mp = MessageType_AUTH then st\<lparr>rl_isFirstAuth := False\<rparr> else st)" "st' = s"
    | s ch need where "s = (if mp_MsgType mp = MessageType_AUTH then st\<lparr>rl_isFirstAuth := False\<rparr> else st)"
      "send_pack CE R ch need mp s = Some (st', b)"
      "mp_MsgType mp \<noteq> MessageType_AUTH \<or> rl_isFirstAuth st \<or> \<not> rg_AuthOnlyOnce cfg"
    using assms unfolding replay_message_def Let_def by (auto split: if_splits prod.splits)
  note cases = this
  show "rl_nextPacketIndex st' = rl_nextPacketIndex st" "rl_prePacketTime st' = rl_prePacketTime st"
    by (cases rule: cases; auto dest: send_pack_effect)+
  show "\<exists>new. outgoing st' = outgoing st @ new \<and> (rg_AuthOnlyOnce cfg \<longrightarrow>
      auths new + (if rl_isFirstAuth st' then 1 else 0) \<le> (if rl_isFirstAuth st then 1 else 0))"
  proof (cases rule: cases)
    case (3 s ch need)
    from q [OF 3(2)] send_pack_effect(3) [OF 3(2)] 3(1,3) show ?thesis by (auto split: if_splits)
  qed auto
qed

lemma replay_messages_effect:
  assumes "replay_messages CE R cfg mps st = Some (st', b)"
  shows "rl_nextPacketIndex st' = rl_nextPacketIndex st \<and> rl_prePacketTime st' = rl_prePacketTime st \<and>
    (\<exists>new. outgoing st' = outgoing st @ new \<and> (rg_AuthOnlyOnce cfg \<longrightarrow>
      auths new + (if rl_isFirstAuth st' then 1 else 0) \<le> (if rl_isFirstAuth st then 1 else 0)))"
  using assms
proof (induction mps arbitrary: st)
  case (Cons mp mps)
  then obtain st1 goOn where m: "replay_message CE R cfg mp st = Some (st1, goOn)"
    and r: "if goOn then replay_messages CE R cfg mps st1 = Some (st', b) else st' = st1"
    by (auto simp: bind_eq_Some_conv split: if_splits)
  obtain new where new: "outgoing st1 = outgoing st @ new" "rg_AuthOnlyOnce cfg \<longrightarrow>
      auths new + (if rl_isFirstAuth st1 then 1 else 0) \<le> (if rl_isFirstAuth st then 1 else 0)"
    using replay_message_effect(3) [OF m] by blast
  show ?case
  proof (cases goOn)
    case True
    with r Cons.IH obtain new' where "outgoing st' = outgoing st1 @ new'" "rg_AuthOnlyOnce cfg \<longrightarrow>
      auths new' + (if rl_isFirstAuth st' then 1 else 0) \<le> (if rl_isFirstAuth st1 then 1 else 0)"
      "rl_nextPacketIndex st' = rl_nextPacketIndex st1" "rl_prePacketTime st' = rl_prePacketTime st1" by auto
    with new replay_message_effect(1,2) [OF m] show ?thesis by (intro conjI exI [of _ "new @ new'"]) (auto split: if_splits)
  next
    case False
    with r new replay_message_effect(1,2) [OF m] show ?thesis by auto
  qed
qed simp

lemma replay_Tick_effect:
  assumes "replay_Tick E CE R st = Some st'"
  shows "rl_nextPacketIndex st' = rl_nextPacketIndex st" and "rl_prePacketTime st' = rl_prePacketTime st"
    and "rl_isFirstAuth st' = rl_isFirstAuth st"
  using assms by (auto simp: replay_Tick_def bind_eq_Some_conv Let_def split: if_splits prod.splits)

lemma wrap_around_effect:
  assumes "wrap_around cfg packets st = Some st1"
  shows "rl_isFirstAuth st1 = rl_isFirstAuth st" and "rl_client st1 = rl_client st"
    and "rl_waitMessageCallback st1 = rl_waitMessageCallback st" and "rl_nextPacketIndex st1 < length packets"
  using assms by (auto simp: wrap_around_def split: if_splits)

text \<open>
  With \<open>authOnlyOnce\<close> a replay authenticates at most once, however often the session starts again and
  whatever the hooks of the application do.
\<close>

theorem replay_authenticates_once:
  assumes "rg_AuthOnlyOnce cfg" and "replays E CE R cfg packets (start_replay R now) tr st"
  shows "auths (concat (map ev_packs tr)) \<le> 1"
proof -
  have "auths (concat (map ev_packs tr)) + (if rl_isFirstAuth st then 1 else 0) \<le> 1"
    using assms(2)
  proof (induction rule: replays.induct)
    case (idle tr st st1 now st2)
    then show ?case using wrap_around_effect(1) replay_Tick_effect(3) by metis
  next
    case (sends tr st st1 now st2 st3)
    note w = wrap_around_effect [OF sends.hyps(2)]
    have "replay_messages CE R cfg (rp_Packet (packets ! rl_nextPacketIndex st1))
        (st1\<lparr>rl_prePacketTime := rl_prePacketTime st1 + offset_time E cfg (packets ! rl_nextPacketIndex st1),
          rl_nextPacketIndex := rl_nextPacketIndex st1 + 1\<rparr>) = Some (st2, True)"
      using sends.hyps(2-4) by (simp add: replay_send_def Let_def)
    from replay_messages_effect [OF this] obtain new where "outgoing st2 = outgoing st @ new"
      "auths new + (if rl_isFirstAuth st2 then 1 else 0) \<le> (if rl_isFirstAuth st then 1 else 0)"
      using assms(1) w by auto
    moreover have "rl_isFirstAuth st3 = rl_isFirstAuth st2" by (rule replay_Tick_effect(3) [OF sends.hyps(5)])
    ultimately show ?case using sends.IH by (auto split: if_splits)
  qed (simp_all add: start_replay_def)
  then show ?thesis by (auto split: if_splits)
qed

subsection \<open>When packets go out\<close>

text \<open>The schedule of a session: the offset of each packet after the one before, and the pause before each
new round.\<close>

fun schedule :: "(nat \<Rightarrow> int) \<Rightarrow> int \<Rightarrow> nat \<Rightarrow> nat \<Rightarrow> int" where
  "schedule offset pause n 0 = offset 0"
| "schedule offset pause n (Suc j) =
     schedule offset pause n j + (if Suc j mod n = 0 then pause else 0) + offset (Suc j mod n)"

text \<open>Where the loop is after \<open>m\<close> packets: within the session, or at its end before it wraps around.\<close>

definition on_schedule :: "(nat \<Rightarrow> int) \<Rightarrow> int \<Rightarrow> nat \<Rightarrow> int \<Rightarrow> nat \<Rightarrow> ReplayState \<Rightarrow> bool" where
  "on_schedule offset pause n start m st \<longleftrightarrow>
     rl_nextPacketIndex st < n \<and> rl_nextPacketIndex st = m mod n \<and>
       rl_prePacketTime st = start + (if m = 0 then 0 else schedule offset pause n (m - 1) + (if m mod n = 0 then pause else 0)) \<or>
     rl_nextPacketIndex st = n \<and> 0 < m \<and> m mod n = 0 \<and> rl_prePacketTime st = start + schedule offset pause n (m - 1)"

lemma on_schedule_wrap:
  assumes "on_schedule offset (rg_SleepEndOfSession cfg) (length packets) start m st"
    and "wrap_around cfg packets st = Some st1"
  shows "rl_nextPacketIndex st1 = m mod length packets" and "rl_nextPacketIndex st1 < length packets"
    and "rl_prePacketTime st1 + offset (m mod length packets) =
      start + schedule offset (rg_SleepEndOfSession cfg) (length packets) m"
    and "on_schedule offset (rg_SleepEndOfSession cfg) (length packets) start m st1"
  using assms by (cases m; auto simp: on_schedule_def wrap_around_def split: if_splits)+

lemma on_schedule_sent:
  assumes "rl_nextPacketIndex st = Suc (m mod n)" and "0 < n" and "rl_prePacketTime st = start + schedule offset pause n m"
  shows "on_schedule offset pause n start (Suc m) st"
proof (cases "Suc (m mod n) = n")
  case True
  then have "Suc m mod n = 0" by (simp add: mod_Suc)
  then show ?thesis using assms True by (simp add: on_schedule_def)
next
  case False
  then have "Suc m mod n = Suc (m mod n)" "Suc m mod n \<noteq> 0" by (simp_all add: mod_Suc)
  moreover from this have "Suc m mod n < n" using assms(2) mod_less_divisor by blast
  ultimately show ?thesis using assms by (simp add: on_schedule_def)
qed

text \<open>
  The packets of a session go out in their order, round after round, each exactly once a round, and
  none before its time: the \<open>j\<close>-th not before the start of the replay plus the offsets of all packets up to
  it and the pauses between the rounds.
\<close>

theorem replay_in_order_and_on_time:
  assumes "replays E CE R cfg packets (start_replay R start) tr st" and "packets \<noteq> []" and "j < length tr"
  shows "ev_index (tr ! j) = j mod length packets \<and>
    start + schedule (\<lambda>k. offset_time E cfg (packets ! k)) (rg_SleepEndOfSession cfg) (length packets) j \<le> ev_now (tr ! j)"
proof -
  let ?n = "length packets" and ?off = "\<lambda>k. offset_time E cfg (packets ! k)" and ?pause = "rg_SleepEndOfSession cfg"
  let ?ok = "\<lambda>tr. \<forall>j < length tr. ev_index (tr ! j) = j mod ?n \<and> start + schedule ?off ?pause ?n j \<le> ev_now (tr ! j)"
  have n: "0 < ?n" using assms(2) by simp
  have "on_schedule ?off ?pause ?n start (length tr) st \<and> ?ok tr"
    using assms(1)
  proof (induction rule: replays.induct)
    case started
    then show ?case using n by (simp add: on_schedule_def start_replay_def)
  next
    case (idle tr st st1 now st2)
    then have "on_schedule ?off ?pause ?n start (length tr) st1" by (blast intro: on_schedule_wrap(4))
    then show ?case using idle replay_Tick_effect(1,2) [OF idle.hyps(4)] by (simp add: on_schedule_def)
  next
    case (sends tr st st1 now st2 st3)
    let ?m = "length tr"
    have s: "on_schedule ?off ?pause ?n start ?m st" using sends.IH by blast
    note w = on_schedule_wrap [OF s sends.hyps(2)]
    have "replay_messages CE R cfg (rp_Packet (packets ! rl_nextPacketIndex st1))
        (st1\<lparr>rl_prePacketTime := rl_prePacketTime st1 + ?off (rl_nextPacketIndex st1),
          rl_nextPacketIndex := rl_nextPacketIndex st1 + 1\<rparr>) = Some (st2, True)"
      using sends.hyps(2-4) by (simp add: replay_send_def Let_def)
    from replay_messages_effect [OF this] replay_Tick_effect(1,2) [OF sends.hyps(5)] w(1,3)
    have "rl_nextPacketIndex st3 = Suc (?m mod ?n)" "rl_prePacketTime st3 = start + schedule ?off ?pause ?n ?m" by simp_all
    then have "on_schedule ?off ?pause ?n start (Suc ?m) st3" by (intro on_schedule_sent n)
    moreover have "start + schedule ?off ?pause ?n ?m \<le> now"
      using sends.hyps(3) w(1,3) by (simp add: packet_due_def)
    ultimately show ?case using sends.IH w(1) by (auto simp: nth_append less_Suc_eq)
  next
    case (arrive tr st arrived)
    then show ?case by (simp add: on_schedule_def)
  qed
  then show ?thesis using assms(3) by blast
qed

text \<open>The times of a recorded session add up to the recorded times.\<close>

lemma relative_times_nth:
  "k < length ps \<Longrightarrow> relative_times prev ps ! k =
     (ps ! k)\<lparr>rp_OffsetTime := rp_OffsetTime (ps ! k) - (if k = 0 then prev else rp_OffsetTime (ps ! (k - 1)))\<rparr>"
proof (induction ps arbitrary: prev k)
  case (Cons p ps)
  then show ?case by (cases k; cases "k - 1") simp_all
qed simp

lemma relative_times_length [simp]: "length (relative_times prev ps) = length ps"
  by (induction ps arbitrary: prev) auto

lemma offset_time_exact:
  assumes "rg_ActionIntervalMultiplier cfg = Fin 1" and "\<bar>rp_OffsetTime p\<bar> < 2 ^ 53"
  shows "offset_time E cfg p = rp_OffsetTime p"
proof -
  have "trunc (of_int (rp_OffsetTime p)) = rp_OffsetTime p" by (simp add: trunc_def)
  moreover have "- (2 ^ 63) \<le> rp_OffsetTime p" "rp_OffsetTime p < 2 ^ 63" using assms(2) by auto
  ultimately show ?thesis using assms by (simp add: offset_time_def go_int_def)
qed

lemma schedule_first_round:
  assumes "\<And>k. k < n \<Longrightarrow> offset k = t k - (if k = 0 then t 0 else t (k - 1))" and "j < n"
  shows "schedule offset pause n j = t j - t 0"
  using assms(2)
proof (induction j)
  case (Suc j)
  then show ?case using assms(1) [of "Suc j"] by simp
qed (use assms(1) [of 0] in simp)


subsection \<open>Waiting, and where a replay stops\<close>

definition no_hooks :: "ReplayHooks \<Rightarrow> bool" where
  "no_hooks R \<longleftrightarrow> re_alterChannelId R = None \<and> re_beforeSend R = Map.empty \<and> re_needWait R = None"

lemma send_pack_plain:
  assumes "no_hooks R" and "send_pack CE R ch need mp st = Some (st', b)"
  shows "rl_waitMessageCallback st' = rl_waitMessageCallback st + (if need then 1 else 0)" and "b"
    and "rl_isFirstAuth st' = rl_isFirstAuth st" and "\<exists>x. outgoing st' = outgoing st @ [x] \<and> mp_MsgType x = mp_MsgType mp"
  using assms by (auto simp: send_pack_def no_hooks_def bind_eq_Some_conv dest!: SendRaw_queue)

lemma replay_message_plain:
  assumes "no_hooks R" and "rg_WaitAuthSuccess cfg" and "replay_message CE R cfg mp st = Some (st', b)"
  shows "b \<and> (\<exists>new. outgoing st' = outgoing st @ new \<and>
    rl_waitMessageCallback st' = rl_waitMessageCallback st + of_nat (auths new))"
proof -
  have p: "send_pack CE R (mp_ChannelId mp) (mp_MsgType mp = MessageType_AUTH) mp s = Some (st', b)"
    if "\<not> (mp_MsgType mp = MessageType_AUTH \<and> \<not> rl_isFirstAuth st \<and> rg_AuthOnlyOnce cfg)"
      "s = (if mp_MsgType mp = MessageType_AUTH then st\<lparr>rl_isFirstAuth := False\<rparr> else st)" for s
    using assms that by (auto simp: replay_message_def no_hooks_def Let_def split: if_splits)
  show ?thesis
  proof (cases "mp_MsgType mp = MessageType_AUTH \<and> \<not> rl_isFirstAuth st \<and> rg_AuthOnlyOnce cfg")
    case True
    then show ?thesis using assms(3) by (auto simp: replay_message_def)
  next
    case False
    note q = send_pack_plain [OF assms(1) p [OF False refl]]
    show ?thesis using q(1,2,4) by (auto split: if_splits)
  qed
qed

lemma replay_messages_plain:
  assumes "no_hooks R" and "rg_WaitAuthSuccess cfg" and "replay_messages CE R cfg mps st = Some (st', b)"
  shows "b \<and> (\<exists>new. outgoing st' = outgoing st @ new \<and>
    rl_waitMessageCallback st' = rl_waitMessageCallback st + of_nat (auths new))"
  using assms(3)
proof (induction mps arbitrary: st)
  case (Cons mp mps)
  then obtain st1 goOn where m: "replay_message CE R cfg mp st = Some (st1, goOn)"
    and r: "if goOn then replay_messages CE R cfg mps st1 = Some (st', b) else st' = st1"
    by (auto simp: bind_eq_Some_conv split: if_splits)
  note e = replay_message_plain [OF assms(1,2) m]
  from e r Cons.IH obtain new' where "b" "outgoing st' = outgoing st1 @ new'"
    "rl_waitMessageCallback st' = rl_waitMessageCallback st1 + of_nat (auths new')" by auto
  moreover from e obtain new where "outgoing st1 = outgoing st @ new"
    "rl_waitMessageCallback st1 = rl_waitMessageCallback st + of_nat (auths new)" by blast
  ultimately show ?case by (intro conjI exI [of _ "new @ new'"]) simp_all
qed auto

text \<open>
  With \<open>waitAuthSuccess\<close> the turn that sends a login is the last one that sends anything until the answer
  is there: whatever time it is, later turns put nothing into the queue and stay at the same packet.  The
  messages that follow the login in its own packet are not held back.
\<close>

theorem replay_waits_for_auth:
  assumes "no_hooks R" and "rg_WaitAuthSuccess cfg" and "replay_send E CE R cfg packets now st = Some (st1, b)"
    and "outgoing st1 = outgoing st @ new" and "0 < auths new" and "auths new < 2 ^ 32"
    and "rl_waitMessageCallback st2 = rl_waitMessageCallback st1"
    and "replay_send E CE R cfg packets later st2 = Some (st3, b')"
  shows "b' \<and> rl_client st3 = rl_client st2 \<and> rl_nextPacketIndex st3 = rl_nextPacketIndex st2 mod length packets"
proof -
  from assms(3) obtain s where s: "wrap_around cfg packets st = Some s" by (auto simp: replay_send_def bind_eq_Some_conv)
  note w = wrap_around_effect [OF s]
  let ?p = "packets ! rl_nextPacketIndex s"
  have due: "packet_due E cfg ?p now s"
    using assms(3-5) s w(2) by (auto simp: replay_send_def Let_def split: if_splits)
  then have zero: "rl_waitMessageCallback st = 0" using w(3) by (simp add: packet_due_def)
  from assms(3) s due have "replay_messages CE R cfg (rp_Packet ?p)
      (s\<lparr>rl_prePacketTime := rl_prePacketTime s + offset_time E cfg ?p, rl_nextPacketIndex := rl_nextPacketIndex s + 1\<rparr>) = Some (st1, b)"
    by (simp add: replay_send_def Let_def)
  from replay_messages_plain [OF assms(1,2) this] assms(4) w(2,3) zero
  have "rl_waitMessageCallback st1 = of_nat (auths new)" by auto
  moreover have "(of_nat (auths new) :: 32 word) \<noteq> 0"
    using assms(5,6) by (auto simp: word_of_nat_eq_0_iff dest: nat_dvd_not_less)
  ultimately have wait: "rl_waitMessageCallback st2 \<noteq> 0" using assms(7) by simp
  from assms(8) obtain s2 where s2: "wrap_around cfg packets st2 = Some s2" by (auto simp: replay_send_def bind_eq_Some_conv)
  note w2 = wrap_around_effect [OF s2]
  have "\<not> packet_due E cfg (packets ! rl_nextPacketIndex s2) later s2" using wait w2(3) by (simp add: packet_due_def)
  with assms(8) s2 have "st3 = s2" "b'" by (auto simp: replay_send_def Let_def)
  moreover have "rl_nextPacketIndex s2 = rl_nextPacketIndex st2 mod length packets"
    using s2 by (cases "length packets \<le> rl_nextPacketIndex st2") (auto simp: wrap_around_def split: if_splits)
  ultimately show ?thesis using w2(2) by simp
qed

lemma replay_messages_full:
  assumes "no_hooks R" and "\<forall>mp \<in> set mps. mp_MsgType mp \<noteq> MessageType_AUTH"
    and "length (outgoing st) \<le> outgoing_capacity"
  shows "if length (outgoing st) + length mps \<le> outgoing_capacity
    then \<exists>st'. replay_messages CE R cfg mps st = Some (st', True) \<and>
      outgoing st' = outgoing st @ map (\<lambda>mp. mp\<lparr>mp_StubId := 0\<rparr>) mps
    else replay_messages CE R cfg mps st = None"
  using assms(2,3)
proof (induction mps arbitrary: st)
  case (Cons mp mps)
  have one: "replay_message CE R cfg mp st = (if outgoing_capacity \<le> length (outgoing st) then None
      else Some (st\<lparr>rl_client := (rl_client st)\<lparr>cl_outgoingQueue := outgoing st @ [mp\<lparr>mp_StubId := 0\<rparr>]\<rparr>\<rparr>, True))"
    using assms(1) Cons.prems(1)
    by (simp add: replay_message_def no_hooks_def send_pack_def client_SendRaw_def register_stub_def Let_def)
  show ?case
  proof (cases "outgoing_capacity \<le> length (outgoing st)")
    case True
    then show ?thesis using one by simp
  next
    case False
    let ?st1 = "st\<lparr>rl_client := (rl_client st)\<lparr>cl_outgoingQueue := outgoing st @ [mp\<lparr>mp_StubId := 0\<rparr>]\<rparr>\<rparr>"
    from Cons.IH [of ?st1] Cons.prems False one show ?thesis by (auto split: if_splits)
  qed
qed (use assms in simp)


subsection \<open>The tick is the client's\<close>

text \<open>Counting aside, the replay's tick does what \<open>Tick\<close> of the client library does with a callback that
leaves the client alone.\<close>

definition counts_only :: "ClientEnv \<Rightarrow> ReplayHooks \<Rightarrow> bool" where
  "counts_only CE R \<longleftrightarrow> (\<forall>ch m c. ce_app CE (re_callback R) ch m c = Some c)"

lemma replay_entry_client:
  assumes "counts_only CE R"
  shows "map_option fst (replay_entry CE R entry cn) = client_handle_entry CE entry (fst cn)"
proof -
  have "client_call CE (CH_App (re_callback R)) ch m c = Some c" for ch m c
    using assms by (simp add: counts_only_def client_call_def)
  then show ?thesis
    by (cases "client_call_all CE (qe_handlers entry) (qe_channelId entry) (qe_msg entry) (fst cn)")
      (auto simp: replay_entry_def client_handle_entry_def option.map_comp comp_def option.map_ident split: option.split)
qed

lemma replay_incoming_sound:
  assumes "counts_only CE R" and "replay_incoming CE R cn = Some cn'"
  shows "client_tick_incoming CE (fst cn) = Some (fst cn')"
proof -
  have "counts_only CE R \<longrightarrow> client_tick_incoming CE (fst cn) = Some (fst cn')"
  proof (rule replay_incoming.raw_induct [where P = "\<lambda>CE R cn cn'. counts_only CE R \<longrightarrow>
      client_tick_incoming CE (fst cn) = Some (fst cn')", OF _ assms(2)], rule impI)
    fix f CE R cn cn'
    assume IH: "\<And>CE R cn cn'. f CE R cn = Some cn' \<Longrightarrow> counts_only CE R \<longrightarrow>
        client_tick_incoming CE (fst cn) = Some (fst cn')"
      and step: "(case cl_incomingQueue (fst cn) of [] \<Rightarrow> Some cn
        | entry # rest \<Rightarrow> Option.bind (replay_entry CE R entry ((fst cn)\<lparr>cl_incomingQueue := rest\<rparr>, snd cn)) (f CE R)) = Some cn'"
      and c: "counts_only CE R"
    show "client_tick_incoming CE (fst cn) = Some (fst cn')"
    proof (cases "cl_incomingQueue (fst cn)")
      case Nil
      then show ?thesis using step by (subst client_tick_incoming.simps) simp
    next
      case (Cons entry rest)
      with step obtain cn1 where e: "replay_entry CE R entry ((fst cn)\<lparr>cl_incomingQueue := rest\<rparr>, snd cn) = Some cn1"
        and f: "f CE R cn1 = Some cn'" by (auto simp: bind_eq_Some_conv)
      have "client_handle_entry CE entry ((fst cn)\<lparr>cl_incomingQueue := rest\<rparr>) = Some (fst cn1)"
        using replay_entry_client [OF c, of entry "((fst cn)\<lparr>cl_incomingQueue := rest\<rparr>, snd cn)"] e by simp
      then show ?thesis using IH [OF f] c Cons by (subst client_tick_incoming.simps) simp
    qed
  qed
  then show ?thesis using assms(1) by blast
qed

lemma replay_incoming_complete:
  assumes "counts_only CE R" and "client_tick_incoming CE c = Some c'"
  shows "\<exists>n'. replay_incoming CE R (c, n) = Some (c', n')"
proof -
  have "counts_only CE R \<longrightarrow> (\<forall>n. \<exists>n'. replay_incoming CE R (c, n) = Some (c', n'))"
  proof (rule client_tick_incoming.raw_induct [where P = "\<lambda>CE c c'. counts_only CE R \<longrightarrow>
      (\<forall>n. \<exists>n'. replay_incoming CE R (c, n) = Some (c', n'))", OF _ assms(2)], intro impI allI)
    fix f CE c c' n
    assume IH: "\<And>CE c c'. f CE c = Some c' \<Longrightarrow> counts_only CE R \<longrightarrow>
        (\<forall>n. \<exists>n'. replay_incoming CE R (c, n) = Some (c', n'))"
      and step: "(case cl_incomingQueue c of [] \<Rightarrow> Some c
        | entry # rest \<Rightarrow> Option.bind (client_handle_entry CE entry (c\<lparr>cl_incomingQueue := rest\<rparr>)) (f CE)) = Some c'"
      and ok: "counts_only CE R"
    show "\<exists>n'. replay_incoming CE R (c, n) = Some (c', n')"
    proof (cases "cl_incomingQueue c")
      case Nil
      then show ?thesis using step by (subst replay_incoming.simps) simp
    next
      case (Cons entry rest)
      with step obtain c1 where e: "client_handle_entry CE entry (c\<lparr>cl_incomingQueue := rest\<rparr>) = Some c1"
        and f: "f CE c1 = Some c'" by (auto simp: bind_eq_Some_conv)
      obtain n1 where "replay_entry CE R entry (c\<lparr>cl_incomingQueue := rest\<rparr>, n) = Some (c1, n1)"
        using replay_entry_client [OF ok, of entry "(c\<lparr>cl_incomingQueue := rest\<rparr>, n)"] e by auto
      then show ?thesis using IH [OF f] ok Cons by (subst replay_incoming.simps) simp
    qed
  qed
  then show ?thesis using assms(1) by blast
qed

text \<open>
  The tick of a replayed connection refines the tick of the client library: it ends in the same client,
  and it ends at all, exactly when that one does.
\<close>

theorem replay_Tick_refines:
  assumes "counts_only CE R"
  shows "map_option rl_client (replay_Tick E CE R st) = map_option fst (client_Tick E CE (rl_client st))"
proof (cases "client_tick_incoming CE (rl_client st)")
  case None
  then have "replay_incoming CE R (rl_client st, rl_waitMessageCallback st) = None"
    using replay_incoming_sound [OF assms, of "(rl_client st, rl_waitMessageCallback st)"]
    by (cases "replay_incoming CE R (rl_client st, rl_waitMessageCallback st)") auto
  with None show ?thesis by (simp add: replay_Tick_def client_Tick_def)
next
  case (Some c)
  from replay_incoming_complete [OF assms Some] obtain n where
    "replay_incoming CE R (rl_client st, rl_waitMessageCallback st) = Some (c, n)" by blast
  with Some show ?thesis by (simp add: replay_Tick_def client_Tick_def Let_def split: prod.split)
qed

subsection \<open>Examples\<close>

text \<open>A client logged in at time 100 and sent a message at time 350; the session is replayed from time 1000 on.\<close>

definition login_pack :: Pack where
  "login_pack = \<lparr>mp_ChannelId = 0, mp_Broadcast = 0, mp_StubId = 0, mp_MsgType = MessageType_AUTH, mp_MsgBody = [1]\<rparr>"

definition chat_pack :: Pack where
  "chat_pack = \<lparr>mp_ChannelId = 0, mp_Broadcast = 0, mp_StubId = 0, mp_MsgType = 100, mp_MsgBody = [2]\<rparr>"

definition recorded_session :: "ReplayPacket list" where
  "recorded_session = [\<lparr>rp_OffsetTime = 100, rp_Packet = [login_pack]\<rparr>, \<lparr>rp_OffsetTime = 350, rp_Packet = [chat_pack]\<rparr>]"

definition stored_session :: "ReplayPacket list" where
  "stored_session = [\<lparr>rp_OffsetTime = 0, rp_Packet = [login_pack]\<rparr>, \<lparr>rp_OffsetTime = 250, rp_Packet = [chat_pack]\<rparr>]"

definition plain_hooks :: ReplayHooks where
  "plain_hooks = \<lparr>re_alterChannelId = None, re_beforeSend = Map.empty, re_needWait = None, re_messageMap = [], re_callback = 9\<rparr>"

definition eager_config :: ConnectionGroupConfig where
  "eager_config = DefaultConnGroupConfig\<lparr>rg_WaitAuthSuccess := False\<rparr>"

lemma demo_tick:
  assumes "cl_incomingQueue (rl_client st) = []"
  obtains c where "replay_Tick demo_externs demo_client_env R st = Some (st\<lparr>rl_client := c\<rparr>)"
    and "cl_incomingQueue c = []" and "cl_outgoingQueue c = []"
proof -
  let ?c = "rl_client st"
  have i: "replay_incoming demo_client_env R (?c, n) = Some (?c, n)" for n
    using assms by (subst replay_incoming.simps) simp
  have t: "take_outgoing demo_client_env q = (q, [])" for q
    by (rule take_outgoing_all) (simp add: demo_client_env_def)
  have "st\<lparr>rl_client := ?c, rl_waitMessageCallback := rl_waitMessageCallback st\<rparr> = st" by simp
  with i t assms show thesis
    by (cases "outgoing st = []") (auto simp: replay_Tick_def Let_def writePacket_def demo_client_env_def intro!: that)
qed

lemma stored_times: "offset_time E eager_config (stored_session ! 0) = 0" "offset_time E eager_config (stored_session ! Suc 0) = 250"
  by (simp_all add: offset_time_exact eager_config_def DefaultConnGroupConfig_def stored_session_def)

lemma demo_replay:
  "\<exists>tr st. replays demo_externs demo_client_env plain_hooks eager_config stored_session (start_replay plain_hooks 1000) tr st \<and> length tr = 2"
proof -
  let ?E = demo_externs and ?CE = demo_client_env and ?R = plain_hooks
  let ?st = "start_replay plain_hooks 1000"
  have s: "rl_client ?st = NewClient" "rl_nextPacketIndex ?st = 0" "rl_prePacketTime ?st = 1000" "rl_waitMessageCallback ?st = 0"
    "rl_isFirstAuth ?st" by (simp_all add: start_replay_def plain_hooks_def)
  have c0: "cl_incomingQueue NewClient = []" "cl_outgoingQueue NewClient = []" by (simp_all add: NewClient_def SetMessageEntry_def)
  have w: "wrap_around eager_config stored_session ?st = Some ?st" by (simp add: wrap_around_def s stored_session_def)
  have d: "packet_due ?E eager_config (stored_session ! rl_nextPacketIndex ?st) 1000 ?st"
    by (simp add: packet_due_def s stored_times)
  obtain st1 where st1: "replay_send ?E ?CE ?R eager_config stored_session 1000 ?st = Some (st1, True)"
    "cl_incomingQueue (rl_client st1) = []" "rl_nextPacketIndex st1 = 1" "rl_prePacketTime st1 = 1000" "rl_waitMessageCallback st1 = 0"
    using w d s c0 by (simp add: replay_send_def Let_def stored_times)
      (simp add: stored_session_def replay_message_def login_pack_def plain_hooks_def eager_config_def send_pack_def
        client_SendRaw_def register_stub_def outgoing_capacity_def Let_def)
  obtain c1 where t1: "replay_Tick ?E ?CE ?R st1 = Some (st1\<lparr>rl_client := c1\<rparr>)" "cl_incomingQueue c1 = []" "cl_outgoingQueue c1 = []"
    using demo_tick [OF st1(2)] by metis
  let ?st2 = "st1\<lparr>rl_client := c1\<rparr>"
  from replays.sends [OF replays.started w d st1(1) t1(1)] obtain tr1 where
    r1: "replays ?E ?CE ?R eager_config stored_session ?st tr1 ?st2" "length tr1 = 1" by auto
  have w2: "wrap_around eager_config stored_session ?st2 = Some ?st2" by (simp add: wrap_around_def st1 stored_session_def)
  have d2: "packet_due ?E eager_config (stored_session ! rl_nextPacketIndex ?st2) 1250 ?st2"
    by (simp add: packet_due_def st1 stored_times)
  obtain st3 where st3: "replay_send ?E ?CE ?R eager_config stored_session 1250 ?st2 = Some (st3, True)"
    "cl_incomingQueue (rl_client st3) = []"
    using w2 d2 st1 t1 by (simp add: replay_send_def Let_def stored_times)
      (simp add: stored_session_def replay_message_def chat_pack_def plain_hooks_def eager_config_def send_pack_def
        client_SendRaw_def register_stub_def outgoing_capacity_def Let_def)
  obtain c3 where "replay_Tick ?E ?CE ?R st3 = Some (st3\<lparr>rl_client := c3\<rparr>)" using demo_tick [OF st3(2)] by metis
  from replays.sends [OF r1(1) w2 d2 st3(1) this] r1(2) show ?thesis by fastforce
qed

theorem replay_authenticates_once_witness:
  "\<exists>tr st. replays demo_externs demo_client_env plain_hooks eager_config stored_session (start_replay plain_hooks 1000) tr st \<and>
    length tr = 2 \<and> auths (concat (map ev_packs tr)) \<le> 1"
proof -
  have "rg_AuthOnlyOnce eager_config" by (simp add: eager_config_def DefaultConnGroupConfig_def)
  from demo_replay replay_authenticates_once [OF this] show ?thesis by blast
qed

theorem replay_in_order_and_on_time_witness:
  "\<exists>tr st. replays demo_externs demo_client_env plain_hooks eager_config stored_session (start_replay plain_hooks 1000) tr st \<and>
    ev_index (tr ! 1) = 1 \<and> 1250 \<le> ev_now (tr ! 1)"
proof -
  obtain tr st where r: "replays demo_externs demo_client_env plain_hooks eager_config stored_session (start_replay plain_hooks 1000) tr st"
    "length tr = 2" using demo_replay by blast
  from replay_in_order_and_on_time [OF r(1), of 1] r show ?thesis
    using stored_times [of demo_externs] by (auto simp: stored_session_def)
qed


text \<open>A login with the default configuration, and a turn long after it.\<close>

theorem replay_waits_for_auth_witness:
  "\<exists>st1 st3. replay_send demo_externs demo_client_env plain_hooks DefaultConnGroupConfig stored_session 1000
      (start_replay plain_hooks 1000) = Some (st1, True) \<and>
    replay_send demo_externs demo_client_env plain_hooks DefaultConnGroupConfig stored_session 900000 st1 = Some (st3, True) \<and>
    rl_client st3 = rl_client st1"
proof -
  let ?st = "start_replay plain_hooks 1000" and ?cfg = DefaultConnGroupConfig
  have s: "rl_client ?st = NewClient" "rl_nextPacketIndex ?st = 0" "rl_prePacketTime ?st = 1000" "rl_waitMessageCallback ?st = 0"
    "rl_isFirstAuth ?st" by (simp_all add: start_replay_def plain_hooks_def)
  have c0: "cl_outgoingQueue NewClient = []" "cl_stubCallbacks NewClient = [0 \<mapsto> CH_Default]"
    by (simp_all add: NewClient_def SetMessageEntry_def)
  have w: "wrap_around ?cfg stored_session ?st = Some ?st" by (simp add: wrap_around_def s stored_session_def)
  have off: "offset_time demo_externs ?cfg (stored_session ! 0) = 0"
    by (simp add: offset_time_exact DefaultConnGroupConfig_def stored_session_def)
  have f: "free_stub [0 \<mapsto> CH_Default] 0 = Some 1"
    by (subst free_stub.simps, simp) (subst free_stub.simps, simp)
  obtain st1 where st1: "replay_send demo_externs demo_client_env plain_hooks ?cfg stored_session 1000 ?st = Some (st1, True)"
    "outgoing st1 = outgoing ?st @ [login_pack\<lparr>mp_StubId := 1\<rparr>]" "rl_nextPacketIndex st1 = 1" "rl_waitMessageCallback st1 = 1"
    using w s c0 f off by (simp add: replay_send_def Let_def packet_due_def)
      (simp add: stored_session_def replay_message_def login_pack_def plain_hooks_def DefaultConnGroupConfig_def send_pack_def
        client_SendRaw_def register_stub_def outgoing_capacity_def Let_def)
  obtain st3 b where r3: "replay_send demo_externs demo_client_env plain_hooks ?cfg stored_session 900000 st1 = Some (st3, b)"
    using st1(3,4) by (simp add: replay_send_def wrap_around_def packet_due_def stored_session_def Let_def)
  have "b \<and> rl_client st3 = rl_client st1"
    using replay_waits_for_auth [OF _ _ st1(1,2) _ _ refl r3]
    by (simp add: no_hooks_def plain_hooks_def DefaultConnGroupConfig_def login_pack_def)
  with st1(1) r3 show ?thesis by auto
qed


theorem replay_Tick_refines_witness:
  "map_option rl_client (replay_Tick demo_externs demo_client_env plain_hooks (start_replay plain_hooks 0)) =
    map_option fst (client_Tick demo_externs demo_client_env NewClient)"
  using replay_Tick_refines [of demo_client_env plain_hooks demo_externs "start_replay plain_hooks 0"]
  by (simp add: counts_only_def demo_client_env_def start_replay_def plain_hooks_def)

subsection \<open>The cases\<close>

text \<open>\<open>LoadCaseConfig\<close>: the configuration of a case names a session file for each group; it stops at the first file it
cannot read and keeps the groups it has got by then (false is the error).  Reading and decoding files is
outside, and \<open>json.Unmarshal\<close> starts from what the configuration holds.\<close>

record ReplayCase =
  rc_ChanneldAddr :: string
  rc_configs :: "(string \<times> ConnectionGroupConfig) list"
  rc_groups :: "(ConnectionGroupConfig \<times> ReplayPacket list) list"

record 'f ReplayFiles =
  rf_read :: "string \<Rightarrow> 'f option"
  rf_config :: "'f \<Rightarrow> ReplayCase \<Rightarrow> ReplayCase \<times> bool"
  rf_session :: "'f \<Rightarrow> ReplayPacket list option"

definition ReadReplaySessionFile :: "'f ReplayFiles \<Rightarrow> string \<Rightarrow> ReplayPacket list option" where
  "ReadReplaySessionFile F cprPath = do { data \<leftarrow> rf_read F cprPath; rf_session F data }"

fun load_groups :: "'f ReplayFiles \<Rightarrow> (string \<times> ConnectionGroupConfig) list \<Rightarrow> ReplayCase \<Rightarrow> ReplayCase \<times> bool" where
  "load_groups F [] rc = (rc, True)"
| "load_groups F ((path, c) # cs) rc = (case ReadReplaySessionFile F path of
     None \<Rightarrow> (rc, False)
   | Some session \<Rightarrow> load_groups F cs (rc\<lparr>rc_groups := rc_groups rc @ [(c, session)]\<rparr>))"

definition LoadCaseConfig :: "'f ReplayFiles \<Rightarrow> string \<Rightarrow> ReplayCase \<Rightarrow> ReplayCase \<times> bool" where
  "LoadCaseConfig F path rc = (case rf_read F path of
     None \<Rightarrow> (rc, False)
   | Some config \<Rightarrow> (case rf_config F config rc of
       (rc1, ok) \<Rightarrow> if ok then load_groups F (rc_configs rc1) rc1 else (rc1, False)))"

definition CreateReplayClientByConfigFile :: "'f ReplayFiles \<Rightarrow> string \<Rightarrow> ReplayCase option" where
  "CreateReplayClientByConfigFile F configPath =
     (case LoadCaseConfig F configPath \<lparr>rc_ChanneldAddr = [], rc_configs = [], rc_groups = []\<rparr> of
        (rc, ok) \<Rightarrow> if ok then Some rc else None)"

text \<open>How a connection of a group ends: it could not be dialled, a message of a packet did not unmarshal, or its loop
came to its end.  \<open>run\<close> returns when the wait group is down to zero, and only the last kind calls
\<open>Done\<close>; \<open>Run\<close> runs the groups one after the other (the value says whether all have returned).\<close>

datatype ReplayEnd = NotDialled | NotUnmarshalled | LoopEnded

definition group_returns :: "ConnectionGroupConfig \<Rightarrow> ReplayEnd list \<Rightarrow> bool" where
  "group_returns cfg ends \<longleftrightarrow> rg_ConnectionNumber cfg - int (length (filter (\<lambda>e. e = LoopEnded) ends)) = 0"

fun replay_Run :: "(ConnectionGroupConfig \<times> ReplayEnd list) list \<Rightarrow> bool" where
  "replay_Run [] = True"
| "replay_Run ((cfg, ends) # groups) = (group_returns cfg ends \<and> replay_Run groups)"

text \<open>
  A replay client is made exactly when the configuration and all the session files it names can be read, and
  then it has one group for each, in order, with its session.
\<close>

lemma load_groups_result:
  "load_groups F cs rc = (rc', ok) \<Longrightarrow>
    (ok \<longleftrightarrow> (\<forall>(path, c) \<in> set cs. ReadReplaySessionFile F path \<noteq> None)) \<and>
    (ok \<longrightarrow> rc' = rc\<lparr>rc_groups := rc_groups rc @ map (\<lambda>(path, c). (c, the (ReadReplaySessionFile F path))) cs\<rparr>)"
  by (induction F cs rc rule: load_groups.induct) (auto split: option.splits)

theorem CreateReplayClient_correct:
  assumes "rf_read F configPath = Some f"
    and "rf_config F f \<lparr>rc_ChanneldAddr = [], rc_configs = [], rc_groups = []\<rparr> = (rc1, True)" and "rc_groups rc1 = []"
  shows "(CreateReplayClientByConfigFile F configPath \<noteq> None \<longleftrightarrow>
      (\<forall>(path, c) \<in> set (rc_configs rc1). ReadReplaySessionFile F path \<noteq> None)) \<and>
    (\<forall>rc. CreateReplayClientByConfigFile F configPath = Some rc \<longrightarrow>
       map fst (rc_groups rc) = map snd (rc_configs rc1) \<and>
       map (\<lambda>g. Some (snd g)) (rc_groups rc) = map (\<lambda>c. ReadReplaySessionFile F (fst c)) (rc_configs rc1))"
proof -
  obtain rc' ok where l: "load_groups F (rc_configs rc1) rc1 = (rc', ok)" by fastforce
  have c: "CreateReplayClientByConfigFile F configPath = (if ok then Some rc' else None)"
    using assms l by (simp add: CreateReplayClientByConfigFile_def LoadCaseConfig_def)
  from load_groups_result [OF l] assms(3) show ?thesis unfolding c by (auto simp: case_prod_unfold)
qed

text \<open>A group of which one connection fails never returns; and in a case that does not give the multiplier (the
default is not what decoding starts from), it is 0, and every packet is due at once.\<close>

lemma failed_connection_hangs:
  assumes "int (length ends) = rg_ConnectionNumber cfg" and "e \<in> set ends" and "e \<noteq> LoopEnded"
  shows "\<not> replay_Run ((cfg, ends) # groups)"
  using assms length_filter_less [of e ends "\<lambda>e. e = LoopEnded"] by (auto simp: group_returns_def)

lemma zero_multiplier:
  assumes "rg_ActionIntervalMultiplier cfg = Fin 0" and "\<bar>rp_OffsetTime p\<bar> < 2 ^ 53" and "rl_waitMessageCallback st = 0"
  shows "packet_due E cfg p now st \<longleftrightarrow> rl_prePacketTime st \<le> now"
proof -
  have "round64 0 = Fin 0" using round64_exact [OF f64_exact_of_int [of 0]] by simp
  then have "offset_time E cfg p = 0"
    using assms(1,2) by (simp add: offset_time_def go_int_def trunc_def)
  with assms(3) show ?thesis by (auto simp: packet_due_def)
qed

theorem CreateReplayClient_correct_witness:
  "map fst (rc_groups (the (CreateReplayClientByConfigFile \<lparr>rf_read = (\<lambda>_. Some ()),
     rf_config = (\<lambda>_ rc. (rc\<lparr>rc_configs := [(''a.cpr'', eager_config)]\<rparr>, True)), rf_session = (\<lambda>_. Some stored_session)\<rparr> ''case.json''))) =
   [eager_config]"
proof -
  let ?F = "\<lparr>rf_read = (\<lambda>_. Some ()), rf_config = (\<lambda>_ rc. (rc\<lparr>rc_configs := [(''a.cpr'', eager_config)]\<rparr>, True)),
    rf_session = (\<lambda>_. Some stored_session)\<rparr>"
  have "ReadReplaySessionFile ?F ''a.cpr'' \<noteq> None" by (simp add: ReadReplaySessionFile_def)
  with CreateReplayClient_correct [of ?F "''case.json''" "()" "\<lparr>rc_ChanneldAddr = [], rc_configs = [(''a.cpr'', eager_config)], rc_groups = []\<rparr>"]
  obtain rc where "CreateReplayClientByConfigFile ?F ''case.json'' = Some rc" "map fst (rc_groups rc) = [eager_config]" by auto
  then show ?thesis by simp
qed

end
