(* ===== verification/Segments.thy ===== *)
theory Segments
  imports Gateway
begin

text \<open>
  How the stream of a connection is cut into reads makes no difference to the gateway: receiving two
  pieces one after the other does what receiving them at once does, to the connection and to the queues of the
  channels.  The framing is independent of the pieces (theory Framing), and what is done with the packets
  neither reads nor writes the buffer they come from.
\<close>

subsection \<open>The reader of a connection\<close>

definition set_reader :: "byte list \<Rightarrow> nat \<Rightarrow> CompressionType \<Rightarrow> Connection \<Rightarrow> Connection" where
  "set_reader buf pos ct c = c\<lparr>c_readBuffer := buf, c_readPos := pos, c_compressionType := ct\<rparr>"

definition read_as :: "ConnPtr \<Rightarrow> byte list \<Rightarrow> nat \<Rightarrow> CompressionType \<Rightarrow> World \<Rightarrow> World" where
  "read_as p b n t w = upd_conn p (set_reader b n t) w"

lemma set_reader_sel [simp]:
  "c_id (set_reader b n t c) = c_id c" "c_connectionType (set_reader b n t c) = c_connectionType c"
  "c_fsm (set_reader b n t c) = c_fsm c" "c_replaySession (set_reader b n t c) = c_replaySession c"
  "c_fsmDisallowedCounter (set_reader b n t c) = c_fsmDisallowedCounter c" "c_pit (set_reader b n t c) = c_pit c"
  "c_closeHandlers (set_reader b n t c) = c_closeHandlers c" "IsClosing (set_reader b n t c) = IsClosing c"
  "set_reader b n t (set_reader b' n' t' c) = set_reader b n t c"
  by (simp_all add: set_reader_def IsClosing_def)

lemma set_reader_upd [simp]:
  "(set_reader b n t c)\<lparr>c_state := s\<rparr> = set_reader b n t (c\<lparr>c_state := s\<rparr>)"
  "(set_reader b n t c)\<lparr>c_fsm := f\<rparr> = set_reader b n t (c\<lparr>c_fsm := f\<rparr>)"
  "(set_reader b n t c)\<lparr>c_fsmDisallowedCounter := k\<rparr> = set_reader b n t (c\<lparr>c_fsmDisallowedCounter := k\<rparr>)"
  "(set_reader b n t c)\<lparr>c_replaySession := r\<rparr> = set_reader b n t (c\<lparr>c_replaySession := r\<rparr>)"
  "(set_reader b n t c)\<lparr>c_recoverHandle := h\<rparr> = set_reader b n t (c\<lparr>c_recoverHandle := h\<rparr>)"
  by (simp_all add: set_reader_def)

lemma read_as_sel [simp]:
  "w_conn (read_as p b n t w) = (w_conn w)(p := set_reader b n t (w_conn w p))"
  "w_settings (read_as p b n t w) = w_settings w" "w_chan (read_as p b n t w) = w_chan w"
  "w_now (read_as p b n t w) = w_now w" "w_allChannels (read_as p b n t w) = w_allChannels w"
  "w_Event_FsmDisallowed (read_as p b n t w) = w_Event_FsmDisallowed w"
  "w_handle (read_as p b n t w) = w_handle w" "w_nhandle (read_as p b n t w) = w_nhandle w"
  "w_connectionRecoverHandles (read_as p b n t w) = w_connectionRecoverHandles w"
  "w_allConnections (read_as p b n t w) = w_allConnections w" "w_log (read_as p b n t w) = w_log w"
  "w_unauthenticatedConnections (read_as p b n t w) = w_unauthenticatedConnections w"
  "w_pitBlacklist (read_as p b n t w) = w_pitBlacklist w"
  by (simp_all add: read_as_def upd_conn_def)

named_theorems reader_free

lemma upd_conn_read_as [reader_free]:
  assumes "\<And>c. f (set_reader b n t c) = set_reader b n t (f c)"
  shows "upd_conn p f (read_as p b n t w) = read_as p b n t (upd_conn p f w)"
  using assms by (simp add: upd_conn_def read_as_def)

lemma world_read_as [reader_free]:
  "log_event e (read_as p b n t w) = read_as p b n t (log_event e w)"
  "upd_chan ch g (read_as p b n t w) = read_as p b n t (upd_chan ch g w)"
  "(read_as p b n t w)\<lparr>w_allConnections := a, w_unauthenticatedConnections := u\<rparr> =
     read_as p b n t (w\<lparr>w_allConnections := a, w_unauthenticatedConnections := u\<rparr>)"
  "(read_as p b n t w)\<lparr>w_handle := h, w_nhandle := k, w_connectionRecoverHandles := m\<rparr> =
     read_as p b n t (w\<lparr>w_handle := h, w_nhandle := k, w_connectionRecoverHandles := m\<rparr>)"
  "(read_as p b n t w)\<lparr>w_pitBlacklist := x\<rparr> = read_as p b n t (w\<lparr>w_pitBlacklist := x\<rparr>)"
  "(read_as p b n t w)\<lparr>w_Event_FsmDisallowed := y\<rparr> = read_as p b n t (w\<lparr>w_Event_FsmDisallowed := y\<rparr>)"
  by (simp_all add: read_as_def upd_conn_def upd_chan_def log_event_def)

lemma read_as_twice [simp]: "read_as p b n t (read_as p b' n' t' w) = read_as p b n t w"
  by (simp add: read_as_def upd_conn_def)

lemma close_handlers_read_as [reader_free]:
  "fold (\<lambda>h. log_event (EvCloseHandler h)) hs (read_as p b n t w) =
     read_as p b n t (fold (\<lambda>h. log_event (EvCloseHandler h)) hs w)"
  by (induction hs arbitrary: w) (simp_all add: reader_free)

lemma persist_read_as [simp]:
  "persistReplaySession (set_reader b n t c) = set_reader b n t (persistReplaySession c)"
  by (simp add: persistReplaySession_def split: option.split list.split)

lemma recording_read_as [simp]:
  "isPacketRecordingEnabled (read_as p b n t w) (set_reader b n t c) = isPacketRecordingEnabled w c"
  by (simp add: isPacketRecordingEnabled_def)

lemma makeRecoverable_read_as [reader_free]:
  "makeRecoverable p (read_as p b n t w) = read_as p b n t (makeRecoverable p w)"
  by (simp add: makeRecoverable_def reader_free Let_def)

lemma conn_Close_read_as [reader_free]:
  "conn_Close err p (read_as p b n t w) = read_as p b n t (conn_Close err p w)"
  by (simp add: conn_Close_def Let_def reader_free)

lemma antiddos_fsm_read_as [reader_free]:
  "antiddos_fsm p (read_as p b n t w) = read_as p b n t (antiddos_fsm p w)"
  by (simp add: antiddos_fsm_def Let_def reader_free)

lemma for_each_read_as:
  assumes "\<And>x w. f x (read_as p b n t w) = map_option (read_as p b n t) (f x w)"
  shows "for_each f xs (read_as p b n t w) = map_option (read_as p b n t) (for_each f xs w)"
  by (induction xs arbitrary: w) (auto simp: assms split: bind_split)

lemma broadcast_FsmDisallowed_read_as:
  "broadcast_FsmDisallowed p (read_as p b n t w) = map_option (read_as p b n t) (broadcast_FsmDisallowed p w)"
proof -
  have "run_fsm_listener p l (read_as p b n t w) = map_option (read_as p b n t) (run_fsm_listener p l w)" for l w
    by (simp add: run_fsm_listener_def reader_free split: Listener.split)
  then show ?thesis
    by (auto simp: broadcast_FsmDisallowed_def reader_free for_each_read_as split: bind_split)
qed

lemma PutMessage_read_as:
  "PutMessage ch m h c k (read_as p b n t w) = map_option (read_as p b n t) (PutMessage ch m h c k w)"
  by (simp add: PutMessage_def put_queue_def IsRemoving_def GetTime_def reader_free)

lemma receiveMessage_read_as:
  "receiveMessage E p mp (read_as p b n t w) = map_option (read_as p b n t) (receiveMessage E p mp w)"
proof -
  have "decode_pack E (read_as p b n t w) p mp = decode_pack E w p mp"
    by (simp add: decode_pack_def split: option.split)
  then show ?thesis
    by (auto simp: receiveMessage_def GetChannel_def broadcast_FsmDisallowed_read_as PutMessage_read_as reader_free
        split: option.split bind_split)
qed

lemma handle_packet_read_as:
  "handle_packet E p packet (read_as p b n t w) = map_option (read_as p b n t) (handle_packet E p packet w)"
  by (auto simp: handle_packet_def recordPacket_def reader_free for_each_read_as receiveMessage_read_as
      split: option.split bind_split)

lemma handle_packets_read_as:
  "for_each (handle_packet E p) ps (read_as p b n t w) = map_option (read_as p b n t) (for_each (handle_packet E p) ps w)"
  by (rule for_each_read_as) (rule handle_packet_read_as)

subsection \<open>The compression type along the stream\<close>

text \<open>A complete frame sets the compression type when its fifth byte is a valid one.\<close>

definition frame_compression :: "byte list \<Rightarrow> CompressionType \<Rightarrow> CompressionType" where
  "frame_compression bs t = (case readSize (take 5 bs) of
     None \<Rightarrow> t
   | Some n \<Rightarrow> if length bs < 5 \<or> n = 0 \<or> length bs < 5 + n then t else header_compression (bs ! 4) t)"

function stream_compression :: "Externs \<Rightarrow> byte list \<Rightarrow> CompressionType \<Rightarrow> CompressionType" where
  "stream_compression E bs t = (case frame_step E bs of
     FPacket ct p rest \<Rightarrow> stream_compression E rest (frame_compression bs t)
   | _ \<Rightarrow> frame_compression bs t)"
  by pat_completeness auto
termination
  by (relation "measure (\<lambda>(E, bs, t). length bs)") (auto dest: frame_step_shorter)

declare stream_compression.simps [simp del]

lemma frame_compression_idem [simp]: "frame_compression bs (frame_compression bs t) = frame_compression bs t"
  by (simp add: frame_compression_def header_compression_def split: option.split)

lemma frame_compression_wait: "frame_step E bs = FWait \<Longrightarrow> frame_compression bs t = t"
  by (auto simp: frame_step_def frame_compression_def PacketHeaderSize_def
      split: if_split_asm option.splits read_result.split_asm)

lemma frame_compression_append:
  assumes "frame_step E bs \<noteq> FWait"
  shows "frame_compression (bs @ ys) t = frame_compression bs t"
proof -
  obtain n where "5 \<le> length bs" "readSize (take 5 bs) = Some n" "n = 0 \<or> 5 + n \<le> length bs"
    using assms by (auto simp: frame_step_def PacketHeaderSize_def split: if_split_asm option.split_asm)
  then show ?thesis by (auto simp: frame_compression_def nth_append)
qed

lemma stream_compression_end:
  "frame_step E bs = FWait \<or> frame_step E bs = FStall \<Longrightarrow> stream_compression E bs t = frame_compression bs t"
  by (auto simp: stream_compression.simps [of E bs])

lemma stream_compression_append:
  "parse_stream E bs = (ps, rest, None) \<Longrightarrow>
     stream_compression E (bs @ ys) t = stream_compression E (rest @ ys) (stream_compression E bs t)"
proof (induction E bs t arbitrary: ps rule: stream_compression.induct)
  case (1 E bs t)
  note app = frame_step_append [of E bs ys] frame_compression_append [of E bs ys]
  show ?case
  proof (cases "frame_step E bs")
    case (FPacket ct p r)
    with 1(2) obtain ps' where "parse_stream E r = (ps', rest, None)"
      by (auto simp: parse_stream.simps [of E bs] split: prod.splits)
    with 1(1) [OF FPacket] FPacket app show ?thesis
      by (simp add: stream_compression.simps [of E bs] stream_compression.simps [of E "bs @ ys"])
  next
    case FWait
    with 1(2) show ?thesis
      by (auto simp: parse_stream.simps [of E bs] stream_compression_end frame_compression_wait)
  next
    case FStall
    with 1(2) app show ?thesis
      by (auto simp: parse_stream.simps [of E bs] stream_compression_end)
  next
    case (FErr e)
    with 1(2) show ?thesis by (simp add: parse_stream.simps [of E bs])
  qed
qed

lemma readPacket_compression:
  assumes ok: "reader_ok c" and pos: "bufPos \<le> c_readPos c" and r: "readPacket E c bufPos = Some (c', pos', res)"
  shows "c_compressionType c' = frame_compression (drop bufPos (pending c)) (c_compressionType c)"
proof (cases "c_readPos c < bufPos + PacketHeaderSize")
  case True
  then show ?thesis using r length_pending [OF ok] pos
    by (auto simp: readPacket_def frame_compression_def PacketHeaderSize_def split: option.split)
next
  case False
  let ?bs = "drop bufPos (pending c)"
  have len: "length ?bs = c_readPos c - bufPos" using length_pending [OF ok] by simp
  with False have len5: "5 \<le> length ?bs" by (simp add: PacketHeaderSize_def)
  then obtain n where n: "readSize (take 5 ?bs) = Some n" "n \<le> 0xffff"
    using readSize_total by blast
  have tag: "go_slice (c_readBuffer c) bufPos (bufPos + 5) = Some (take 5 ?bs)"
    using go_slice_pending [OF ok, of bufPos "bufPos + 5"] False by (simp add: PacketHeaderSize_def)
  have ct: "take 5 ?bs ! 4 = ?bs ! 4" by simp
  show ?thesis
  proof (cases "n = 0 \<or> c_readPos c < bufPos + (5 + n)")
    case True
    then show ?thesis using r False len n(1) unfolding readPacket_def PacketHeaderSize_def Let_def frame_compression_def tag
      by (auto split: if_split_asm)
  next
    case full: False
    with r False n obtain body where b: "(case read_body E (take 5 ?bs ! 4) body of
        RPacket p \<Rightarrow> Some (c\<lparr>c_compressionType := header_compression (take 5 ?bs ! 4) (c_compressionType c)\<rparr>, bufPos + (5 + n), RPacket p)
      | x \<Rightarrow> Some (c\<lparr>c_compressionType := header_compression (take 5 ?bs ! 4) (c_compressionType c)\<rparr>, bufPos, x)) = Some (c', pos', res)"
      unfolding readPacket_def PacketHeaderSize_def Let_def MaxPacketSize_def tag
      by (auto simp: bind_eq_Some_conv simp del: nth_take nth_drop)
    have "frame_compression ?bs (c_compressionType c) = header_compression (?bs ! 4) (c_compressionType c)"
      unfolding frame_compression_def n(1) using full len len5 by auto
    with b show ?thesis unfolding ct by (cases "read_body E (?bs ! 4) body") auto
  qed
qed

lemma receive_loop_compression:
  assumes "reader_ok c" and "bufPos \<le> c_readPos c" and "c_readPos c - bufPos \<le> fuel"
    and "receive_loop E fuel c bufPos = Some (c', pos', ps, e)"
  shows "c_compressionType c' = stream_compression E (drop bufPos (pending c)) (c_compressionType c)"
  using assms
proof (induction fuel arbitrary: c bufPos ps)
  case 0
  then have "drop bufPos (pending c) = []" using length_pending by simp
  then show ?case using 0
    by (simp add: stream_compression.simps frame_compression_def frame_step_def PacketHeaderSize_def split: option.split)
next
  case (Suc fuel)
  let ?bs = "drop bufPos (pending c)"
  show ?case
  proof (cases "c_readPos c \<le> bufPos")
    case True
    then have "drop bufPos (pending c) = []" using length_pending Suc.prems by simp
    then show ?thesis using True Suc.prems
      by (simp add: stream_compression.simps frame_compression_def frame_step_def PacketHeaderSize_def split: option.split)
  next
    case False
    from readPacket_frame [OF Suc.prems(1,2), of E] obtain c1 pos1 r
      where r: "readPacket E c bufPos = Some (c1, pos1, r)" "c_readBuffer c1 = c_readBuffer c"
      and f: "case frame_step E ?bs of
       FPacket ct p rest \<Rightarrow> r = RPacket p \<and> c_readPos c1 = c_readPos c \<and>
         bufPos < pos1 \<and> pos1 \<le> c_readPos c \<and> drop pos1 (pending c) = rest
     | FWait \<Rightarrow> r = RNil \<and> c_readPos c1 = c_readPos c \<and> pos1 = bufPos
     | FStall \<Rightarrow> r = RNil \<and> c_readPos c1 = c_readPos c \<and> pos1 = bufPos
     | FErr e \<Rightarrow> r = RErr e" by blast
    have ct: "c_compressionType c1 = frame_compression ?bs (c_compressionType c)"
      by (rule readPacket_compression [OF Suc.prems(1,2) r(1)])
    show ?thesis
    proof (cases "frame_step E ?bs")
      case (FPacket t p rest)
      with f have f': "r = RPacket p" "c_readPos c1 = c_readPos c" "bufPos < pos1" "pos1 \<le> c_readPos c"
        "drop pos1 (pending c) = rest" by auto
      then have pend: "pending c1 = pending c" "reader_ok c1" "pos1 \<le> c_readPos c1" "c_readPos c1 - pos1 \<le> fuel"
        using r Suc.prems by (auto simp: pending_def reader_ok_def)
      from Suc.prems(4) False r f' obtain ps' where "receive_loop E fuel c1 pos1 = Some (c', pos', ps', e)"
        by (auto simp: bind_eq_Some_conv)
      from Suc.IH [OF pend(2,3,4) this] show ?thesis
        using FPacket ct pend(1) f'(5) by (simp add: stream_compression.simps [of E ?bs])
    next
      case (FErr err)
      then show ?thesis using False r f ct Suc.prems(4) by (auto simp: stream_compression.simps [of E ?bs])
    qed (use False r f ct Suc.prems(4) in \<open>auto simp: stream_compression_end\<close>)
  qed
qed

lemma receive_bytes_compression:
  assumes ok: "reader_ok c" and room: "c_readPos c + length bytes \<le> length (c_readBuffer c)"
    and r: "receive_bytes E bytes c = Some (c', ps, e)"
  shows "c_compressionType c' = stream_compression E (pending c @ bytes) (c_compressionType c)"
proof -
  let ?c = "c\<lparr>c_readBuffer := read_into (c_readBuffer c) (c_readPos c) bytes,
              c_readPos := c_readPos c + length bytes\<rparr>"
  have ok': "reader_ok ?c" using room by (simp add: reader_ok_def read_into_def)
  have pend: "pending ?c = pending c @ bytes"
    using ok room by (simp add: pending_def read_into_def reader_ok_def)
  show ?thesis
  proof (cases "c_readPos ?c < 5")
    case True
    moreover have "length (pending c @ bytes) = c_readPos ?c" using pend length_pending [OF ok'] by simp
    ultimately show ?thesis using r room
      by (auto simp: receive_bytes_def Let_def PacketHeaderSize_def stream_compression.simps frame_step_def
          frame_compression_def split: option.split)
  next
    case False
    with r room have "\<exists>c2 pos. receive_loop E (c_readPos ?c) ?c 0 = Some (c2, pos, ps, e) \<and>
        c_compressionType c' = c_compressionType c2"
      by (auto simp: receive_bytes_def Let_def PacketHeaderSize_def bind_eq_Some_conv split: if_split_asm)
    then obtain c2 pos where "receive_loop E (c_readPos ?c) ?c 0 = Some (c2, pos, ps, e)"
      and "c_compressionType c' = c_compressionType c2" by blast
    then show ?thesis using receive_loop_compression [OF ok', of 0 "c_readPos ?c" E c2 pos ps e] pend by simp
  qed
qed

subsection \<open>Two reads and one\<close>

lemma for_each_append: "for_each f (xs @ ys) w = do { w' \<leftarrow> for_each f xs w; for_each f ys w' }"
  by (induction xs arbitrary: w) (auto split: bind_split)

lemma parse_stream_suffix: "parse_stream E bs = (ps, rest, e) \<Longrightarrow> length rest \<le> length bs"
proof (induction E bs arbitrary: ps rule: parse_stream.induct)
  case (1 E bs)
  then show ?case
  proof (cases "frame_step E bs")
    case (FPacket ct p r)
    with 1(2) obtain ps' where "parse_stream E r = (ps', rest, e)"
      by (auto simp: parse_stream.simps [of E bs] split: prod.splits)
    from 1(1) [OF FPacket this] frame_step_shorter [OF FPacket] show ?thesis by simp
  qed (use 1(2) in \<open>simp_all add: parse_stream.simps [of E bs]\<close>)
qed

text \<open>What a read does, in terms of the stream: the packets are handled one after the other, and the reader
keeps the bytes of no whole packet.\<close>

lemma conn_receive_stream:
  assumes ok: "reader_ok (w_conn w p)"
    and room: "c_readPos (w_conn w p) + length bytes \<le> length (c_readBuffer (w_conn w p))"
    and parse: "parse_stream E (pending (w_conn w p) @ bytes) = (ps, rest, e)"
  shows "\<exists>b n. length b = length (c_readBuffer (w_conn w p)) \<and>
    (e = None \<longrightarrow> n = length rest \<and> n \<le> length b \<and> take n b = rest) \<and>
    conn_receive E p bytes w = map_option (\<lambda>w'. read_as p b n
        (stream_compression E (pending (w_conn w p) @ bytes) (c_compressionType (w_conn w p)))
        (if e = None then w' else conn_Close True p w')) (for_each (handle_packet E p) ps w)"
proof -
  from receive_bytes_parses [OF ok room, of E] parse obtain c' where c': "receive_bytes E bytes (w_conn w p) = Some (c', ps, e)"
    "length (c_readBuffer c') = length (c_readBuffer (w_conn w p))" "e = None \<longrightarrow> reader_ok c' \<and> pending c' = rest"
    by auto
  have ct: "c_compressionType c' = stream_compression E (pending (w_conn w p) @ bytes) (c_compressionType (w_conn w p))"
    by (rule receive_bytes_compression [OF ok room c'(1)])
  have "upd_conn p (\<lambda>c. c\<lparr>c_readBuffer := c_readBuffer c', c_readPos := c_readPos c',
      c_compressionType := c_compressionType c'\<rparr>) w = read_as p (c_readBuffer c') (c_readPos c') (c_compressionType c') w"
    by (simp add: read_as_def set_reader_def upd_conn_def)
  then have "conn_receive E p bytes w = map_option (\<lambda>w'. read_as p (c_readBuffer c') (c_readPos c') (c_compressionType c')
      (if e = None then w' else conn_Close True p w')) (for_each (handle_packet E p) ps w)"
    using c'(1) by (cases "for_each (handle_packet E p) ps w") (simp_all add: conn_receive_def handle_packets_read_as reader_free)
  moreover have "e = None \<Longrightarrow> c_readPos c' = length rest \<and> c_readPos c' \<le> length (c_readBuffer c') \<and>
      take (c_readPos c') (c_readBuffer c') = rest"
    using c'(3) length_pending [of c'] by (auto simp: pending_def reader_ok_def)
  ultimately show ?thesis unfolding ct
    by (intro exI [of _ "c_readBuffer c'"] exI [of _ "c_readPos c'"]) (use c'(2) in blast)
qed

text \<open>The world as the peers of the connection see it: of the buffer, the bytes not yet used count as long as
there will be another read.\<close>

definition unread_view :: "ConnPtr \<Rightarrow> World \<Rightarrow> World" where
  "unread_view p = upd_conn p (\<lambda>c. c\<lparr>c_readBuffer := (if IsClosing c then [] else pending c),
     c_readPos := (if IsClosing c then 0 else c_readPos c)\<rparr>)"

lemma unread_view_read_as:
  assumes "IsClosing (w_conn w p) \<or> n = n' \<and> take n b = take n b'"
  shows "unread_view p (read_as p b n t w) = unread_view p (read_as p b' n' t w)"
  using assms by (auto simp: unread_view_def read_as_def upd_conn_def set_reader_def pending_def IsClosing_def)

lemma two_reads:
  assumes "reader_ok (w_conn w p)"
    and "c_readPos (w_conn w p) + length (as @ bs) \<le> length (c_readBuffer (w_conn w p))"
    and "conn_receive E p as w = Some w1" and "\<not> IsClosing (w_conn w1 p)"
  shows "map_option (unread_view p) (conn_receive E p (as @ bs) w) = map_option (unread_view p) (conn_receive E p bs w1) \<and>
    reader_ok (w_conn w1 p) \<and> c_readPos (w_conn w1 p) + length bs \<le> length (c_readBuffer (w_conn w1 p))"
proof -
  let ?c = "w_conn w p"
  let ?t = "stream_compression E (pending ?c @ as) (c_compressionType ?c)"
  obtain ps rest e where pa: "parse_stream E (pending ?c @ as) = (ps, rest, e)" by (metis prod_cases3)
  obtain qs rest' e' where pb: "parse_stream E (rest @ bs) = (qs, rest', e')" by (metis prod_cases3)
  have "c_readPos ?c + length as \<le> length (c_readBuffer ?c)" using assms(2) by simp
  from conn_receive_stream [OF assms(1) this pa] obtain b n
    where b: "length b = length (c_readBuffer ?c)" "e = None \<longrightarrow> n = length rest \<and> n \<le> length b \<and> take n b = rest"
      and r: "conn_receive E p as w = map_option (\<lambda>w'. read_as p b n ?t
        (if e = None then w' else conn_Close True p w')) (for_each (handle_packet E p) ps w)" by blast
  from assms(3) [unfolded r] assms(4) obtain v where v: "for_each (handle_packet E p) ps w = Some v" "e = None" "w1 = read_as p b n ?t v"
    by (cases "for_each (handle_packet E p) ps w"; cases e) (auto simp: Close_closes)
  have pab: "parse_stream E (pending ?c @ as @ bs) = (ps @ qs, rest', e')"
    using parse_stream_append [of E "pending ?c @ as" bs] pa pb v(2) by simp
  have ct: "stream_compression E (pending ?c @ as @ bs) (c_compressionType ?c) = stream_compression E (rest @ bs) ?t"
    using stream_compression_append [of E "pending ?c @ as" ps rest bs] pa v(2) by simp
  from conn_receive_stream [OF assms(1,2) pab] obtain b2 n2
    where one: "e' = None \<longrightarrow> n2 = length rest' \<and> take n2 b2 = rest'"
      "conn_receive E p (as @ bs) w = map_option (\<lambda>w'. read_as p b2 n2 (stream_compression E (rest @ bs) ?t)
        (if e' = None then w' else conn_Close True p w')) (for_each (handle_packet E p) qs v)"
    by (auto simp: for_each_append v ct)
  have c1: "pending (w_conn w1 p) = rest" "c_readPos (w_conn w1 p) = length rest" "c_compressionType (w_conn w1 p) = ?t"
    "length (c_readBuffer (w_conn w1 p)) = length (c_readBuffer ?c)" "reader_ok (w_conn w1 p)"
    using b v(2) by (auto simp: v(3) pending_def set_reader_def reader_ok_def)
  have room1: "c_readPos (w_conn w1 p) + length bs \<le> length (c_readBuffer (w_conn w1 p))"
    using parse_stream_suffix [OF pa] length_pending [OF assms(1)] assms(2) c1 by simp
  from conn_receive_stream [OF c1(5) room1, of E qs rest' e'] pb obtain b3 n3
    where two: "e' = None \<longrightarrow> n3 = length rest' \<and> take n3 b3 = rest'"
      "conn_receive E p bs w1 = map_option (\<lambda>w'. read_as p b3 n3 (stream_compression E (rest @ bs) ?t)
        (if e' = None then w' else conn_Close True p w')) (for_each (handle_packet E p) qs w1)"
    by (auto simp: c1)
  have same: "unread_view p (read_as p b2 n2 s (if e' = None then x else conn_Close True p x)) =
      unread_view p (read_as p b3 n3 s (if e' = None then x else conn_Close True p x))" for s x
    by (rule unread_view_read_as) (use one(1) two(1) in \<open>auto simp: Close_closes\<close>)
  have "map_option (unread_view p) (conn_receive E p (as @ bs) w) = map_option (unread_view p) (conn_receive E p bs w1)"
    unfolding one(2) two(2) unfolding v(3) handle_packets_read_as
    by (cases "for_each (handle_packet E p) qs v") (auto simp: reader_free same)
  then show ?thesis using c1(5) room1 by blast
qed

subsection \<open>The loop of the receiving goroutine\<close>

text \<open>The loop that \<open>startGoroutines\<close> starts: one \<open>receive\<close> after the other until the connection closes.
It returns the pieces nobody reads any more.\<close>

fun conn_receives :: "Externs \<Rightarrow> ConnPtr \<Rightarrow> byte list list \<Rightarrow> World \<Rightarrow> (World \<times> byte list list) option" where
  "conn_receives E p [] w = Some (w, [])"
| "conn_receives E p (x # xs) w =
     (if IsClosing (w_conn w p) then Some (w, x # xs)
      else do { w1 \<leftarrow> conn_receive E p x w; conn_receives E p xs w1 })"

lemma conn_receives_as_one:
  assumes "conn_receives E p (x # xs) w = Some (w', [])" and "reader_ok (w_conn w p)"
    and "c_readPos (w_conn w p) + length (x @ concat xs) \<le> length (c_readBuffer (w_conn w p))"
  shows "map_option (unread_view p) (conn_receive E p (x @ concat xs) w) = Some (unread_view p w')"
  using assms
proof (induction xs arbitrary: x w)
  case Nil
  then show ?case by (auto simp: bind_eq_Some_conv split: if_split_asm)
next
  case (Cons y ys)
  then obtain w1 where w1: "conn_receive E p x w = Some w1" "\<not> IsClosing (w_conn w1 p)"
    "conn_receives E p (y # ys) w1 = Some (w', [])"
    by (auto simp: bind_eq_Some_conv split: if_split_asm)
  from two_reads [OF Cons.prems(2) Cons.prems(3) w1(1,2)] Cons.IH [OF w1(3)] show ?case by simp
qed

text \<open>
  C2. However the bytes of a connection are cut into reads, the gateway ends up in the same state: if the
  receiving loop has read all the pieces, then one read of all the bytes leaves the connection (its state
  machine, its counters, its recorded session, its compression type and the bytes waiting for the rest of their
  packet), the queues of the channels and everything else the gateway keeps as they are after the pieces.  (The
  loop stops where the connection closes; the pieces come at one moment, which the recorded session notes.)
\<close>

theorem receive_segmentation_irrelevant:
  assumes "conn_receives E p pieces w = Some (w', [])" and "pieces \<noteq> []" and "reader_ok (w_conn w p)"
    and "c_readPos (w_conn w p) + length (concat pieces) \<le> length (c_readBuffer (w_conn w p))"
  shows "\<exists>w''. conn_receive E p (concat pieces) w = Some w'' \<and> unread_view p w'' = unread_view p w'"
  using assms conn_receives_as_one by (cases pieces) fastforce+

text \<open>Two pieces of a packet with one message, which waits in the queue of the global channel then.\<close>

theorem receive_segmentation_irrelevant_witness:
  "\<exists>w' w''. conn_receives demo_externs 0 [[67, 72], [0, 2, 0, 1, 2]] gate_world = Some (w', []) \<and>
    conn_receive demo_externs 0 [67, 72, 0, 2, 0, 1, 2] gate_world = Some w'' \<and>
    unread_view 0 w'' = unread_view 0 w'"
proof -
  let ?p = "[[67, 72], [0, 2, 0, 1, 2]] :: byte list list"
  let ?w1 = "read_as 0 ([67, 72] @ replicate 14 0) 2 0 gate_world"
  let ?mp = "\<lparr>mp_ChannelId = 0, mp_Broadcast = 0, mp_StubId = 0, mp_MsgType = 100, mp_MsgBody = [1, 2]\<rparr> :: byte list MessagePack"
  have buf: "reader_ok (w_conn gate_world 0)" "c_readPos (w_conn gate_world 0) = 0"
    "length (c_readBuffer (w_conn gate_world 0)) = 16" "\<not> IsClosing (w_conn gate_world 0)"
    by (simp_all add: gate_world_def demo_conn_def reader_ok_def IsClosing_def)
  have one: "conn_receive demo_externs 0 [67, 72] gate_world = Some ?w1"
    by (simp add: conn_receive_def receive_bytes_def read_as_def set_reader_def upd_conn_def gate_world_def demo_conn_def
        read_into_def PacketHeaderSize_def Let_def numeral_eq_Suc)
  have parse: "parse_stream demo_externs [67, 72, 0, 2, 0, 1, 2] = ([[?mp]], [], None)"
    by (simp add: parse_stream.simps frame_step_def PacketHeaderSize_def read_body_def demo_externs_def Compression_SNAPPY_def)
  have known: "MessageMap 100 = None" by (simp add: MessageMap_def)
  have handled: "\<exists>v. for_each (handle_packet demo_externs 0) [[?mp]] gate_world = Some v"
    by (simp add: handle_packet_def isPacketRecordingEnabled_def receiveMessage_def gate_world_def chan_world_def demo_world_def
        demo_conn_def GetChannel_def known fsm_IsAllowed_def cur_state_def fsm_OnReceived_def decode_pack_def PutMessage_def
        put_queue_def IsRemoving_def default_settings_def)
  have "reader_ok (w_conn ?w1 0)" "pending (w_conn ?w1 0) = [67, 72]" "c_readPos (w_conn ?w1 0) = 2"
    "length (c_readBuffer (w_conn ?w1 0)) = 16" "\<not> IsClosing (w_conn ?w1 0)"
    using buf(4) by (simp_all add: reader_ok_def pending_def set_reader_def numeral_eq_Suc IsClosing_def)
  with conn_receive_stream [of ?w1 0 "[0, 2, 0, 1, 2]" demo_externs "[[?mp]]" "[]" None] parse handled
  have "\<exists>w'. conn_receive demo_externs 0 [0, 2, 0, 1, 2] ?w1 = Some w'"
    by (auto simp: handle_packets_read_as simp del: for_each.simps read_as_sel)
  then obtain w' where "conn_receives demo_externs 0 ?p gate_world = Some (w', [])"
    using one buf(4) \<open>\<not> IsClosing (w_conn ?w1 0)\<close> by (auto simp del: read_as_sel)
  moreover from receive_segmentation_irrelevant [OF this] buf
  have "\<exists>w''. conn_receive demo_externs 0 [67, 72, 0, 2, 0, 1, 2] gate_world = Some w'' \<and> unread_view 0 w'' = unread_view 0 w'"
    by simp
  ultimately show ?thesis by blast
qed

end
