(* ===== verification/Spec2Isabelle.thy ===== *)
theory Spec2Isabelle
  imports Startup GameMerges Replay Client Segments Unreal UnrealData Websocket Settings Gateway Progress Dispatch
    SpatialContract SpatialMessages SpatialQuery SpatialServers Spatial Handover Messages Security Channels
    EntityGroups ChannelData Subscription Connections Framing Types EventBus Fsm Float64 GoUtil Prelude
begin

text \<open>
  A verification development for channeld, the game gateway of \<open>src/\<close> (Go).

  \<^bold>\<open>The program.\<close>  Game servers and clients connect to the gateway over TCP, KCP or WebSocket.  A connection
  cuts its byte stream into packets of message packs and looks up the channel each pack names; the state machine
  of the connection and the message map decide whether the message may go into the queue of that channel.  A
  channel is one goroutine: its tick handles the queued messages in order, fans out the updates of its data
  to its subscribers, each at its own interval, and looks after closing connections and lost owners.  The
  GLOBAL channel manages the others; spatial channels are the cells of a grid, owned by spatial servers, and entity channels hold the data of
  one object, which is handed over from cell to cell as it moves.  A server that comes back within its time
  recovers its identifier, subscriptions and channels.

  \<^bold>\<open>How it is modelled.\<close>  The process is one record, \<open>World\<close> (theory Types): pointers to connections,
  channels, recovery handles and entity groups are numbers into stores, and each package variable is a
  field with its name.  Every Go function is an Isabelle function with its name (a method with a prefix where
  two would clash, as \<open>fsm_Load\<close>, \<open>conn_Close\<close>, \<open>grid_Notify\<close>) that returns the changed world; \<open>None\<close> is a panic
  or a block that nothing ends, an error that the code returns is a value (\<open>Inl\<close>, or false beside the
  result).  Machine integers are words; times are integers in nanoseconds; floats are a type of their own with the
  rounding of 64 bits written out (theory Float64).  Maps that the code ranges over are association lists, in the
  order of the range, others are functions.  Third-party code (protobuf, snappy, JSON, the WebSocket library), and what an
  application plugs in (custom merges, authentication providers, message handlers), are the fields of the
  records \<open>Externs\<close>, \<open>ClientEnv\<close>, \<open>UnrealEnv\<close>, \<open>Files\<close>, arguments of whatever uses them.  Goroutines
  interleave at the grain of one handler, one tick, one received buffer, one scheduled function or one step of a
  ticker (\<open>gateway_step\<close> in theory Gateway): each runs at once on the world the others left, which is what
  the channel goroutines see of each other through the queues; data races inside such a step are not modelled.
\<close>

text \<open>
  \<^bold>\<open>Theories, and the files under \<open>src/pkg/\<close> they model.\<close>

  \<^item> Prelude: collections of simplification rules and facts about lists and maps.
  \<^item> GoUtil: \<open>channeld/util.go\<close>: the identifier allocator, hashing, array helpers, and the locale \<open>map_read\<close>.
  \<^item> Float64: floats of 64 bits, the square root and the conversions.
  \<^item> Fsm: \<open>fsm/fsm.go\<close>: loading a state machine, filtering, transitions.
  \<^item> EventBus: \<open>channeld/event.go\<close>.
  \<^item> Types: the structs of \<open>channeld/\<close> and \<open>channeldpb/channeld.proto\<close> as records, settings, the world.
  \<^item> Framing: \<open>channeld/connection.go\<close>, the byte stream: \<open>readSize\<close>, \<open>readPacket\<close>, \<open>receive\<close>, \<open>Send\<close>, \<open>flush\<close>.
  \<^item> Connections: \<open>channeld/connection.go\<close> and \<open>connection_recovery.go\<close>: identifiers, registration, closing, recovery.
  \<^item> Subscription: \<open>channeld/subscription.go\<close>.
  \<^item> ChannelData: \<open>channeld/data.go\<close>: updates, merging, the fan-out loop.
  \<^item> EntityGroups: \<open>channeld/entity.go\<close>.
  \<^item> Channels: \<open>channeld/channel.go\<close>: creation, removal, queues, ownership, the tick.
  \<^item> Security: \<open>channeld/auth.go\<close>, \<open>ddos.go\<close>, \<open>channel_acl.go\<close>.
  \<^item> Messages: \<open>channeld/message.go\<close>, all handlers of the message map.
  \<^item> Spatial, SpatialServers, SpatialQuery, SpatialContract: \<open>channeld/spatial.go\<close>: positions, regions and neighbours; the servers
    and their channels; the queries; what the gateway relies on of a spatial controller, as a locale.
  \<^item> SpatialMessages: \<open>channeld/message_spatial.go\<close> and \<open>message_debug.go\<close>.
  \<^item> Handover: \<open>Notify\<close> of \<open>channeld/spatial.go\<close> and the handover of entities.
  \<^item> Dispatch: from received packs to queues and from queues to handlers (\<open>connection.go\<close>, \<open>channel.go\<close>).
  \<^item> Progress, Gateway: what no handler undoes; the process as a step relation.
  \<^item> Segments: \<open>receive\<close> with all it does to the gateway, and the loop of \<open>startGoroutines\<close> around it.
  \<^item> Settings: \<open>channeld/settings.go\<close>; Websocket: \<open>channeld/connection_websocket.go\<close> and the WebSocket reader of the client library.
  \<^item> Startup: \<open>InitConnections\<close>, \<open>InitChannels\<close>, \<open>InitSpatialController\<close>, \<open>StartListening\<close>, and the mains of \<open>cmd/main.go\<close> and
    \<open>examples/channeld-ue-tps/main.go\<close>.
  \<^item> Client: \<open>client/client.go\<close>; Replay: \<open>replay/replay.go\<close>.
  \<^item> UnrealData, Unreal: \<open>unreal/\<close>, \<open>unrealpb/extension.go\<close> and the channel data of the game in
    \<open>examples/channeld-ue-tps/tpspb/data.go\<close>; GameMerges: the merges of the other example games.
\<close>

text \<open>
  \<^bold>\<open>What the lemmas show.\<close>

  \<^item> Streams: \<open>receive_chunking_independent\<close> refines the buffered reader to a parser of the whole stream;
    \<open>receive_segmentation_irrelevant\<close> carries that over to the whole state of the gateway;
    frames round-trip; the send queue is first in, first out.  The frame of the client library is that of the gateway for the sizes
    where they agree, and packets of fewer than 256 bytes stall.
  \<^item> Registry: channel identifiers are fresh and in their ranges, removal is exact, and the invariant \<open>registry_wf\<close> is kept by
    every handler (collection \<open>adv\<close>, theory Progress) and hence by every run of the gateway, with any
    handlers of the Unreal extension; the program starts in a state that satisfies it (\<open>cmd_main_starts\<close>).
  \<^item> Access: what each handler does on each branch: who may subscribe, unsubscribe, remove, update, create.
  \<^item> Data: the window of updates each subscriber gets, termination of the fan-out loop, the reflective merge.
  \<^item> Space: the grid's arithmetic on floats, its regions, neighbours and queries, the channels of the servers, the handover.
  \<^item> Clients, replay and extension: callbacks and queues of the client library, schedule and repetition of a replay, the
    entities and recovery data of the Unreal extension.

  The locales are the interfaces: \<open>map_read\<close> (identifier lookups), \<open>auth_check\<close> (authentication providers),
  \<open>spatial_controller\<close> (its queries) and \<open>gateway_env\<close> (what a controller may do to the state), each interpreted on the code's own definitions.

  \<^bold>\<open>Loops and bounds.\<close>  Structural recursion where the code ranges over something; the allocator, the
  fan-out loop, the messages of a tick, the sampling of the queries and the incoming queue of the client are partial functions
  (\<open>None\<close>: the loop does not end), with theorems that say when they end.  The search for a connection
  identifier has the code's own limit of 100 tries as fuel (101 rounds).  Queues between goroutines (\<open>chan\<close>) are unbounded
  in the gateway, so that a full queue, where the code would wait for room, is not modelled there; the capacities of the
  client library are.

  \<^bold>\<open>Not modelled.\<close>  Logging, metrics and profiling, which nothing reads back.  Opening and writing sockets and files, KCP,
  HTTP.  Signed zeros of floats; the accuracy of the cosine.  Sharing of protobuf messages between the update
  buffer and what was sent: messages are values, but for the first update of a channel, which becomes its data (\<open>UpdAliasMsg\<close>).  The load generators under
  \<open>examples/sim-clients\<close>, the replay case of the web chat and the web servers of the chat examples, which only
  call the packages modelled here.
\<close>

end
